(* ===== verification/Prelude.thy ===== *)
theory Prelude
  imports Main "HOL-Library.Word" "HOL-Library.Monad_Syntax"
begin

text \<open>
  Shared vocabulary of the development: the names of the machine integers the firmware uses,
  C memory as byte lists whose accesses are checked, and the generic lemmas on lists, options
  and words that the component theories rely on.

  A C array or buffer is a list of bytes together with explicit indices. An access outside
  the list is undefined behaviour in the source; the accessors below return \<open>None\<close> for it, and
  every operation built from them is a computation in the option monad, so that a theorem of
  the form \<open>f x = Some y\<close> also says that \<open>f\<close> touches no byte outside its buffers.
\<close>

unbundle bit_operations_syntax

named_theorems mem_simps \<open>equations of the checked memory accessors\<close>
named_theorems len_simps \<open>lengths of encoded byte sequences\<close>

section \<open>Machine integers\<close>

type_synonym u8 = "8 word"
type_synonym u16 = "16 word"
type_synonym u32 = "32 word"
type_synonym u64 = "64 word"
type_synonym bytes = "u8 list"

definition bytes_of :: "string \<Rightarrow> bytes" where
  "bytes_of s = map of_char s"

lemma length_bytes_of [simp, len_simps]: "length (bytes_of s) = length s"
  by (simp add: bytes_of_def)

lemma bytes_of_append [simp]: "bytes_of (s @ t) = bytes_of s @ bytes_of t"
  by (simp add: bytes_of_def)

definition text_of :: "bytes \<Rightarrow> string" where
  "text_of b = map (\<lambda>c. char_of (unat c)) b"

lemma text_of_bytes_of [simp]: "text_of (bytes_of s) = s"
proof -
  have "unat (of_char c :: u8) = of_char c" for c
  proof -
    have "(of_char c :: u8) = of_nat (of_char c)" by (rule of_nat_of_char [symmetric])
    moreover have "(of_char c :: nat) < 256" by simp
    ultimately show ?thesis by (simp only: unsigned_of_nat) (simp add: take_bit_nat_eq_self)
  qed
  then show ?thesis by (simp add: text_of_def bytes_of_def comp_def)
qed

text \<open>Two bytes are equal when their eight bits are.\<close>

lemma u8_eqI:
  fixes x y :: u8
  assumes "bit x 0 = bit y 0" "bit x 1 = bit y 1" "bit x 2 = bit y 2" "bit x 3 = bit y 3"
    "bit x 4 = bit y 4" "bit x 5 = bit y 5" "bit x 6 = bit y 6" "bit x 7 = bit y 7"
  shows "x = y"
proof (rule bit_word_eqI)
  fix n :: nat
  assume "n < LENGTH(8)"
  then consider "n = 0" | "n = 1" | "n = 2" | "n = 3" | "n = 4" | "n = 5" | "n = 6" | "n = 7"
    by (simp, arith)
  then show "bit x n = bit y n" by cases (use assms in simp_all)
qed

lemma bit_above_bound:
  fixes x :: "'a::len word"
  assumes "unat x < 2 ^ k" "k \<le> n"
  shows "\<not> bit x n"
proof -
  have "unat x < 2 ^ n" using assms by (meson less_le_trans one_le_numeral power_increasing)
  then have "\<not> bit (unat x) n" by (simp add: bit_iff_odd)
  then show ?thesis by (auto simp: bit_unsigned_iff dest: bit_imp_le_length)
qed

lemma top_bit_or:
  assumes "x < (128 :: u8)"
  shows "(0x80 OR x) AND 0x80 = 0x80" "(0x80 OR x) AND 0x7F = x"
proof -
  have "unat x < 2 ^ 7" using assms by (simp add: word_less_nat_alt)
  then have "\<not> bit x 7" by (rule bit_above_bound) simp
  then show "(0x80 OR x) AND 0x80 = 0x80" "(0x80 OR x) AND 0x7F = x"
    by (auto intro!: u8_eqI simp: bit_simps)
qed

lemma low_nibble_or:
  assumes "x < (16 :: u8)"
  shows "(0x80 OR x) AND 0x0F = x" "(x OR 0x80) AND 0x0F = x" "(x OR 0x80) AND 0x80 = 0x80"
proof -
  have "unat x < 2 ^ 4" using assms by (simp add: word_less_nat_alt)
  note high = bit_above_bound [OF this]
  have "\<not> bit x 4" "\<not> bit x 5" "\<not> bit x 6" "\<not> bit x 7"
    by (rule high, simp)+
  then show "(0x80 OR x) AND 0x0F = x" "(x OR 0x80) AND 0x0F = x" "(x OR 0x80) AND 0x80 = 0x80"
    by (auto intro!: u8_eqI simp: bit_simps)
qed

lemma unat_u8_less [simp]: "unat (x :: u8) < 256"
proof -
  have "unat x < 2 ^ LENGTH(8)" by (rule unsigned_less)
  then show ?thesis by simp
qed

lemma unat_u16_less [simp]: "unat (x :: u16) < 65536"
proof -
  have "unat x < 2 ^ LENGTH(16)" by (rule unsigned_less)
  then show ?thesis by simp
qed

lemma unat_u32_less [simp]: "unat (x :: u32) < 4294967296"
proof -
  have "unat x < 2 ^ LENGTH(32)" by (rule unsigned_less)
  then show ?thesis by simp
qed

lemma unat_of_nat_u32: "n < 4294967296 \<Longrightarrow> unat (of_nat n :: u32) = n"
  by (simp add: unsigned_of_nat take_bit_nat_eq_self)

lemma unat_of_nat_u16: "n < 65536 \<Longrightarrow> unat (of_nat n :: u16) = n"
  by (simp add: unsigned_of_nat take_bit_nat_eq_self)

lemma unat_ucast_u8: "unat (ucast (w :: 'a::len word) :: u8) = unat w mod 256"
  by (simp add: unsigned_ucast_eq take_bit_eq_mod)

lemma unat_ucast_u16: "unat (ucast (w :: 'a::len word) :: u16) = unat w mod 65536"
  by (simp add: unsigned_ucast_eq take_bit_eq_mod)

text \<open>A big-endian pair of bytes, assembled with shift and or in a 32-bit register.\<close>

lemma or_shift8_eq:
  fixes b c :: u8
  shows "push_bit 8 (ucast b) OR ucast c = (of_nat (256 * unat b + unat c) :: u32)"
proof -
  have "push_bit 8 (ucast b :: u32) OR ucast c = push_bit 8 (ucast b) + ucast c"
    by (rule disjunctive_add [symmetric]) (auto simp: bit_simps dest: bit_imp_le_length)
  then show ?thesis by (simp add: push_bit_eq_mult)
qed

lemma unat_or_shift8:
  fixes b c :: u8
  shows "unat (push_bit 8 (ucast b) OR ucast c :: u32) = 256 * unat b + unat c"
proof -
  have "256 * unat b + unat c < 65536"
    using unat_u8_less [of b] unat_u8_less [of c] by linarith
  then show ?thesis unfolding or_shift8_eq unsigned_of_nat
    by (simp add: take_bit_nat_eq_self)
qed

lemma unat_and_255: "unat (x AND 255 :: 'a::len word) = unat x mod 256"
proof -
  have "x AND 255 = take_bit 8 x" by (simp add: take_bit_eq_mask mask_eq_exp_minus_1)
  moreover have "unat (take_bit 8 x) = take_bit 8 (unat x)" by (rule unsigned_take_bit_eq)
  ultimately show ?thesis by (simp only: take_bit_eq_mod) simp
qed

lemma unat_drop_bit: "unat (drop_bit n x) = unat x div 2 ^ n"
  using unat_drop_bit_eq [of n x] by (simp only: drop_bit_eq_div)

lemma xor_cancel_left [simp]:
  fixes k x :: "'a::len word"
  shows "k XOR (k XOR x) = x"
  by (simp flip: xor.assoc)

section \<open>Checked memory\<close>

definition mem_get :: "'a list \<Rightarrow> nat \<Rightarrow> 'a option" where
  "mem_get m i = (if i < length m then Some (m ! i) else None)"

definition mem_set :: "'a list \<Rightarrow> nat \<Rightarrow> 'a \<Rightarrow> 'a list option" where
  "mem_set m i x = (if i < length m then Some (m[i := x]) else None)"

definition mem_cpy :: "'a list \<Rightarrow> nat \<Rightarrow> 'a list \<Rightarrow> 'a list option" where
  "mem_cpy m i xs =
     (if i + length xs \<le> length m
      then Some (take i m @ xs @ drop (i + length xs) m) else None)"

definition mem_read :: "'a list \<Rightarrow> nat \<Rightarrow> nat \<Rightarrow> 'a list option" where
  "mem_read m i n = (if i + n \<le> length m then Some (take n (drop i m)) else None)"

lemma mem_get_simps [simp]:
  "mem_get [] i = None"
  "mem_get (x # xs) 0 = Some x"
  "mem_get (x # xs) (Suc i) = mem_get xs i"
  "mem_get (x # xs) (numeral k) = mem_get xs (pred_numeral k)"
  by (auto simp: mem_get_def numeral_eq_Suc)

lemma mem_set_simps [simp]:
  "mem_set [] i y = None"
  "mem_set (x # xs) 0 y = Some (y # xs)"
  "mem_set (x # xs) (Suc i) y = map_option (Cons x) (mem_set xs i y)"
  "mem_set (x # xs) (numeral k) y = map_option (Cons x) (mem_set xs (pred_numeral k) y)"
  by (auto simp: mem_set_def numeral_eq_Suc)

lemma mem_get_Some [mem_simps]: "mem_get m i = Some x \<longleftrightarrow> i < length m \<and> x = m ! i"
  by (auto simp: mem_get_def)

lemma mem_get_in [simp]: "i < length m \<Longrightarrow> mem_get m i = Some (m ! i)"
  by (simp add: mem_get_def)

lemma mem_get_append1 [simp]: "i < length xs \<Longrightarrow> mem_get (xs @ ys) i = Some (xs ! i)"
  by (simp add: mem_get_def nth_append)

lemma mem_set_Some [mem_simps]: "mem_set m i x = Some m' \<longleftrightarrow> i < length m \<and> m' = m[i := x]"
  by (auto simp: mem_set_def)

lemma mem_cpy_Some [mem_simps]:
  "mem_cpy m i xs = Some m' \<longleftrightarrow>
     i + length xs \<le> length m \<and> m' = take i m @ xs @ drop (i + length xs) m"
  by (auto simp: mem_cpy_def)

lemma mem_read_Some [mem_simps]:
  "mem_read m i n = Some xs \<longleftrightarrow> i + n \<le> length m \<and> xs = take n (drop i m)"
  by (auto simp: mem_read_def)

lemma mem_cpy_append:
  "length xs = n \<Longrightarrow> length zs \<le> length ys \<Longrightarrow>
   mem_cpy (xs @ ys) n zs = Some (xs @ zs @ drop (length zs) ys)"
  by (auto simp: mem_cpy_def)

lemma mem_cpy_length: "mem_cpy m i xs = Some m' \<Longrightarrow> length m' = length m"
  by (auto simp: mem_cpy_Some)

lemma mem_cpy_read: "mem_cpy m i xs = Some m' \<Longrightarrow> mem_read m' i (length xs) = Some xs"
  by (auto simp: mem_cpy_Some mem_read_def)

lemma mem_set_length: "mem_set m i x = Some m' \<Longrightarrow> length m' = length m"
  by (auto simp: mem_set_Some)

text \<open>Writing through a cursor: what lies before the cursor grows by what is written.\<close>

lemma mem_set_cursor:
  assumes "p < length buf"
  obtains buf' where "mem_set buf p x = Some buf'" "length buf' = length buf"
    "take (Suc p) buf' = take p buf @ [x]"
  using assms by (auto simp: mem_set_def take_Suc_conv_app_nth)

lemma mem_cpy_cursor:
  assumes "p + length xs \<le> length buf"
  obtains buf' where "mem_cpy buf p xs = Some buf'" "length buf' = length buf"
    "take (p + length xs) buf' = take p buf @ xs"
  using assms by (auto simp: mem_cpy_def)

section \<open>C strings\<close>

text \<open>
  A C string is the bytes from an address up to the first NUL of its buffer; scanning a buffer
  that holds no NUL runs out of it.
\<close>

definition cstr_at :: "bytes \<Rightarrow> nat \<Rightarrow> bytes option" where
  "cstr_at m i = (if 0 \<in> set (drop i m) then Some (takeWhile (\<lambda>c. c \<noteq> 0) (drop i m)) else None)"

lemma takeWhile_nul: "a \<notin> set xs \<Longrightarrow> takeWhile (\<lambda>c. c \<noteq> a) (xs @ a # ys) = xs"
  by (induction xs) auto

lemma cstr_at_append: "0 \<notin> set xs \<Longrightarrow> cstr_at (xs @ 0 # ys) 0 = Some xs"
  by (simp add: cstr_at_def takeWhile_nul)

text \<open>The position of the first occurrence of \<open>pat\<close>, as \<open>strstr\<close> finds it.\<close>

fun strstr :: "'a list \<Rightarrow> 'a list \<Rightarrow> nat option" where
  "strstr [] pat = (if pat = [] then Some 0 else None)"
| "strstr (x # xs) pat =
     (if take (length pat) (x # xs) = pat then Some 0 else map_option Suc (strstr xs pat))"

fun strchr :: "'a list \<Rightarrow> 'a \<Rightarrow> nat option" where
  "strchr [] c = None"
| "strchr (x # xs) c = (if x = c then Some 0 else map_option Suc (strchr xs c))"

text \<open>\<^verbatim>\<open>strncasecmp\<close> gives 0; behind the end of a list lies the NUL of its string.\<close>

definition tolower :: "u8 \<Rightarrow> u8" where
  "tolower c = (if 0x41 \<le> c \<and> c \<le> 0x5A then c + 0x20 else c)"

fun str_head :: "bytes \<Rightarrow> u8" where
  "str_head [] = 0"
| "str_head (c # cs) = c"

fun strncaseeq :: "nat \<Rightarrow> bytes \<Rightarrow> bytes \<Rightarrow> bool" where
  "strncaseeq 0 a b = True"
| "strncaseeq (Suc n) a b =
     (tolower (str_head a) = tolower (str_head b) \<and> (str_head a = 0 \<or> strncaseeq n (tl a) (tl b)))"

lemma strstr_Some:
  "strstr xs pat = Some i \<Longrightarrow> i + length pat \<le> length xs \<and> take (length pat) (drop i xs) = pat"
proof (induction xs pat arbitrary: i rule: strstr.induct)
  case (1 pat)
  then show ?case by (simp split: if_splits)
next
  case (2 x xs pat)
  show ?case
  proof (cases "take (length pat) (x # xs) = pat")
    case True
    with "2.prems" show ?thesis
      by (metis add.left_neutral drop0 length_take min.cobounded1 option.inject strstr.simps(2))
  next
    case False
    with 2 show ?thesis by fastforce
  qed
qed

lemma strchr_Some: "strchr xs c = Some i \<Longrightarrow> i < length xs \<and> xs ! i = c \<and> c \<notin> set (take i xs)"
  by (induction xs arbitrary: i) (auto split: if_splits)

lemma strchr_None: "strchr xs c = None \<longleftrightarrow> c \<notin> set xs"
  by (induction xs) auto

lemma strchr_append: "c \<notin> set xs \<Longrightarrow> strchr (xs @ c # ys) c = Some (length xs)"
  by (induction xs) auto

section \<open>Lists\<close>

lemma take_update_at: "i < length xs \<Longrightarrow> take (Suc i) (xs[i := x]) = take i xs @ [x]"
  by (simp add: take_Suc_conv_app_nth)

lemma take_Suc_nth: "i < length xs \<Longrightarrow> take (Suc i) xs = take i xs @ [xs ! i]"
  by (rule take_Suc_conv_app_nth)

lemma take_take_append_drop:
  "i \<le> length m \<Longrightarrow> take (i + length xs) (take i m @ xs @ ys) = take i m @ xs"
  by simp

lemma map_nth_upt_take: "n \<le> length xs \<Longrightarrow> map ((!) xs) [0..<n] = take n xs"
  by (simp add: list_eq_iff_nth_eq)

section \<open>Emitting bytes\<close>

text \<open>A writer with a cursor: the bytes at the position in the buffer, and the position behind them.\<close>

definition emit :: "bytes \<Rightarrow> bytes \<times> nat \<Rightarrow> (bytes \<times> nat) option" where
  "emit e = (\<lambda>(buf, ptr). do { buf \<leftarrow> mem_cpy buf ptr e; Some (buf, ptr + length e) })"

lemma emit_Some:
  "emit e (buf, ptr) = (if ptr + length e \<le> length buf
     then Some (take ptr buf @ e @ drop (ptr + length e) buf, ptr + length e) else None)"
  by (simp add: emit_def mem_cpy_def)

lemma emit_bind: "Option.bind (emit a s) (emit b) = emit (a @ b) s"
proof (cases s)
  case (Pair buf ptr)
  show ?thesis
  proof (cases "ptr + length (a @ b) \<le> length buf")
    case True
    then have "take (ptr + length a) (take ptr buf @ a @ drop (ptr + length a) buf) = take ptr buf @ a"
      "drop (ptr + length a + length b) (take ptr buf @ a @ drop (ptr + length a) buf) = drop (ptr + length (a @ b)) buf"
      by (simp_all add: ac_simps)
    with True show ?thesis by (simp add: Pair emit_Some)
  next
    case False
    then show ?thesis by (auto simp: Pair emit_Some)
  qed
qed

lemma emit_nil [simp]: "ptr \<le> length buf \<Longrightarrow> emit [] (buf, ptr) = Some (buf, ptr)"
  by (simp add: emit_Some)

lemma emit_one: "emit [x] (m, p) = map_option (\<lambda>m. (m, p + 1)) (mem_set m p x)"
  by (simp add: emit_Some mem_set_def upd_conv_take_nth_drop)

section \<open>Partial correctness of option computations\<close>

text \<open>What a computation guarantees of its result, when it has one, with a rule per construct of the model.\<close>

definition yields :: "'a option \<Rightarrow> ('a \<Rightarrow> bool) \<Rightarrow> bool" where
  "yields r Q = (\<forall>x. r = Some x \<longrightarrow> Q x)"

lemma yieldsD: "yields r Q \<Longrightarrow> r = Some x \<Longrightarrow> Q x"
  by (simp add: yields_def)

lemma yieldsI: "(\<And>x. r = Some x \<Longrightarrow> Q x) \<Longrightarrow> yields r Q"
  by (simp add: yields_def)

lemma yields_mono: "yields r P \<Longrightarrow> (\<And>x. P x \<Longrightarrow> Q x) \<Longrightarrow> yields r Q"
  by (simp add: yields_def)

lemma yields_bind: "yields r P \<Longrightarrow> (\<And>x. P x \<Longrightarrow> yields (f x) Q) \<Longrightarrow> yields (Option.bind r f) Q"
  by (auto simp: yields_def bind_eq_Some_conv)

lemma yields_bind_any: "(\<And>x. yields (f x) Q) \<Longrightarrow> yields (Option.bind r f) Q"
  by (auto simp: yields_def bind_eq_Some_conv)

lemma yields_simps [simp]: "yields None Q" "yields (Some x) Q \<longleftrightarrow> Q x"
  by (auto simp: yields_def)

lemma yields_if: "(b \<Longrightarrow> yields x Q) \<Longrightarrow> (\<not> b \<Longrightarrow> yields y Q) \<Longrightarrow> yields (if b then x else y) Q"
  by simp

lemma yields_prod: "(\<And>a b. p = (a, b) \<Longrightarrow> yields (f a b) Q) \<Longrightarrow> yields (case p of (a, b) \<Rightarrow> f a b) Q"
  by (cases p) simp

end
