(* ===== verification/Ring_Buffer.thy ===== *)
theory Ring_Buffer
  imports Prelude
begin

text \<open>
  The byte queue of \<^verbatim>\<open>src/inc/ringbuffer.h\<close>: its record, one definition per method, the
  representation invariant, and the refinement to a bounded first-in first-out list. The locale
  \<open>fifo\<close> is the interface the serial driver relies on; its interpretation on the ring buffer is
  the refinement proof.
\<close>

section \<open>The code\<close>

record ring_buffer =
  rb_buffer :: bytes
  rb_capacity :: nat
  rb_read_ptr :: nat
  rb_write_ptr :: nat
  rb_current_size :: nat

text \<open>The constructor allocates without initialising; \<open>init\<close> stands for the heap's bytes.\<close>

definition rb_new :: "bytes \<Rightarrow> ring_buffer" where
  "rb_new init = \<lparr>rb_buffer = init, rb_capacity = length init, rb_read_ptr = 0,
     rb_write_ptr = 0, rb_current_size = 0\<rparr>"

definition rb_is_empty :: "ring_buffer \<Rightarrow> bool" where
  "rb_is_empty rb \<longleftrightarrow> rb_current_size rb = 0"

definition rb_is_full :: "ring_buffer \<Rightarrow> bool" where
  "rb_is_full rb \<longleftrightarrow> rb_current_size rb = rb_capacity rb"

definition rb_push :: "ring_buffer \<Rightarrow> u8 \<Rightarrow> (bool \<times> ring_buffer) option" where
  "rb_push rb item =
     (if rb_is_full rb then Some (False, rb)
      else do {
        buf \<leftarrow> mem_set (rb_buffer rb) (rb_write_ptr rb) item;
        Some (True, rb\<lparr>rb_buffer := buf,
                       rb_write_ptr := (rb_write_ptr rb + 1) mod rb_capacity rb,
                       rb_current_size := rb_current_size rb + 1\<rparr>)
      })"

definition rb_pop :: "ring_buffer \<Rightarrow> (u8 option \<times> ring_buffer) option" where
  "rb_pop rb =
     (if rb_is_empty rb then Some (None, rb)
      else do {
        item \<leftarrow> mem_get (rb_buffer rb) (rb_read_ptr rb);
        Some (Some item, rb\<lparr>rb_read_ptr := (rb_read_ptr rb + 1) mod rb_capacity rb,
                            rb_current_size := rb_current_size rb - 1\<rparr>)
      })"

text \<open>\<open>space_left\<close> returns the 32-bit \<open>size_t\<close> difference converted to \<open>int\<close>.\<close>

definition rb_space_left :: "ring_buffer \<Rightarrow> int" where
  "rb_space_left rb = sint (of_nat (rb_capacity rb) - of_nat (rb_current_size rb) :: u32)"

definition rb_reset :: "ring_buffer \<Rightarrow> ring_buffer" where
  "rb_reset rb = rb\<lparr>rb_read_ptr := 0, rb_write_ptr := 0, rb_current_size := 0\<rparr>"

section \<open>The interface\<close>

locale fifo =
  fixes push :: "'q \<Rightarrow> 'a \<Rightarrow> (bool \<times> 'q) option"
    and pop :: "'q \<Rightarrow> ('a option \<times> 'q) option"
    and reset :: "'q \<Rightarrow> 'q"
    and contents :: "'q \<Rightarrow> 'a list"
    and cap :: "'q \<Rightarrow> nat"
    and invar :: "'q \<Rightarrow> bool"
  assumes push_room: "invar q \<Longrightarrow> length (contents q) < cap q \<Longrightarrow>
      \<exists>q'. push q x = Some (True, q') \<and> invar q' \<and> contents q' = contents q @ [x] \<and> cap q' = cap q"
    and push_full: "invar q \<Longrightarrow> length (contents q) = cap q \<Longrightarrow> push q x = Some (False, q)"
    and pop_item: "invar q \<Longrightarrow> contents q = x # xs \<Longrightarrow>
      \<exists>q'. pop q = Some (Some x, q') \<and> invar q' \<and> contents q' = xs \<and> cap q' = cap q"
    and pop_none: "invar q \<Longrightarrow> contents q = [] \<Longrightarrow> pop q = Some (None, q)"
    and reset_spec: "invar q \<Longrightarrow> invar (reset q) \<and> contents (reset q) = [] \<and> cap (reset q) = cap q"
    and within_cap: "invar q \<Longrightarrow> length (contents q) \<le> cap q"
begin

text \<open>A push never fails to return, and either appends or leaves the queue as it was.\<close>

lemma push_cases:
  assumes "invar q"
  obtains q' where "push q x = Some (True, q')" "invar q'" "contents q' = contents q @ [x]"
      "cap q' = cap q" "length (contents q) < cap q"
    | "push q x = Some (False, q)" "length (contents q) = cap q"
  using push_room [OF assms] push_full [OF assms] within_cap [OF assms]
  by (metis le_neq_implies_less)

lemma push_total: "invar q \<Longrightarrow> \<exists>ok q'. push q x = Some (ok, q') \<and> invar q' \<and> cap q' = cap q"
  by (metis push_cases)

lemma pop_total: "invar q \<Longrightarrow> \<exists>r q'. pop q = Some (r, q') \<and> invar q' \<and> cap q' = cap q"
  by (cases "contents q") (metis pop_none, metis pop_item)

lemma push_then_pop_empty:
  assumes "invar q" "contents q = []" "0 < cap q"
  shows "\<exists>q1 q2. push q x = Some (True, q1) \<and> pop q1 = Some (Some x, q2) \<and> contents q2 = []"
proof -
  from push_room [OF assms(1), of x] assms(2,3) obtain q1
    where "push q x = Some (True, q1)" "invar q1" "contents q1 = [x]" by auto
  with pop_item [of q1 x "[]"] show ?thesis by auto
qed

end

section \<open>Refinement to a bounded list\<close>

definition rb_contents :: "ring_buffer \<Rightarrow> bytes" where
  "rb_contents rb =
     map (\<lambda>i. rb_buffer rb ! ((rb_read_ptr rb + i) mod rb_capacity rb)) [0..<rb_current_size rb]"

definition rb_inv :: "ring_buffer \<Rightarrow> bool" where
  "rb_inv rb \<longleftrightarrow>
     length (rb_buffer rb) = rb_capacity rb \<and> 0 < rb_capacity rb \<and> rb_capacity rb < 2 ^ 31 \<and>
     rb_read_ptr rb < rb_capacity rb \<and> rb_current_size rb \<le> rb_capacity rb \<and>
     rb_write_ptr rb = (rb_read_ptr rb + rb_current_size rb) mod rb_capacity rb"

lemma length_rb_contents [simp]: "length (rb_contents rb) = rb_current_size rb"
  by (simp add: rb_contents_def)

lemma mod_add_inj:
  fixes r i j c :: nat
  assumes "i < c" "j < c" "(r + i) mod c = (r + j) mod c"
  shows "i = j"
proof (rule ccontr)
  assume "i \<noteq> j"
  have "int c dvd int (r + i) - int (r + j)"
    using assms(3) by (metis mod_eq_dvd_iff of_nat_mod)
  then have "int c dvd int i - int j" by simp
  with \<open>i \<noteq> j\<close> have "int c \<le> \<bar>int i - int j\<bar>"
    by (metis diff_eq_diff_eq diff_self dvd_abs_iff of_nat_eq_iff zdvd_imp_le zero_less_abs_iff)
  with assms(1,2) show False by linarith
qed

lemma rb_push_room:
  assumes inv: "rb_inv rb" and room: "rb_current_size rb < rb_capacity rb"
  shows "\<exists>rb'. rb_push rb x = Some (True, rb') \<and> rb_inv rb' \<and>
    rb_contents rb' = rb_contents rb @ [x] \<and> rb_capacity rb' = rb_capacity rb"
proof -
  let ?c = "rb_capacity rb" and ?n = "rb_current_size rb" and ?r = "rb_read_ptr rb"
  let ?w = "rb_write_ptr rb"
  define rb' where "rb' = rb\<lparr>rb_buffer := (rb_buffer rb)[?w := x],
    rb_write_ptr := (?w + 1) mod ?c, rb_current_size := ?n + 1\<rparr>"
  have w: "?w = (?r + ?n) mod ?c" "?w < length (rb_buffer rb)"
    using inv by (auto simp: rb_inv_def)
  then have push: "rb_push rb x = Some (True, rb')"
    using room by (simp add: rb_push_def rb_is_full_def mem_set_def rb'_def)
  have "(?w + 1) mod ?c = (?r + (?n + 1)) mod ?c"
    by (simp add: w(1) mod_simps)
  then have inv': "rb_inv rb'"
    using inv room by (simp add: rb_inv_def rb'_def)
  have "(?r + i) mod ?c \<noteq> ?w" if "i < ?n" for i
    using mod_add_inj [of i ?c ?n ?r] that room w(1) by auto
  then have "(rb_buffer rb)[?w := x] ! ((?r + i) mod ?c) = rb_buffer rb ! ((?r + i) mod ?c)"
    if "i < ?n" for i
    using that by (metis nth_list_update_neq)
  moreover have "(rb_buffer rb)[?w := x] ! ((?r + ?n) mod ?c) = x"
    using w by simp
  ultimately have "rb_contents rb' = rb_contents rb @ [x]"
    by (simp add: rb_contents_def rb'_def)
  with push inv' show ?thesis by (auto simp: rb'_def)
qed

lemma rb_pop_item:
  assumes inv: "rb_inv rb" and cont: "rb_contents rb = x # xs"
  shows "\<exists>rb'. rb_pop rb = Some (Some x, rb') \<and> rb_inv rb' \<and>
    rb_contents rb' = xs \<and> rb_capacity rb' = rb_capacity rb"
proof -
  let ?c = "rb_capacity rb" and ?n = "rb_current_size rb" and ?r = "rb_read_ptr rb"
  define rb' where "rb' = rb\<lparr>rb_read_ptr := (?r + 1) mod ?c, rb_current_size := ?n - 1\<rparr>"
  from cont have n: "?n = Suc (length xs)"
    by (metis length_rb_contents length_Cons)
  have split: "rb_contents rb = rb_buffer rb ! (?r mod ?c) #
      map (\<lambda>i. rb_buffer rb ! ((?r + Suc i) mod ?c)) [0..<length xs]"
    unfolding rb_contents_def n by (simp add: upt_conv_Cons map_Suc_upt [symmetric] comp_def
        del: upt_Suc map_Suc_upt)
  have "((?r + 1) mod ?c + i) mod ?c = (?r + Suc i) mod ?c" for i
    by (simp add: mod_simps)
  then have cont': "rb_contents rb' = xs"
    using split cont by (simp add: rb_contents_def rb'_def n)
  have "rb_write_ptr rb = ((?r + 1) mod ?c + (?n - 1)) mod ?c"
    using inv by (simp add: rb_inv_def mod_simps n)
  moreover have "?n - 1 \<le> ?c" using inv by (simp add: rb_inv_def le_diff_conv)
  ultimately have inv': "rb_inv rb'"
    using inv by (simp add: rb_inv_def rb'_def)
  have "x = rb_buffer rb ! ?r"
    using split cont inv by (simp add: rb_inv_def)
  then have "rb_pop rb = Some (Some x, rb')"
    using inv by (simp add: rb_pop_def rb_is_empty_def rb_inv_def n rb'_def)
  with inv' cont' show ?thesis by (auto simp: rb'_def)
qed

interpretation ringbuf: fifo rb_push rb_pop rb_reset rb_contents rb_capacity rb_inv
proof unfold_locales
  fix q x
  assume "rb_inv q" "length (rb_contents q) < rb_capacity q"
  then show "\<exists>q'. rb_push q x = Some (True, q') \<and> rb_inv q' \<and>
      rb_contents q' = rb_contents q @ [x] \<and> rb_capacity q' = rb_capacity q"
    by (simp add: rb_push_room)
next
  fix q x
  assume "rb_inv q" "length (rb_contents q) = rb_capacity q"
  then show "rb_push q x = Some (False, q)"
    by (simp add: rb_push_def rb_is_full_def)
next
  fix q x xs
  assume "rb_inv q" "rb_contents q = x # xs"
  then show "\<exists>q'. rb_pop q = Some (Some x, q') \<and> rb_inv q' \<and> rb_contents q' = xs \<and>
      rb_capacity q' = rb_capacity q"
    by (rule rb_pop_item)
next
  fix q
  assume "rb_inv q" "rb_contents q = []"
  then show "rb_pop q = Some (None, q)"
    by (simp add: rb_pop_def rb_is_empty_def rb_contents_def)
next
  fix q
  assume "rb_inv q"
  then show "rb_inv (rb_reset q) \<and> rb_contents (rb_reset q) = [] \<and>
      rb_capacity (rb_reset q) = rb_capacity q"
    by (simp add: rb_inv_def rb_reset_def rb_contents_def)
next
  fix q
  assume "rb_inv q"
  then show "length (rb_contents q) \<le> rb_capacity q"
    by (simp add: rb_inv_def)
qed

lemma rb_new_inv: "init \<noteq> [] \<Longrightarrow> length init < 2 ^ 31 \<Longrightarrow>
    rb_inv (rb_new init) \<and> rb_contents (rb_new init) = []"
  by (simp add: rb_inv_def rb_new_def rb_contents_def)

lemma rb_space_left_eq:
  assumes "rb_inv rb"
  shows "rb_space_left rb = int (rb_capacity rb) - int (rb_current_size rb)"
proof -
  let ?d = "rb_capacity rb - rb_current_size rb"
  have le: "rb_current_size rb \<le> rb_capacity rb" and lt: "?d < 2 ^ 31"
    using assms by (auto simp: rb_inv_def)
  have "(of_nat (rb_capacity rb) - of_nat (rb_current_size rb) :: u32) = of_nat ?d"
    using le by (simp add: of_nat_diff)
  moreover have "sint (of_nat ?d :: u32) = int ?d"
    using lt by (simp add: signed_of_nat signed_take_bit_int_eq_self)
  ultimately show ?thesis using le by (simp add: rb_space_left_def)
qed

end
