(* ===== verification/Serial_Port.thy ===== *)
theory Serial_Port
  imports Ring_Buffer
begin

text \<open>
  The UART receiver of \<^verbatim>\<open>src/hal/src/serial.cpp\<close>: the interrupt side that frames bytes into
  lines inside the ring buffer, and the task side that takes one line out. The ring buffer is
  used through the \<open>fifo\<close> interface only. Hardware registers, pin setup and the FreeRTOS
  notification primitive are outside the model; a notification is a counter.
\<close>

section \<open>The code\<close>

record serial =
  uart_buffer :: ring_buffer
  string_finished :: bool
  received_chars :: int
  timeout_detected :: bool
  receiving_task_handle :: bool
  notifications :: nat

definition serial_new :: "bytes \<Rightarrow> serial" where
  "serial_new heap = \<lparr>uart_buffer = rb_new heap, string_finished = False, received_chars = 0,
     timeout_detected = False, receiving_task_handle = False, notifications = 0\<rparr>"

definition is_line_end :: "u8 \<Rightarrow> bool" where
  "is_line_end c \<longleftrightarrow> c = 13 \<or> c = 10"

definition notify_task :: "serial \<Rightarrow> serial" where
  "notify_task s = s\<lparr>notifications := notifications s + 1\<rparr>"

definition handle_received_char :: "serial \<Rightarrow> u8 \<Rightarrow> serial option" where
  "handle_received_char s c =
     (if timeout_detected s then
        Some (s\<lparr>uart_buffer := rb_reset (uart_buffer s), string_finished := False,
                received_chars := 0, timeout_detected := False\<rparr>)
      else if is_line_end c then
        (if received_chars s > 0 then do {
           (_, rb) \<leftarrow> rb_push (uart_buffer s) 0;
           Some (notify_task (s\<lparr>uart_buffer := rb, string_finished := True, received_chars := 0\<rparr>))
         } else Some s)
      else if rb_space_left (uart_buffer s) = 2 then do {
        (_, rb) \<leftarrow> rb_push (uart_buffer s) c;
        (_, rb) \<leftarrow> rb_push rb 0;
        Some (notify_task (s\<lparr>uart_buffer := rb, string_finished := True, received_chars := 0\<rparr>))
      }
      else do {
        (_, rb) \<leftarrow> rb_push (uart_buffer s) c;
        let s' = s\<lparr>uart_buffer := rb, received_chars := received_chars s + 1\<rparr>;
        Some (if received_chars s' = 1 then notify_task s' else s')
      })"

fun feed_chars :: "serial \<Rightarrow> bytes \<Rightarrow> serial option" where
  "feed_chars s [] = Some s"
| "feed_chars s (c # cs) = do { s' \<leftarrow> handle_received_char s c; feed_chars s' cs }"

text \<open>The interrupt handler drains what the hardware FIFO holds, if a task is registered.\<close>

definition on_uart_rx :: "serial \<Rightarrow> bytes \<Rightarrow> serial option" where
  "on_uart_rx s fifo_chars =
     (if \<not> receiving_task_handle s then Some s else feed_chars s fifo_chars)"

definition set_receiving_task_handle :: "serial \<Rightarrow> serial" where
  "set_receiving_task_handle s = s\<lparr>receiving_task_handle := True\<rparr>"

text \<open>
  The copy loop \<^verbatim>\<open>while (pop(c) && buffer_size-- > 1)\<close>: the byte is popped before the
  remaining room is tested.
\<close>

function read_loop :: "ring_buffer \<Rightarrow> nat \<Rightarrow> bytes \<Rightarrow> (bytes \<times> ring_buffer) option" where
  "read_loop rb n acc =
     (case rb_pop rb of
        None \<Rightarrow> None
      | Some (None, rb') \<Rightarrow> Some (acc, rb')
      | Some (Some c, rb') \<Rightarrow>
          (if n > 1 then
             (if c = 0 then Some (acc @ [c], rb') else read_loop rb' (n - 1) (acc @ [c]))
           else Some (acc, rb')))"
  by pat_completeness auto
termination
  by (relation "measure (\<lambda>(rb, n, acc). n)") auto

declare read_loop.simps [simp del]

definition read_from_receive_buffer :: "serial \<Rightarrow> nat \<Rightarrow> (bytes \<times> serial) option" where
  "read_from_receive_buffer s buffer_size = do {
     (out, rb) \<leftarrow> read_loop (uart_buffer s) buffer_size [];
     Some (out, s\<lparr>uart_buffer := rb, string_finished := False\<rparr>)
   }"

text \<open>
  \<open>read_string\<close> waits for a finished string. What happens while it waits is a list of events:
  bytes delivered by the interrupt, or the timer running out. The result is \<open>Inl\<close> while the
  task is still blocked when the events are used up.
\<close>

datatype wait_event = Irq bytes | Timed_Out

fun read_string :: "serial \<Rightarrow> nat \<Rightarrow> wait_event list \<Rightarrow> (serial + nat \<times> bytes \<times> serial) option" where
  "read_string s buffer_size events =
     (if string_finished s then do {
        (out, s') \<leftarrow> read_from_receive_buffer s buffer_size;
        Some (Inr (length out, out, s'))
      } else (case events of
          [] \<Rightarrow> Some (Inl s)
        | Timed_Out # _ \<Rightarrow> do {
            (out, s') \<leftarrow> read_from_receive_buffer (s\<lparr>timeout_detected := True\<rparr>) buffer_size;
            Some (Inr (0, out, s'))
          }
        | Irq cs # es \<Rightarrow> do { s' \<leftarrow> on_uart_rx s cs; read_string s' buffer_size es }))"

declare read_string.simps [simp del]

section \<open>Memory safety and the buffer invariant\<close>

definition serial_inv :: "serial \<Rightarrow> bool" where
  "serial_inv s \<longleftrightarrow> rb_inv (uart_buffer s) \<and> received_chars s \<ge> 0"

lemma rb_push_Some_inv:
  "rb_inv rb \<Longrightarrow> \<exists>ok rb'. rb_push rb x = Some (ok, rb') \<and> rb_inv rb' \<and> rb_capacity rb' = rb_capacity rb"
  by (rule ringbuf.push_total)

lemma handle_received_char_safe:
  assumes "serial_inv s"
  shows "\<exists>s'. handle_received_char s c = Some s' \<and> serial_inv s' \<and>
    rb_capacity (uart_buffer s') = rb_capacity (uart_buffer s) \<and>
    receiving_task_handle s' = receiving_task_handle s"
proof -
  have inv: "rb_inv (uart_buffer s)" and rc: "received_chars s \<ge> 0"
    using assms by (auto simp: serial_inv_def)
  obtain ok rb where p0: "rb_push (uart_buffer s) 0 = Some (ok, rb)" "rb_inv rb"
      "rb_capacity rb = rb_capacity (uart_buffer s)"
    using rb_push_Some_inv [OF inv] by blast
  obtain ok1 rb1 where p1: "rb_push (uart_buffer s) c = Some (ok1, rb1)" "rb_inv rb1"
      "rb_capacity rb1 = rb_capacity (uart_buffer s)"
    using rb_push_Some_inv [OF inv] by blast
  obtain ok2 rb2 where p2: "rb_push rb1 0 = Some (ok2, rb2)" "rb_inv rb2"
      "rb_capacity rb2 = rb_capacity (uart_buffer s)"
    using rb_push_Some_inv [OF p1(2)] p1(3) by metis
  note reset = ringbuf.reset_spec [OF inv]
  show ?thesis
    using p0 p1 p2 reset rc inv
    by (auto simp: handle_received_char_def serial_inv_def notify_task_def Let_def)
qed

lemma feed_chars_safe:
  "serial_inv s \<Longrightarrow> \<exists>s'. feed_chars s cs = Some s' \<and> serial_inv s' \<and>
    rb_capacity (uart_buffer s') = rb_capacity (uart_buffer s)"
proof (induction cs arbitrary: s)
  case Nil
  then show ?case by simp
next
  case (Cons c cs)
  from handle_received_char_safe [OF Cons.prems, of c] obtain s1 where
    s1: "handle_received_char s c = Some s1" "serial_inv s1"
        "rb_capacity (uart_buffer s1) = rb_capacity (uart_buffer s)"
    by blast
  with Cons.IH [OF s1(2)] show ?case by auto
qed

lemma read_loop_safe:
  "rb_inv rb \<Longrightarrow> length acc < N \<Longrightarrow> n + length acc = N \<Longrightarrow>
   \<exists>out rb'. read_loop rb n acc = Some (out, rb') \<and> rb_inv rb' \<and>
     rb_capacity rb' = rb_capacity rb \<and> length out < N"
proof (induction rb n acc rule: read_loop.induct)
  case (1 rb n acc)
  obtain r rb1 where pop: "rb_pop rb = Some (r, rb1)" "rb_inv rb1" "rb_capacity rb1 = rb_capacity rb"
    using ringbuf.pop_total [OF "1.prems"(1)] by blast
  show ?case
  proof (cases r)
    case None
    with pop "1.prems" show ?thesis by (simp add: read_loop.simps [of rb n acc])
  next
    case (Some c)
    show ?thesis
    proof (cases "n > 1 \<and> c \<noteq> 0")
      case True
      with "1.IH" [OF pop(1) refl Some] pop(2,3) "1.prems" show ?thesis
        by (simp add: read_loop.simps [of rb n acc] pop(1) Some)
    next
      case False
      with pop Some "1.prems" show ?thesis
        by (auto simp: read_loop.simps [of rb n acc])
    qed
  qed
qed

text \<open>What one read delivers, in terms of the queue contents.\<close>

lemma read_loop_line:
  assumes "rb_inv rb" "rb_contents rb = line @ 0 # rest" "0 \<notin> set line" "length line + 2 \<le> n"
  shows "\<exists>rb'. read_loop rb n acc = Some (acc @ line @ [0], rb') \<and> rb_inv rb' \<and>
    rb_contents rb' = rest \<and> rb_capacity rb' = rb_capacity rb"
  using assms
proof (induction line arbitrary: rb n acc)
  case Nil
  from ringbuf.pop_item [of rb 0 rest] Nil.prems(1,2) obtain rb' where
    pop: "rb_pop rb = Some (Some 0, rb')" "rb_inv rb'" "rb_contents rb' = rest"
      "rb_capacity rb' = rb_capacity rb" by auto
  with Nil.prems(4) show ?case by (simp add: read_loop.simps [of rb n acc])
next
  case (Cons c line)
  from ringbuf.pop_item [of rb c "line @ 0 # rest"] Cons.prems(1,2) obtain rb1 where
    pop: "rb_pop rb = Some (Some c, rb1)" "rb_inv rb1" "rb_contents rb1 = line @ 0 # rest"
      "rb_capacity rb1 = rb_capacity rb" by auto
  have "0 \<notin> set line" and "c \<noteq> 0" and "length line + 2 \<le> n - 1" and "n > 1"
    using Cons.prems(3,4) by auto
  with Cons.IH [OF pop(2,3), of "n - 1" "acc @ [c]"] pop show ?case
    by (simp add: read_loop.simps [of rb n acc])
qed

lemma read_loop_cut:
  assumes "rb_inv rb" "rb_contents rb = cs @ lost # rest" "0 \<notin> set cs" "length cs + 1 = n"
  shows "\<exists>rb'. read_loop rb n acc = Some (acc @ cs, rb') \<and> rb_inv rb' \<and> rb_contents rb' = rest"
  using assms
proof (induction cs arbitrary: rb n acc)
  case Nil
  from ringbuf.pop_item [of rb lost rest] Nil.prems(1,2) obtain rb' where
    pop: "rb_pop rb = Some (Some lost, rb')" "rb_inv rb'" "rb_contents rb' = rest" by auto
  with Nil.prems(4) show ?case by (simp add: read_loop.simps [of rb n acc])
next
  case (Cons c cs)
  from ringbuf.pop_item [of rb c "cs @ lost # rest"] Cons.prems(1,2) obtain rb1 where
    pop: "rb_pop rb = Some (Some c, rb1)" "rb_inv rb1" "rb_contents rb1 = cs @ lost # rest"
    by auto
  have "0 \<notin> set cs" and "c \<noteq> 0" and "length cs + 1 = n - 1" and "n > 1"
    using Cons.prems(3,4) by auto
  with Cons.IH [OF pop(2,3), of "n - 1" "acc @ [c]"] pop show ?case
    by (simp add: read_loop.simps [of rb n acc])
qed

section \<open>Line framing\<close>

text \<open>Bytes of a line that still fits are appended one by one and leave the line open.\<close>

lemma handle_ordinary_char:
  assumes "serial_inv s" "\<not> timeout_detected s" "\<not> is_line_end c"
    and "length (rb_contents (uart_buffer s)) + 3 \<le> rb_capacity (uart_buffer s)"
  shows "\<exists>s'. handle_received_char s c = Some s' \<and> serial_inv s' \<and> \<not> timeout_detected s' \<and>
    rb_contents (uart_buffer s') = rb_contents (uart_buffer s) @ [c] \<and>
    received_chars s' = received_chars s + 1 \<and> string_finished s' = string_finished s \<and>
    rb_capacity (uart_buffer s') = rb_capacity (uart_buffer s)"
proof -
  have inv: "rb_inv (uart_buffer s)" using assms(1) by (simp add: serial_inv_def)
  have "rb_space_left (uart_buffer s) \<noteq> 2"
    using rb_space_left_eq [OF inv] assms(4) by auto
  moreover from ringbuf.push_room [OF inv, of c] assms(4) obtain rb where
    "rb_push (uart_buffer s) c = Some (True, rb)" "rb_inv rb"
    "rb_contents rb = rb_contents (uart_buffer s) @ [c]"
    "rb_capacity rb = rb_capacity (uart_buffer s)" by auto
  ultimately show ?thesis
    using assms by (auto simp: handle_received_char_def serial_inv_def notify_task_def Let_def)
qed

lemma feed_ordinary_chars:
  assumes "serial_inv s" "\<not> timeout_detected s" "\<forall>c \<in> set line. \<not> is_line_end c"
    and "length (rb_contents (uart_buffer s)) + length line + 2 \<le> rb_capacity (uart_buffer s)"
  shows "\<exists>s'. feed_chars s line = Some s' \<and> serial_inv s' \<and> \<not> timeout_detected s' \<and>
    rb_contents (uart_buffer s') = rb_contents (uart_buffer s) @ line \<and>
    received_chars s' = received_chars s + int (length line) \<and>
    string_finished s' = string_finished s \<and>
    rb_capacity (uart_buffer s') = rb_capacity (uart_buffer s)"
  using assms
proof (induction line arbitrary: s)
  case Nil
  then show ?case by simp
next
  case (Cons c line)
  from handle_ordinary_char [of s c] Cons.prems obtain s1 where
    s1: "handle_received_char s c = Some s1" "serial_inv s1" "\<not> timeout_detected s1"
      "rb_contents (uart_buffer s1) = rb_contents (uart_buffer s) @ [c]"
      "received_chars s1 = received_chars s + 1" "string_finished s1 = string_finished s"
      "rb_capacity (uart_buffer s1) = rb_capacity (uart_buffer s)"
    by auto
  with Cons.IH [OF s1(2,3)] Cons.prems(3,4) show ?case by auto
qed

lemma feed_chars_append:
  "feed_chars s (xs @ ys) = do { s' \<leftarrow> feed_chars s xs; feed_chars s' ys }"
  by (induction xs arbitrary: s) (auto split: Option.bind_splits)

lemma handle_line_end:
  assumes "serial_inv s" "\<not> timeout_detected s" "is_line_end e" "received_chars s > 0"
    and "length (rb_contents (uart_buffer s)) < rb_capacity (uart_buffer s)"
  shows "\<exists>s'. handle_received_char s e = Some s' \<and> serial_inv s' \<and> string_finished s' \<and>
    rb_contents (uart_buffer s') = rb_contents (uart_buffer s) @ [0] \<and> received_chars s' = 0"
proof -
  have inv: "rb_inv (uart_buffer s)" using assms(1) by (simp add: serial_inv_def)
  from ringbuf.push_room [OF inv, of 0] assms(5) obtain rb where
    "rb_push (uart_buffer s) 0 = Some (True, rb)" "rb_inv rb"
    "rb_contents rb = rb_contents (uart_buffer s) @ [0]" by auto
  then show ?thesis
    using assms by (auto simp: handle_received_char_def serial_inv_def notify_task_def)
qed

lemma handle_last_char:
  assumes "serial_inv s" "\<not> timeout_detected s" "\<not> is_line_end c"
    and "length (rb_contents (uart_buffer s)) + 2 = rb_capacity (uart_buffer s)"
  shows "\<exists>s'. handle_received_char s c = Some s' \<and> serial_inv s' \<and> string_finished s' \<and>
    rb_contents (uart_buffer s') = rb_contents (uart_buffer s) @ [c, 0] \<and> received_chars s' = 0"
proof -
  have inv: "rb_inv (uart_buffer s)" using assms(1) by (simp add: serial_inv_def)
  have sp: "rb_space_left (uart_buffer s) = 2"
    using rb_space_left_eq [OF inv] assms(4) by simp
  from ringbuf.push_room [OF inv, of c] assms(4) obtain rb1 where
    p1: "rb_push (uart_buffer s) c = Some (True, rb1)" "rb_inv rb1"
    "rb_contents rb1 = rb_contents (uart_buffer s) @ [c]"
    "rb_capacity rb1 = rb_capacity (uart_buffer s)" by auto
  have "length (rb_contents rb1) < rb_capacity rb1"
    using p1(3,4) assms(4) by simp
  from ringbuf.push_room [OF p1(2) this, of 0] p1(3) obtain rb2 where
    "rb_push rb1 0 = Some (True, rb2)" "rb_inv rb2"
    "rb_contents rb2 = rb_contents (uart_buffer s) @ [c, 0]" by auto
  with p1 sp show ?thesis
    using assms by (auto simp: handle_received_char_def serial_inv_def notify_task_def)
qed

lemma serial_new_idle:
  assumes "heap \<noteq> []" "length heap < 2 ^ 31"
  shows "serial_inv (serial_new heap)" "\<not> timeout_detected (serial_new heap)"
    "received_chars (serial_new heap) = 0" "rb_contents (uart_buffer (serial_new heap)) = []"
    "rb_capacity (uart_buffer (serial_new heap)) = length heap"
  using rb_new_inv [OF assms] by (simp_all add: serial_inv_def serial_new_def rb_new_def)

section \<open>Properties\<close>

text \<open>C32: A ring buffer that is not full accepts a byte at the end of the queue, a full one refuses it
  and keeps its contents; popping returns the oldest byte. The buffer therefore refines a bounded
  first-in first-out list, with no access outside its storage.\<close>

theorem ring_buffer_refines_fifo:
  assumes "rb_inv rb"
  shows "(if length (rb_contents rb) < rb_capacity rb
          then \<exists>rb'. rb_push rb x = Some (True, rb') \<and> rb_inv rb' \<and> rb_contents rb' = rb_contents rb @ [x]
          else rb_push rb x = Some (False, rb))
       \<and> (case rb_contents rb of
            [] \<Rightarrow> rb_pop rb = Some (None, rb)
          | y # ys \<Rightarrow> \<exists>rb'. rb_pop rb = Some (Some y, rb') \<and> rb_inv rb' \<and> rb_contents rb' = ys)"
proof
  show "if length (rb_contents rb) < rb_capacity rb
        then \<exists>rb'. rb_push rb x = Some (True, rb') \<and> rb_inv rb' \<and> rb_contents rb' = rb_contents rb @ [x]
        else rb_push rb x = Some (False, rb)"
    by (rule ringbuf.push_cases [OF assms, of x]) auto
  show "case rb_contents rb of [] \<Rightarrow> rb_pop rb = Some (None, rb)
      | y # ys \<Rightarrow> \<exists>rb'. rb_pop rb = Some (Some y, rb') \<and> rb_inv rb' \<and> rb_contents rb' = ys"
    using ringbuf.pop_none [OF assms] ringbuf.pop_item [OF assms]
    by (auto split: list.split)
qed

theorem ring_buffer_refines_fifo_witness:
  "rb_inv (rb_new [0, 0, 0]) \<and> (\<exists>rb'. rb_push (rb_new [0, 0, 0]) 7 = Some (True, rb'))"
proof -
  have "rb_inv (rb_new [0, 0, 0])" by (simp add: rb_inv_def rb_new_def)
  with ring_buffer_refines_fifo [OF this, of 7] show ?thesis
    by (auto simp: rb_new_def rb_contents_def)
qed

text \<open>A line of ordinary bytes that leaves two bytes of room in an idle receiver, followed by a carriage return or line feed, is
  handed to the reader unchanged and NUL-terminated, and the receiver is idle again.\<close>

lemma serial_line_read:
  assumes inv: "serial_inv s" "\<not> timeout_detected s" "received_chars s = 0"
    and empty: "rb_contents (uart_buffer s) = []"
    and line: "line \<noteq> []" "\<forall>c \<in> set line. \<not> is_line_end c \<and> c \<noteq> 0" "is_line_end e"
    and room: "length line + 2 \<le> rb_capacity (uart_buffer s)" "length line + 2 \<le> buffer_size"
  shows "\<exists>s1 s2. feed_chars s (line @ [e]) = Some s1 \<and> string_finished s1 \<and>
    read_from_receive_buffer s1 buffer_size = Some (line @ [0], s2) \<and>
    \<not> string_finished s2 \<and> rb_contents (uart_buffer s2) = [] \<and> received_chars s2 = 0"
proof -
  from feed_ordinary_chars [of s line] assms obtain s0 where
    s0: "feed_chars s line = Some s0" "serial_inv s0" "\<not> timeout_detected s0"
      "rb_contents (uart_buffer s0) = line" "received_chars s0 = int (length line)"
      "rb_capacity (uart_buffer s0) = rb_capacity (uart_buffer s)"
    by auto
  have "length (rb_contents (uart_buffer s0)) < rb_capacity (uart_buffer s0)"
    using s0(4,6) room(1) by simp
  with handle_line_end [OF s0(2,3) line(3)] s0(4,5) line(1) obtain s1 where
    s1: "handle_received_char s0 e = Some s1" "serial_inv s1" "string_finished s1"
      "rb_contents (uart_buffer s1) = line @ [0]" "received_chars s1 = 0"
    by auto
  have "rb_inv (uart_buffer s1)" using s1(2) by (simp add: serial_inv_def)
  from read_loop_line [OF this, of line "[]" buffer_size "[]"] s1(4) line(2) room(2) obtain rb where
    "read_loop (uart_buffer s1) buffer_size [] = Some (line @ [0], rb)" "rb_contents rb = []"
    by auto
  with s0(1) s1 show ?thesis
    by (simp add: feed_chars_append read_from_receive_buffer_def)
qed

text \<open>A line longer than the buffer is cut and terminated in time: after exactly
  \<open>capacity - 1\<close> ordinary bytes the receiver signals a finished string holding all of them
  and a NUL, and the buffer is full.\<close>

theorem serial_overlong_line_terminated:
  assumes "serial_inv s" "\<not> timeout_detected s" "rb_contents (uart_buffer s) = []"
    and "\<forall>c \<in> set line. \<not> is_line_end c" "length line + 1 = rb_capacity (uart_buffer s)"
    and "line \<noteq> []"
  shows "\<exists>s1. feed_chars s line = Some s1 \<and> string_finished s1 \<and>
    rb_contents (uart_buffer s1) = line @ [0]"
proof -
  obtain pre c where line: "line = pre @ [c]"
    using assms(6) by (metis rev_exhaust)
  from feed_ordinary_chars [of s pre] assms line obtain s0 where
    s0: "feed_chars s pre = Some s0" "serial_inv s0" "\<not> timeout_detected s0"
      "rb_contents (uart_buffer s0) = pre"
      "rb_capacity (uart_buffer s0) = rb_capacity (uart_buffer s)"
    by auto
  have "length (rb_contents (uart_buffer s0)) + 2 = rb_capacity (uart_buffer s0)"
    using s0(4,5) assms(5) line by simp
  with handle_last_char [OF s0(2,3), of c] s0(1,4) assms(4) line show ?thesis
    by (auto simp: feed_chars_append)
qed

theorem serial_overlong_line_terminated_witness:
  "\<exists>s1. feed_chars (serial_new (replicate 4 0)) [65, 66, 67] = Some s1 \<and> string_finished s1 \<and>
    rb_contents (uart_buffer s1) = [65, 66, 67, 0]"
  using serial_overlong_line_terminated [of "serial_new (replicate 4 0)" "[65, 66, 67]"]
    serial_new_idle [of "replicate 4 0"]
  by (auto simp: is_line_end_def)

text \<open>When the caller's buffer is too small for the queued line, the read fills it up to its last
  byte and the byte popped for the failed bound test is in neither the result nor the queue.\<close>

theorem serial_short_read_loses_byte:
  assumes "serial_inv s" "rb_contents (uart_buffer s) = cs @ lost # rest" "0 \<notin> set cs"
    and "buffer_size = length cs + 1"
  shows "\<exists>s'. read_from_receive_buffer s buffer_size = Some (cs, s') \<and>
    rb_contents (uart_buffer s') = rest"
  using read_loop_cut [of "uart_buffer s" cs lost rest buffer_size "[]"] assms
  by (auto simp: serial_inv_def read_from_receive_buffer_def)

theorem serial_short_read_loses_byte_witness:
  "\<exists>s s'. read_from_receive_buffer s 3 = Some ([65, 66], s') \<and>
    rb_contents (uart_buffer s) = [65, 66] @ 67 # [0] \<and> rb_contents (uart_buffer s') = [0]"
proof -
  define s where "s = serial_new (replicate 4 0)\<lparr>uart_buffer :=
      \<lparr>rb_buffer = [65, 66, 67, 0], rb_capacity = 4, rb_read_ptr = 0, rb_write_ptr = 0,
       rb_current_size = 4\<rparr>\<rparr>"
  have inv: "serial_inv s"
    by (simp add: s_def serial_inv_def serial_new_def rb_inv_def)
  have cont: "rb_contents (uart_buffer s) = [65, 66] @ 67 # [0]"
    by (simp add: s_def rb_contents_def upt_rec)
  from serial_short_read_loses_byte [OF inv cont, of 3] cont show ?thesis by auto
qed

end
