(* ===== verification/Crypto.thy ===== *)
theory Crypto
  imports Prelude
begin

text \<open>
  \<^verbatim>\<open>src/src/crypto.cpp\<close>: the streaming SHA-1 context and the Base64 encoder used for the
  WebSocket handshake. The compression function is the source's; the message-level reference
  \<open>sha1_spec\<close> pads the whole message first and folds the compression function over its 64-byte
  blocks. The locale \<open>streaming_hash\<close> is the contract of a context that absorbs a message in
  pieces of any size.
\<close>

section \<open>SHA-1: the code\<close>

definition rotl32 :: "nat \<Rightarrow> u32 \<Rightarrow> u32" where
  "rotl32 n x = push_bit n x OR drop_bit (32 - n) x"

definition sha1_word :: "bytes \<Rightarrow> nat \<Rightarrow> u32" where
  "sha1_word block i =
     push_bit 24 (ucast (block ! (i * 4))) OR push_bit 16 (ucast (block ! (i * 4 + 1))) OR
     push_bit 8 (ucast (block ! (i * 4 + 2))) OR ucast (block ! (i * 4 + 3))"

text \<open>The message schedule: \<open>w[0..15]\<close> from the block, then 64 words by recurrence.\<close>

fun sha1_expand :: "nat \<Rightarrow> u32 list \<Rightarrow> u32 list" where
  "sha1_expand 0 w = w"
| "sha1_expand (Suc n) w =
     (let i = length w;
          x = w ! (i - 3) XOR w ! (i - 8) XOR w ! (i - 14) XOR w ! (i - 16)
      in sha1_expand n (w @ [rotl32 1 x]))"

definition sha1_schedule :: "bytes \<Rightarrow> u32 list" where
  "sha1_schedule block = sha1_expand 64 (map (sha1_word block) [0..<16])"

type_synonym sha1_state = "u32 \<times> u32 \<times> u32 \<times> u32 \<times> u32"

definition sha1_f :: "nat \<Rightarrow> u32 \<Rightarrow> u32 \<Rightarrow> u32 \<Rightarrow> u32 \<times> u32" where
  "sha1_f i b c d =
     (if i < 20 then ((b AND c) OR (NOT b AND d), 0x5A827999)
      else if i < 40 then (b XOR c XOR d, 0x6ED9EBA1)
      else if i < 60 then ((b AND c) OR (b AND d) OR (c AND d), 0x8F1BBCDC)
      else (b XOR c XOR d, 0xCA62C1D6))"

fun sha1_round :: "nat \<Rightarrow> u32 \<Rightarrow> sha1_state \<Rightarrow> sha1_state" where
  "sha1_round i wi (a, b, c, d, e) =
     (let (f, k) = sha1_f i b c d;
          temp = rotl32 5 a + f + e + k + wi
      in (temp, a, push_bit 30 b OR drop_bit 2 b, c, d))"

fun sha1_rounds :: "nat \<Rightarrow> u32 list \<Rightarrow> sha1_state \<Rightarrow> sha1_state" where
  "sha1_rounds i [] s = s"
| "sha1_rounds i (wi # ws) s = sha1_rounds (Suc i) ws (sha1_round i wi s)"

fun sha1_transform :: "sha1_state \<Rightarrow> bytes \<Rightarrow> sha1_state" where
  "sha1_transform (s0, s1, s2, s3, s4) block =
     (let (a, b, c, d, e) = sha1_rounds 0 (sha1_schedule block) (s0, s1, s2, s3, s4)
      in (s0 + a, s1 + b, s2 + c, s3 + d, s4 + e))"

record sha1_ctx =
  ctx_h :: sha1_state
  ctx_len :: u64
  ctx_buf :: bytes
  ctx_buf_len :: nat

definition sha1_iv :: sha1_state where
  "sha1_iv = (0x67452301, 0xEFCDAB89, 0x98BADCFE, 0x10325476, 0xC3D2E1F0)"

text \<open>\<open>buf\<close> is not initialised; \<open>stack\<close> stands for its bytes.\<close>

definition sha1_init :: "bytes \<Rightarrow> sha1_ctx" where
  "sha1_init stack = \<lparr>ctx_h = sha1_iv, ctx_len = 0, ctx_buf = stack, ctx_buf_len = 0\<rparr>"

text \<open>
  The copy loop of \<open>sha1_update\<close>. With \<open>buf_len \<ge> 64\<close> the source's loop would not advance
  (or would overrun the buffer); the model returns \<open>None\<close> there.
\<close>

function sha1_update_loop :: "sha1_ctx \<Rightarrow> bytes \<Rightarrow> sha1_ctx option" where
  "sha1_update_loop ctx data =
     (if data = [] then Some ctx
      else if ctx_buf_len ctx \<ge> 64 then None
      else (let to_copy = min (64 - ctx_buf_len ctx) (length data) in
        (case mem_cpy (ctx_buf ctx) (ctx_buf_len ctx) (take to_copy data) of
           None \<Rightarrow> None
         | Some buf \<Rightarrow>
             (let ctx1 = ctx\<lparr>ctx_buf := buf, ctx_buf_len := ctx_buf_len ctx + to_copy\<rparr>;
                  ctx2 = (if ctx_buf_len ctx1 = 64
                          then ctx1\<lparr>ctx_h := sha1_transform (ctx_h ctx1) (ctx_buf ctx1), ctx_buf_len := 0\<rparr>
                          else ctx1)
              in sha1_update_loop ctx2 (drop to_copy data)))))"
  by pat_completeness auto
termination
  by (relation "measure (\<lambda>(ctx, data). length data)") auto

declare sha1_update_loop.simps [simp del]

text \<open>\<open>len * 8\<close> is computed in the 32-bit \<open>size_t\<close> before it is added to the 64-bit counter.\<close>

definition sha1_update :: "sha1_ctx \<Rightarrow> bytes \<Rightarrow> sha1_ctx option" where
  "sha1_update ctx data =
     sha1_update_loop (ctx\<lparr>ctx_len := ctx_len ctx + ucast (of_nat (length data) * 8 :: u32)\<rparr>) data"

text \<open>\<^verbatim>\<open>while (buf_len < lim) buf[buf_len++] = 0;\<close>\<close>

function pad_zeros :: "bytes \<Rightarrow> nat \<Rightarrow> nat \<Rightarrow> (bytes \<times> nat) option" where
  "pad_zeros buf n lim =
     (if n < lim then
        (case mem_set buf n 0 of None \<Rightarrow> None | Some buf' \<Rightarrow> pad_zeros buf' (Suc n) lim)
      else Some (buf, n))"
  by pat_completeness auto
termination
  by (relation "measure (\<lambda>(buf, n, lim). lim - n)") auto

declare pad_zeros.simps [simp del]

definition be64 :: "u64 \<Rightarrow> bytes" where
  "be64 x = map (\<lambda>i. ucast (drop_bit (i * 8) x AND 0xFF)) [7, 6, 5, 4, 3, 2, 1, 0]"

definition be32 :: "u32 \<Rightarrow> bytes" where
  "be32 x = map (\<lambda>n. ucast (drop_bit n x AND 0xFF)) [24, 16, 8, 0]"

fun sha1_digest :: "sha1_state \<Rightarrow> bytes" where
  "sha1_digest (a, b, c, d, e) = be32 a @ be32 b @ be32 c @ be32 d @ be32 e"

definition sha1_final :: "sha1_ctx \<Rightarrow> bytes option" where
  "sha1_final ctx = do {
     buf \<leftarrow> mem_set (ctx_buf ctx) (ctx_buf_len ctx) 0x80;
     let n = ctx_buf_len ctx + 1;
     (h, buf, n) \<leftarrow> (if n > 56 then do {
                      (buf, n) \<leftarrow> pad_zeros buf n 64;
                      Some (sha1_transform (ctx_h ctx) buf, buf, 0)
                    } else Some (ctx_h ctx, buf, n));
     (buf, n) \<leftarrow> pad_zeros buf n 56;
     buf \<leftarrow> mem_cpy buf n (be64 (ctx_len ctx));
     Some (sha1_digest (sha1_transform h buf))
   }"

section \<open>Base64: the code\<close>

definition b64_table :: bytes where
  "b64_table = bytes_of ''ABCDEFGHIJKLMNOPQRSTUVWXYZabcdefghijklmnopqrstuvwxyz0123456789+/''"

definition b64_at :: "u8 \<Rightarrow> u8" where
  "b64_at x = b64_table ! unat x"

fun base64_encode :: "bytes \<Rightarrow> bytes" where
  "base64_encode (a # b # c # rest) =
     b64_at (drop_bit 2 a) # b64_at (push_bit 4 (a AND 3) OR drop_bit 4 b) #
     b64_at (push_bit 2 (b AND 15) OR drop_bit 6 c) # b64_at (c AND 63) # base64_encode rest"
| "base64_encode [a, b] =
     [b64_at (drop_bit 2 a), b64_at (push_bit 4 (a AND 3) OR drop_bit 4 b),
      b64_at (push_bit 2 (b AND 15)), 61]"
| "base64_encode [a] = [b64_at (drop_bit 2 a), b64_at (push_bit 4 (a AND 3)), 61, 61]"
| "base64_encode [] = []"

section \<open>The message-level reference\<close>

function blocks64 :: "bytes \<Rightarrow> bytes list" where
  "blocks64 xs = (if length xs < 64 then [] else take 64 xs # blocks64 (drop 64 xs))"
  by pat_completeness auto
termination
  by (relation "measure length") auto

declare blocks64.simps [simp del]

definition sha1_pad :: "bytes \<Rightarrow> bytes" where
  "sha1_pad msg =
     (let n = length msg mod 64
      in msg @ [0x80] @ replicate (if n < 56 then 55 - n else 119 - n) 0 @
         be64 (8 * of_nat (length msg)))"

definition sha1_spec :: "bytes \<Rightarrow> bytes" where
  "sha1_spec msg = sha1_digest (foldl sha1_transform sha1_iv (blocks64 (sha1_pad msg)))"

text \<open>The reference decoder for Base64: six bits per character, padding ends the text.\<close>

fun find_index :: "'a \<Rightarrow> 'a list \<Rightarrow> nat \<Rightarrow> nat option" where
  "find_index x [] i = None"
| "find_index x (y # ys) i = (if x = y then Some i else find_index x ys (Suc i))"

definition b64_value :: "u8 \<Rightarrow> u8 option" where
  "b64_value ch = map_option of_nat (find_index ch b64_table 0)"

fun base64_decode :: "bytes \<Rightarrow> bytes option" where
  "base64_decode [] = Some []"
| "base64_decode (p # q # r # s # rest) = do {
     x \<leftarrow> b64_value p;
     y \<leftarrow> b64_value q;
     if r = 61 \<and> s = 61 then Some [push_bit 2 x OR drop_bit 4 y]
     else do {
       z \<leftarrow> b64_value r;
       if s = 61 then Some [push_bit 2 x OR drop_bit 4 y, push_bit 4 y OR drop_bit 2 z]
       else do {
         w \<leftarrow> b64_value s;
         tail \<leftarrow> base64_decode rest;
         Some ([push_bit 2 x OR drop_bit 4 y, push_bit 4 y OR drop_bit 2 z, push_bit 6 z OR w] @ tail)
       }
     }
   }"
| "base64_decode _ = None"

section \<open>The contract of a streaming hash\<close>

fun absorb_all :: "('c \<Rightarrow> bytes \<Rightarrow> 'c option) \<Rightarrow> 'c \<Rightarrow> bytes list \<Rightarrow> 'c option" where
  "absorb_all update c [] = Some c"
| "absorb_all update c (x # xs) = do { c' \<leftarrow> update c x; absorb_all update c' xs }"

locale streaming_hash =
  fixes update :: "'c \<Rightarrow> bytes \<Rightarrow> 'c option"
    and final :: "'c \<Rightarrow> bytes option"
    and absorbed :: "'c \<Rightarrow> bytes \<Rightarrow> bool"
    and spec :: "bytes \<Rightarrow> bytes"
    and limit :: nat
  assumes update_absorbs: "absorbed c m \<Longrightarrow> length d < limit \<Longrightarrow>
      \<exists>c'. update c d = Some c' \<and> absorbed c' (m @ d)"
    and final_spec: "absorbed c m \<Longrightarrow> final c = Some (spec m)"
begin

lemma absorb_all_absorbs:
  assumes "absorbed c m" "\<forall>d \<in> set ds. length d < limit"
  shows "\<exists>c'. absorb_all update c ds = Some c' \<and> absorbed c' (m @ concat ds)"
  using assms
proof (induction ds arbitrary: c m)
  case Nil
  then show ?case by simp
next
  case (Cons d ds)
  from update_absorbs [OF Cons.prems(1), of d] Cons.prems(2) obtain c1 where
    c1: "update c d = Some c1" "absorbed c1 (m @ d)" by auto
  with Cons.IH [OF c1(2)] Cons.prems(2) show ?case by auto
qed

lemma hash_of_chunks:
  assumes "absorbed c m" "\<forall>d \<in> set ds. length d < limit"
  shows "(do { c' \<leftarrow> absorb_all update c ds; final c' }) = Some (spec (m @ concat ds))"
  using absorb_all_absorbs [OF assms] final_spec by auto

end

section \<open>The context refines the reference\<close>

lemma blocks64_short [simp]: "length xs < 64 \<Longrightarrow> blocks64 xs = []"
  by (simp add: blocks64.simps)

lemma blocks64_one: "length xs = 64 \<Longrightarrow> blocks64 xs = [xs]"
  by (simp add: blocks64.simps [of xs])

lemma blocks64_append: "length xs = 64 * k \<Longrightarrow> blocks64 (xs @ ys) = blocks64 xs @ blocks64 ys"
proof (induction k arbitrary: xs)
  case 0
  then show ?case by simp
next
  case (Suc k)
  then have "blocks64 (drop 64 xs @ ys) = blocks64 (drop 64 xs) @ blocks64 ys" by simp
  with Suc.prems show ?case
    by (simp add: blocks64.simps [of "xs @ ys"] blocks64.simps [of xs])
qed

text \<open>The bytes of a message that do not fill a block yet.\<close>

definition tail64 :: "bytes \<Rightarrow> bytes" where
  "tail64 m = drop (64 * (length m div 64)) m"

lemma length_tail64: "length (tail64 m) = length m mod 64"
  by (simp add: tail64_def minus_mult_div_eq_mod)

lemma message_split:
  obtains p k where "m = p @ tail64 m" "length p = 64 * k"
proof
  show "m = take (64 * (length m div 64)) m @ tail64 m"
    by (simp add: tail64_def)
  have "64 * (length m div 64) \<le> length m" by simp
  then show "length (take (64 * (length m div 64)) m) = 64 * (length m div 64)"
    by simp
qed

lemma blocks64_add_partial:
  assumes "length m mod 64 + length d < 64"
  shows "blocks64 (m @ d) = blocks64 m" "tail64 (m @ d) = tail64 m @ d"
proof -
  obtain p k where m: "m = p @ tail64 m" "length p = 64 * k" by (rule message_split)
  have "blocks64 (p @ tail64 m @ d) = blocks64 p" "blocks64 (p @ tail64 m) = blocks64 p"
    using blocks64_append [OF m(2)] assms length_tail64 [of m] by simp_all
  then show "blocks64 (m @ d) = blocks64 m"
    using arg_cong [OF m(1), of "\<lambda>x. blocks64 (x @ d)"] arg_cong [OF m(1), of blocks64] by simp
  have "length m + length d = 64 * (length m div 64) + (length m mod 64 + length d)" by simp
  then have "(length m + length d) div 64 = length m div 64"
    using assms by (metis add.right_neutral div_less div_mult_self4 zero_neq_numeral)
  then show "tail64 (m @ d) = tail64 m @ d"
    using m(2) by (simp add: tail64_def)
qed

lemma blocks64_add_full:
  assumes "length m mod 64 + length d = 64"
  shows "blocks64 (m @ d) = blocks64 m @ [tail64 m @ d]" "tail64 (m @ d) = []"
proof -
  obtain p k where m: "m = p @ tail64 m" "length p = 64 * k" by (rule message_split)
  have len: "length (tail64 m @ d) = 64" using assms length_tail64 [of m] by simp
  have "blocks64 (p @ tail64 m @ d) = blocks64 p @ [tail64 m @ d]"
    using blocks64_append [OF m(2)] blocks64_one [OF len] by simp
  moreover have "blocks64 (p @ tail64 m) = blocks64 p"
    using blocks64_append [OF m(2), of "tail64 m"] length_tail64 [of m] by simp
  ultimately show "blocks64 (m @ d) = blocks64 m @ [tail64 m @ d]"
    using arg_cong [OF m(1), of "\<lambda>x. blocks64 (x @ d)"] arg_cong [OF m(1), of blocks64] by simp
  have "(length m + length d) mod 64 = 0"
    using assms by (metis mod_add_left_eq mod_self)
  then show "tail64 (m @ d) = []"
    using length_tail64 [of "m @ d"] by simp
qed

definition sha1_absorbed_core :: "sha1_ctx \<Rightarrow> bytes \<Rightarrow> bool" where
  "sha1_absorbed_core ctx m \<longleftrightarrow>
     length (ctx_buf ctx) = 64 \<and> ctx_buf_len ctx = length m mod 64 \<and>
     take (ctx_buf_len ctx) (ctx_buf ctx) = tail64 m \<and>
     ctx_h ctx = foldl sha1_transform sha1_iv (blocks64 m)"

definition sha1_absorbed :: "sha1_ctx \<Rightarrow> bytes \<Rightarrow> bool" where
  "sha1_absorbed ctx m \<longleftrightarrow> sha1_absorbed_core ctx m \<and> ctx_len ctx = 8 * of_nat (length m)"

lemma sha1_step_absorbs:
  assumes abs: "sha1_absorbed_core ctx m" and le: "length m mod 64 + length d \<le> 64"
    and buf: "mem_cpy (ctx_buf ctx) (ctx_buf_len ctx) d = Some buf"
  defines "ctx1 \<equiv> ctx\<lparr>ctx_buf := buf, ctx_buf_len := ctx_buf_len ctx + length d\<rparr>"
  shows "sha1_absorbed_core
     (if ctx_buf_len ctx1 = 64
      then ctx1\<lparr>ctx_h := sha1_transform (ctx_h ctx1) (ctx_buf ctx1), ctx_buf_len := 0\<rparr>
      else ctx1) (m @ d)"
proof -
  have n: "ctx_buf_len ctx = length m mod 64" and b64: "length (ctx_buf ctx) = 64"
    and pre: "take (length m mod 64) (ctx_buf ctx) = tail64 m"
    and h: "ctx_h ctx = foldl sha1_transform sha1_iv (blocks64 m)"
    using abs by (auto simp: sha1_absorbed_core_def)
  have buf': "buf = tail64 m @ d @ drop (length m mod 64 + length d) (ctx_buf ctx)"
    using buf n pre by (simp add: mem_cpy_Some)
  have lbuf: "length buf = 64" using buf b64 by (auto dest: mem_cpy_length)
  show ?thesis
  proof (cases "length m mod 64 + length d = 64")
    case True
    then have full: "buf = tail64 m @ d" using buf' b64 by simp
    have "length (m @ d) mod 64 = 0"
      using length_tail64 [of "m @ d"] blocks64_add_full(2) [OF True] by simp
    then show ?thesis
      using True n lbuf full h blocks64_add_full [OF True]
      by (simp add: ctx1_def sha1_absorbed_core_def)
  next
    case False
    with le have lt: "length m mod 64 + length d < 64" by simp
    have "(length m + length d) mod 64 = length m mod 64 + length d"
      using lt by (metis mod_add_left_eq mod_less)
    moreover have "take (length m mod 64 + length d) buf = tail64 m @ d"
      using buf' length_tail64 [of m] by simp
    ultimately show ?thesis
      using False n lbuf h blocks64_add_partial [OF lt]
      by (simp add: ctx1_def sha1_absorbed_core_def)
  qed
qed

lemma sha1_update_loop_absorbs:
  "sha1_absorbed_core ctx m \<Longrightarrow>
   \<exists>ctx'. sha1_update_loop ctx data = Some ctx' \<and> sha1_absorbed_core ctx' (m @ data) \<and>
     ctx_len ctx' = ctx_len ctx"
proof (induction "length data" arbitrary: ctx m data rule: less_induct)
  case less
  show ?case
  proof (cases "data = []")
    case True
    with less.prems show ?thesis by (simp add: sha1_update_loop.simps)
  next
    case False
    let ?k = "min (64 - ctx_buf_len ctx) (length data)"
    have n: "ctx_buf_len ctx = length m mod 64" and b64: "length (ctx_buf ctx) = 64"
      using less.prems by (auto simp: sha1_absorbed_core_def)
    then have lt: "ctx_buf_len ctx < 64" by simp
    then have k: "0 < ?k" "?k \<le> length data" "ctx_buf_len ctx + ?k \<le> 64" using False by auto
    then obtain buf where buf: "mem_cpy (ctx_buf ctx) (ctx_buf_len ctx) (take ?k data) = Some buf"
      using b64 by (simp add: mem_cpy_def)
    define ctx1 where "ctx1 = ctx\<lparr>ctx_buf := buf, ctx_buf_len := ctx_buf_len ctx + ?k\<rparr>"
    define ctx2 where "ctx2 = (if ctx_buf_len ctx1 = 64
      then ctx1\<lparr>ctx_h := sha1_transform (ctx_h ctx1) (ctx_buf ctx1), ctx_buf_len := 0\<rparr> else ctx1)"
    have lk: "length (take ?k data) = ?k" using k(2) by simp
    have "sha1_absorbed_core ctx2 (m @ take ?k data)"
      using sha1_step_absorbs [OF less.prems _ buf] k(3) n
      unfolding ctx2_def ctx1_def lk by simp
    moreover have "length (drop ?k data) < length data" using k by simp
    ultimately obtain ctx' where
      "sha1_update_loop ctx2 (drop ?k data) = Some ctx'"
      "sha1_absorbed_core ctx' ((m @ take ?k data) @ drop ?k data)" "ctx_len ctx' = ctx_len ctx2"
      using less.hyps by blast
    moreover have "sha1_update_loop ctx data = sha1_update_loop ctx2 (drop ?k data)"
      using False lt buf by (simp add: sha1_update_loop.simps [of ctx data] ctx2_def ctx1_def Let_def)
    moreover have "ctx_len ctx2 = ctx_len ctx" by (simp add: ctx2_def ctx1_def)
    ultimately show ?thesis by simp
  qed
qed

lemma sha1_bit_count:
  assumes "n < 2 ^ 29"
  shows "(ucast (of_nat n * 8 :: u32) :: u64) = 8 * of_nat n"
proof -
  have "(of_nat n * 8 :: u32) = of_nat (8 * n)" by simp
  moreover have "unat (of_nat (8 * n) :: u32) = 8 * n"
    unfolding unsigned_of_nat using assms by (simp add: take_bit_nat_eq_self)
  ultimately have "(ucast (of_nat n * 8 :: u32) :: u64) = of_nat (8 * n)"
    by (metis of_nat_unat)
  then show ?thesis by simp
qed

lemma sha1_update_absorbs:
  assumes "sha1_absorbed ctx m" "length d < 2 ^ 29"
  shows "\<exists>ctx'. sha1_update ctx d = Some ctx' \<and> sha1_absorbed ctx' (m @ d)"
proof -
  let ?ctx = "ctx\<lparr>ctx_len := ctx_len ctx + ucast (of_nat (length d) * 8 :: u32)\<rparr>"
  have "sha1_absorbed_core ?ctx m"
    using assms(1) by (auto simp: sha1_absorbed_def sha1_absorbed_core_def)
  from sha1_update_loop_absorbs [OF this, of d] show ?thesis
    using assms sha1_bit_count [OF assms(2)]
    by (auto simp: sha1_update_def sha1_absorbed_def algebra_simps)
qed

lemma pad_zeros_fills:
  assumes "n \<le> lim" "lim \<le> length buf"
  shows "pad_zeros buf n lim = Some (take n buf @ replicate (lim - n) 0 @ drop lim buf, lim)"
  using assms
proof (induction "lim - n" arbitrary: buf n)
  case 0
  then show ?case by (simp add: pad_zeros.simps)
next
  case (Suc k)
  then have lt: "n < lim" "n < length buf" by auto
  have "pad_zeros (buf[n := 0]) (Suc n) lim =
      Some (take (Suc n) (buf[n := 0]) @ replicate (lim - Suc n) 0 @ drop lim (buf[n := 0]), lim)"
    using Suc lt by simp
  moreover have "replicate (lim - n) (0::u8) = 0 # replicate (lim - Suc n) 0"
    using lt by (metis Suc_diff_Suc replicate_Suc)
  ultimately show ?case
    using lt by (simp add: pad_zeros.simps [of buf n lim] mem_set_def take_update_at)
qed

lemma length_be64 [simp]: "length (be64 x) = 8"
  by (simp add: be64_def)


lemma sha1_final_digest:
  assumes "sha1_absorbed ctx m"
  shows "sha1_final ctx = Some (sha1_spec m)"
proof -
  let ?n = "length m mod 64" and ?z = "\<lambda>k. replicate k (0::u8)"
  let ?L = "be64 (8 * of_nat (length m))"
  obtain p k where m: "m = p @ tail64 m" "length p = 64 * k" by (rule message_split)
  have n: "ctx_buf_len ctx = ?n" and b64: "length (ctx_buf ctx) = 64"
    and pre: "take ?n (ctx_buf ctx) = tail64 m" and len: "ctx_len ctx = 8 * of_nat (length m)"
    and h: "ctx_h ctx = foldl sha1_transform sha1_iv (blocks64 m)"
    using assms by (auto simp: sha1_absorbed_def sha1_absorbed_core_def)
  have lt: "?n < 64" by simp
  define buf1 where "buf1 = (ctx_buf ctx)[?n := 0x80]"
  have b1: "length buf1 = 64" "take (Suc ?n) buf1 = tail64 m @ [0x80]"
    using b64 lt pre by (simp_all add: buf1_def take_update_at)
  have hp: "ctx_h ctx = foldl sha1_transform sha1_iv (blocks64 p)"
    using h blocks64_append [OF m(2), of "tail64 m"] length_tail64 [of m]
      arg_cong [OF m(1), of blocks64] by simp
  have blk: "blocks64 (p @ x) = blocks64 p @ blocks64 x" for x by (rule blocks64_append [OF m(2)])
  show ?thesis
  proof (cases "?n < 56")
    case True
    let ?last = "tail64 m @ [0x80] @ ?z (55 - ?n) @ ?L"
    have "pad_zeros buf1 (Suc ?n) 56 = Some (tail64 m @ [0x80] @ ?z (55 - ?n) @ drop 56 buf1, 56)"
      using True b1 by (simp add: pad_zeros_fills)
    moreover have "56 - ?n = Suc (55 - ?n)" "64 - ?n = Suc (63 - ?n)" using True by simp_all
    then have "mem_cpy (tail64 m @ [0x80] @ ?z (55 - ?n) @ drop 56 buf1) 56 ?L = Some ?last"
      using True b1 length_tail64 [of m] by (simp add: mem_cpy_def)
    ultimately have "sha1_final ctx = Some (sha1_digest (sha1_transform (ctx_h ctx) ?last))"
      using True n len b64 by (simp add: sha1_final_def mem_set_def buf1_def)
    moreover have "sha1_pad m = p @ ?last"
      using True arg_cong [OF m(1), of "\<lambda>x. x @ [0x80] @ ?z (55 - ?n) @ ?L"]
      by (simp add: sha1_pad_def Let_def)
    moreover have "blocks64 ?last = [?last]"
      using True length_tail64 [of m] by (intro blocks64_one) simp
    ultimately show ?thesis by (simp add: sha1_spec_def hp blk)
  next
    case False
    let ?b1 = "tail64 m @ [0x80] @ ?z (63 - ?n)" and ?b2 = "?z 56 @ ?L"
    have l1: "length ?b1 = 64" using length_tail64 [of m] lt by simp
    have "pad_zeros buf1 (Suc ?n) 64 = Some (?b1, 64)"
      using b1 lt by (simp add: pad_zeros_fills)
    moreover have "pad_zeros ?b1 0 56 = Some (?z 56 @ drop 56 ?b1, 56)"
      using l1 pad_zeros_fills [of 0 56 ?b1] by simp
    moreover have "mem_cpy (?z 56 @ drop 56 ?b1) 56 ?L = Some ?b2"
      using l1 by (subst mem_cpy_append) auto
    ultimately have "sha1_final ctx =
        Some (sha1_digest (sha1_transform (sha1_transform (ctx_h ctx) ?b1) ?b2))"
      using False n len b64 by (simp add: sha1_final_def mem_set_def buf1_def)
    moreover have "sha1_pad m = p @ ?b1 @ ?b2"
    proof -
      have "?z (119 - ?n) = ?z (63 - ?n) @ ?z 56"
        using lt by (simp add: replicate_add [symmetric])
      then show ?thesis
        using False arg_cong [OF m(1), of "\<lambda>x. x @ [0x80] @ ?z (119 - ?n) @ ?L"]
        by (simp add: sha1_pad_def Let_def)
    qed
    moreover have "blocks64 (?b1 @ ?b2) = [?b1, ?b2]"
      using blocks64_append [of ?b1 1 ?b2] l1 blocks64_one [OF l1] blocks64_one [of ?b2] by simp
    ultimately show ?thesis by (simp add: sha1_spec_def hp blk)
  qed
qed

interpretation sha1: streaming_hash sha1_update sha1_final sha1_absorbed sha1_spec "2 ^ 29"
  by unfold_locales (auto intro: sha1_update_absorbs sha1_final_digest)

lemma sha1_init_absorbed: "length stack = 64 \<Longrightarrow> sha1_absorbed (sha1_init stack) []"
  by (simp add: sha1_absorbed_def sha1_absorbed_core_def sha1_init_def tail64_def)


section \<open>Base64 round trip\<close>

lemma find_index_nth: "distinct xs \<Longrightarrow> i < length xs \<Longrightarrow> find_index (xs ! i) xs k = Some (k + i)"
proof (induction xs arbitrary: i k)
  case Nil
  then show ?case by simp
next
  case (Cons x xs)
  then show ?case by (cases i) auto
qed

lemma b64_table_eq: "b64_table =
    [65, 66, 67, 68, 69, 70, 71, 72, 73, 74, 75, 76, 77, 78, 79, 80,
     81, 82, 83, 84, 85, 86, 87, 88, 89, 90, 97, 98, 99, 100, 101, 102,
     103, 104, 105, 106, 107, 108, 109, 110, 111, 112, 113, 114, 115, 116, 117, 118,
     119, 120, 121, 122, 48, 49, 50, 51, 52, 53, 54, 55, 56, 57, 43, 47]"
  by (simp add: b64_table_def bytes_of_def)

lemma b64_table_facts: "distinct b64_table" "length b64_table = 64" "61 \<notin> set b64_table"
  unfolding b64_table_eq by simp_all

lemma b64_value_at: "x < 64 \<Longrightarrow> b64_value (b64_at x) = Some x \<and> b64_at x \<noteq> 61"
proof -
  assume "x < 64"
  then have "unat x < length b64_table"
    by (simp add: word_less_nat_alt b64_table_facts)
  with find_index_nth [OF b64_table_facts(1) this] b64_table_facts(3) show ?thesis
    by (auto simp: b64_value_def b64_at_def dest: nth_mem)
qed

lemma low_bits:
  fixes a :: u8
  shows "a AND 3 = take_bit 2 a" "a AND 15 = take_bit 4 a" "a AND 63 = take_bit 6 a"
  by (simp_all add: take_bit_eq_mask mask_eq_exp_minus_1)

lemma six_bits_less: "take_bit 6 x = x \<Longrightarrow> x < (64 :: u8)"
  using word_and_le1 [of x 63] by (simp add: low_bits word_less_nat_alt word_le_nat_alt)

lemma sextet_bounds:
  fixes a b :: u8
  shows "drop_bit 2 a < 64" "push_bit 4 (a AND 3) OR drop_bit 4 b < 64" "a AND 63 < 64"
    "push_bit 2 (b AND 15) OR drop_bit 6 a < 64" "push_bit 4 (a AND 3) < 64" "push_bit 2 (b AND 15) < 64"
  by (rule six_bits_less, rule bit_word_eqI,
      force simp: low_bits bit_simps dest: bit_imp_le_length)+

lemma sextets_join:
  fixes a b c :: u8
  shows "push_bit 2 (drop_bit 2 a) OR drop_bit 4 (push_bit 4 (a AND 3) OR drop_bit 4 b) = a"
    "push_bit 4 (push_bit 4 (a AND 3) OR drop_bit 4 b) OR drop_bit 2 (push_bit 2 (b AND 15) OR drop_bit 6 c) = b"
    "push_bit 6 (push_bit 2 (b AND 15) OR drop_bit 6 c) OR (c AND 63) = c"
    "push_bit 2 (drop_bit 2 a) OR drop_bit 4 (push_bit 4 (a AND 3)) = a"
    "push_bit 4 (push_bit 4 (a AND 3) OR drop_bit 4 b) OR drop_bit 2 (push_bit 2 (b AND 15)) = b"
  by (rule u8_eqI; simp add: low_bits bit_simps)+


lemma base64_decode_encode: "base64_decode (base64_encode xs) = Some xs"
  by (induction xs rule: base64_encode.induct)
    (simp_all add: b64_value_at sextet_bounds sextets_join
      del: push_bit_and push_bit_or drop_bit_and drop_bit_or)

lemma length_base64_encode: "length (base64_encode xs) = 4 * ((length xs + 2) div 3)"
proof (induction xs rule: base64_encode.induct)
  case (1 a b c rest)
  have "(5 + length rest) div 3 = (length rest + 2) div 3 + 1" by presburger
  with 1 show ?case by simp
qed simp_all

section \<open>Properties\<close>

text \<open>C30: Feeding a message to the SHA-1 context in chunks of any size (each under half a gigabyte) and
  finishing gives the digest of the reference applied to the whole message: the streaming code
  pads and splits exactly as the standard's one-shot definition, without touching memory outside
  its 64-byte buffer.\<close>

theorem sha1_streaming_correct:
  assumes "length stack = 64" and "\<forall>d \<in> set chunks. length d < 2 ^ 29"
  shows "(do { c \<leftarrow> absorb_all sha1_update (sha1_init stack) chunks; sha1_final c })
    = Some (sha1_spec (concat chunks))"
  using sha1.hash_of_chunks [OF sha1_init_absorbed [OF assms(1)] assms(2)] by simp

theorem sha1_streaming_correct_witness:
  "(do { c \<leftarrow> absorb_all sha1_update (sha1_init (replicate 64 0)) [[97], [98, 99], []]; sha1_final c })
    = Some (sha1_spec [97, 98, 99])"
  using sha1_streaming_correct [of "replicate 64 0" "[[97], [98, 99], []]"] by simp

text \<open>Base64 encoding loses nothing: the reference decoder returns the input bytes for every
  input length, and the text has four characters per started group of three bytes.\<close>

theorem base64_roundtrip:
  "base64_decode (base64_encode xs) = Some xs \<and> length (base64_encode xs) = 4 * ((length xs + 2) div 3)"
  by (simp add: base64_decode_encode length_base64_encode)

end
