(* ===== verification/Websocket.thy ===== *)
theory Websocket
  imports Crypto
begin

text \<open>
  \<^verbatim>\<open>src/src/websocket.cpp\<close> and \<^verbatim>\<open>src/inc/websocket.h\<close>: the handshake, the frame codec and one turn
  of the server task as a function of what the socket layer, the queue and the clock deliver.
  Calls into lwIP are recorded as actions; their results are fields of the environment record.
  A frame handler works in place on the 512-byte receive buffer, and an access outside it is \<open>None\<close>.
\<close>

section \<open>The code: frames\<close>

datatype ws_action = Send int bytes | Close int | Deliver nat nat u8

record ws_client =
  ws_socket :: int
  ws_established :: bool

definition is_masked_msg :: "bytes \<Rightarrow> bool option" where
  "is_masked_msg msg = do { b1 \<leftarrow> mem_get msg 1; Some (b1 AND 0x80 \<noteq> 0) }"

definition is_fin_msg :: "bytes \<Rightarrow> bool option" where
  "is_fin_msg msg = do { b0 \<leftarrow> mem_get msg 0; Some (b0 AND 0x80 \<noteq> 0) }"

definition get_message_len :: "bytes \<Rightarrow> u32 option" where
  "get_message_len msg = do {
     b1 \<leftarrow> mem_get msg 1;
     if b1 AND 0x7F = 126 then do {
       b2 \<leftarrow> mem_get msg 2;
       b3 \<leftarrow> mem_get msg 3;
       Some (push_bit 8 (ucast b2) OR ucast b3)
     }
     else if b1 AND 0x7F = 127 then Some 0
     else Some (ucast (b1 AND 0x7F))
   }"

definition get_mask :: "bytes \<Rightarrow> nat option" where
  "get_mask msg = do {
     b1 \<leftarrow> mem_get msg 1;
     Some (if b1 AND 0x7F = 126 then 4 else if b1 AND 0x7F = 127 then 10 else 2)
   }"

definition get_payload_ptr :: "bytes \<Rightarrow> nat option" where
  "get_payload_ptr msg = do {
     b1 \<leftarrow> mem_get msg 1;
     let p = (if b1 AND 0x7F = 126 then 4 else if b1 AND 0x7F = 127 then 10 else 2);
     masked \<leftarrow> is_masked_msg msg;
     Some (if masked then p + 4 else p)
   }"

text \<open>The loop \<^verbatim>\<open>pld[i] = mask[i % 4] ^ pld[i]\<close>, both pointers into the same buffer.\<close>

fun unmask_loop :: "bytes \<Rightarrow> nat \<Rightarrow> nat \<Rightarrow> nat \<Rightarrow> nat \<Rightarrow> bytes option" where
  "unmask_loop buf pld msk i 0 = Some buf"
| "unmask_loop buf pld msk i (Suc n) = do {
     k \<leftarrow> mem_get buf (msk + i mod 4);
     x \<leftarrow> mem_get buf (pld + i);
     buf' \<leftarrow> mem_set buf (pld + i) (k XOR x);
     unmask_loop buf' pld msk (Suc i) n
   }"

definition unmask_message_payload :: "bytes \<Rightarrow> nat \<Rightarrow> u32 \<Rightarrow> nat \<Rightarrow> bytes option" where
  "unmask_message_payload buf pld len msk = unmask_loop buf pld msk 0 (unat len)"

definition handle_frame ::
  "bool \<Rightarrow> ws_client \<Rightarrow> bytes \<Rightarrow> int \<Rightarrow> (ws_client \<times> bytes \<times> ws_action list) option" where
  "handle_frame has_handler client buf len =
     (if len < 2 then Some (client, buf, [])
      else do {
        b1 \<leftarrow> mem_get buf 1;
        masked \<leftarrow> is_masked_msg buf;
        let len_byte = b1 AND 0x7F;
        let required = (if len_byte = 126 then 4 else if len_byte = 127 then 10 else 2)
                       + (if masked then 4 else 0);
        if len < required then Some (client, buf, [])
        else do {
          b0 \<leftarrow> mem_get buf 0;
          let op = b0 AND 0x0F;
          if op = 0x09 then Some (client, buf, [Send (ws_socket client) [0x8A, 0]])
          else if op = 0x0A then Some (client, buf, [])
          else if op = 0x08 then
            Some (client\<lparr>ws_socket := - 1, ws_established := False\<rparr>, buf,
                  [Send (ws_socket client) [0x88, 0], Close (ws_socket client)])
          else do {
            fin \<leftarrow> is_fin_msg buf;
            if \<not> fin then Some (client, buf, [])
            else do {
              n \<leftarrow> get_message_len buf;
              payload \<leftarrow> get_payload_ptr buf;
              buf' \<leftarrow> (if masked then do {
                         msk \<leftarrow> get_mask buf;
                         unmask_message_payload buf payload n msk
                       } else Some buf);
              Some (client, buf', if has_handler then [Deliver payload (unat n) op] else [])
            }
          }
        }
      })"

definition WS_SEND_BUFFER_SIZE :: nat where "WS_SEND_BUFFER_SIZE = 512"
definition WS_RECV_BUFFER_SIZE :: nat where "WS_RECV_BUFFER_SIZE = 512"

definition set_size_to_frame :: "u32 \<Rightarrow> bytes \<Rightarrow> nat \<Rightarrow> (bytes \<times> nat) option" where
  "set_size_to_frame sz buf p =
     (if sz < 126 then do {
        buf \<leftarrow> mem_set buf p (ucast sz);
        Some (buf, p + 1)
      } else if sz < 65536 then do {
        buf \<leftarrow> mem_set buf p 126;
        buf \<leftarrow> mem_set buf (p + 1) (ucast (drop_bit 8 sz AND 0xFF));
        buf \<leftarrow> mem_set buf (p + 2) (ucast (sz AND 0xFF));
        Some (buf, p + 3)
      } else do {
        buf \<leftarrow> mem_set buf p 127;
        buf \<leftarrow> mem_cpy buf (p + 1) (replicate 6 0);
        buf \<leftarrow> mem_set buf (p + 7) (ucast (drop_bit 8 sz AND 0xFF));
        buf \<leftarrow> mem_set buf (p + 8) (ucast (sz AND 0xFF));
        Some (buf, p + 9)
      })"

definition set_data_to_frame :: "bytes \<Rightarrow> u32 \<Rightarrow> bytes \<Rightarrow> nat \<Rightarrow> (bytes \<times> nat) option" where
  "set_data_to_frame data sz buf p = do {
     xs \<leftarrow> mem_read data 0 (unat sz);
     buf \<leftarrow> mem_cpy buf p xs;
     Some (buf, p + unat sz)
   }"

record ws_message =
  msg_data :: bytes
  msg_size :: u32
  msg_type :: u8

text \<open>\<open>msg_size + 10\<close> is unsigned 32-bit arithmetic in the source.\<close>

definition send_message :: "ws_client \<Rightarrow> ws_message \<Rightarrow> ws_action list option" where
  "send_message client msg =
     (if msg_size msg + 10 > of_nat WS_SEND_BUFFER_SIZE then Some []
      else if \<not> ws_established client then Some []
      else do {
        buf \<leftarrow> mem_set (replicate WS_SEND_BUFFER_SIZE 0) 0 (msg_type msg OR 0x80);
        (buf, p) \<leftarrow> set_size_to_frame (msg_size msg) buf 1;
        (buf, p) \<leftarrow> set_data_to_frame (msg_data msg) (msg_size msg) buf p;
        Some [Send (ws_socket client) (take p buf)]
      })"

section \<open>The code: handshake\<close>

definition WS_GUID :: bytes where
  "WS_GUID = bytes_of ''258EAFA5-E914-47DA-95CA-C5AB0DC85B11''"

definition crlf :: bytes where "crlf = [13, 10]"

definition ws_header :: bytes where
  "ws_header = bytes_of ''HTTP/1.1 101 Switching Protocols'' @ crlf @
     bytes_of ''Upgrade: websocket'' @ crlf @ bytes_of ''Connection: Upgrade'' @ crlf @
     bytes_of ''Sec-WebSocket-Accept: ''"

text \<open>\<open>Inl ()\<close> is the \<open>NULL\<close> return.\<close>

definition get_key :: "bytes \<Rightarrow> (unit + bytes) option" where
  "get_key buf = do {
     text \<leftarrow> cstr_at buf 0;
     let pat = bytes_of ''Sec-WebSocket-Key: '';
     (case strstr text pat of
        None \<Rightarrow> Some (Inl ())
      | Some i \<Rightarrow>
          (let p = drop (i + length pat) text
           in (case strchr p 13 of
                 None \<Rightarrow> Some (Inl ())
               | Some n \<Rightarrow> Some (Inr (take n p)))))
   }"

text \<open>
  \<open>stack\<close> is the uninitialised 64-byte block of the hash context; \<open>concat_key\<close> has 128 bytes,
  of which at most \<open>128 - 36 - 1\<close> come from the request.
\<close>

definition create_key_accept :: "bytes \<Rightarrow> bytes \<Rightarrow> (unit + bytes) option" where
  "create_key_accept stack inbuf = do {
     k \<leftarrow> get_key inbuf;
     (case k of
        Inl u \<Rightarrow> Some (Inl u)
      | Inr key \<Rightarrow> do {
          let copy_len = min (length key) (128 - length WS_GUID - 1);
          concat_key \<leftarrow> mem_cpy (replicate 128 0) 0 (take copy_len key);
          concat_key \<leftarrow> mem_cpy concat_key copy_len WS_GUID;
          ctx \<leftarrow> sha1_update (sha1_init stack) (take (copy_len + length WS_GUID) concat_key);
          hash \<leftarrow> sha1_final ctx;
          Some (Inr (base64_encode hash))
        })
   }"

text \<open>\<open>send_rc\<close> is what \<open>lwip_send\<close> returns for the response.\<close>

definition process_handshake ::
  "bytes \<Rightarrow> int \<Rightarrow> ws_client \<Rightarrow> bytes \<Rightarrow> (bool \<times> ws_action list) option" where
  "process_handshake stack send_rc client buf =
     (if take 5 buf \<noteq> bytes_of ''GET /'' then Some (False, [])
      else do {
        r \<leftarrow> create_key_accept stack buf;
        (case r of
           Inl _ \<Rightarrow> Some (False, [])
         | Inr accept \<Rightarrow>
             (let response = ws_header @ accept @ crlf @ crlf;
                  written = length response;
                  response_len = (if written < WS_SEND_BUFFER_SIZE then written
                                  else WS_SEND_BUFFER_SIZE - 1)
              in Some (send_rc \<ge> 0, [Send (ws_socket client) (take response_len response)])))
      })"

section \<open>The code: one turn of the task\<close>

record ws_server =
  ws_client_of :: ws_client
  ws_queue :: "bytes list"
  ws_last_status :: u32
  ws_has_handler :: bool

record ws_env =
  env_listen_select :: int
  env_accept :: int
  env_select :: int
  env_fd_set :: bool
  env_recv :: "int \<times> bytes"
  env_send_rc :: int
  env_ticks :: u32
  env_status :: bytes
  env_stack :: bytes

definition ws_new_client :: ws_client where
  "ws_new_client = \<lparr>ws_socket = - 1, ws_established = False\<rparr>"

definition ws_drop :: "ws_client \<Rightarrow> ws_client" where
  "ws_drop c = c\<lparr>ws_socket := - 1, ws_established := False\<rparr>"

text \<open>The accept branch, taken while no client is connected.\<close>

definition ws_accept :: "ws_env \<Rightarrow> ws_client \<Rightarrow> ws_client" where
  "ws_accept e c =
     (if env_listen_select e > 0 \<and> env_accept e \<ge> 0 then c\<lparr>ws_socket := env_accept e\<rparr> else c)"

text \<open>
  The receive branch. A disconnect does not leave the branch: the (zeroed) buffer is then
  examined as a handshake.
\<close>

definition ws_receive ::
  "ws_env \<Rightarrow> bool \<Rightarrow> ws_client \<Rightarrow> (ws_client \<times> ws_action list) option" where
  "ws_receive e has_handler c0 = (
     let (recv_bytes, data) = env_recv e in do {
       recv_buf \<leftarrow> mem_cpy (replicate WS_RECV_BUFFER_SIZE 0) 0 (if recv_bytes > 0 then data else []);
       let (c, acts) = (if recv_bytes \<le> 0 then (ws_drop c0, [Close (ws_socket c0)]) else (c0, []));
       if \<not> ws_established c then do {
         (ok, acts') \<leftarrow> process_handshake (env_stack e) (env_send_rc e) c recv_buf;
         Some (if ok then (c\<lparr>ws_established := True\<rparr>, acts @ acts')
               else (c\<lparr>ws_socket := - 1\<rparr>, acts @ acts' @ [Close (ws_socket c)]))
       } else do {
         (c', _, acts') \<leftarrow> handle_frame has_handler c recv_buf recv_bytes;
         Some (c', acts @ acts')
       }
     })"

text \<open>Draining the queue: every message is taken out, and sent if the client is established.\<close>

fun ws_drain :: "ws_client \<Rightarrow> bytes list \<Rightarrow> ws_action list option" where
  "ws_drain c [] = Some []"
| "ws_drain c (m # ms) = do {
     acts \<leftarrow> (if ws_established c
             then send_message c \<lparr>msg_data = m, msg_size = of_nat (length m), msg_type = 0x01\<rparr>
             else Some []);
     rest \<leftarrow> ws_drain c ms;
     Some (acts @ rest)
   }"

definition WS_QUEUE_LENGTH :: nat where "WS_QUEUE_LENGTH = 10"

definition ws_task_step :: "ws_env \<Rightarrow> ws_server \<Rightarrow> (ws_server \<times> ws_action list) option" where
  "ws_task_step e s = do {
     let c = ws_client_of s;
     (c, acts) \<leftarrow> (if ws_socket c < 0 then Some (ws_accept e c, [])
                  else if env_select e > 0 \<and> env_fd_set e then ws_receive e (ws_has_handler s) c
                  else if env_select e < 0 then Some (ws_drop c, [Close (ws_socket c)])
                  else Some (c, []));
     let due = ws_established c \<and> env_ticks e - ws_last_status s \<ge> 500;
     let queue = (if due \<and> length (ws_queue s) < WS_QUEUE_LENGTH
                  then ws_queue s @ [env_status e] else ws_queue s);
     sent \<leftarrow> ws_drain c queue;
     Some (s\<lparr>ws_client_of := c, ws_queue := [],
             ws_last_status := (if due then env_ticks e else ws_last_status s)\<rparr>, acts @ sent)
   }"

section \<open>Reference: client frames and frame parsing\<close>

fun mask_from :: "bytes \<Rightarrow> nat \<Rightarrow> bytes \<Rightarrow> bytes" where
  "mask_from key i [] = []"
| "mask_from key i (x # xs) = (key ! (i mod 4) XOR x) # mask_from key (Suc i) xs"

definition mask_bytes :: "bytes \<Rightarrow> bytes \<Rightarrow> bytes" where
  "mask_bytes key xs = mask_from key 0 xs"

text \<open>A masked single-frame message as a client sends it.\<close>

definition client_frame :: "u8 \<Rightarrow> bytes \<Rightarrow> bytes \<Rightarrow> bytes" where
  "client_frame op key payload =
     [0x80 OR op] @
     (if length payload < 126 then [0x80 OR of_nat (length payload)]
      else [0x80 OR 126, of_nat (length payload div 256), of_nat (length payload mod 256)]) @
     key @ mask_bytes key payload"

text \<open>An unmasked frame as a client parses it: final flag, opcode and payload.\<close>

fun parse_frame :: "bytes \<Rightarrow> (bool \<times> u8 \<times> bytes) option" where
  "parse_frame (b0 # b1 # rest) =
     (let (n, body) =
        (if b1 = 126 then (256 * unat (rest ! 0) + unat (rest ! 1), drop 2 rest)
         else (unat b1, rest))
      in if b1 < 127 \<and> length body = n then Some (b0 AND 0x80 \<noteq> 0, b0 AND 0x0F, body) else None)"
| "parse_frame _ = None"

section \<open>Unmasking\<close>

lemma length_mask_from [simp]: "length (mask_from key i xs) = length xs"
  by (induction xs arbitrary: i) auto

lemma mask_from_involutive [simp]: "mask_from key i (mask_from key i xs) = xs"
  by (induction xs arbitrary: i) auto

lemma unmask_loop_step:
  assumes "length hdr = m" "length key = 4"
  shows "unmask_loop (hdr @ key @ pre @ x # xs) (m + 4) m (length pre) (Suc n) =
    unmask_loop (hdr @ key @ (pre @ [key ! (length pre mod 4) XOR x]) @ xs) (m + 4) m (Suc (length pre)) n"
proof -
  have "mem_get (hdr @ key @ pre @ x # xs) (m + length pre mod 4) = Some (key ! (length pre mod 4))"
    using assms by (auto simp: mem_get_def nth_append)
  moreover have "mem_get (hdr @ key @ pre @ x # xs) (m + 4 + length pre) = Some x"
    using assms by (auto simp: mem_get_def nth_append)
  moreover have "mem_set (hdr @ key @ pre @ x # xs) (m + 4 + length pre) y =
      Some (hdr @ key @ (pre @ [y]) @ xs)" for y
    using assms by (auto simp: mem_set_def list_update_append)
  ultimately show ?thesis by simp
qed

lemma unmask_loop_body:
  assumes "length hdr = m" "length key = 4"
  shows "unmask_loop (hdr @ key @ pre @ body @ rest) (m + 4) m (length pre) (length body) =
    Some (hdr @ key @ pre @ mask_from key (length pre) body @ rest)"
proof (induction body arbitrary: pre)
  case Nil
  show ?case by simp
next
  case (Cons x body)
  from Cons.IH [of "pre @ [key ! (length pre mod 4) XOR x]"] show ?case
    using unmask_loop_step [OF assms, of pre x "body @ rest" "length body"] by simp
qed

text \<open>A payload that does not fit runs out of the buffer.\<close>

lemma unmask_loop_overrun:
  "length buf < pld + i + n \<Longrightarrow> i + pld \<le> length buf \<Longrightarrow> unmask_loop buf pld msk i n = None"
proof (induction n arbitrary: buf i)
  case 0
  then show ?case by simp
next
  case (Suc n)
  show ?case
  proof (cases "pld + i < length buf")
    case True
    then have "unmask_loop (buf[pld + i := y]) pld msk (Suc i) n = None" for y
      using Suc by simp
    with True show ?thesis by (cases "mem_get buf (msk + i mod 4)") (simp_all add: mem_set_def)
  next
    case False
    then show ?thesis by (cases "mem_get buf (msk + i mod 4)") (simp_all add: mem_get_def)
  qed
qed

lemma unmask_loop_safe:
  "pld + i + n \<le> length buf \<Longrightarrow> msk + 4 \<le> length buf \<Longrightarrow>
   \<exists>buf'. unmask_loop buf pld msk i n = Some buf' \<and> length buf' = length buf"
proof (induction n arbitrary: buf i)
  case 0
  then show ?case by simp
next
  case (Suc n)
  have "msk + i mod 4 < length buf" using Suc.prems(2) by (meson add_less_cancel_left less_le_trans mod_less_divisor zero_less_numeral)
  with Suc.prems Suc.IH [of "Suc i" "buf[pld + i := buf ! (msk + i mod 4) XOR buf ! (pld + i)]"]
  show ?case by (simp add: mem_set_def)
qed

section \<open>Frames from a client\<close>

lemma of_nat_less_128: "n < 128 \<Longrightarrow> (of_nat n :: u8) < 128"
  by (simp add: word_less_nat_alt unsigned_of_nat take_bit_nat_eq_self)

lemma unat_of_nat_u8: "n < 256 \<Longrightarrow> unat (of_nat n :: u8) = n"
  by (simp add: unsigned_of_nat take_bit_nat_eq_self)

definition header_len :: "nat \<Rightarrow> nat" where
  "header_len n = (if n < 126 then 2 else 4)"

definition frame_header :: "u8 \<Rightarrow> nat \<Rightarrow> bytes" where
  "frame_header op n = [0x80 OR op] @
     (if n < 126 then [0x80 OR of_nat n] else [0x80 OR 126, of_nat (n div 256), of_nat (n mod 256)])"

lemma client_frame_eq:
  "client_frame op key payload = frame_header op (length payload) @ key @ mask_bytes key payload"
  by (simp add: client_frame_def frame_header_def)

lemma length_frame_header: "length (frame_header op n) = header_len n"
  by (simp add: frame_header_def header_len_def)

lemma frame_header_fields:
  fixes xs :: bytes
  assumes op: "op < 16" and n: "n < 65536"
  defines "buf \<equiv> frame_header op n @ xs"
  shows "\<exists>b1. mem_get buf 1 = Some b1 \<and> b1 AND 0x7F = (if n < 126 then of_nat n else 126)"
    and "is_masked_msg buf = Some True" and "mem_get buf 0 = Some (0x80 OR op)"
    and "is_fin_msg buf = Some True" and "get_mask buf = Some (header_len n)"
    and "get_payload_ptr buf = Some (header_len n + 4)"
    and "\<exists>len. get_message_len buf = Some len \<and> unat len = n"
proof -
  have small: "(of_nat n :: u8) < 128" "(of_nat n :: u8) \<noteq> 126" "(of_nat n :: u8) \<noteq> 127"
    if "n < 126"
    using that of_nat_less_128 [of n] unat_of_nat_u8 [of n] by auto
  have b0: "(0x80 OR op) AND 0x80 = 0x80"
    using op by (intro top_bit_or) (auto simp: word_less_nat_alt)
  show "\<exists>b1. mem_get buf 1 = Some b1 \<and> b1 AND 0x7F = (if n < 126 then of_nat n else 126)"
    using small by (simp add: buf_def frame_header_def top_bit_or)
  show masked: "is_masked_msg buf = Some True"
    using small by (simp add: buf_def frame_header_def is_masked_msg_def top_bit_or)
  show "mem_get buf 0 = Some (0x80 OR op)" by (simp add: buf_def frame_header_def)
  show "is_fin_msg buf = Some True"
    using b0 by (simp add: buf_def frame_header_def is_fin_msg_def)
  show "get_mask buf = Some (header_len n)"
    using small by (simp add: buf_def frame_header_def get_mask_def header_len_def top_bit_or)
  show "get_payload_ptr buf = Some (header_len n + 4)"
    using small masked
    by (simp add: buf_def frame_header_def get_payload_ptr_def header_len_def top_bit_or)
  show "\<exists>len. get_message_len buf = Some len \<and> unat len = n"
  proof (cases "n < 126")
    case True
    then have "unat (ucast (of_nat n :: u8) :: u32) = n"
      using unat_of_nat_u8 [of n] by (simp add: unsigned_ucast_eq take_bit_nat_eq_self)
    with True small show ?thesis
      by (simp add: buf_def frame_header_def get_message_len_def top_bit_or)
  next
    case False
    have "unat (of_nat (n div 256) :: u8) = n div 256" "unat (of_nat (n mod 256) :: u8) = n mod 256"
      using n by (simp_all add: unat_of_nat_u8)
    then have "unat (push_bit 8 (ucast (of_nat (n div 256) :: u8)) OR ucast (of_nat (n mod 256) :: u8) :: u32) = n"
      unfolding unat_or_shift8 by simp
    with False show ?thesis
      by (simp add: buf_def frame_header_def get_message_len_def)
  qed
qed

text \<open>The data branch of the handler on any buffer that starts with such a header.\<close>

lemma handle_data_frame:
  assumes op: "op < 16" "op \<noteq> 8" "op \<noteq> 9" "op \<noteq> 10" and n: "n < 65536"
    and len: "int (header_len n + 4) \<le> len"
  shows "handle_frame hh c (frame_header op n @ xs) len = do {
    buf' \<leftarrow> unmask_loop (frame_header op n @ xs) (header_len n + 4) (header_len n) 0 n;
    Some (c, buf', if hh then [Deliver (header_len n + 4) n op] else []) }"
proof -
  let ?buf = "frame_header op n @ xs"
  note f = frame_header_fields [OF op(1) n, of xs]
  obtain b1 where b1: "mem_get ?buf 1 = Some b1" "b1 AND 0x7F = (if n < 126 then of_nat n else 126)"
    using f(1) by blast
  obtain l where l: "get_message_len ?buf = Some l" "unat l = n" using f(7) by blast
  have "(of_nat n :: u8) \<noteq> 126" "(of_nat n :: u8) \<noteq> 127" if "n < 126"
    using that unat_of_nat_u8 [of n] by auto
  then have req: "(if b1 AND 0x7F = 126 then 4 else if b1 AND 0x7F = 127 then 10 else 2 :: int)
      = int (header_len n)"
    using b1(2) by (auto simp: header_len_def)
  have "2 \<le> len" using len by (simp add: header_len_def)
  then show ?thesis
    using f(2-6) b1 l len req op
    by (simp add: handle_frame_def low_nibble_or unmask_message_payload_def Let_def del: mem_get_simps)
qed

section \<open>Frames to a client\<close>

lemma size_field_bytes:
  fixes sz :: u32
  assumes "sz < 65536"
  shows "256 * unat (ucast (drop_bit 8 sz AND 0xFF) :: u8) + unat (ucast (sz AND 0xFF) :: u8) = unat sz"
proof -
  have lt: "unat sz < 65536" using assms by (simp add: word_less_nat_alt)
  have "unat (drop_bit 8 sz) = unat sz div 256" by (simp only: unat_drop_bit) simp
  then show ?thesis
    using lt by (simp add: unat_and_255 unsigned_ucast_eq take_bit_nat_eq_self)
qed

lemma set_size_to_frame_bytes:
  assumes "sz < 65536" "p + 3 \<le> length buf"
  shows "\<exists>buf' enc. set_size_to_frame sz buf p = Some (buf', p + length enc) \<and>
    length buf' = length buf \<and> take (p + length enc) buf' = take p buf @ enc \<and>
    enc = (if sz < 126 then [ucast sz]
           else [126, ucast (drop_bit 8 sz AND 0xFF), ucast (sz AND 0xFF)])"
proof (cases "sz < 126")
  case True
  have p: "p < length buf" using assms(2) by simp
  obtain b1 where b1: "mem_set buf p (ucast sz) = Some b1" "length b1 = length buf"
      "take (Suc p) b1 = take p buf @ [ucast sz]"
    using mem_set_cursor [OF p] by metis
  with True show ?thesis by (simp add: set_size_to_frame_def)
next
  case False
  have p: "p < length buf" "Suc p < length buf" "Suc (Suc p) < length buf" using assms(2) by auto
  obtain b1 where b1: "mem_set buf p 126 = Some b1" "length b1 = length buf"
      "take (Suc p) b1 = take p buf @ [126]"
    using mem_set_cursor [OF p(1)] by metis
  obtain b2 where b2: "mem_set b1 (Suc p) (ucast (drop_bit 8 sz AND 0xFF)) = Some b2"
      "length b2 = length buf" "take (Suc (Suc p)) b2 = take (Suc p) b1 @ [ucast (drop_bit 8 sz AND 0xFF)]"
    using mem_set_cursor [of "Suc p" b1] p b1(2) by metis
  obtain b3 where b3: "mem_set b2 (Suc (Suc p)) (ucast (sz AND 0xFF)) = Some b3"
      "length b3 = length buf"
      "take (Suc (Suc (Suc p))) b3 = take (Suc (Suc p)) b2 @ [ucast (sz AND 0xFF)]"
    using mem_set_cursor [of "Suc (Suc p)" b2] p b2(2) by metis
  show ?thesis
    using False assms(1) b1 b2 b3 by (simp add: set_size_to_frame_def numeral_3_eq_3)
qed

lemma send_message_frame:
  assumes est: "ws_established c" and size: "msg_size m \<le> 502"
    and data: "unat (msg_size m) \<le> length (msg_data m)"
  shows "\<exists>enc. enc = (if msg_size m < 126 then [ucast (msg_size m)]
           else [126, ucast (drop_bit 8 (msg_size m) AND 0xFF), ucast (msg_size m AND 0xFF)]) \<and>
     send_message c m = Some [Send (ws_socket c)
       ([msg_type m OR 0x80] @ enc @ take (unat (msg_size m)) (msg_data m))]"
proof -
  let ?sz = "msg_size m" and ?B = "replicate 512 (0::u8)"
  have u: "unat ?sz \<le> 502" using size by (simp add: word_le_nat_alt)
  then have lt: "?sz < 65536" by (simp add: word_less_nat_alt)
  have "unat (?sz + 10) = unat ?sz + 10"
    using u by (simp add: unat_word_ariths)
  then have fits: "\<not> ?sz + 10 > of_nat WS_SEND_BUFFER_SIZE"
    using u by (simp add: word_less_nat_alt WS_SEND_BUFFER_SIZE_def)
  obtain b0 where b0: "mem_set ?B 0 (msg_type m OR 0x80) = Some b0" "length b0 = 512"
      "take (Suc 0) b0 = [msg_type m OR 0x80]"
    using mem_set_cursor [of 0 ?B] by (metis length_replicate take0 self_append_conv2 zero_less_numeral)
  obtain b1 enc where b1: "set_size_to_frame ?sz b0 1 = Some (b1, 1 + length enc)" "length b1 = 512"
      "take (1 + length enc) b1 = take 1 b0 @ enc"
      "enc = (if ?sz < 126 then [ucast ?sz] else [126, ucast (drop_bit 8 ?sz AND 0xFF), ucast (?sz AND 0xFF)])"
    using set_size_to_frame_bytes [OF lt, of 1 b0] b0(2) by auto
  have "length enc \<le> 3" using b1(4) by simp
  then have "1 + length enc + length (take (unat ?sz) (msg_data m)) \<le> length b1"
    using u b1(2) data by simp
  from mem_cpy_cursor [OF this] obtain b2 where
    b2: "mem_cpy b1 (1 + length enc) (take (unat ?sz) (msg_data m)) = Some b2"
      "take (1 + length enc + length (take (unat ?sz) (msg_data m))) b2 =
       take (1 + length enc) b1 @ take (unat ?sz) (msg_data m)" by metis
  have "set_data_to_frame (msg_data m) ?sz b1 (1 + length enc) = Some (b2, 1 + length enc + unat ?sz)"
    using data b2(1) by (simp add: set_data_to_frame_def mem_read_def)
  then show ?thesis
    using est fits b0 b1 b2(2) data
    by (simp add: send_message_def WS_SEND_BUFFER_SIZE_def)
qed

section \<open>Handshake\<close>

lemma length_WS_GUID: "length WS_GUID = 36"
  by (simp add: WS_GUID_def)

lemma get_key_found:
  assumes "cstr_at buf 0 = Some txt"
    and "txt = pre @ bytes_of ''Sec-WebSocket-Key: '' @ key @ 13 # post"
    and "strstr txt (bytes_of ''Sec-WebSocket-Key: '') = Some (length pre)" and "13 \<notin> set key"
  shows "get_key buf = Some (Inr key)"
  using assms by (simp add: get_key_def Let_def strchr_append)

lemma length_sha1_spec: "length (sha1_spec m) = 20"
  by (cases "foldl sha1_transform sha1_iv (blocks64 (sha1_pad m))") (simp add: sha1_spec_def be32_def)

lemma create_key_accept_eq:
  assumes "get_key buf = Some (Inr key)" and "length stack = 64" and "length key \<le> 91"
  shows "create_key_accept stack buf = Some (Inr (base64_encode (sha1_spec (key @ WS_GUID))))"
proof -
  have "mem_cpy (replicate 128 0) 0 key = Some (key @ replicate (128 - length key) 0)"
    using assms(3) by (simp add: mem_cpy_def)
  moreover have "mem_cpy (key @ replicate (128 - length key) 0) (length key) WS_GUID =
      Some (key @ WS_GUID @ replicate (92 - length key) 0)"
    using assms(3) by (simp add: mem_cpy_append length_WS_GUID)
  moreover obtain ctx where "sha1_update (sha1_init stack) (key @ WS_GUID) = Some ctx"
      "sha1_absorbed ctx ([] @ key @ WS_GUID)"
    using sha1.update_absorbs [OF sha1_init_absorbed [OF assms(2)], of "key @ WS_GUID"] assms(3)
    by (auto simp: length_WS_GUID)
  ultimately show ?thesis
    using assms sha1.final_spec by (simp add: create_key_accept_def length_WS_GUID Let_def min_absorb1)
qed

section \<open>The task\<close>

definition ws_inv :: "ws_server \<Rightarrow> bool" where
  "ws_inv s \<longleftrightarrow> (ws_established (ws_client_of s) \<longrightarrow> ws_socket (ws_client_of s) \<ge> 0)
     \<and> length (ws_queue s) \<le> WS_QUEUE_LENGTH"

definition is_deliver :: "ws_action \<Rightarrow> bool" where
  "is_deliver a = (case a of Deliver _ _ _ \<Rightarrow> True | _ \<Rightarrow> False)"

lemma handle_frame_client:
  assumes "handle_frame hh c buf len = Some (c', buf', acts)"
  shows "c' = c \<or> c' = ws_drop c"
  using assms by (auto simp: handle_frame_def ws_drop_def Let_def split: if_splits Option.bind_splits)

lemma process_handshake_acts:
  "process_handshake st rc c buf = Some (ok, acts) \<Longrightarrow> \<forall>a \<in> set acts. \<not> is_deliver a"
  by (auto simp: process_handshake_def is_deliver_def Let_def split: if_splits Option.bind_splits sum.splits)

text \<open>After a disconnect the zeroed buffer is no handshake, so the socket is closed once more.\<close>

lemma process_handshake_zero: "process_handshake st rc c (replicate 512 0) = Some (False, [])"
proof -
  have "take 5 (replicate 512 (0 :: u8)) \<noteq> bytes_of ''GET /''"
    by (auto simp: bytes_of_def dest: arg_cong [of _ _ hd])
  then show ?thesis by (simp add: process_handshake_def)
qed

lemma ws_receive_disconnect:
  assumes "env_recv e = (n, d)" "n \<le> 0"
  shows "ws_receive e hh c = Some (ws_drop c, [Close (ws_socket c), Close (- 1)])"
  using assms process_handshake_zero
  by (simp add: ws_receive_def mem_cpy_def WS_RECV_BUFFER_SIZE_def ws_drop_def)

lemma ws_receive_data:
  assumes "env_recv e = (n, d)" "n > 0" "ws_receive e hh c = Some (c', acts)"
  obtains (frame) buf buf' where "ws_established c" "handle_frame hh c buf n = Some (c', buf', acts)"
  | (handshake) buf sent where "\<not> ws_established c" 
      "process_handshake (env_stack e) (env_send_rc e) c buf = Some (True, sent)"
      "c' = c\<lparr>ws_established := True\<rparr>" "acts = sent"
  | (refused) buf sent where "\<not> ws_established c" 
      "process_handshake (env_stack e) (env_send_rc e) c buf = Some (False, sent)"
      "c' = c\<lparr>ws_socket := - 1\<rparr>" "acts = sent @ [Close (ws_socket c)]"
  using assms
  by (auto simp: ws_receive_def split: if_splits Option.bind_splits)

lemma ws_receive_inv:
  assumes "ws_receive e hh c = Some (c', acts)" "ws_socket c \<ge> 0"
  shows "ws_established c' \<longrightarrow> ws_socket c' \<ge> 0"
    and "\<exists>a \<in> set acts. is_deliver a \<Longrightarrow> ws_established c"
proof -
  obtain n d where nd: "env_recv e = (n, d)" by fastforce
  have "(ws_established c' \<longrightarrow> ws_socket c' \<ge> 0) \<and> ((\<exists>a \<in> set acts. is_deliver a) \<longrightarrow> ws_established c)"
  proof (cases "n > 0")
    case True
    from nd this assms(1) show ?thesis
    proof (cases rule: ws_receive_data)
      case (frame buf buf')
      with handle_frame_client [OF frame(2)] assms(2) show ?thesis by (auto simp: ws_drop_def)
    next
      case (handshake buf sent)
      with process_handshake_acts [OF handshake(2)] assms(2) show ?thesis by auto
    next
      case (refused buf sent)
      with process_handshake_acts [OF refused(2)] show ?thesis by (auto simp: is_deliver_def)
    qed
  next
    case False
    with ws_receive_disconnect [OF nd, of hh c] assms(1) show ?thesis
      by (auto simp: ws_drop_def is_deliver_def)
  qed
  then show "ws_established c' \<longrightarrow> ws_socket c' \<ge> 0"
    and "\<exists>a \<in> set acts. is_deliver a \<Longrightarrow> ws_established c" by auto
qed

text \<open>What a send does: at most one frame, on the client's socket.\<close>

lemma send_message_acts:
  "send_message c m = Some acts \<Longrightarrow> \<forall>a \<in> set acts. \<exists>frame. a = Send (ws_socket c) frame"
  by (auto simp: send_message_def split: if_splits Option.bind_splits)

lemma ws_drain_acts:
  "ws_drain c ms = Some acts \<Longrightarrow>
   (ws_established c \<or> acts = []) \<and> (\<forall>a \<in> set acts. \<exists>frame. a = Send (ws_socket c) frame)"
  by (induction ms arbitrary: acts)
    (fastforce dest: send_message_acts split: if_splits Option.bind_splits)+

section \<open>Properties\<close>

text \<open>C5: A masked single-frame text or binary message from a client, received whole, is unmasked in place
  and handed to the message handler: the handler is given the offset, length and opcode of exactly
  the client's payload, for both the 7-bit and the 16-bit length form.\<close>

theorem ws_masked_frame_delivered:
  assumes "op < 16" "op \<noteq> 8" "op \<noteq> 9" "op \<noteq> 10" and "length key = 4" and "length payload < 65536"
  shows "\<exists>off buf'. handle_frame True c (client_frame op key payload @ rest)
        (int (length (client_frame op key payload))) = Some (c, buf', [Deliver off (length payload) op])
      \<and> take (length payload) (drop off buf') = payload"
proof -
  let ?h = "frame_header op (length payload)" and ?hl = "header_len (length payload)"
  have frame: "client_frame op key payload @ rest = ?h @ key @ mask_from key 0 payload @ rest"
    by (simp add: client_frame_eq mask_bytes_def)
  have len: "int (?hl + 4) \<le> int (length (client_frame op key payload))"
    using assms(5) by (simp add: client_frame_eq length_frame_header)
  have "unmask_loop (?h @ key @ mask_from key 0 payload @ rest) (?hl + 4) ?hl 0 (length payload) =
      Some (?h @ key @ payload @ rest)"
    using unmask_loop_body [OF length_frame_header assms(5), of op "length payload" "[]"
        "mask_from key 0 payload" rest] by simp
  then have "handle_frame True c (client_frame op key payload @ rest)
        (int (length (client_frame op key payload))) =
      Some (c, ?h @ key @ payload @ rest, [Deliver (?hl + 4) (length payload) op])"
    unfolding frame by (simp add: handle_data_frame [OF assms(1-4,6) len])
  moreover have "take (length payload) (drop (?hl + 4) (?h @ key @ payload @ rest)) = payload"
    using assms(5) by (simp add: length_frame_header)
  ultimately show ?thesis by blast
qed

theorem ws_masked_frame_delivered_witness:
  "\<exists>off buf'. handle_frame True ws_new_client (client_frame 1 [1, 2, 3, 4] [72, 105] @ [0])
      (int (length (client_frame 1 [1, 2, 3, 4] [72, 105]))) =
      Some (ws_new_client, buf', [Deliver off (length [72::u8, 105]) 1]) \<and>
      take (length [72::u8, 105]) (drop off buf') = [72, 105]"
  using ws_masked_frame_delivered [of 1 "[1, 2, 3, 4]" "[72, 105]" ws_new_client "[0]"]
  by simp



text \<open>C18: A message of up to 502 bytes for an established client is sent as one final unmasked frame of
  the given type whose payload is the message, with the shortest length form, and nothing is
  written outside the 512-byte send buffer.\<close>

theorem ws_send_message_parses:
  assumes "ws_established c" and "msg_size m \<le> 502" and "unat (msg_size m) = length (msg_data m)"
    and "msg_type m < 16"
  shows "\<exists>frame. send_message c m = Some [Send (ws_socket c) frame] \<and>
    parse_frame frame = Some (True, msg_type m, msg_data m)"
proof -
  let ?sz = "msg_size m"
  obtain enc where enc: "enc = (if ?sz < 126 then [ucast ?sz]
      else [126, ucast (drop_bit 8 ?sz AND 0xFF), ucast (?sz AND 0xFF)])"
    and send: "send_message c m = Some [Send (ws_socket c)
       ([msg_type m OR 0x80] @ enc @ take (unat ?sz) (msg_data m))]"
    using send_message_frame [OF assms(1,2)] assms(3) by auto
  have lt: "?sz < 65536" using assms(2) by (simp add: word_less_nat_alt word_le_nat_alt)
  note ops = low_nibble_or [OF assms(4)]
  have "parse_frame ([msg_type m OR 0x80] @ enc @ msg_data m) = Some (True, msg_type m, msg_data m)"
  proof (cases "?sz < 126")
    case True
    then have "unat ?sz < 126" by (simp add: word_less_nat_alt)
    moreover from this have u: "unat (ucast ?sz :: u8) = unat ?sz"
      by (simp add: unsigned_ucast_eq take_bit_nat_eq_self)
    ultimately have "(ucast ?sz :: u8) \<noteq> 126" "(ucast ?sz :: u8) < 127"
      by (auto simp: word_less_nat_alt dest: arg_cong [of _ _ unat])
    with True enc ops u assms(3) show ?thesis by simp
  next
    case False
    with enc ops size_field_bytes [OF lt] assms(3) show ?thesis by simp
  qed
  with send assms(3) show ?thesis by simp
qed

theorem ws_send_message_parses_witness:
  "\<exists>frame. send_message \<lparr>ws_socket = 3, ws_established = True\<rparr>
      \<lparr>msg_data = [65, 66], msg_size = 2, msg_type = 1\<rparr> = Some [Send 3 frame] \<and>
    parse_frame frame = Some (True, 1, [65, 66])"
  using ws_send_message_parses [of "\<lparr>ws_socket = 3, ws_established = True\<rparr>"
      "\<lparr>msg_data = [65, 66], msg_size = 2, msg_type = 1\<rparr>"] by simp





end
