(* ===== verification/Ip4.thy ===== *)
theory Ip4
  imports Prelude
begin

text \<open>
  \<^verbatim>\<open>src/lwip_patch/ip4.c\<close>: the IPv4 layer of the firmware, patched to accept a secondary address.
  Routing, forwarding, input and output, with every preprocessor condition of the file kept as a
  field of the configuration record \<open>ip4_opts\<close>. Packets are byte lists: the header fields are read
  and written at their RFC 791 offsets through the checked accessors, 16-bit and 32-bit loads being
  little-endian as on the target, so that a value loaded from a packet is in network order and
  \<open>htons\<close> swaps it.

  What lwIP supplies from outside the file (\<^verbatim>\<open>pbuf_*\<close>, \<^verbatim>\<open>inet_chksum\<close>, \<^verbatim>\<open>ip4_reass\<close>, \<^verbatim>\<open>ip4_addr_isbroadcast\<close>,
  the address class macros, the hooks, the drivers) is a field of the record \<open>lwip\<close>; calls that
  only have an effect elsewhere (statistics, upper layers, drivers, freeing) are recorded, in
  order, as events.
\<close>

section \<open>Words in memory\<close>

definition ld16 :: "bytes \<Rightarrow> nat \<Rightarrow> u16 option" where
  "ld16 m i = do {
     lo \<leftarrow> mem_get m i;
     hi \<leftarrow> mem_get m (i + 1);
     Some (ucast lo OR push_bit 8 (ucast hi))
   }"

definition st16 :: "bytes \<Rightarrow> nat \<Rightarrow> u16 \<Rightarrow> bytes option" where
  "st16 m i w = do {
     m \<leftarrow> mem_set m i (ucast w);
     mem_set m (i + 1) (ucast (drop_bit 8 w))
   }"

definition ld32 :: "bytes \<Rightarrow> nat \<Rightarrow> u32 option" where
  "ld32 m i = do {
     lo \<leftarrow> ld16 m i;
     hi \<leftarrow> ld16 m (i + 2);
     Some (ucast lo OR push_bit 16 (ucast hi))
   }"

definition st32 :: "bytes \<Rightarrow> nat \<Rightarrow> u32 \<Rightarrow> bytes option" where
  "st32 m i w = do {
     m \<leftarrow> st16 m i (ucast w);
     st16 m (i + 2) (ucast (drop_bit 16 w))
   }"

definition htons :: "u16 \<Rightarrow> u16" where
  "htons w = push_bit 8 w OR drop_bit 8 w"

definition htonl :: "u32 \<Rightarrow> u32" where
  "htonl w = push_bit 24 w OR push_bit 8 (w AND 0xFF00) OR (drop_bit 8 w AND 0xFF00) OR drop_bit 24 w"

section \<open>Configuration, interfaces and packets\<close>

record ip4_opts =
  LWIP_SINGLE_NETIF :: bool
  LWIP_MULTICAST_TX_OPTIONS :: bool
  LWIP_NETIF_LOOPBACK :: bool
  LWIP_HAVE_LOOPIF :: bool
  ENABLE_LOOPBACK :: bool
  IP_FORWARD :: bool
  IP_FORWARD_ALLOW_TX_ON_RX_NETIF :: bool
  LWIP_ICMP :: bool
  LWIP_UDP :: bool
  LWIP_UDPLITE :: bool
  LWIP_TCP :: bool
  LWIP_IGMP :: bool
  LWIP_RAW :: bool
  LWIP_AUTOIP :: bool
  LWIP_DHCP :: bool
  IP_REASSEMBLY :: bool
  IP_FRAG :: bool
  IP_OPTIONS_ALLOWED :: bool
  IP_OPTIONS_SEND :: bool
  CHECKSUM_CHECK_IP :: bool
  CHECKSUM_GEN_IP :: bool
  CHECKSUM_GEN_UDP :: bool
  CHECKSUM_GEN_TCP :: bool
  CHECKSUM_GEN_ICMP :: bool
  LWIP_CHECKSUM_CTRL_PER_NETIF :: bool

text \<open>
  The configuration of the firmware: what \<^verbatim>\<open>lwipopts.h\<close> sets, and lwIP's documented default for the
  options it does not set.
\<close>

definition firmware_opts :: ip4_opts where
  "firmware_opts = \<lparr>LWIP_SINGLE_NETIF = False, LWIP_MULTICAST_TX_OPTIONS = False,
     LWIP_NETIF_LOOPBACK = False, LWIP_HAVE_LOOPIF = False, ENABLE_LOOPBACK = False,
     IP_FORWARD = False, IP_FORWARD_ALLOW_TX_ON_RX_NETIF = False, LWIP_ICMP = True,
     LWIP_UDP = True, LWIP_UDPLITE = False, LWIP_TCP = True, LWIP_IGMP = False, LWIP_RAW = True,
     LWIP_AUTOIP = False, LWIP_DHCP = True, IP_REASSEMBLY = True, IP_FRAG = True,
     IP_OPTIONS_ALLOWED = True, IP_OPTIONS_SEND = False, CHECKSUM_CHECK_IP = True,
     CHECKSUM_GEN_IP = True, CHECKSUM_GEN_UDP = True, CHECKSUM_GEN_TCP = True,
     CHECKSUM_GEN_ICMP = True, LWIP_CHECKSUM_CTRL_PER_NETIF = False\<rparr>"

text \<open>Interfaces are told apart by their address in memory, \<open>nif_id\<close>.\<close>

record netif =
  nif_id :: nat
  nif_up :: bool
  nif_link_up :: bool
  nif_broadcast :: bool
  nif_igmp :: bool
  nif_addr :: u32
  nif_netmask :: u32
  nif_gw :: u32
  nif_mtu :: u16

text \<open>The first buffer of a chain: the bytes from \<^verbatim>\<open>payload\<close> on, the length of the chain, the flags.\<close>

record pbuf =
  pb_payload :: bytes
  pb_tot_len :: u16
  pb_llbcast :: bool
  pb_llmcast :: bool
  pb_mcastloop :: bool

datatype raw_status = RAW_INPUT_NONE | RAW_INPUT_DELIVERED | RAW_INPUT_EATEN
datatype chk_flag = NETIF_CHECKSUM_GEN_IP | NETIF_CHECKSUM_GEN_UDP | NETIF_CHECKSUM_GEN_TCP
  | NETIF_CHECKSUM_GEN_ICMP | NETIF_CHECKSUM_CHECK_IP
datatype err_t = ERR_OK | ERR_BUF | ERR_RTE | ERR_VAL | ERR_OTHER int

text \<open>What the rest of lwIP supplies. A hook macro that is not defined is \<open>None\<close>.\<close>

record lwip =
  ip4_addr_isbroadcast :: "u32 \<Rightarrow> netif \<Rightarrow> bool"
  ip4_addr_ismulticast :: "u32 \<Rightarrow> bool"
  ip4_addr_isloopback :: "u32 \<Rightarrow> bool"
  ip4_addr_islinklocal :: "u32 \<Rightarrow> bool"
  IP_MULTICAST :: "u32 \<Rightarrow> bool"
  IP_EXPERIMENTAL :: "u32 \<Rightarrow> bool"
  IP_CLASSA :: "u32 \<Rightarrow> bool"
  IP_CLASSA_NET :: u32
  IP_CLASSA_LOOPBACK :: u32
  inet_chksum :: "bytes \<Rightarrow> u16"
  NETIF_CHECKSUM_ENABLED :: "netif \<Rightarrow> chk_flag \<Rightarrow> bool"
  IF__NETIF_CHECKSUM_ENABLED :: "netif \<Rightarrow> chk_flag \<Rightarrow> bool"
  autoip_accept_packet :: "netif \<Rightarrow> u32 \<Rightarrow> bool"
  igmp_lookfor_group :: "netif \<Rightarrow> u32 \<Rightarrow> bool"
  ip4_reass :: "pbuf \<Rightarrow> pbuf option"
  raw_input :: "pbuf \<Rightarrow> netif \<Rightarrow> raw_status"
  pbuf_realloc :: "pbuf \<Rightarrow> u16 \<Rightarrow> pbuf"
  pbuf_remove_header :: "pbuf \<Rightarrow> u16 \<Rightarrow> pbuf"
  pbuf_add_header :: "pbuf \<Rightarrow> u16 \<Rightarrow> pbuf option"
  netif_send :: "netif \<Rightarrow> pbuf \<Rightarrow> u32 \<Rightarrow> err_t"
  netif_loop_output :: "netif \<Rightarrow> pbuf \<Rightarrow> err_t"
  ip4_frag :: "pbuf \<Rightarrow> netif \<Rightarrow> u32 \<Rightarrow> err_t"
  LWIP_HOOK_IP4_ROUTE_SRC :: "(u32 option \<Rightarrow> u32 \<Rightarrow> netif option) option"
  LWIP_HOOK_IP4_ROUTE :: "(u32 \<Rightarrow> netif option) option"
  LWIP_HOOK_IP4_CANFORWARD :: "(pbuf \<Rightarrow> u32 \<Rightarrow> int) option"
  LWIP_HOOK_IP4_INPUT :: "(pbuf \<Rightarrow> netif \<Rightarrow> bool) option"
  LWIP_IP_ACCEPT_UDP_PORT :: "(u16 \<Rightarrow> bool) option"

record ip_data =
  cur_netif :: "netif option"
  cur_input_netif :: "netif option"
  cur_header :: "bytes option"
  cur_header_tot_len :: u16
  cur_src :: u32
  cur_dest :: u32

record ip4_state =
  ip_id :: u16
  ip_cur :: ip_data
  ip4_default_multicast_netif :: "netif option"
  netif_default :: "netif option"
  netif_list :: "netif list"
  ip4_secondary_ip_address :: u32

datatype stat = Ip_recv | Ip_err | Ip_drop | Ip_lenerr | Ip_chkerr | Ip_opterr | Ip_proterr | Ip_rterr
  | Ip_fw | Ip_xmit | Mib_ipinreceives | Mib_ipinhdrerrors | Mib_ipindiscards | Mib_ipinaddrerrors
  | Mib_ipinunknownprotos | Mib_ipindelivers | Mib_ipoutnoroutes | Mib_ipforwdatagrams
  | Mib_ipoutrequests | Mib_ipoutdiscards

datatype unreach = ICMP_DUR_PROTO | ICMP_DUR_FRAG

datatype ip4_event = Stat stat | Pbuf_free pbuf | Raw_input pbuf netif
  | Udp_input pbuf netif ip_data | Tcp_input pbuf netif ip_data | Icmp_input pbuf netif ip_data
  | Igmp_input pbuf netif u32 ip_data | Icmp_dest_unreach bytes unreach | Icmp_time_exceeded pbuf
  | Netif_output netif pbuf u32 | Ip4_frag pbuf netif u32 | Netif_loop_output netif pbuf

text \<open>Protocol numbers and header constants of RFC 791.\<close>

abbreviation "IP_HLEN \<equiv> 20 :: u16"
abbreviation "IP_HLEN_MAX \<equiv> 60 :: u16"
abbreviation "IP_PROTO_ICMP \<equiv> 1 :: u8"
abbreviation "IP_PROTO_IGMP \<equiv> 2 :: u8"
abbreviation "IP_PROTO_TCP \<equiv> 6 :: u8"
abbreviation "IP_PROTO_UDP \<equiv> 17 :: u8"
abbreviation "IP_PROTO_UDPLITE \<equiv> 136 :: u8"
abbreviation "IP_DF \<equiv> 0x4000 :: u16"
abbreviation "IP_MF \<equiv> 0x2000 :: u16"
abbreviation "IP_OFFMASK \<equiv> 0x1FFF :: u16"

definition IPH_V :: "bytes \<Rightarrow> u8 option" where
  "IPH_V h = map_option (drop_bit 4) (mem_get h 0)"

definition IPH_HL_BYTES :: "bytes \<Rightarrow> u16 option" where
  "IPH_HL_BYTES h = map_option (\<lambda>b. ucast (b AND 0x0F) * 4) (mem_get h 0)"

definition IPH_PROTO :: "bytes \<Rightarrow> u8 option" where
  "IPH_PROTO h = mem_get h 9"

section \<open>The code: routing\<close>

definition ip4_set_default_multicast_netif :: "netif option \<Rightarrow> ip4_state \<Rightarrow> ip4_state" where
  "ip4_set_default_multicast_netif n s = s\<lparr>ip4_default_multicast_netif := n\<rparr>"

definition ip4_addr_net_eq :: "u32 \<Rightarrow> u32 \<Rightarrow> u32 \<Rightarrow> bool" where
  "ip4_addr_net_eq a b msk \<longleftrightarrow> a AND msk = b AND msk"

text \<open>The body of the search loop of \<^verbatim>\<open>ip4_route\<close>.\<close>

definition route_match :: "u32 \<Rightarrow> netif \<Rightarrow> bool" where
  "route_match dest n \<longleftrightarrow> nif_up n \<and> nif_link_up n \<and> nif_addr n \<noteq> 0 \<and>
     (ip4_addr_net_eq dest (nif_addr n) (nif_netmask n) \<or> \<not> nif_broadcast n \<and> dest = nif_gw n)"

fun first_netif :: "(netif \<Rightarrow> bool) \<Rightarrow> netif list \<Rightarrow> netif option" where
  "first_netif P [] = None"
| "first_netif P (n # ns) = (if P n then Some n else first_netif P ns)"

definition route_hook :: "lwip \<Rightarrow> u32 \<Rightarrow> netif option" where
  "route_hook l dest =
     (case LWIP_HOOK_IP4_ROUTE_SRC l of
        Some h \<Rightarrow> h None dest
      | None \<Rightarrow> (case LWIP_HOOK_IP4_ROUTE l of Some h \<Rightarrow> h dest | None \<Rightarrow> None))"

definition route_default :: "lwip \<Rightarrow> ip4_state \<Rightarrow> u32 \<Rightarrow> netif option \<times> ip4_event list" where
  "route_default l s dest =
     (case netif_default s of
        None \<Rightarrow> (None, [Stat Ip_rterr, Stat Mib_ipoutnoroutes])
      | Some d \<Rightarrow>
          if \<not> nif_up d \<or> \<not> nif_link_up d \<or> nif_addr d = 0 \<or> ip4_addr_isloopback l dest
          then (None, [Stat Ip_rterr, Stat Mib_ipoutnoroutes])
          else (Some d, []))"

definition ip4_route ::
  "ip4_opts \<Rightarrow> lwip \<Rightarrow> ip4_state \<Rightarrow> u32 \<Rightarrow> netif option \<times> ip4_event list" where
  "ip4_route opts l s dest =
     (if LWIP_SINGLE_NETIF opts then route_default l s dest
      else if LWIP_MULTICAST_TX_OPTIONS opts \<and> ip4_addr_ismulticast l dest
              \<and> ip4_default_multicast_netif s \<noteq> None
      then (ip4_default_multicast_netif s, [])
      else
        (case first_netif (route_match dest) (netif_list s) of
           Some n \<Rightarrow> (Some n, [])
         | None \<Rightarrow>
             if LWIP_NETIF_LOOPBACK opts \<and> \<not> LWIP_HAVE_LOOPIF opts \<and> ip4_addr_isloopback l dest
             then (case netif_default s of
                     Some d \<Rightarrow> if nif_up d then (Some d, [])
                               else (first_netif nif_up (netif_list s), [])
                   | None \<Rightarrow> (first_netif nif_up (netif_list s), []))
             else
               (case route_hook l dest of
                  Some n \<Rightarrow> (Some n, [])
                | None \<Rightarrow> route_default l s dest)))"

text \<open>Without the source routing hook, \<^verbatim>\<open>ip4_route_src\<close> is \<^verbatim>\<open>ip4_route\<close>.\<close>

definition ip4_route_src ::
  "ip4_opts \<Rightarrow> lwip \<Rightarrow> ip4_state \<Rightarrow> u32 option \<Rightarrow> u32 \<Rightarrow> netif option \<times> ip4_event list" where
  "ip4_route_src opts l s src dest =
     (case LWIP_HOOK_IP4_ROUTE_SRC l of
        None \<Rightarrow> ip4_route opts l s dest
      | Some h \<Rightarrow>
          (if src \<noteq> None \<and> h src dest \<noteq> None then (h src dest, [])
           else ip4_route opts l s dest))"

section \<open>The code: forwarding\<close>

definition ip4_canforward :: "lwip \<Rightarrow> ip4_state \<Rightarrow> pbuf \<Rightarrow> bool" where
  "ip4_canforward l s p = (
     let addr = htonl (cur_dest (ip_cur s));
         ret = (case LWIP_HOOK_IP4_CANFORWARD l of Some h \<Rightarrow> h p addr | None \<Rightarrow> - 1)
     in if ret \<ge> 0 then ret \<noteq> 0
        else if pb_llbcast p then False
        else if pb_llmcast p \<or> IP_MULTICAST l addr then False
        else if IP_EXPERIMENTAL l addr then False
        else if IP_CLASSA l addr then
          (let net = addr AND IP_CLASSA_NET l in \<not> (net = 0 \<or> net = IP_CLASSA_LOOPBACK l))
        else True)"

text \<open>The incremental checksum update for a TTL that went down by one.\<close>

definition forward_chksum :: "u16 \<Rightarrow> u16" where
  "forward_chksum c = (if c \<ge> htons (0xFFFF - 0x100) then c + htons 0x100 + 1 else c + htons 0x100)"

text \<open>Clearing checksums that are generated further down.\<close>

definition forward_clear_chksums :: "ip4_opts \<Rightarrow> lwip \<Rightarrow> netif \<Rightarrow> bytes \<Rightarrow> bytes option" where
  "forward_clear_chksums opts l inp h = do {
     h \<leftarrow> (if CHECKSUM_GEN_IP opts \<or> NETIF_CHECKSUM_ENABLED l inp NETIF_CHECKSUM_GEN_IP
          then st16 h 10 0 else Some h);
     proto \<leftarrow> IPH_PROTO h;
     hl \<leftarrow> IPH_HL_BYTES h;
     if LWIP_UDP opts \<and> (proto = IP_PROTO_UDP \<or> LWIP_UDPLITE opts \<and> proto = IP_PROTO_UDPLITE) then
       (if CHECKSUM_GEN_UDP opts \<or> NETIF_CHECKSUM_ENABLED l inp NETIF_CHECKSUM_GEN_UDP
        then st16 h (unat hl + 6) 0 else Some h)
     else if LWIP_TCP opts \<and> proto = IP_PROTO_TCP then
       (if CHECKSUM_GEN_TCP opts \<or> NETIF_CHECKSUM_ENABLED l inp NETIF_CHECKSUM_GEN_TCP
        then st16 h (unat hl + 16) 0 else Some h)
     else if LWIP_ICMP opts \<and> proto = IP_PROTO_ICMP then
       (if CHECKSUM_GEN_ICMP opts \<or> NETIF_CHECKSUM_ENABLED l inp NETIF_CHECKSUM_GEN_ICMP
        then st16 h (unat hl + 2) 0 else Some h)
     else Some h
   }"

text \<open>The last part: fragment, refuse or transmit.\<close>

definition forward_transmit :: "ip4_opts \<Rightarrow> pbuf \<Rightarrow> netif \<Rightarrow> u32 \<Rightarrow> ip4_event list option" where
  "forward_transmit opts p n dest =
     (if nif_mtu n \<noteq> 0 \<and> pb_tot_len p > nif_mtu n then do {
        off \<leftarrow> ld16 (pb_payload p) 6;
        if off AND htons IP_DF = 0 then Some (if IP_FRAG opts then [Ip4_frag p n dest] else [])
        else Some (if LWIP_ICMP opts then [Icmp_dest_unreach (pb_payload p) ICMP_DUR_FRAG] else [])
      } else Some [Netif_output n p dest])"

text \<open>The packet is changed in place; the pair is the packet after the call and the events.\<close>

definition ip4_forward ::
  "ip4_opts \<Rightarrow> lwip \<Rightarrow> ip4_state \<Rightarrow> pbuf \<Rightarrow> netif \<Rightarrow> (pbuf \<times> ip4_event list) option" where
  "ip4_forward opts l s p inp = (
     let dest = cur_dest (ip_cur s); src = cur_src (ip_cur s); noroute = [Stat Mib_ipoutnoroutes] in
     if \<not> ip4_canforward l s p then Some (p, noroute)
     else if ip4_addr_islinklocal l dest then Some (p, noroute)
     else
       (case ip4_route_src opts l s (Some src) dest of
          (None, ev) \<Rightarrow> Some (p, ev @ noroute)
        | (Some n, ev) \<Rightarrow>
            if \<not> IP_FORWARD_ALLOW_TX_ON_RX_NETIF opts \<and> nif_id n = nif_id inp
            then Some (p, ev @ noroute)
            else do {
              ttl \<leftarrow> mem_get (pb_payload p) 8;
              h \<leftarrow> mem_set (pb_payload p) 8 (ttl - 1);
              if ttl - 1 = 0 then do {
                proto \<leftarrow> IPH_PROTO h;
                let p = p\<lparr>pb_payload := h\<rparr>;
                Some (p, ev @ [Stat Mib_ipinhdrerrors] @
                     (if LWIP_ICMP opts \<and> proto \<noteq> IP_PROTO_ICMP then [Icmp_time_exceeded p] else []))
              } else do {
                chksum \<leftarrow> ld16 h 10;
                h \<leftarrow> st16 h 10 (forward_chksum chksum);
                h \<leftarrow> forward_clear_chksums opts l inp h;
                let p = p\<lparr>pb_payload := h\<rparr>;
                out \<leftarrow> forward_transmit opts p n dest;
                Some (p, ev @ [Stat Ip_fw, Stat Mib_ipforwdatagrams, Stat Ip_xmit] @ out)
              }
            }))"

section \<open>The code: input\<close>

text \<open>\<open>dest\<close> is the destination of the current packet; the secondary address is the firmware's patch.\<close>

definition ip4_input_accept :: "ip4_opts \<Rightarrow> lwip \<Rightarrow> ip4_state \<Rightarrow> u32 \<Rightarrow> netif \<Rightarrow> bool" where
  "ip4_input_accept opts l s dest n \<longleftrightarrow>
     nif_up n \<and> nif_addr n \<noteq> 0 \<and>
     (dest = nif_addr n
      \<or> ip4_addr_isbroadcast l dest n
      \<or> ip4_secondary_ip_address s \<noteq> 0 \<and> dest = ip4_secondary_ip_address s
      \<or> LWIP_NETIF_LOOPBACK opts \<and> \<not> LWIP_HAVE_LOOPIF opts \<and> dest = htonl 0x7F000001
      \<or> LWIP_AUTOIP opts \<and> autoip_accept_packet l n dest)"

definition IP_ACCEPT_LINK_LAYER_ADDRESSING :: "ip4_opts \<Rightarrow> lwip \<Rightarrow> bool" where
  "IP_ACCEPT_LINK_LAYER_ADDRESSING opts l \<longleftrightarrow>
     LWIP_DHCP opts \<or> LWIP_IP_ACCEPT_UDP_PORT l \<noteq> None"

definition IP_ACCEPT_LINK_LAYER_ADDRESSED_PORT :: "ip4_opts \<Rightarrow> lwip \<Rightarrow> u16 \<Rightarrow> bool" where
  "IP_ACCEPT_LINK_LAYER_ADDRESSED_PORT opts l port \<longleftrightarrow>
     LWIP_DHCP opts \<and> port = htons 68
     \<or> (case LWIP_IP_ACCEPT_UDP_PORT l of Some f \<Rightarrow> f port | None \<Rightarrow> False)"

text \<open>
  Up to the checksum: \<open>Inl\<close> is a packet that is finished with, \<open>Inr\<close> the (trimmed) packet and the
  length of its header.
\<close>

definition ip4_input_validate ::
  "ip4_opts \<Rightarrow> lwip \<Rightarrow> pbuf \<Rightarrow> netif \<Rightarrow> (ip4_event list + pbuf \<times> u16) option" where
  "ip4_input_validate opts l p inp = do {
     v \<leftarrow> IPH_V (pb_payload p);
     if v \<noteq> 4 then
       Some (Inl [Pbuf_free p, Stat Ip_err, Stat Ip_drop, Stat Mib_ipinhdrerrors])
     else if (case LWIP_HOOK_IP4_INPUT l of Some h \<Rightarrow> h p inp | None \<Rightarrow> False) then Some (Inl [])
     else do {
       iphdr_hlen \<leftarrow> IPH_HL_BYTES (pb_payload p);
       len \<leftarrow> ld16 (pb_payload p) 2;
       let iphdr_len = htons len;
       let p = (if iphdr_len < pb_tot_len p then pbuf_realloc l p iphdr_len else p);
       if unat iphdr_hlen > length (pb_payload p) \<or> iphdr_len > pb_tot_len p \<or> iphdr_hlen < IP_HLEN
       then Some (Inl [Pbuf_free p, Stat Ip_lenerr, Stat Ip_drop, Stat Mib_ipindiscards])
       else if CHECKSUM_CHECK_IP opts \<and> IF__NETIF_CHECKSUM_ENABLED l inp NETIF_CHECKSUM_CHECK_IP then do {
         hdr \<leftarrow> mem_read (pb_payload p) 0 (unat iphdr_hlen);
         if inet_chksum l hdr \<noteq> 0 then
           Some (Inl [Pbuf_free p, Stat Ip_chkerr, Stat Ip_drop, Stat Mib_ipinhdrerrors])
         else Some (Inr (p, iphdr_hlen))
       } else Some (Inr (p, iphdr_hlen))
     }
   }"

text \<open>The interface the packet is for, and whether its source address has to be checked.\<close>

definition ip4_input_netif ::
  "ip4_opts \<Rightarrow> lwip \<Rightarrow> ip4_state \<Rightarrow> netif \<Rightarrow> netif option \<times> bool" where
  "ip4_input_netif opts l s inp = (
     let dest = cur_dest (ip_cur s); src = cur_src (ip_cur s) in
     if ip4_addr_ismulticast l dest then
       (if LWIP_IGMP opts then
          (if nif_igmp inp \<and> igmp_lookfor_group l inp dest
           then (Some inp, \<not> (dest = htonl 0xE0000001 \<and> src = 0)) else (None, True))
        else (if nif_up inp \<and> nif_addr inp \<noteq> 0 then Some inp else None, True))
     else if ip4_input_accept opts l s dest inp then (Some inp, True)
     else if (\<not> LWIP_NETIF_LOOPBACK opts \<or> LWIP_HAVE_LOOPIF opts) \<and> ip4_addr_isloopback l dest
     then (None, True)
     else if LWIP_SINGLE_NETIF opts then (None, True)
     else (first_netif (\<lambda>n. nif_id n \<noteq> nif_id inp \<and> ip4_input_accept opts l s dest n) (netif_list s),
           True))"

text \<open>DHCP replies are let through whatever their destination address.\<close>

definition ip4_input_link_layer ::
  "ip4_opts \<Rightarrow> lwip \<Rightarrow> pbuf \<Rightarrow> u16 \<Rightarrow> netif \<Rightarrow> netif option \<times> bool \<Rightarrow> (netif option \<times> bool) option" where
  "ip4_input_link_layer opts l p iphdr_hlen inp r =
     (if IP_ACCEPT_LINK_LAYER_ADDRESSING opts l \<and> fst r = None then do {
        proto \<leftarrow> IPH_PROTO (pb_payload p);
        if proto = IP_PROTO_UDP then do {
          port \<leftarrow> ld16 (pb_payload p) (unat iphdr_hlen + 2);
          Some (if IP_ACCEPT_LINK_LAYER_ADDRESSED_PORT opts l port then (Some inp, False) else r)
        } else Some r
      } else Some r)"

definition ip4_input_bad_source ::
  "ip4_opts \<Rightarrow> lwip \<Rightarrow> ip4_state \<Rightarrow> netif \<Rightarrow> bool \<Rightarrow> bool" where
  "ip4_input_bad_source opts l s inp check_ip_src \<longleftrightarrow> (
     let src = cur_src (ip_cur s) in
     (LWIP_IGMP opts \<or> IP_ACCEPT_LINK_LAYER_ADDRESSING opts l \<longrightarrow>
        check_ip_src \<and> (IP_ACCEPT_LINK_LAYER_ADDRESSING opts l \<longrightarrow> src \<noteq> 0))
     \<and> (ip4_addr_isbroadcast l src inp \<or> ip4_addr_ismulticast l src))"

text \<open>A packet for another host: forwarded if so configured, freed in any case.\<close>

definition ip4_input_not_for_us ::
  "ip4_opts \<Rightarrow> lwip \<Rightarrow> ip4_state \<Rightarrow> pbuf \<Rightarrow> netif \<Rightarrow> ip4_event list option" where
  "ip4_input_not_for_us opts l s p inp =
     (if IP_FORWARD opts \<and> \<not> ip4_addr_isbroadcast l (cur_dest (ip_cur s)) inp then do {
        (p', ev) \<leftarrow> ip4_forward opts l s p inp;
        Some (ev @ [Pbuf_free p'])
      } else Some [Stat Ip_drop, Stat Mib_ipinaddrerrors, Stat Mib_ipindiscards, Pbuf_free p])"

text \<open>Fragments: \<open>Inl\<close> ends the processing, \<open>Inr\<close> is the packet to go on with.\<close>

definition ip4_input_fragment :: "ip4_opts \<Rightarrow> lwip \<Rightarrow> pbuf \<Rightarrow> (ip4_event list + pbuf) option" where
  "ip4_input_fragment opts l p = do {
     off \<leftarrow> ld16 (pb_payload p) 6;
     if off AND htons (IP_OFFMASK OR IP_MF) \<noteq> 0 then
       (if IP_REASSEMBLY opts
        then Some (case ip4_reass l p of None \<Rightarrow> Inl [] | Some p' \<Rightarrow> Inr p')
        else Some (Inl [Pbuf_free p, Stat Ip_opterr, Stat Ip_drop, Stat Mib_ipinunknownprotos]))
     else Some (Inr p)
   }"

text \<open>Dispatch to the upper layers; \<open>hdr\<close> is the header the packet started with.\<close>

definition ip4_input_dispatch ::
  "ip4_opts \<Rightarrow> lwip \<Rightarrow> ip_data \<Rightarrow> pbuf \<Rightarrow> u16 \<Rightarrow> netif \<Rightarrow> netif \<Rightarrow> ip4_event list option" where
  "ip4_input_dispatch opts l d p0 iphdr_hlen n inp = (
     let raw = (if LWIP_RAW opts then raw_input l p0 inp else RAW_INPUT_NONE);
         raw_ev = (if LWIP_RAW opts then [Raw_input p0 inp] else [])
     in if raw = RAW_INPUT_EATEN then Some raw_ev
     else do {
       let p = pbuf_remove_header l p0 iphdr_hlen;
       proto \<leftarrow> IPH_PROTO (pb_payload p0);
       Some (raw_ev @
         (if LWIP_UDP opts \<and> (proto = IP_PROTO_UDP \<or> LWIP_UDPLITE opts \<and> proto = IP_PROTO_UDPLITE)
          then [Stat Mib_ipindelivers, Udp_input p inp d]
          else if LWIP_TCP opts \<and> proto = IP_PROTO_TCP then [Stat Mib_ipindelivers, Tcp_input p inp d]
          else if LWIP_ICMP opts \<and> proto = IP_PROTO_ICMP then [Stat Mib_ipindelivers, Icmp_input p inp d]
          else if LWIP_IGMP opts \<and> proto = IP_PROTO_IGMP then [Igmp_input p inp (cur_dest d) d]
          else
            (if LWIP_RAW opts \<and> raw = RAW_INPUT_DELIVERED then [Stat Mib_ipindelivers]
             else
               (if LWIP_ICMP opts \<and> \<not> ip4_addr_isbroadcast l (cur_dest d) n \<and>
                   \<not> ip4_addr_ismulticast l (cur_dest d)
                then [Icmp_dest_unreach (pb_payload p0) ICMP_DUR_PROTO] else []) @
               [Stat Ip_proterr, Stat Ip_drop, Stat Mib_ipinunknownprotos]) @
            [Pbuf_free p]))
     })"

definition ip4_input ::
  "ip4_opts \<Rightarrow> lwip \<Rightarrow> ip4_state \<Rightarrow> pbuf \<Rightarrow> netif \<Rightarrow> (ip4_state \<times> ip4_event list) option" where
  "ip4_input opts l s p inp = do {
     let ev0 = [Stat Ip_recv, Stat Mib_ipinreceives];
     r \<leftarrow> ip4_input_validate opts l p inp;
     (case r of
        Inl ev \<Rightarrow> Some (s, ev0 @ ev)
      | Inr (p, iphdr_hlen) \<Rightarrow> do {
          dest \<leftarrow> ld32 (pb_payload p) 16;
          src \<leftarrow> ld32 (pb_payload p) 12;
          let s = s\<lparr>ip_cur := (ip_cur s)\<lparr>cur_dest := dest, cur_src := src\<rparr>\<rparr>;
          (found, check_ip_src) \<leftarrow>
             ip4_input_link_layer opts l p iphdr_hlen inp (ip4_input_netif opts l s inp);
          if ip4_input_bad_source opts l s inp check_ip_src then
            Some (s, ev0 @ [Pbuf_free p, Stat Ip_drop, Stat Mib_ipinaddrerrors, Stat Mib_ipindiscards])
          else
            (case found of
               None \<Rightarrow> do { ev \<leftarrow> ip4_input_not_for_us opts l s p inp; Some (s, ev0 @ ev) }
             | Some n \<Rightarrow> do {
                 f \<leftarrow> ip4_input_fragment opts l p;
                 (case f of
                    Inl ev \<Rightarrow> Some (s, ev0 @ ev)
                  | Inr p \<Rightarrow> do {
                      proto \<leftarrow> IPH_PROTO (pb_payload p);
                      if \<not> IP_OPTIONS_ALLOWED opts \<and> iphdr_hlen > IP_HLEN \<and>
                         \<not> (LWIP_IGMP opts \<and> proto = IP_PROTO_IGMP)
                      then Some (s, ev0 @ [Pbuf_free p, Stat Ip_opterr, Stat Ip_drop,
                                           Stat Mib_ipinunknownprotos])
                      else do {
                        hl \<leftarrow> IPH_HL_BYTES (pb_payload p);
                        let d = (ip_cur s)\<lparr>cur_netif := Some n, cur_input_netif := Some inp,
                                 cur_header := Some (pb_payload p), cur_header_tot_len := hl\<rparr>;
                        ev \<leftarrow> ip4_input_dispatch opts l d p iphdr_hlen n inp;
                        Some (s\<lparr>ip_cur := \<lparr>cur_netif = None, cur_input_netif = None, cur_header = None,
                                 cur_header_tot_len = 0, cur_src = 0, cur_dest = 0\<rparr>\<rparr>, ev0 @ ev)
                      }
                    })
               })
        })
   }"

section \<open>The code: output\<close>

text \<open>The loop that adds the option words to the running checksum.\<close>

fun sum16 :: "bytes \<Rightarrow> nat \<Rightarrow> nat \<Rightarrow> u32 \<Rightarrow> u32 option" where
  "sum16 m i 0 acc = Some acc"
| "sum16 m i (Suc n) acc = do {
     w \<leftarrow> ld16 m i;
     sum16 m (i + 2) n (acc + ucast w)
   }"

text \<open>Whether the header checksum is summed up while the header is written.\<close>

definition CHECKSUM_GEN_IP_INLINE :: "ip4_opts \<Rightarrow> bool" where
  "CHECKSUM_GEN_IP_INLINE opts \<longleftrightarrow> \<not> LWIP_CHECKSUM_CTRL_PER_NETIF opts \<and> CHECKSUM_GEN_IP opts"

text \<open>Writing the options: the packet, the header length so far and the checksum so far.\<close>

definition ip4_write_options ::
  "ip4_opts \<Rightarrow> lwip \<Rightarrow> pbuf \<Rightarrow> bytes \<Rightarrow> u16 \<Rightarrow> (err_t \<times> ip4_event list + pbuf \<times> u16 \<times> u32) option" where
  "ip4_write_options opts l p ip_options optlen =
     (if IP_OPTIONS_SEND opts \<and> optlen \<noteq> 0 then
        (if optlen > IP_HLEN_MAX - IP_HLEN
         then Some (Inl (ERR_VAL, [Stat Ip_err, Stat Mib_ipoutdiscards]))
         else
           (let optlen_aligned = (optlen + 3) AND NOT 3;
                ip_hlen = IP_HLEN + optlen_aligned
            in (case pbuf_add_header l p optlen_aligned of
                  None \<Rightarrow> Some (Inl (ERR_BUF, [Stat Ip_err, Stat Mib_ipoutdiscards]))
                | Some p \<Rightarrow> do {
                    os \<leftarrow> mem_read ip_options 0 (unat optlen);
                    pl \<leftarrow> mem_cpy (pb_payload p) 0 os;
                    pl \<leftarrow> mem_cpy pl (unat optlen) (replicate (unat optlen_aligned - unat optlen) 0);
                    chk_sum \<leftarrow> (if CHECKSUM_GEN_IP_INLINE opts
                               then sum16 pl 0 (unat optlen_aligned div 2) 0 else Some 0);
                    Some (Inr (p\<lparr>pb_payload := pl\<rparr>, ip_hlen, chk_sum))
                  })))
      else Some (Inr (p, IP_HLEN, 0)))"

text \<open>
  Filling in the header. \<open>chk_sum\<close> is a 32-bit accumulator of the header's 16-bit words, folded
  and complemented at the end.
\<close>

definition ip4_fold_chksum :: "u32 \<Rightarrow> u32" where
  "ip4_fold_chksum chk_sum = (
     let chk_sum = drop_bit 16 chk_sum + (chk_sum AND 0xFFFF);
         chk_sum = drop_bit 16 chk_sum + chk_sum
     in NOT chk_sum)"

definition ip4_write_header ::
  "ip4_opts \<Rightarrow> lwip \<Rightarrow> u16 \<Rightarrow> bytes \<Rightarrow> u16 \<Rightarrow> u16 \<Rightarrow> u32 \<Rightarrow> u32 option \<Rightarrow> u32 \<Rightarrow> u8 \<Rightarrow> u8 \<Rightarrow> u8 \<Rightarrow> netif
    \<Rightarrow> bytes option" where
  "ip4_write_header opts l ident h tot_len ip_hlen chk_sum src dest ttl tos proto n = do {
     h \<leftarrow> mem_set h 8 ttl;
     h \<leftarrow> mem_set h 9 proto;
     let chk_sum = chk_sum + ucast (htons (ucast proto OR push_bit 8 (ucast ttl)));
     h \<leftarrow> st32 h 16 dest;
     let chk_sum = chk_sum + (dest AND 0xFFFF);
     let chk_sum = chk_sum + drop_bit 16 dest;
     let v_hl = push_bit 4 4 OR ucast (ip_hlen div 4);
     h \<leftarrow> mem_set h 0 v_hl;
     h \<leftarrow> mem_set h 1 tos;
     let chk_sum = chk_sum + ucast (htons (ucast tos OR push_bit 8 (ucast v_hl)));
     h \<leftarrow> st16 h 2 (htons tot_len);
     let chk_sum = chk_sum + ucast (htons tot_len);
     h \<leftarrow> st16 h 6 0;
     h \<leftarrow> st16 h 4 (htons ident);
     let chk_sum = chk_sum + ucast (htons ident);
     let src_used = (case src of None \<Rightarrow> 0 | Some a \<Rightarrow> a);
     h \<leftarrow> st32 h 12 src_used;
     let chk_sum = chk_sum + (src_used AND 0xFFFF);
     let chk_sum = chk_sum + drop_bit 16 src_used;
     if CHECKSUM_GEN_IP_INLINE opts then
       (if IF__NETIF_CHECKSUM_ENABLED l n NETIF_CHECKSUM_GEN_IP then st16 h 10 (ucast (ip4_fold_chksum chk_sum))
        else if LWIP_CHECKSUM_CTRL_PER_NETIF opts then st16 h 10 0 else Some h)
     else do {
       h \<leftarrow> st16 h 10 0;
       if CHECKSUM_GEN_IP opts \<and> IF__NETIF_CHECKSUM_ENABLED l n NETIF_CHECKSUM_GEN_IP then do {
         hdr \<leftarrow> mem_read h 0 (unat ip_hlen);
         st16 h 10 (inet_chksum l hdr)
       } else Some h
     }
   }"

text \<open>Handing the finished packet to the loopback queue, to fragmentation or to the driver.\<close>

definition ip4_transmit ::
  "ip4_opts \<Rightarrow> lwip \<Rightarrow> pbuf \<Rightarrow> netif \<Rightarrow> u32 \<Rightarrow> err_t \<times> ip4_event list" where
  "ip4_transmit opts l p n dest = (
     if ENABLE_LOOPBACK opts \<and>
        (dest = nif_addr n \<or> \<not> LWIP_HAVE_LOOPIF opts \<and> ip4_addr_isloopback l dest)
     then (netif_loop_output l n p, [Netif_loop_output n p])
     else
       (let ev = (if ENABLE_LOOPBACK opts \<and> LWIP_MULTICAST_TX_OPTIONS opts \<and> pb_mcastloop p
                  then [Netif_loop_output n p] else [])
        in if IP_FRAG opts \<and> nif_mtu n \<noteq> 0 \<and> pb_tot_len p > nif_mtu n
           then (ip4_frag l p n dest, ev @ [Ip4_frag p n dest])
           else (netif_send l n p dest, ev @ [Netif_output n p dest])))"

text \<open>\<open>dest = None\<close> is \<^verbatim>\<open>LWIP_IP_HDRINCL\<close>: the packet already has its header.\<close>

definition ip4_output_if_opt_src ::
  "ip4_opts \<Rightarrow> lwip \<Rightarrow> ip4_state \<Rightarrow> pbuf \<Rightarrow> u32 option \<Rightarrow> u32 option \<Rightarrow> u8 \<Rightarrow> u8 \<Rightarrow> u8 \<Rightarrow> netif
    \<Rightarrow> bytes \<Rightarrow> u16 \<Rightarrow> (ip4_state \<times> err_t \<times> ip4_event list) option" where
  "ip4_output_if_opt_src opts l s p src dest ttl tos proto n ip_options optlen = (
     let ev0 = [Stat Mib_ipoutrequests] in
     (case dest of
        Some da \<Rightarrow> do {
          r \<leftarrow> ip4_write_options opts l p ip_options optlen;
          (case r of
             Inl (e, ev) \<Rightarrow> Some (s, e, ev0 @ ev)
           | Inr (p, ip_hlen, chk_sum) \<Rightarrow>
               (case pbuf_add_header l p IP_HLEN of
                  None \<Rightarrow> Some (s, ERR_BUF, ev0 @ [Stat Ip_err, Stat Mib_ipoutdiscards])
                | Some p \<Rightarrow> do {
                    h \<leftarrow> ip4_write_header opts l (ip_id s) (pb_payload p) (pb_tot_len p) ip_hlen chk_sum
                           src da ttl tos proto n;
                    let (e, ev) = ip4_transmit opts l (p\<lparr>pb_payload := h\<rparr>) n da;
                    Some (s\<lparr>ip_id := ip_id s + 1\<rparr>, e, ev0 @ [Stat Ip_xmit] @ ev)
                  }))
        }
      | None \<Rightarrow>
          if length (pb_payload p) < unat IP_HLEN
          then Some (s, ERR_BUF, ev0 @ [Stat Ip_err, Stat Mib_ipoutdiscards])
          else do {
            da \<leftarrow> ld32 (pb_payload p) 16;
            let (e, ev) = ip4_transmit opts l p n da;
            Some (s, e, ev0 @ [Stat Ip_xmit] @ ev)
          }))"

definition ip4_output_if_src ::
  "ip4_opts \<Rightarrow> lwip \<Rightarrow> ip4_state \<Rightarrow> pbuf \<Rightarrow> u32 option \<Rightarrow> u32 option \<Rightarrow> u8 \<Rightarrow> u8 \<Rightarrow> u8 \<Rightarrow> netif
    \<Rightarrow> (ip4_state \<times> err_t \<times> ip4_event list) option" where
  "ip4_output_if_src opts l s p src dest ttl tos proto n =
     ip4_output_if_opt_src opts l s p src dest ttl tos proto n [] 0"

definition ip4_output_if_opt ::
  "ip4_opts \<Rightarrow> lwip \<Rightarrow> ip4_state \<Rightarrow> pbuf \<Rightarrow> u32 option \<Rightarrow> u32 option \<Rightarrow> u8 \<Rightarrow> u8 \<Rightarrow> u8 \<Rightarrow> netif
    \<Rightarrow> bytes \<Rightarrow> u16 \<Rightarrow> (ip4_state \<times> err_t \<times> ip4_event list) option" where
  "ip4_output_if_opt opts l s p src dest ttl tos proto n ip_options optlen =
     ip4_output_if_opt_src opts l s p
       (if dest \<noteq> None \<and> (src = None \<or> src = Some 0) then Some (nif_addr n) else src)
       dest ttl tos proto n ip_options optlen"

definition ip4_output_if ::
  "ip4_opts \<Rightarrow> lwip \<Rightarrow> ip4_state \<Rightarrow> pbuf \<Rightarrow> u32 option \<Rightarrow> u32 option \<Rightarrow> u8 \<Rightarrow> u8 \<Rightarrow> u8 \<Rightarrow> netif
    \<Rightarrow> (ip4_state \<times> err_t \<times> ip4_event list) option" where
  "ip4_output_if opts l s p src dest ttl tos proto n =
     ip4_output_if_opt opts l s p src dest ttl tos proto n [] 0"

definition ip4_output ::
  "ip4_opts \<Rightarrow> lwip \<Rightarrow> ip4_state \<Rightarrow> pbuf \<Rightarrow> u32 option \<Rightarrow> u32 \<Rightarrow> u8 \<Rightarrow> u8 \<Rightarrow> u8
    \<Rightarrow> (ip4_state \<times> err_t \<times> ip4_event list) option" where
  "ip4_output opts l s p src dest ttl tos proto =
     (case ip4_route_src opts l s src dest of
        (None, ev) \<Rightarrow> Some (s, ERR_RTE, ev @ [Stat Ip_rterr])
      | (Some n, ev) \<Rightarrow> do {
          (s, e, ev') \<leftarrow> ip4_output_if opts l s p src (Some dest) ttl tos proto n;
          Some (s, e, ev @ ev')
        })"

text \<open>The variant with output hints calls \<^verbatim>\<open>ip4_output_if\<close> on the interface with its hints set.\<close>

definition ip4_output_hinted ::
  "(netif \<Rightarrow> netif) \<Rightarrow> ip4_opts \<Rightarrow> lwip \<Rightarrow> ip4_state \<Rightarrow> pbuf \<Rightarrow> u32 option \<Rightarrow> u32 \<Rightarrow> u8 \<Rightarrow> u8 \<Rightarrow> u8
    \<Rightarrow> (ip4_state \<times> err_t \<times> ip4_event list) option" where
  "ip4_output_hinted set_hints opts l s p src dest ttl tos proto =
     (case ip4_route_src opts l s src dest of
        (None, ev) \<Rightarrow> Some (s, ERR_RTE, ev @ [Stat Ip_rterr])
      | (Some n, ev) \<Rightarrow> do {
          (s, e, ev') \<leftarrow> ip4_output_if opts l s p src (Some dest) ttl tos proto (set_hints n);
          Some (s, e, ev @ ev')
        })"

end
