(* ===== verification/Ip4_Proofs.thy ===== *)
theory Ip4_Proofs
  imports Ip4
begin

text \<open>
  Properties of the IPv4 layer: the inline header checksum against RFC 1071's sum, the header that
  is sent, what forwarding does to a header, and which packets reach the upper layers.
\<close>

section \<open>Words and checksums\<close>

lemma unat_le16:
  fixes lo hi :: u8
  shows "unat (ucast lo OR push_bit 8 (ucast hi) :: u16) = unat lo + 256 * unat hi"
proof -
  have "(ucast lo OR push_bit 8 (ucast hi) :: u16) = push_bit 8 (ucast hi) + ucast lo"
    by (subst or.commute, rule disjunctive_add [symmetric]) (auto simp: bit_simps dest: bit_imp_le_length)
  also have "\<dots> = of_nat (unat lo + 256 * unat hi)" by (simp add: push_bit_eq_mult)
  finally have eq: "(ucast lo OR push_bit 8 (ucast hi) :: u16) = of_nat (unat lo + 256 * unat hi)" .
  have "unat lo + 256 * unat hi < 65536" using unat_u8_less [of lo] unat_u8_less [of hi] by linarith
  then show ?thesis unfolding eq unsigned_of_nat by (simp add: take_bit_nat_eq_self)
qed

lemma htons_bytes: "htons w = ucast (ucast (drop_bit 8 w) :: u8) OR push_bit 8 (ucast (ucast w :: u8))"
  by (rule bit_word_eqI) (auto simp: htons_def bit_simps dest: bit_imp_le_length)

lemma unat_htons: "unat (htons w) = unat w div 256 + 256 * (unat w mod 256)"
proof -
  have "unat w div 256 < 256" using unat_u16_less [of w] by linarith
  then show ?thesis by (simp only: htons_bytes unat_le16 unat_ucast_u8 unat_drop_bit) simp
qed

lemma htons_htons: "htons (htons w) = w"
  by (rule bit_word_eqI) (auto simp: htons_def bit_simps dest: bit_imp_le_length)

lemma unat_not_u32: "unat (NOT x :: u32) = 4294967295 - unat x"
proof -
  have "unat (NOT x) + unat x = unat (NOT x + x)"
    by (rule unat_plus_simple [THEN iffD1, symmetric]) (simp add: not_eq_complement)
  also have "NOT x + x = - 1" by (simp add: not_eq_complement)
  also have "unat (- 1 :: u32) = 4294967295" by (simp add: unsigned_minus_1_eq_mask mask_eq_exp_minus_1)
  finally show ?thesis by simp
qed


lemma and_65535: "unat (x AND 65535 :: 'a::len word) = unat x mod 65536"
proof -
  have "x AND 65535 = take_bit 16 x" by (simp add: take_bit_eq_mask mask_eq_exp_minus_1)
  moreover have "unat (take_bit 16 x) = take_bit 16 (unat x)" by (rule unsigned_take_bit_eq)
  ultimately show ?thesis by (simp only: take_bit_eq_mod) simp
qed

lemma complement_low16:
  assumes "n < 4294967296"
  shows "(4294967295 - n) mod 65536 = 65535 - n mod (65536 :: nat)"
proof -
  define q r where "q = n div 65536" and "r = n mod 65536"
  have n: "n = 65536 * q + r" "r < 65536" by (simp_all add: q_def r_def)
  then have "q < 65536" using assms by simp
  then have "4294967295 - n = 65536 * (65535 - q) + (65535 - r)" using n by (simp add: algebra_simps)
  also have "\<dots> mod 65536 = (65535 - r) mod 65536" by (rule mod_mult_self4)
  finally show ?thesis by (simp add: r_def)
qed

lemma unat_fold_chksum:
  assumes "S < 4294967296"
  defines "c \<equiv> S div 65536 + S mod 65536"
  shows "unat (ucast (ip4_fold_chksum (of_nat S)) :: u16) = 65535 - (c div 65536 + c) mod 65536"
proof -
  have c: "c \<le> 131070" using assms by simp
  have lt: "S div 65536 < 4294967296" "S mod 65536 < 4294967296" using assms by simp_all
  have "drop_bit 16 (of_nat S) = (of_nat (S div 65536) :: u32)"
      "of_nat S AND 65535 = (of_nat (S mod 65536) :: u32)"
    unfolding word_unat_eq_iff unat_drop_bit and_65535 unat_of_nat_u32 [OF assms(1)]
    by (simp_all add: unat_of_nat_u32 lt)
  then have 1: "drop_bit 16 (of_nat S) + (of_nat S AND 65535) = (of_nat c :: u32)"
    by (simp add: c_def)
  have "drop_bit 16 (of_nat c) = (of_nat (c div 65536) :: u32)"
    using c unfolding word_unat_eq_iff unat_drop_bit by (simp add: unat_of_nat_u32)
  then have "ip4_fold_chksum (of_nat S) = NOT (of_nat (c div 65536 + c))"
    by (simp add: ip4_fold_chksum_def 1)
  moreover have "unat (of_nat (c div 65536 + c) :: u32) = c div 65536 + c"
    using c by (intro unat_of_nat_u32) simp
  moreover have "c div 65536 + c < 4294967296" using c by simp
  ultimately show ?thesis by (simp only: unat_ucast_u16 unat_not_u32 complement_low16)
qed

lemma ip4_fold_chksum_valid:
  assumes "S < 4294967296"
  shows "(S + unat (ucast (ip4_fold_chksum (of_nat S)) :: u16)) mod 65535 = 0"
proof -
  define q r where "q = S div 65536" and "r = S mod 65536"
  have S: "S = 65536 * q + r" "r < 65536" "q < 65536" using assms by (simp_all add: q_def r_def)
  show ?thesis
  proof (cases "q + r < 65536")
    case True
    then have "S + (65535 - ((q + r) div 65536 + (q + r)) mod 65536) = 65535 * (q + 1)"
      using S by simp
    then show ?thesis using unat_fold_chksum [OF assms] by (simp only: q_def r_def) simp
  next
    case False
    then have "(q + r) div 65536 = 1" "(1 + (q + r)) mod 65536 = q + r - 65535"
      using S by (simp_all add: mod_if) 
    then have "S + (65535 - ((q + r) div 65536 + (q + r)) mod 65536) = 65535 * (q + 2)"
      using S False by simp
    then show ?thesis using unat_fold_chksum [OF assms] by (simp only: q_def r_def) simp
  qed
qed

section \<open>The header that is sent\<close>

text \<open>Reference: the sum of the 16-bit words of a byte sequence, and RFC 1071's test.\<close>

fun sum_words :: "bytes \<Rightarrow> nat" where
  "sum_words (a # b # r) = unat a + 256 * unat b + sum_words r"
| "sum_words [a] = unat a"
| "sum_words [] = 0"

definition chksum_valid :: "bytes \<Rightarrow> bool" where
  "chksum_valid h \<longleftrightarrow> sum_words h mod 65535 = 0 \<and> sum_words h > 0"

definition b16 :: "u16 \<Rightarrow> bytes" where "b16 w = [ucast w, ucast (drop_bit 8 w)]"
definition b32 :: "u32 \<Rightarrow> bytes" where "b32 w = b16 (ucast w) @ b16 (ucast (drop_bit 16 w))"

text \<open>The twenty header bytes in the order of RFC 791.\<close>

definition header_bytes :: "u16 \<Rightarrow> u8 \<Rightarrow> u16 \<Rightarrow> u16 \<Rightarrow> u8 \<Rightarrow> u8 \<Rightarrow> u16 \<Rightarrow> u32 \<Rightarrow> u32 \<Rightarrow> bytes" where
  "header_bytes ip_hlen tos tot_len ident ttl proto chk src dest =
     [0x40 OR ucast (ip_hlen div 4), tos] @ b16 (htons tot_len) @ b16 (htons ident) @ [0, 0] @
     [ttl, proto] @ b16 chk @ b32 src @ b32 dest"

lemma sum_words_append: "even (length xs) \<Longrightarrow> sum_words (xs @ ys) = sum_words xs + sum_words ys"
  by (induction xs rule: sum_words.induct) auto

lemma length_b16 [simp]: "length (b16 w) = 2" by (simp add: b16_def)
lemma length_b32 [simp]: "length (b32 w) = 4" by (simp add: b32_def)

lemma sum_words_b16: "sum_words (b16 w) = unat w"
proof -
  have "unat w div 256 < 256" using unat_u16_less [of w] by linarith
  then show ?thesis by (simp add: b16_def unat_ucast_u8 unat_drop_bit)
qed

lemma sum_words_b32: "sum_words (b32 w) = unat w mod 65536 + unat w div 65536"
proof -
  have "unat w div 65536 < 65536" using unat_u32_less [of w] by linarith
  then show ?thesis by (simp add: b32_def sum_words_append sum_words_b16 unat_ucast_u16 unat_drop_bit)
qed

lemma st16_append: "length a = i \<Longrightarrow> length b = 2 \<Longrightarrow> st16 (a @ b @ c) i w = Some (a @ b16 w @ c)"
  by (auto simp: st16_def b16_def mem_set_def list_update_append length_Suc_conv numeral_2_eq_2)

lemma list20:
  assumes "length h = 20"
  obtains b0 b1 b2 b3 b4 b5 b6 b7 b8 b9 b10 b11 b12 b13 b14 b15 b16 b17 b18 b19
  where "h = [b0,b1,b2,b3,b4,b5,b6,b7,b8,b9,b10,b11,b12,b13,b14,b15,b16,b17,b18,b19]"
  using assms by (auto simp: length_Suc_conv numeral_eq_Suc)

lemma word_pair_htons:
  fixes lo hi :: u8
  shows "htons (ucast lo OR push_bit 8 (ucast hi)) = ucast hi OR push_bit 8 (ucast lo)"
  by (rule bit_word_eqI) (auto simp: htons_def bit_simps dest: bit_imp_le_length)

lemma of_nat_unat_u32: "ucast (w :: 'a::len word) = (of_nat (unat w) :: u32)"
  by simp

definition header_chksum :: "nat \<Rightarrow> u16 \<Rightarrow> u8 \<Rightarrow> u16 \<Rightarrow> u16 \<Rightarrow> u8 \<Rightarrow> u8 \<Rightarrow> u32 \<Rightarrow> u32 \<Rightarrow> u16" where
  "header_chksum s0 ip_hlen tos tot_len ident ttl proto src dest =
     ucast (ip4_fold_chksum (of_nat (s0 + sum_words (header_bytes ip_hlen tos tot_len ident ttl proto 0 src dest))))"

lemma write_header_inline:
  assumes "CHECKSUM_GEN_IP_INLINE opts" "IF__NETIF_CHECKSUM_ENABLED l n NETIF_CHECKSUM_GEN_IP" "length h = 20"
  shows "ip4_write_header opts l ident (h @ rest) tot_len ip_hlen (of_nat s0) src dest ttl tos proto n =
    Some (header_bytes ip_hlen tos tot_len ident ttl proto
            (header_chksum s0 ip_hlen tos tot_len ident ttl proto (case src of None \<Rightarrow> 0 | Some a \<Rightarrow> a) dest)
            (case src of None \<Rightarrow> 0 | Some a \<Rightarrow> a) dest @ rest)"
proof -
  let ?src = "case src of None \<Rightarrow> 0 | Some a \<Rightarrow> a"
  let ?v = "0x40 OR ucast (ip_hlen div 4) :: u8"
  have sum: "of_nat s0 + ucast (htons (ucast proto OR push_bit 8 (ucast ttl))) + (dest AND 0xFFFF) + drop_bit 16 dest
      + ucast (htons (ucast tos OR push_bit 8 (ucast ?v))) + ucast (htons tot_len) + ucast (htons ident)
      + (?src AND 0xFFFF) + drop_bit 16 ?src =
    (of_nat (s0 + sum_words (header_bytes ip_hlen tos tot_len ident ttl proto 0 ?src dest)) :: u32)"
  proof -
    have lo: "(w AND 0xFFFF) = (of_nat (unat w mod 65536) :: u32)" for w :: u32
      by (simp add: word_unat_eq_iff and_65535 unat_of_nat_u32)
    have hi: "drop_bit 16 w = (of_nat (unat w div 65536) :: u32)" for w :: u32
      using le_less_trans [OF div_le_dividend unat_u32_less, of w 65536]
      by (simp add: word_unat_eq_iff unat_drop_bit unat_of_nat_u32)
    have pair: "ucast (htons (ucast a OR push_bit 8 (ucast b))) = (of_nat (unat b + 256 * unat a) :: u32)" for a b :: u8
      unfolding word_pair_htons of_nat_unat_u32 unat_le16 ..
    show ?thesis
      unfolding lo hi pair of_nat_unat_u32 [of "htons tot_len"] of_nat_unat_u32 [of "htons ident"]
      by (simp add: header_bytes_def sum_words_append sum_words_b16 sum_words_b32)
  qed
  obtain b0 b1 b2 b3 b4 b5 b6 b7 b8 b9 b10 b11 b12 b13 b14 b15 b16 b17 b18 b19
    where "h = [b0,b1,b2,b3,b4,b5,b6,b7,b8,b9,b10,b11,b12,b13,b14,b15,b16,b17,b18,b19]"
    using list20 [OF assms(3)] by metis
  then show ?thesis
    unfolding ip4_write_header_def Let_def header_chksum_def sum [symmetric]
    using assms(1,2)
    by (simp add: st16_def st32_def header_bytes_def b16_def b32_def)
qed

lemma sum_words_bound: "sum_words xs \<le> 65535 * length xs"
proof (induction xs rule: sum_words.induct)
  case (1 a b r)
  then show ?case using unat_u8_less [of a] unat_u8_less [of b] by (simp del: unat_u8_less)
next
  case (2 a)
  then show ?case using unat_u8_less [of a] by (simp del: unat_u8_less)
qed simp

lemma sum_words_zeros [simp]: "sum_words (replicate n 0) = 0"
  by (induction n rule: less_induct) (case_tac x; simp; case_tac nat; simp)

lemma sum_words_pos: "a \<noteq> 0 \<Longrightarrow> sum_words (a # xs) > 0"
  by (cases xs) (simp_all add: unat_gt_0)

lemma header_bytes_Cons: "\<exists>v xs. header_bytes hl tos len ident ttl proto chk src dest = v # xs \<and> v \<noteq> 0"
proof -
  have "bit (0x40 OR ucast (hl div 4) :: u8) 6" by (simp add: bit_simps)
  then show ?thesis by (auto simp: header_bytes_def)
qed

lemma length_header_bytes [simp]: "length (header_bytes hl tos len ident ttl proto chk src dest) = 20"
  by (simp add: header_bytes_def)

lemma header_chksum_valid:
  assumes "length os \<le> 40"
  shows "chksum_valid (header_bytes hl tos len ident ttl proto
      (header_chksum (sum_words os) hl tos len ident ttl proto src dest) src dest @ os)"
proof -
  let ?H = "\<lambda>c. header_bytes hl tos len ident ttl proto c src dest"
  let ?S = "sum_words os + sum_words (?H 0)"
  have split: "sum_words (?H c @ os) = ?S + unat c" for c
    by (simp add: header_bytes_def sum_words_append sum_words_b16)
  have "?S < 4294967296"
    using sum_words_bound [of os] sum_words_bound [of "?H 0"] assms by simp
  then have "sum_words (?H (header_chksum (sum_words os) hl tos len ident ttl proto src dest) @ os) mod 65535 = 0"
    unfolding split header_chksum_def by (rule ip4_fold_chksum_valid)
  then show ?thesis
    using header_bytes_Cons [of hl tos len ident ttl proto "header_chksum (sum_words os) hl tos len ident ttl proto src dest" src dest]
    by (auto simp: chksum_valid_def sum_words_pos)
qed

text \<open>What lwIP documents of \<^verbatim>\<open>pbuf_add_header\<close>: on success the payload starts that many bytes earlier.\<close>

definition pbuf_add_header_spec :: "lwip \<Rightarrow> bool" where
  "pbuf_add_header_spec l \<longleftrightarrow> (\<forall>p k p'. pbuf_add_header l p k = Some p' \<longrightarrow>
     (\<exists>h. length h = unat k \<and> p' = p\<lparr>pb_payload := h @ pb_payload p, pb_tot_len := pb_tot_len p + k\<rparr>))"

definition opt_pad :: "u16 \<Rightarrow> bytes" where
  "opt_pad optlen = replicate ((unat optlen + 3) div 4 * 4 - unat optlen) 0"

lemma unat_align4:
  assumes "x \<le> (40 :: u16)"
  shows "unat ((x + 3) AND NOT 3) = (unat x + 3) div 4 * 4"
proof -
  have x: "unat x \<le> 40" using assms by (simp add: word_le_nat_alt)
  have "(y AND NOT 3) = push_bit 2 (drop_bit 2 y)" for y :: u16
  proof -
    have "(3 :: u16) = mask 2" by (simp add: mask_eq_exp_minus_1)
    show ?thesis unfolding \<open>3 = mask 2\<close>
      by (rule bit_word_eqI) (auto simp: bit_simps not_less dest!: le_Suc_ex)
  qed
  then have "unat ((x + 3) AND NOT 3) = unat (drop_bit 2 (x + 3) * 4)"
    by (simp add: push_bit_eq_mult)
  moreover have "unat (x + 3) = unat x + 3" using x by (simp add: unat_word_ariths)
  ultimately show ?thesis using x by (simp add: unat_word_ariths unat_drop_bit)
qed

lemma sum16_eq:
  "i + 2 * n \<le> length m \<Longrightarrow> sum16 m i n acc = Some (acc + of_nat (sum_words (take (2 * n) (drop i m))))"
proof (induction n arbitrary: i acc)
  case 0
  then show ?case by simp
next
  case (Suc n)
  then have "drop i m = m ! i # m ! Suc i # drop (i + 2) m"
    by (simp add: Cons_nth_drop_Suc)
  then have t: "take (2 * Suc n) (drop i m) = m ! i # m ! Suc i # take (2 * n) (drop (i + 2) m)" by simp
  have "ld16 m i = Some (ucast (m ! i) OR push_bit 8 (ucast (m ! Suc i)))"
    using Suc.prems by (simp add: ld16_def)
  moreover have "ucast (ucast a OR push_bit 8 (ucast b) :: u16) = (of_nat (unat a + 256 * unat b) :: u32)" for a b :: u8
    unfolding of_nat_unat_u32 unat_le16 ..
  ultimately show ?case
    using Suc.prems Suc.IH [of "i + 2"] unfolding t by simp
qed

lemma write_options_ok:
  assumes "pbuf_add_header_spec l" and "CHECKSUM_GEN_IP_INLINE opts" and "optlen \<le> 40"
    and "optlen \<noteq> 0 \<longrightarrow> IP_OPTIONS_SEND opts" and "unat optlen \<le> length ip_options"
    and "\<forall>q k. pbuf_add_header l q k \<noteq> None"
  defines "os \<equiv> take (unat optlen) ip_options @ opt_pad optlen"
  shows "ip4_write_options opts l p ip_options optlen =
    Some (Inr (p\<lparr>pb_payload := os @ pb_payload p, pb_tot_len := pb_tot_len p + of_nat (length os)\<rparr>,
               20 + of_nat (length os), of_nat (sum_words os)))"
proof (cases "optlen = 0")
  case True
  then show ?thesis by (simp add: ip4_write_options_def os_def opt_pad_def)
next
  case False
  define k where "k = (optlen + 3) AND NOT 3"
  have k: "unat k = (unat optlen + 3) div 4 * 4" unfolding k_def by (rule unat_align4) (rule assms)
  have len: "length os = unat k" using assms(5) k by (simp add: os_def opt_pad_def)
  obtain h where h: "length h = unat k"
      "pbuf_add_header l p k = Some (p\<lparr>pb_payload := h @ pb_payload p, pb_tot_len := pb_tot_len p + k\<rparr>)"
    using assms(1,6) unfolding pbuf_add_header_spec_def by (metis option.exhaust)
  have le: "unat optlen \<le> unat k" using k by simp
  have c1: "mem_cpy (h @ pb_payload p) 0 (take (unat optlen) ip_options) =
      Some (take (unat optlen) ip_options @ drop (unat optlen) h @ pb_payload p)"
    using assms(5) h(1) le by (simp add: mem_cpy_def)
  have c2: "mem_cpy (take (unat optlen) ip_options @ drop (unat optlen) h @ pb_payload p) (unat optlen)
        (replicate (unat k - unat optlen) 0) = Some (os @ pb_payload p)"
    using assms(5) h(1) le k by (simp add: mem_cpy_def os_def opt_pad_def)
  have "sum16 (os @ pb_payload p) 0 (unat k div 2) 0 = Some (of_nat (sum_words os))"
    using sum16_eq [of 0 "unat k div 2" "os @ pb_payload p" 0] len k by simp
  moreover have "of_nat (length os) = k" using len by simp
  ultimately show ?thesis
    using False assms(2-5) h(2) c1 c2
    unfolding ip4_write_options_def Let_def k_def [symmetric] by (simp add: mem_read_def not_less)
qed

lemma output_if_opt_header:
  assumes "pbuf_add_header_spec l" and "CHECKSUM_GEN_IP_INLINE opts" and "optlen \<le> 40"
    and "optlen \<noteq> 0 \<longrightarrow> IP_OPTIONS_SEND opts" and "unat optlen \<le> length ip_options"
    and "\<forall>q k. pbuf_add_header l q k \<noteq> None"
    and "IF__NETIF_CHECKSUM_ENABLED l n NETIF_CHECKSUM_GEN_IP"
  defines "os \<equiv> take (unat optlen) ip_options @ opt_pad optlen"
  defines "hl \<equiv> 20 + of_nat (length os)"
  shows "\<exists>p' chk. ip4_output_if_opt opts l s p src (Some dest) ttl tos proto n ip_options optlen =
      Some (s\<lparr>ip_id := ip_id s + 1\<rparr>, fst (ip4_transmit opts l p' n dest),
            [Stat Mib_ipoutrequests, Stat Ip_xmit] @ snd (ip4_transmit opts l p' n dest))
    \<and> pb_payload p' = header_bytes hl tos (pb_tot_len p + hl) (ip_id s) ttl proto chk
        (if src = None \<or> src = Some 0 then nif_addr n else the src) dest @ os @ pb_payload p
    \<and> pb_tot_len p' = pb_tot_len p + hl
    \<and> chksum_valid (take (20 + length os) (pb_payload p'))"
proof -
  define p1 where "p1 = p\<lparr>pb_payload := os @ pb_payload p, pb_tot_len := pb_tot_len p + of_nat (length os)\<rparr>"
  have wo: "ip4_write_options opts l p ip_options optlen = Some (Inr (p1, hl, of_nat (sum_words os)))"
    unfolding p1_def hl_def os_def by (rule write_options_ok) (rule assms)+
  obtain h where h: "length h = 20"
      "pbuf_add_header l p1 20 = Some (p1\<lparr>pb_payload := h @ pb_payload p1, pb_tot_len := pb_tot_len p1 + 20\<rparr>)"
  proof -
    obtain q where q: "pbuf_add_header l p1 20 = Some q" using assms(6) by blast
    with assms(1) obtain h where "length h = unat (20 :: u16)"
       "q = p1\<lparr>pb_payload := h @ pb_payload p1, pb_tot_len := pb_tot_len p1 + 20\<rparr>"
      unfolding pbuf_add_header_spec_def by blast
    with q that show ?thesis by simp
  qed
  let ?src = "if src = None \<or> src = Some 0 then Some (nif_addr n) else src"
  let ?a = "if src = None \<or> src = Some 0 then nif_addr n else the src"
  have a: "(case ?src of None \<Rightarrow> 0 | Some a \<Rightarrow> a) = ?a" by auto
  let ?chk = "header_chksum (sum_words os) hl tos (pb_tot_len p + hl) (ip_id s) ttl proto ?a dest"
  define p' where "p' = p\<lparr>pb_payload := header_bytes hl tos (pb_tot_len p + hl) (ip_id s) ttl proto ?chk ?a dest @ os @ pb_payload p, pb_tot_len := pb_tot_len p + hl\<rparr>"
  have tl: "pb_tot_len p1 + 20 = pb_tot_len p + hl" by (simp add: p1_def hl_def)
  have wh: "ip4_write_header opts l (ip_id s) (h @ pb_payload p1) (pb_tot_len p1 + 20) hl (of_nat (sum_words os))
      ?src dest ttl tos proto n = Some (pb_payload p')"
    unfolding tl using write_header_inline [OF assms(2,7) h(1), of "ip_id s" "pb_payload p1" "pb_tot_len p + hl" hl "sum_words os" ?src dest ttl tos proto]
    unfolding a by (simp add: p'_def p1_def)
  have eq: "p1\<lparr>pb_tot_len := pb_tot_len p1 + 20, pb_payload := pb_payload p'\<rparr> = p'"
    unfolding tl by (simp add: p'_def p1_def)
  have "ip4_output_if_opt opts l s p src (Some dest) ttl tos proto n ip_options optlen =
      Some (s\<lparr>ip_id := ip_id s + 1\<rparr>, fst (ip4_transmit opts l p' n dest),
            [Stat Mib_ipoutrequests, Stat Ip_xmit] @ snd (ip4_transmit opts l p' n dest))"
    unfolding ip4_output_if_opt_def ip4_output_if_opt_src_def
    using h(2) wh eq by (simp add: wo split_beta)
  moreover have "chksum_valid (take (20 + length os) (pb_payload p'))"
  proof -
    have "unat optlen \<le> 40" using assms(3) by (simp add: word_le_nat_alt)
    then have "length os \<le> 40" using assms(5) by (simp add: os_def opt_pad_def min_absorb2)
    from header_chksum_valid [OF this] show ?thesis by (simp add: p'_def)
  qed
  ultimately show ?thesis by (intro exI [of _ p'] exI [of _ ?chk]) (simp add: p'_def)
qed

section \<open>Forwarding\<close>

lemma htons_numerals:
  "htons 0x4000 = 0x40" "htons 0x100 = 1" "htons 0xFEFF = 0xFFFE" "htons 0 = 0"
  "htons (0x1FFF OR 0x2000) = 0xFF3F" "htons 68 = 0x4400"
  by (simp_all add: word_unat_eq_iff unat_htons)

lemma forward_chksum_eq:
  "unat (forward_chksum c) = (if unat c < 65534 then unat c + 1 else unat c - 65534)"
proof -
  have "unat (c + 1) = unat c + 1" if "unat c < 65534"
    using that by (simp add: unat_word_ariths)
  moreover have "unat (c + 2) = unat c - 65534" if "\<not> unat c < 65534"
    using that unat_u16_less [of c] by (simp add: unat_word_ariths mod_if del: unat_u16_less)
  ultimately show ?thesis
    by (simp add: forward_chksum_def htons_numerals word_le_nat_alt not_less add.assoc)
qed

text \<open>Decrementing the TTL byte and adjusting the checksum bytes keeps the word sum modulo \<open>65535\<close>.\<close>

lemma forward_sum:
  assumes "length h = 20" and "h ! 8 \<noteq> 0"
    and "ucast (h ! 10) OR push_bit 8 (ucast (h ! 11)) = (c :: u16)"
  defines "h' \<equiv> h[8 := h ! 8 - 1, 10 := ucast (forward_chksum c), 11 := ucast (drop_bit 8 (forward_chksum c))]"
  shows "sum_words (h' @ os) mod 65535 = sum_words (h @ os) mod 65535"
proof -
  obtain b0 b1 b2 b3 b4 b5 b6 b7 b8 b9 b10 b11 b12 b13 b14 b15 b16 b17 b18 b19
    where h: "h = [b0,b1,b2,b3,b4,b5,b6,b7,b8,b9,b10,b11,b12,b13,b14,b15,b16,b17,b18,b19]"
    using list20 [OF assms(1)] by metis
  let ?c = "forward_chksum c"
  have c: "unat c = unat b10 + 256 * unat b11"
    using assms(3) unat_le16 [of b10 b11] by (simp add: h)
  have lt: "unat ?c div 256 < 256" using unat_u16_less [of ?c] by linarith
  have c': "unat (ucast ?c :: u8) + 256 * unat (ucast (drop_bit 8 ?c) :: u8) = unat ?c"
    using lt by (simp add: unat_ucast_u8 unat_drop_bit)
  have t: "unat (b8 - 1) = unat b8 - 1" "unat b8 > 0"
    using assms(2) by (simp_all add: h unat_minus_one unat_gt_0)
  define R where "R = sum_words (h @ os) - (unat b8 + unat c)"
  have s: "sum_words (h @ os) = R + unat b8 + unat c" using c by (simp add: R_def h)
  have s': "sum_words (h' @ os) = R + (unat b8 - 1) + unat ?c"
    using c c' t by (simp add: R_def h h'_def)
  show ?thesis
  proof (cases "unat c < 65534")
    case True
    then show ?thesis using s s' t(2) by (simp add: forward_chksum_eq)
  next
    case False
    then have "sum_words (h @ os) = sum_words (h' @ os) + 65535"
      using s s' t(2) by (simp add: forward_chksum_eq)
    then show ?thesis by simp
  qed
qed

lemma st16_Some [mem_simps]:
  "st16 m i w = Some m' \<longleftrightarrow> i + 1 < length m \<and> m' = m[i := ucast w, i + 1 := ucast (drop_bit 8 w)]"
  by (auto simp: st16_def mem_simps Option.bind_eq_Some_conv)

lemma route_found_events: "ip4_route opts l s dest = (Some n, ev) \<Longrightarrow> ev = []"
  by (auto simp: ip4_route_def route_default_def split: if_splits option.splits)

lemma route_src_found_events: "ip4_route_src opts l s src dest = (Some n, ev) \<Longrightarrow> ev = []"
  by (auto simp: ip4_route_src_def dest: route_found_events split: if_splits option.splits)

lemma route_none_events: "ip4_route opts l s dest = (None, ev) \<Longrightarrow> set ev \<subseteq> range Stat"
  by (auto simp: ip4_route_def route_default_def split: if_splits option.splits)

lemma route_src_none_events: "ip4_route_src opts l s src dest = (None, ev) \<Longrightarrow> set ev \<subseteq> range Stat"
  by (auto simp: ip4_route_src_def dest: route_none_events split: if_splits option.splits)

definition clears_ip_chksum :: "ip4_opts \<Rightarrow> lwip \<Rightarrow> netif \<Rightarrow> bool" where
  "clears_ip_chksum opts l inp \<longleftrightarrow> CHECKSUM_GEN_IP opts \<or> NETIF_CHECKSUM_ENABLED l inp NETIF_CHECKSUM_GEN_IP"

lemma forward_clear_take:
  assumes "forward_clear_chksums opts l inp h = Some h'" and "IPH_HL_BYTES h = Some hl"
    and "20 \<le> unat hl" "unat hl \<le> length h"
  shows "length h' = length h \<and> take (unat hl) h' =
     take (unat hl) (if clears_ip_chksum opts l inp then h[10 := 0, 11 := 0] else h)"
proof -
  define h1 where "h1 = (if clears_ip_chksum opts l inp then h[10 := 0, 11 := 0] else h)"
  have len: "length h1 = length h" by (simp add: h1_def)
  have hl1: "IPH_HL_BYTES h1 = Some hl" using assms(2) by (auto simp: h1_def IPH_HL_BYTES_def mem_get_def split: if_splits)
  have "(if clears_ip_chksum opts l inp then st16 h 10 0 else Some h) = Some h1"
    using assms(3,4) by (simp add: h1_def st16_Some)
  then have "h' = h1 \<or> st16 h1 (unat hl + 6) 0 = Some h' \<or> st16 h1 (unat hl + 16) 0 = Some h' \<or>
      st16 h1 (unat hl + 2) 0 = Some h'"
    using assms(1) hl1 unfolding forward_clear_chksums_def clears_ip_chksum_def
    by (simp split: if_splits Option.bind_splits)
  then show ?thesis using len unfolding h1_def [symmetric] by (auto simp: st16_Some)
qed

lemma forward_outputE:
  assumes "ip4_forward opts l s p inp = Some (p', ev)" and "Netif_output n q d \<in> set ev"
  obtains ttl c h2 where "ip4_canforward l s p" "\<not> ip4_addr_islinklocal l (cur_dest (ip_cur s))"
    "ip4_route_src opts l s (Some (cur_src (ip_cur s))) (cur_dest (ip_cur s)) = (Some n, [])"
    "IP_FORWARD_ALLOW_TX_ON_RX_NETIF opts \<or> nif_id n \<noteq> nif_id inp"
    "mem_get (pb_payload p) 8 = Some ttl" "ttl - 1 \<noteq> 0" "ld16 ((pb_payload p)[8 := ttl - 1]) 10 = Some c"
    "st16 ((pb_payload p)[8 := ttl - 1]) 10 (forward_chksum c) = Some h2"
    "forward_clear_chksums opts l inp h2 = Some (pb_payload p')"
    "q = p'" "d = cur_dest (ip_cur s)"
proof -
  obtain n0 ev0 where r: "ip4_route_src opts l s (Some (cur_src (ip_cur s))) (cur_dest (ip_cur s)) = (n0, ev0)"
    by fastforce
  show thesis
  proof (cases n0)
    case None
    with assms r show thesis
      using route_src_none_events [of opts l s "Some (cur_src (ip_cur s))" "cur_dest (ip_cur s)" ev0]
      by (auto simp: ip4_forward_def Let_def split: if_splits)
  next
    case (Some n1)
    with r have "ev0 = []" using route_src_found_events by blast
    with Some r assms that show thesis
      by (auto simp: ip4_forward_def forward_transmit_def Let_def mem_set_Some
          split: if_splits Option.bind_splits)
  qed
qed


text \<open>The header part of the rewritten packet.\<close>

lemma forward_header:
  assumes "ip4_forward opts l s p inp = Some (p', ev)" and "Netif_output n q d \<in> set ev"
    and "IPH_HL_BYTES (pb_payload p) = Some hl" and "20 \<le> unat hl" "unat hl \<le> length (pb_payload p)"
  shows "length (pb_payload p') = length (pb_payload p) \<and>
    pb_payload p' ! 8 = pb_payload p ! 8 - 1 \<and> pb_payload p' ! 0 = pb_payload p ! 0 \<and>
    (clears_ip_chksum opts l inp \<longrightarrow> pb_payload p' ! 10 = 0 \<and> pb_payload p' ! 11 = 0) \<and>
    (\<not> clears_ip_chksum opts l inp \<longrightarrow> pb_payload p ! 8 \<noteq> 0 \<longrightarrow>
      sum_words (take (unat hl) (pb_payload p')) mod 65535 = sum_words (take (unat hl) (pb_payload p)) mod 65535)"
proof -
  let ?h = "pb_payload p"
  from assms(1,2) obtain ttl c h2 where
    ttl: "mem_get ?h 8 = Some ttl" and c: "ld16 (?h[8 := ttl - 1]) 10 = Some c"
    and h2: "st16 (?h[8 := ttl - 1]) 10 (forward_chksum c) = Some h2"
    and cl: "forward_clear_chksums opts l inp h2 = Some (pb_payload p')"
    by (rule forward_outputE)
  have t: "ttl = ?h ! 8" using ttl by (simp add: mem_get_Some)
  have len: "length ?h \<ge> 20" using assms(4,5) by linarith
  have h2': "h2 = ?h[8 := ?h ! 8 - 1, 10 := ucast (forward_chksum c), 11 := ucast (drop_bit 8 (forward_chksum c))]"
    using h2 by (simp add: st16_Some t)
  have hl2: "IPH_HL_BYTES h2 = Some hl"
    using assms(3) by (auto simp: h2' IPH_HL_BYTES_def mem_get_def split: if_splits)
  have tk: "take (unat hl) (pb_payload p') = take (unat hl) (if clears_ip_chksum opts l inp then h2[10 := 0, 11 := 0] else h2)"
    using forward_clear_take [OF cl hl2 assms(4)] assms(5) by (simp add: h2')
  have nth: "pb_payload p' ! i = (if clears_ip_chksum opts l inp then h2[10 := 0, 11 := 0] else h2) ! i" if "i < 20" for i
    using arg_cong [OF tk, of "\<lambda>xs. xs ! i"] that assms(4) by simp
  have "sum_words (take (unat hl) h2) mod 65535 = sum_words (take (unat hl) ?h) mod 65535" if "?h ! 8 \<noteq> 0"
  proof -
    let ?t = "take 20 ?h" and ?r = "take (unat hl - 20) (drop 20 ?h)"
    have s: "take (unat hl) xs = take 20 xs @ take (unat hl - 20) (drop 20 xs)" for xs :: bytes
      using assms(4) by (metis le_add_diff_inverse take_add)
    have cc: "ucast (?t ! 10) OR push_bit 8 (ucast (?t ! 11)) = c"
      using c len by (simp add: ld16_def)
    have "take 20 h2 = ?t[8 := ?t ! 8 - 1, 10 := ucast (forward_chksum c), 11 := ucast (drop_bit 8 (forward_chksum c))]"
      by (simp add: h2' take_update_swap)
    moreover have "drop 20 h2 = drop 20 ?h" by (simp add: h2')
    ultimately show ?thesis
      using forward_sum [of ?t c ?r] that cc len unfolding s by simp
  qed
  moreover have "length (pb_payload p') = length ?h"
    using forward_clear_take [OF cl hl2 assms(4)] assms(5) by (simp add: h2')
  ultimately show ?thesis using nth tk len by (simp add: h2')
qed

section \<open>Input\<close>

fun delivers :: "ip4_event \<Rightarrow> bool" where
  "delivers (Raw_input _ _) = True"
| "delivers (Udp_input _ _ _) = True"
| "delivers (Tcp_input _ _ _) = True"
| "delivers (Icmp_input _ _ _) = True"
| "delivers (Igmp_input _ _ _ _) = True"
| "delivers _ = False"

lemma route_src_events: "ip4_route_src opts l s src dest = (r, ev) \<Longrightarrow> set ev \<subseteq> range Stat"
  using route_src_none_events [of opts l s src dest ev] route_src_found_events [of opts l s src dest _ ev]
  by (cases r) auto

lemma forward_no_delivery:
  assumes "ip4_forward opts l s p inp = Some (p', ev)" "e \<in> set ev"
  shows "\<not> delivers e"
proof -
  obtain n0 ev0 where r: "ip4_route_src opts l s (Some (cur_src (ip_cur s))) (cur_dest (ip_cur s)) = (n0, ev0)"
    by fastforce
  have "\<not> delivers x" if "x \<in> set ev0" for x
    using that route_src_events [OF r] by auto
  then show ?thesis
    using assms r
    by (auto simp: ip4_forward_def forward_transmit_def Let_def
        split: if_splits Option.bind_splits option.splits)
qed

lemma validateE:
  assumes "ip4_input_validate opts l p inp = Some (Inr (q, hl))"
  obtains len where "IPH_V (pb_payload p) = Some 4" "ld16 (pb_payload p) 2 = Some len"
    "IPH_HL_BYTES (pb_payload p) = Some hl"
    "q = (if htons len < pb_tot_len p then pbuf_realloc l p (htons len) else p)"
    "20 \<le> hl" "unat hl \<le> length (pb_payload q)" "htons len \<le> pb_tot_len q"
    "CHECKSUM_CHECK_IP opts \<and> IF__NETIF_CHECKSUM_ENABLED l inp NETIF_CHECKSUM_CHECK_IP \<longrightarrow>
       inet_chksum l (take (unat hl) (pb_payload q)) = 0"
  using assms
  by (auto simp: ip4_input_validate_def Let_def mem_read_def not_less split: if_splits Option.bind_splits option.splits)

lemma validate_no_delivery:
  "ip4_input_validate opts l p inp = Some (Inl ev) \<Longrightarrow> e \<in> set ev \<Longrightarrow> \<not> delivers e"
  by (auto simp: ip4_input_validate_def Let_def split: if_splits Option.bind_splits option.splits)

lemma input_deliveredE:
  assumes "ip4_input opts l s p inp = Some (s', ev)" and "e \<in> set ev" and "delivers e"
  obtains q hl dest src n chk where "ip4_input_validate opts l p inp = Some (Inr (q, hl))"
    "ld32 (pb_payload q) 16 = Some dest" "ld32 (pb_payload q) 12 = Some src"
    "ip4_input_link_layer opts l q hl inp
       (ip4_input_netif opts l (s\<lparr>ip_cur := (ip_cur s)\<lparr>cur_dest := dest, cur_src := src\<rparr>\<rparr>) inp) = Some (Some n, chk)"
    "\<not> ip4_input_bad_source opts l (s\<lparr>ip_cur := (ip_cur s)\<lparr>cur_dest := dest, cur_src := src\<rparr>\<rparr>) inp chk"
proof -
  from assms(1) obtain r where r: "ip4_input_validate opts l p inp = Some r"
    unfolding ip4_input_def Let_def by (auto split: Option.bind_splits)
  then obtain q hl where q: "r = Inr (q, hl)"
    using assms validate_no_delivery [of opts l p inp _ e]
    by (cases r) (auto simp: ip4_input_def)
  with assms(1) r obtain dest src where d: "ld32 (pb_payload q) 16 = Some dest" "ld32 (pb_payload q) 12 = Some src"
    unfolding ip4_input_def Let_def by (auto split: Option.bind_splits)
  define s1 where "s1 = s\<lparr>ip_cur := (ip_cur s)\<lparr>cur_dest := dest, cur_src := src\<rparr>\<rparr>"
  from assms(1) r q d obtain fnd chk where
    f: "ip4_input_link_layer opts l q hl inp (ip4_input_netif opts l s1 inp) = Some (fnd, chk)"
    by (auto simp: ip4_input_def Let_def s1_def [symmetric] split: Option.bind_splits)
  have b: "\<not> ip4_input_bad_source opts l s1 inp chk"
    using assms r q d f by (auto simp: ip4_input_def Let_def s1_def [symmetric])
  have "fnd \<noteq> None"
  proof
    assume "fnd = None"
    with assms r q d f b obtain ev' where "ip4_input_not_for_us opts l s1 q inp = Some ev'" "e \<in> set ev'"
      by (auto simp: ip4_input_def Let_def s1_def [symmetric] split: Option.bind_splits)
    with assms(3) show False
      by (auto simp: ip4_input_not_for_us_def dest: forward_no_delivery split: if_splits Option.bind_splits)
  qed
  then obtain n where "fnd = Some n" by blast
  with that [of q hl dest src n chk] r q d f b show thesis by (simp add: s1_def)
qed

lemma first_netif_Some: "first_netif P ns = Some n \<Longrightarrow> n \<in> set ns \<and> P n"
  by (induction ns) (auto split: if_splits)

lemma first_netif_None: "first_netif P ns = None \<longleftrightarrow> (\<forall>n \<in> set ns. \<not> P n)"
  by (induction ns) auto

lemma ip4_input_accept_cur [simp]:
  "ip4_input_accept opts l (s\<lparr>ip_cur := d\<rparr>) = ip4_input_accept opts l s"
  by (simp add: ip4_input_accept_def fun_eq_iff)

text \<open>What a packet that gets an interface must be: multicast, addressed to an interface, or DHCP.\<close>

definition addressed_to_us :: "ip4_opts \<Rightarrow> lwip \<Rightarrow> ip4_state \<Rightarrow> netif \<Rightarrow> bytes \<Rightarrow> u16 \<Rightarrow> u32 \<Rightarrow> bool" where
  "addressed_to_us opts l s inp h hl dest \<longleftrightarrow>
     ip4_addr_ismulticast l dest \<or> (\<exists>n \<in> set (inp # netif_list s). ip4_input_accept opts l s dest n)
     \<or> IPH_PROTO h = Some IP_PROTO_UDP \<and>
       (\<exists>port. ld16 h (unat hl + 2) = Some port \<and> IP_ACCEPT_LINK_LAYER_ADDRESSED_PORT opts l port)"

lemma input_netif_addressed:
  assumes "ip4_input_netif opts l (s\<lparr>ip_cur := d\<rparr>) inp = (Some n, chk)"
  shows "ip4_addr_ismulticast l (cur_dest d) \<or> (\<exists>n \<in> set (inp # netif_list s). ip4_input_accept opts l s (cur_dest d) n)"
  using assms by (auto simp: ip4_input_netif_def Let_def split: if_splits dest!: first_netif_Some)

lemma link_layer_addressed:
  assumes "ip4_input_link_layer opts l q hl inp (ip4_input_netif opts l (s\<lparr>ip_cur := d\<rparr>) inp) = Some (Some n, chk)"
  shows "addressed_to_us opts l s inp (pb_payload q) hl (cur_dest d)"
proof (cases "fst (ip4_input_netif opts l (s\<lparr>ip_cur := d\<rparr>) inp) = None")
  case True
  with assms show ?thesis
    by (auto simp: ip4_input_link_layer_def addressed_to_us_def split: if_splits Option.bind_splits)
next
  case False
  with assms have "ip4_input_netif opts l (s\<lparr>ip_cur := d\<rparr>) inp = (Some n, chk)"
    by (simp add: ip4_input_link_layer_def)
  from input_netif_addressed [OF this] show ?thesis by (auto simp: addressed_to_us_def)
qed

lemma ld16_append: "length xs = i \<Longrightarrow> ld16 (xs @ b16 w @ ys) i = Some w"
proof -
  assume "length xs = i"
  then have "ld16 (xs @ b16 w @ ys) i = Some (ucast (ucast w :: u8) OR push_bit 8 (ucast (ucast (drop_bit 8 w) :: u8)))"
    by (simp add: ld16_def b16_def mem_get_def nth_append)
  also have "ucast (ucast w :: u8) OR push_bit 8 (ucast (ucast (drop_bit 8 w) :: u8)) = w"
    by (rule bit_word_eqI) (auto simp: bit_simps dest: bit_imp_le_length)
  finally show ?thesis .
qed

lemma ld32_append: "length xs = i \<Longrightarrow> ld32 (xs @ b32 w @ ys) i = Some w"
proof -
  assume "length xs = i"
  then have "ld32 (xs @ b32 w @ ys) i = Some (ucast (ucast w :: u16) OR push_bit 16 (ucast (ucast (drop_bit 16 w) :: u16)))"
    using ld16_append [of xs i] ld16_append [of "xs @ b16 (ucast w)" "i + 2"] by (simp add: ld32_def b32_def)
  also have "ucast (ucast w :: u16) OR push_bit 16 (ucast (ucast (drop_bit 16 w) :: u16)) = w"
    by (rule bit_word_eqI) (auto simp: bit_simps dest: bit_imp_le_length)
  finally show ?thesis .
qed

lemma header_fields:
  fixes tos ttl proto :: u8 and len ident chk :: u16 and src dest :: u32
  defines "H \<equiv> header_bytes 20 tos len ident ttl proto chk src dest"
  shows "IPH_V (H @ xs) = Some 4" "IPH_HL_BYTES (H @ xs) = Some 20" "IPH_PROTO (H @ xs) = Some proto"
    "ld16 (H @ xs) 2 = Some (htons len)" "ld16 (H @ xs) 6 = Some 0"
    "ld32 (H @ xs) 12 = Some src" "ld32 (H @ xs) 16 = Some dest"
proof -
  show "IPH_V (H @ xs) = Some 4" "IPH_HL_BYTES (H @ xs) = Some 20"
    by (simp_all add: H_def header_bytes_def IPH_V_def IPH_HL_BYTES_def)
  show "IPH_PROTO (H @ xs) = Some proto"
    by (simp add: H_def header_bytes_def IPH_PROTO_def b16_def)
  show "ld16 (H @ xs) 2 = Some (htons len)"
    using ld16_append [of "[0x40 OR ucast ((20 :: u16) div 4), tos]" 2] by (simp add: H_def header_bytes_def)
  show "ld16 (H @ xs) 6 = Some 0"
    by (simp add: H_def header_bytes_def b16_def ld16_def)
  show "ld32 (H @ xs) 12 = Some src"
    using ld32_append [of "[0x40 OR ucast ((20 :: u16) div 4), tos] @ b16 (htons len) @ b16 (htons ident) @ [0, 0, ttl, proto] @ b16 chk" 12]
    by (simp add: H_def header_bytes_def)
  show "ld32 (H @ xs) 16 = Some dest"
    using ld32_append [of "[0x40 OR ucast ((20 :: u16) div 4), tos] @ b16 (htons len) @ b16 (htons ident) @ [0, 0, ttl, proto] @ b16 chk @ b32 src" 16]
    by (simp add: H_def header_bytes_def)
qed

text \<open>What lwIP documents of the functions the receiver relies on.\<close>

definition inet_chksum_spec :: "lwip \<Rightarrow> bool" where
  "inet_chksum_spec l \<longleftrightarrow> (\<forall>h. chksum_valid h \<longrightarrow> inet_chksum l h = 0)"

definition pbuf_remove_header_spec :: "lwip \<Rightarrow> bool" where
  "pbuf_remove_header_spec l \<longleftrightarrow> (\<forall>p k. unat k \<le> length (pb_payload p) \<longrightarrow>
     pb_payload (pbuf_remove_header l p k) = drop (unat k) (pb_payload p))"

definition host_accepts :: "lwip \<Rightarrow> ip4_state \<Rightarrow> netif \<Rightarrow> u32 \<Rightarrow> u32 \<Rightarrow> bool" where
  "host_accepts l s inp src dest \<longleftrightarrow> nif_up inp \<and> nif_addr inp \<noteq> 0
     \<and> (dest = nif_addr inp \<or> dest = ip4_secondary_ip_address s \<and> dest \<noteq> 0)
     \<and> \<not> ip4_addr_ismulticast l dest \<and> \<not> ip4_addr_ismulticast l src \<and> \<not> ip4_addr_isbroadcast l src inp
     \<and> LWIP_HOOK_IP4_INPUT l = None \<and> (\<forall>q. raw_input l q inp = RAW_INPUT_NONE)"

lemma input_of_header:
  assumes "inet_chksum_spec l" and "host_accepts l s inp src dest"
    and "pb_payload p = header_bytes 20 tos (pb_tot_len p) ident ttl IP_PROTO_UDP chk src dest @ xs"
    and "chksum_valid (take 20 (pb_payload p))"
  shows "\<exists>s' d. ip4_input firmware_opts l s p inp = Some (s', [Stat Ip_recv, Stat Mib_ipinreceives,
      Raw_input p inp, Stat Mib_ipindelivers, Udp_input (pbuf_remove_header l p 20) inp d]) \<and>
    cur_src d = src \<and> cur_dest d = dest \<and> cur_netif d = Some inp"
proof -
  note f = header_fields [of tos "pb_tot_len p" ident ttl IP_PROTO_UDP chk src dest xs, folded assms(3)]
  have len: "20 \<le> length (pb_payload p)" by (simp add: assms(3))
  have "inet_chksum l (take 20 (pb_payload p)) = 0" using assms(1,4) by (simp add: inet_chksum_spec_def)
  then have "ip4_input_validate firmware_opts l p inp = Some (Inr (p, 20))"
    using assms(2) f len
    by (simp add: ip4_input_validate_def host_accepts_def htons_htons mem_read_def Let_def)
  moreover define s1 where "s1 = s\<lparr>ip_cur := (ip_cur s)\<lparr>cur_dest := dest, cur_src := src\<rparr>\<rparr>"
  moreover have "ip4_input_netif firmware_opts l s1 inp = (Some inp, True)"
    using assms(2) by (auto simp: ip4_input_netif_def s1_def host_accepts_def ip4_input_accept_def)
  moreover have "\<not> ip4_input_bad_source firmware_opts l s1 inp True"
    using assms(2) by (simp add: ip4_input_bad_source_def s1_def host_accepts_def)
  moreover have "ip4_input_fragment firmware_opts l p = Some (Inr p)"
    using f by (simp add: ip4_input_fragment_def)
  ultimately show ?thesis
    using f assms(2)
    by (simp add: ip4_input_def Let_def ip4_input_link_layer_def firmware_opts_def ip4_input_dispatch_def
        host_accepts_def)
qed

lemma first_netif_split:
  "first_netif P ns = Some n \<Longrightarrow> \<exists>pre post. ns = pre @ n # post \<and> P n \<and> (\<forall>m \<in> set pre. \<not> P m)"
proof (induction ns)
  case (Cons a ns)
  show ?case
  proof (cases "P a")
    case True
    with Cons.prems have "a # ns = [] @ n # ns" by simp
    with True Cons.prems show ?thesis by (metis first_netif.simps(2) option.inject empty_iff empty_set)
  next
    case False
    with Cons obtain pre post where "ns = pre @ n # post \<and> P n \<and> (\<forall>m \<in> set pre. \<not> P m)" by auto
    with False have "a # ns = (a # pre) @ n # post" "P n" "\<forall>m \<in> set (a # pre). \<not> P m" by auto
    then show ?thesis by blast
  qed
qed simp

definition usable :: "netif \<Rightarrow> bool" where
  "usable n \<longleftrightarrow> nif_up n \<and> nif_link_up n \<and> nif_addr n \<noteq> 0"

section \<open>Properties\<close>

text \<open>A concrete environment, for evaluating the model on examples.\<close>

definition demo_lwip :: lwip where
  "demo_lwip = \<lparr>ip4_addr_isbroadcast = (\<lambda>a n. a = 0xFFFFFFFF), ip4_addr_ismulticast = (\<lambda>a. a AND 0xF0 = 0xE0),
     ip4_addr_isloopback = (\<lambda>a. a AND 0xFF = 0x7F), ip4_addr_islinklocal = (\<lambda>a. a AND 0xFFFF = 0xFEA9),
     IP_MULTICAST = (\<lambda>a. a AND 0xF0000000 = 0xE0000000), IP_EXPERIMENTAL = (\<lambda>a. a AND 0xF0000000 = 0xF0000000),
     IP_CLASSA = (\<lambda>a. a AND 0x80000000 = 0), IP_CLASSA_NET = 0xFF000000, IP_CLASSA_LOOPBACK = 0x7F000000,
     inet_chksum = (\<lambda>h. if chksum_valid h then 0 else 1),
     NETIF_CHECKSUM_ENABLED = (\<lambda>n f. False), IF__NETIF_CHECKSUM_ENABLED = (\<lambda>n f. True),
     autoip_accept_packet = (\<lambda>n a. False), igmp_lookfor_group = (\<lambda>n a. False), ip4_reass = (\<lambda>p. None),
     raw_input = (\<lambda>p n. RAW_INPUT_NONE),
     pbuf_realloc = (\<lambda>p k. p\<lparr>pb_payload := take (unat k) (pb_payload p), pb_tot_len := k\<rparr>),
     pbuf_remove_header = (\<lambda>p k. p\<lparr>pb_payload := drop (unat k) (pb_payload p), pb_tot_len := pb_tot_len p - k\<rparr>),
     pbuf_add_header = (\<lambda>p k. Some (p\<lparr>pb_payload := replicate (unat k) 0 @ pb_payload p, pb_tot_len := pb_tot_len p + k\<rparr>)),
     netif_send = (\<lambda>n p d. ERR_OK), netif_loop_output = (\<lambda>n p. ERR_OK), ip4_frag = (\<lambda>p n d. ERR_OK),
     LWIP_HOOK_IP4_ROUTE_SRC = None, LWIP_HOOK_IP4_ROUTE = None, LWIP_HOOK_IP4_CANFORWARD = None,
     LWIP_HOOK_IP4_INPUT = None, LWIP_IP_ACCEPT_UDP_PORT = None\<rparr>"

definition demo_netif :: "nat \<Rightarrow> u32 \<Rightarrow> netif" where
  "demo_netif i a = \<lparr>nif_id = i, nif_up = True, nif_link_up = True, nif_broadcast = True, nif_igmp = False,
     nif_addr = a, nif_netmask = 0x00FFFFFF, nif_gw = 0, nif_mtu = 1500\<rparr>"

definition demo_state :: "u32 \<Rightarrow> ip4_state" where
  "demo_state dest = \<lparr>ip_id = 7, ip_cur = \<lparr>cur_netif = None, cur_input_netif = None, cur_header = None,
       cur_header_tot_len = 0, cur_src = 0x0100000A, cur_dest = dest\<rparr>,
     ip4_default_multicast_netif = None, netif_default = None,
     netif_list = [demo_netif 1 0x0100000A, demo_netif 2 0x0101A8C0], ip4_secondary_ip_address = 0x0504A8C0\<rparr>"

definition demo_pbuf :: "bytes \<Rightarrow> pbuf" where
  "demo_pbuf xs = \<lparr>pb_payload = xs, pb_tot_len = of_nat (length xs), pb_llbcast = False, pb_llmcast = False,
     pb_mcastloop = False\<rparr>"

lemma demo_specs:
  "pbuf_add_header_spec demo_lwip" "inet_chksum_spec demo_lwip" "pbuf_remove_header_spec demo_lwip"
proof -
  show "pbuf_add_header_spec demo_lwip"
    unfolding pbuf_add_header_spec_def demo_lwip_def by (simp, metis length_replicate)
qed (auto simp: inet_chksum_spec_def pbuf_remove_header_spec_def demo_lwip_def)

text \<open>C3: A packet that is sent starts with a correct IPv4 header. For any options of at most 40 bytes,
  \<^verbatim>\<open>ip4_output_if_opt\<close> writes version 4, the header length, type of service, total length,
  identification, TTL, protocol, source (the interface's address when none is given) and destination
  at their RFC 791 places, pads the options to a multiple of four, keeps the payload behind them,
  and the checksum accumulated on the way makes the header's ones' complement sum correct; the
  identification counter goes up by one. The checksum accumulator does not overflow.\<close>

theorem ip4_output_header_valid:
  assumes "pbuf_add_header_spec l" and "CHECKSUM_GEN_IP_INLINE opts" and "optlen \<le> 40"
    and "optlen \<noteq> 0 \<longrightarrow> IP_OPTIONS_SEND opts" and "unat optlen \<le> length ip_options"
    and "\<forall>q k. pbuf_add_header l q k \<noteq> None"
    and "IF__NETIF_CHECKSUM_ENABLED l n NETIF_CHECKSUM_GEN_IP"
    and "os = take (unat optlen) ip_options @ opt_pad optlen" and "hl = 20 + of_nat (length os)"
  shows "\<exists>p' chk. ip4_output_if_opt opts l s p src (Some dest) ttl tos proto n ip_options optlen =
      Some (s\<lparr>ip_id := ip_id s + 1\<rparr>, fst (ip4_transmit opts l p' n dest),
            [Stat Mib_ipoutrequests, Stat Ip_xmit] @ snd (ip4_transmit opts l p' n dest))
    \<and> pb_payload p' = header_bytes hl tos (pb_tot_len p + hl) (ip_id s) ttl proto chk
        (if src = None \<or> src = Some 0 then nif_addr n else the src) dest @ os @ pb_payload p
    \<and> pb_tot_len p' = pb_tot_len p + hl
    \<and> chksum_valid (take (20 + length os) (pb_payload p'))"
  unfolding assms(8,9) by (rule output_if_opt_header [OF assms(1-7)])

theorem ip4_output_header_valid_witness:
  "\<exists>p' chk. ip4_output_if_opt (firmware_opts\<lparr>IP_OPTIONS_SEND := True\<rparr>) demo_lwip (demo_state 0)
        (demo_pbuf [9, 8, 7]) None (Some 0x0201A8C0) 64 0 17 (demo_netif 2 0x0101A8C0) [0x94, 4, 0] 3 =
      Some ((demo_state 0)\<lparr>ip_id := 8\<rparr>, ERR_OK,
            [Stat Mib_ipoutrequests, Stat Ip_xmit, Netif_output (demo_netif 2 0x0101A8C0) p' 0x0201A8C0])
    \<and> pb_payload p' = header_bytes 24 0 27 7 64 17 chk 0x0101A8C0 0x0201A8C0 @ [0x94, 4, 0, 0] @ [9, 8, 7]
    \<and> chksum_valid (take 24 (pb_payload p'))"
proof -
  let ?o = "firmware_opts\<lparr>IP_OPTIONS_SEND := True\<rparr>" and ?n = "demo_netif 2 0x0101A8C0"
  have "CHECKSUM_GEN_IP_INLINE ?o" "IP_OPTIONS_SEND ?o" "\<forall>q k. pbuf_add_header demo_lwip q k \<noteq> None"
      "IF__NETIF_CHECKSUM_ENABLED demo_lwip ?n NETIF_CHECKSUM_GEN_IP"
    by (simp_all add: CHECKSUM_GEN_IP_INLINE_def firmware_opts_def demo_lwip_def)
  then obtain p' chk where
    out: "ip4_output_if_opt ?o demo_lwip (demo_state 0) (demo_pbuf [9, 8, 7]) None (Some 0x0201A8C0) 64 0 17 ?n [0x94, 4, 0] 3 =
      Some ((demo_state 0)\<lparr>ip_id := ip_id (demo_state 0) + 1\<rparr>, fst (ip4_transmit ?o demo_lwip p' ?n 0x0201A8C0),
            [Stat Mib_ipoutrequests, Stat Ip_xmit] @ snd (ip4_transmit ?o demo_lwip p' ?n 0x0201A8C0))"
    and pl: "pb_payload p' = header_bytes 24 0 27 7 64 17 chk 0x0101A8C0 0x0201A8C0 @ [0x94, 4, 0, 0] @ [9, 8, 7]"
    and tl: "pb_tot_len p' = 27" and v: "chksum_valid (take 24 (pb_payload p'))"
    using ip4_output_header_valid [OF demo_specs(1), of ?o 3 "[0x94, 4, 0]" ?n "[0x94, 4, 0, 0]" 24 "demo_state 0"
        "demo_pbuf [9, 8, 7]" None "0x0201A8C0" 64 0 17]
    by (auto simp: opt_pad_def demo_pbuf_def demo_state_def demo_netif_def)
  have "ip4_transmit ?o demo_lwip p' ?n 0x0201A8C0 = (ERR_OK, [Netif_output ?n p' 0x0201A8C0])"
    using tl by (simp add: ip4_transmit_def firmware_opts_def demo_lwip_def demo_netif_def)
  with out pl v show ?thesis by (auto simp: demo_state_def)
qed

text \<open>C2: What one host sends, the other receives: a UDP packet written by \<^verbatim>\<open>ip4_output_if\<close> and handed to a
  driver passes every check of \<^verbatim>\<open>ip4_input\<close> on a host whose interface has the destination address,
  or has it as the secondary address that the firmware's patch adds, and reaches \<^verbatim>\<open>udp_input\<close> with
  exactly the sender's payload and addresses.\<close>

theorem ip4_output_input_roundtrip:
  assumes "pbuf_add_header_spec lo" "\<forall>q k. pbuf_add_header lo q k \<noteq> None"
    "IF__NETIF_CHECKSUM_ENABLED lo n NETIF_CHECKSUM_GEN_IP"
    and "inet_chksum_spec l" "pbuf_remove_header_spec l" "host_accepts l s inp src dest" and "src \<noteq> 0"
    and "ip4_output_if firmware_opts lo so p (Some src) (Some dest) ttl tos IP_PROTO_UDP n = Some (so', err, ev)"
    and "Netif_output n' p' d' \<in> set ev"
  shows "\<exists>s' q d. ip4_input firmware_opts l s p' inp = Some (s', [Stat Ip_recv, Stat Mib_ipinreceives,
      Raw_input p' inp, Stat Mib_ipindelivers, Udp_input q inp d]) \<and>
    pb_payload q = pb_payload p \<and> cur_src d = src \<and> cur_dest d = dest"
proof -
  have inl: "CHECKSUM_GEN_IP_INLINE firmware_opts" by (simp add: CHECKSUM_GEN_IP_INLINE_def firmware_opts_def)
  obtain pp chk where
    out: "ip4_output_if_opt firmware_opts lo so p (Some src) (Some dest) ttl tos IP_PROTO_UDP n [] 0 =
      Some (so\<lparr>ip_id := ip_id so + 1\<rparr>, fst (ip4_transmit firmware_opts lo pp n dest),
            [Stat Mib_ipoutrequests, Stat Ip_xmit] @ snd (ip4_transmit firmware_opts lo pp n dest))"
    and pl: "pb_payload pp = header_bytes 20 tos (pb_tot_len p + 20) (ip_id so) ttl IP_PROTO_UDP chk src dest @ pb_payload p"
    and tl: "pb_tot_len pp = pb_tot_len p + 20" and v: "chksum_valid (take 20 (pb_payload pp))"
    using output_if_opt_header [OF assms(1) inl, of 0 "[]" n so p "Some src" dest ttl tos IP_PROTO_UDP] assms(2,3,7)
    by (auto simp: opt_pad_def)
  have "p' = pp"
    using assms(8,9) out by (auto simp: ip4_output_if_def ip4_transmit_def Let_def split: if_splits)
  moreover obtain s' d where "ip4_input firmware_opts l s pp inp = Some (s', [Stat Ip_recv, Stat Mib_ipinreceives,
      Raw_input pp inp, Stat Mib_ipindelivers, Udp_input (pbuf_remove_header l pp 20) inp d])"
     "cur_src d = src" "cur_dest d = dest"
    using input_of_header [OF assms(4,6)] pl v unfolding tl [symmetric] by blast
  moreover have "pb_payload (pbuf_remove_header l pp 20) = pb_payload p"
    using assms(5) pl by (simp add: pbuf_remove_header_spec_def)
  ultimately show ?thesis by blast
qed

theorem ip4_output_input_roundtrip_witness:
  "\<exists>ev p' s' q d. ip4_output_if firmware_opts demo_lwip (demo_state 0) (demo_pbuf [9, 8, 7]) (Some 0x0301A8C0)
        (Some 0x0504A8C0) 64 0 17 (demo_netif 2 0x0101A8C0) = Some ((demo_state 0)\<lparr>ip_id := 8\<rparr>, ERR_OK, ev) \<and>
      Netif_output (demo_netif 2 0x0101A8C0) p' 0x0504A8C0 \<in> set ev \<and>
      ip4_input firmware_opts demo_lwip (demo_state 0) p' (demo_netif 2 0x0101A8C0) =
        Some (s', [Stat Ip_recv, Stat Mib_ipinreceives, Raw_input p' (demo_netif 2 0x0101A8C0),
                   Stat Mib_ipindelivers, Udp_input q (demo_netif 2 0x0101A8C0) d]) \<and>
      pb_payload q = [9, 8, 7] \<and> cur_dest d = 0x0504A8C0"
proof -
  let ?n = "demo_netif 2 0x0101A8C0" and ?p = "demo_pbuf [9, 8, 7]" and ?s = "demo_state 0"
  have room: "\<forall>q k. pbuf_add_header demo_lwip q k \<noteq> None" by (simp add: demo_lwip_def)
  have chk: "IF__NETIF_CHECKSUM_ENABLED demo_lwip ?n NETIF_CHECKSUM_GEN_IP" by (simp add: demo_lwip_def)
  have acc: "host_accepts demo_lwip ?s ?n 0x0301A8C0 0x0504A8C0"
    by (simp add: host_accepts_def demo_lwip_def demo_netif_def demo_state_def)
  have inl: "CHECKSUM_GEN_IP_INLINE firmware_opts" by (simp add: CHECKSUM_GEN_IP_INLINE_def firmware_opts_def)
  obtain p' where out: "ip4_output_if_opt firmware_opts demo_lwip ?s ?p (Some 0x0301A8C0) (Some 0x0504A8C0) 64 0 17 ?n [] 0 =
      Some (?s\<lparr>ip_id := ip_id ?s + 1\<rparr>, fst (ip4_transmit firmware_opts demo_lwip p' ?n 0x0504A8C0),
            [Stat Mib_ipoutrequests, Stat Ip_xmit] @ snd (ip4_transmit firmware_opts demo_lwip p' ?n 0x0504A8C0))"
      and tl: "pb_tot_len p' = 23"
    using output_if_opt_header [OF demo_specs(1) inl, of 0 "[]" ?n ?s ?p "Some 0x0301A8C0" "0x0504A8C0" 64 0 17] room chk
    by (auto simp: opt_pad_def demo_pbuf_def)
  have "ip4_transmit firmware_opts demo_lwip p' ?n 0x0504A8C0 = (ERR_OK, [Netif_output ?n p' 0x0504A8C0])"
    using tl by (simp add: ip4_transmit_def firmware_opts_def demo_lwip_def demo_netif_def)
  with out have o: "ip4_output_if firmware_opts demo_lwip ?s ?p (Some 0x0301A8C0) (Some 0x0504A8C0) 64 0 17 ?n =
      Some (?s\<lparr>ip_id := 8\<rparr>, ERR_OK, [Stat Mib_ipoutrequests, Stat Ip_xmit, Netif_output ?n p' 0x0504A8C0])"
    by (simp add: ip4_output_if_def demo_state_def)
  have mem: "Netif_output ?n p' 0x0504A8C0 \<in> set [Stat Mib_ipoutrequests, Stat Ip_xmit, Netif_output ?n p' 0x0504A8C0]"
    by simp
  from ip4_output_input_roundtrip [OF demo_specs(1) room chk demo_specs(2,3) acc _ o mem]
  obtain s' q d where "ip4_input firmware_opts demo_lwip ?s p' ?n =
        Some (s', [Stat Ip_recv, Stat Mib_ipinreceives, Raw_input p' ?n, Stat Mib_ipindelivers, Udp_input q ?n d])"
      "pb_payload q = pb_payload ?p" "cur_dest d = 0x0504A8C0" by auto
  with o mem show ?thesis by (auto simp: demo_pbuf_def)
qed



text \<open>Routing picks the first usable interface on the destination's network (or, off broadcast media,
  with the destination as gateway), and otherwise the default interface; the chosen interface is
  always up, has a link and an address. No route is reported exactly when no interface matches and
  the default one is not usable or the destination is a loopback address.\<close>

theorem ip4_route_first_match:
  assumes "LWIP_HOOK_IP4_ROUTE_SRC l = None" "LWIP_HOOK_IP4_ROUTE l = None"
  shows "case ip4_route firmware_opts l s dest of
    (Some n, ev) \<Rightarrow> ev = [] \<and> usable n \<and>
      ((\<exists>pre post. netif_list s = pre @ n # post \<and> (\<forall>m \<in> set pre. \<not> route_match dest m) \<and>
          (dest AND nif_netmask n = nif_addr n AND nif_netmask n \<or> \<not> nif_broadcast n \<and> dest = nif_gw n))
       \<or> (\<forall>m \<in> set (netif_list s). \<not> route_match dest m) \<and> netif_default s = Some n \<and> \<not> ip4_addr_isloopback l dest)
  | (None, ev) \<Rightarrow> ev = [Stat Ip_rterr, Stat Mib_ipoutnoroutes] \<and>
      (\<forall>m \<in> set (netif_list s). \<not> route_match dest m) \<and>
      (\<forall>d. netif_default s = Some d \<longrightarrow> \<not> usable d \<or> ip4_addr_isloopback l dest)"
proof (cases "first_netif (route_match dest) (netif_list s)")
  case None
  with assms first_netif_None [of "route_match dest" "netif_list s"] show ?thesis
    by (auto simp: ip4_route_def firmware_opts_def route_hook_def route_default_def usable_def
        split: option.splits)
next
  case (Some n)
  with first_netif_split [OF Some] show ?thesis
    by (auto simp: ip4_route_def firmware_opts_def usable_def route_match_def ip4_addr_net_eq_def)
qed

theorem ip4_route_first_match_witness:
  "usable (demo_netif 2 0x0101A8C0) \<and>
   ip4_route firmware_opts demo_lwip (demo_state 0) 0x0901A8C0 = (Some (demo_netif 2 0x0101A8C0), [])"
proof -
  have r: "ip4_route firmware_opts demo_lwip (demo_state 0) 0x0901A8C0 = (Some (demo_netif 2 0x0101A8C0), [])"
    by (simp add: ip4_route_def firmware_opts_def demo_state_def route_match_def demo_netif_def ip4_addr_net_eq_def)
  then show ?thesis
    using ip4_route_first_match [of demo_lwip "demo_state 0" "0x0901A8C0"] by (simp add: demo_lwip_def)
qed

text \<open>C34: Forwarding: a packet handed to a driver leaves by another interface than it came in by (unless
  configured otherwise), with its TTL one lower, and a TTL of one is never forwarded. When the
  stack does not generate IP checksums, the incremental update keeps a valid header checksum valid
  for every TTL above zero; when it does, the checksum field of the forwarded header is zero.\<close>

theorem ip4_forward_ttl_checksum:
  assumes "ip4_forward opts l s p inp = Some (p', ev)" and "Netif_output n q d \<in> set ev"
    and "IPH_V (pb_payload p) = Some 4" and "IPH_HL_BYTES (pb_payload p) = Some hl" and "20 \<le> unat hl"
    and "unat hl \<le> length (pb_payload p)" and "chksum_valid (take (unat hl) (pb_payload p))"
  shows "q = p' \<and> d = cur_dest (ip_cur s) \<and> (IP_FORWARD_ALLOW_TX_ON_RX_NETIF opts \<or> nif_id n \<noteq> nif_id inp)
    \<and> pb_payload p ! 8 \<noteq> 1 \<and> pb_payload p' ! 8 = pb_payload p ! 8 - 1
    \<and> (if clears_ip_chksum opts l inp then ld16 (pb_payload p') 10 = Some 0
       else pb_payload p ! 8 \<noteq> 0 \<longrightarrow> chksum_valid (take (unat hl) (pb_payload p')))"
proof -
  from assms(1,2) obtain ttl c h2 where
    1: "ip4_canforward l s p" "\<not> ip4_addr_islinklocal l (cur_dest (ip_cur s))"
    "ip4_route_src opts l s (Some (cur_src (ip_cur s))) (cur_dest (ip_cur s)) = (Some n, [])"
    "IP_FORWARD_ALLOW_TX_ON_RX_NETIF opts \<or> nif_id n \<noteq> nif_id inp"
    "mem_get (pb_payload p) 8 = Some ttl" "ttl - 1 \<noteq> 0" "ld16 ((pb_payload p)[8 := ttl - 1]) 10 = Some c"
    "st16 ((pb_payload p)[8 := ttl - 1]) 10 (forward_chksum c) = Some h2"
    "forward_clear_chksums opts l inp h2 = Some (pb_payload p')" "q = p'" "d = cur_dest (ip_cur s)"
    by (rule forward_outputE)
  note 2 = forward_header [OF assms(1,2,4,5,6)]
  have len: "length (pb_payload p') = length (pb_payload p)" "20 \<le> length (pb_payload p)"
    using 2 assms(5,6) by auto
  have "pb_payload p ! 0 \<noteq> 0" using assms(3) by (auto simp: IPH_V_def mem_get_Some)
  then have v: "pb_payload p' ! 0 \<noteq> 0" using 2 by metis
  obtain b bs where b: "pb_payload p' = b # bs" using len by (cases "pb_payload p'") auto
  obtain k where k: "unat hl = Suc k" using assms(5) by (cases "unat hl") auto
  have pos: "sum_words (take (unat hl) (pb_payload p')) > 0"
    using v unfolding b k by (simp add: sum_words_pos)
  have "ld16 (pb_payload p') 10 = Some 0" if "clears_ip_chksum opts l inp"
    using 2 len that by (simp add: ld16_def)
  moreover have "pb_payload p ! 8 \<noteq> 1" using 1(5,6) by (auto simp: mem_get_Some)
  moreover have "chksum_valid (take (unat hl) (pb_payload p'))"
    if "\<not> clears_ip_chksum opts l inp" "pb_payload p ! 8 \<noteq> 0"
  proof -
    have "sum_words (take (unat hl) (pb_payload p')) mod 65535 = sum_words (take (unat hl) (pb_payload p)) mod 65535"
      using 2 that by blast
    with pos assms(7) show ?thesis by (simp only: chksum_valid_def)
  qed
  moreover have "pb_payload p' ! 8 = pb_payload p ! 8 - 1" using 2 by blast
  ultimately show ?thesis using 1(4,10,11) by simp
qed

definition demo_forward_opts :: ip4_opts where
  "demo_forward_opts = firmware_opts\<lparr>IP_FORWARD := True, CHECKSUM_GEN_IP := False, CHECKSUM_GEN_UDP := False\<rparr>"

definition demo_packet :: bytes where
  "demo_packet = [0x45, 0, 0, 0x14, 0, 0, 0, 0, 0x40, 0x11, 175, 46, 0x0A, 0, 0, 1, 0xC0, 0xA8, 1, 2]"

theorem ip4_forward_ttl_checksum_witness:
  "\<exists>p'. ip4_forward demo_forward_opts demo_lwip (demo_state 0x0201A8C0) (demo_pbuf demo_packet) (demo_netif 1 0x0100000A) =
      Some (p', [Stat Ip_fw, Stat Mib_ipforwdatagrams, Stat Ip_xmit, Netif_output (demo_netif 2 0x0101A8C0) p' 0x0201A8C0]) \<and>
    pb_payload p' ! 8 = 0x3F \<and> chksum_valid (take 20 (pb_payload p'))"
proof -
  let ?o = demo_forward_opts and ?s = "demo_state 0x0201A8C0" and ?p = "demo_pbuf demo_packet"
  let ?in = "demo_netif 1 0x0100000A" and ?out = "demo_netif 2 0x0101A8C0"
  have "unat (htonl 0x0201A8C0) = 3232235778" by (simp add: htonl_def)
  then have hl: "htonl 0x0201A8C0 = 0xC0A80102" by (simp add: word_unat_eq_iff)
  have can: "ip4_canforward demo_lwip ?s ?p"
    by (simp add: ip4_canforward_def demo_state_def demo_lwip_def demo_pbuf_def hl)
  have rt: "ip4_route_src ?o demo_lwip ?s (Some 0x0100000A) 0x0201A8C0 = (Some ?out, [])"
    by (simp add: ip4_route_src_def ip4_route_def demo_forward_opts_def firmware_opts_def demo_state_def
        route_match_def demo_netif_def ip4_addr_net_eq_def demo_lwip_def)
  have "ip4_forward ?o demo_lwip ?s ?p ?in = Some (?p\<lparr>pb_payload := demo_packet[8 := 0x3F, 10 := 176]\<rparr>,
     [Stat Ip_fw, Stat Mib_ipforwdatagrams, Stat Ip_xmit,
      Netif_output ?out (?p\<lparr>pb_payload := demo_packet[8 := 0x3F, 10 := 176]\<rparr>) 0x0201A8C0])"
    using can rt
    by (simp add: ip4_forward_def demo_state_def demo_pbuf_def demo_packet_def demo_forward_opts_def firmware_opts_def
        demo_lwip_def demo_netif_def forward_clear_chksums_def forward_transmit_def IPH_PROTO_def IPH_HL_BYTES_def
        ld16_def st16_def forward_chksum_def htons_numerals Let_def)
  note fw = this
  have "chksum_valid (take 20 (pb_payload ?p))" "IPH_V (pb_payload ?p) = Some 4" "IPH_HL_BYTES (pb_payload ?p) = Some 20"
    by (simp_all add: demo_pbuf_def demo_packet_def chksum_valid_def IPH_V_def IPH_HL_BYTES_def)
  then show ?thesis
    using fw ip4_forward_ttl_checksum [OF fw, of ?out "?p\<lparr>pb_payload := demo_packet[8 := 0x3F, 10 := 176]\<rparr>" "0x0201A8C0" 20]
    by (simp add: demo_pbuf_def demo_packet_def clears_ip_chksum_def demo_forward_opts_def firmware_opts_def demo_lwip_def)
qed

end
