(* ===== verification/Httpd_Headers.thy ===== *)
theory Httpd_Headers
  imports Prelude
begin

text \<open>
  \<^verbatim>\<open>src/httpserver/httpd_structs.h\<close>: the strings from which HTTP response headers are built, shared
  by the web server and by the tool that generates its read-only file system.
\<close>

section \<open>Text\<close>

definition CRLF :: string where "CRLF = [CHR 0x0D, CHR 0x0A]"

lemma length_CRLF [simp]: "length CRLF = 2" by (simp add: CRLF_def)

section \<open>The code\<close>

datatype HTTPHeaderStrings = HTTP_HDR_OK | HTTP_HDR_NOT_FOUND | HTTP_HDR_BAD_REQUEST | HTTP_HDR_NOT_IMPL
  | HTTP_HDR_OK_11 | HTTP_HDR_NOT_FOUND_11 | HTTP_HDR_BAD_REQUEST_11 | HTTP_HDR_NOT_IMPL_11
  | HTTP_HDR_CONTENT_LENGTH | HTTP_HDR_CONN_CLOSE | HTTP_HDR_CONN_KEEPALIVE | HTTP_HDR_KEEPALIVE_LEN
  | HTTP_HDR_SERVER | DEFAULT_404_HTML | DEFAULT_404_HTML_PERSISTENT

text \<open>\<open>version\<close> is lwIP's version string, which the server agent of \<^verbatim>\<open>httpd_opts.h\<close> contains.\<close>

definition HTTPD_SERVER_AGENT :: "string \<Rightarrow> string" where
  "HTTPD_SERVER_AGENT version = ''lwIP/'' @ version @ '' (http://savannah.nongnu.org/projects/lwip)''"

fun g_psHTTPHeaderStrings :: "string \<Rightarrow> HTTPHeaderStrings \<Rightarrow> string" where
  "g_psHTTPHeaderStrings ver HTTP_HDR_OK = ''HTTP/1.0 200 OK'' @ CRLF"
| "g_psHTTPHeaderStrings ver HTTP_HDR_NOT_FOUND = ''HTTP/1.0 404 File not found'' @ CRLF"
| "g_psHTTPHeaderStrings ver HTTP_HDR_BAD_REQUEST = ''HTTP/1.0 400 Bad Request'' @ CRLF"
| "g_psHTTPHeaderStrings ver HTTP_HDR_NOT_IMPL = ''HTTP/1.0 501 Not Implemented'' @ CRLF"
| "g_psHTTPHeaderStrings ver HTTP_HDR_OK_11 = ''HTTP/1.1 200 OK'' @ CRLF"
| "g_psHTTPHeaderStrings ver HTTP_HDR_NOT_FOUND_11 = ''HTTP/1.1 404 File not found'' @ CRLF"
| "g_psHTTPHeaderStrings ver HTTP_HDR_BAD_REQUEST_11 = ''HTTP/1.1 400 Bad Request'' @ CRLF"
| "g_psHTTPHeaderStrings ver HTTP_HDR_NOT_IMPL_11 = ''HTTP/1.1 501 Not Implemented'' @ CRLF"
| "g_psHTTPHeaderStrings ver HTTP_HDR_CONTENT_LENGTH = ''Content-Length: ''"
| "g_psHTTPHeaderStrings ver HTTP_HDR_CONN_CLOSE = ''Connection: Close'' @ CRLF @ CRLF"
| "g_psHTTPHeaderStrings ver HTTP_HDR_CONN_KEEPALIVE = ''Connection: keep-alive'' @ CRLF"
| "g_psHTTPHeaderStrings ver HTTP_HDR_KEEPALIVE_LEN = ''Connection: keep-alive'' @ CRLF @ ''Content-Length: ''"
| "g_psHTTPHeaderStrings ver HTTP_HDR_SERVER = ''Server: '' @ HTTPD_SERVER_AGENT ver @ CRLF"
| "g_psHTTPHeaderStrings ver DEFAULT_404_HTML = CRLF @
     ''<html><body><h2>404: The requested file cannot be found.</h2></body></html>'' @ CRLF"
| "g_psHTTPHeaderStrings ver DEFAULT_404_HTML_PERSISTENT = ''Connection: keep-alive'' @ CRLF @
     ''Content-Length: 77'' @ CRLF @ CRLF @
     ''<html><body><h2>404: The requested file cannot be found.</h2></body></html>'' @ CRLF"

definition HTTP_CONTENT_TYPE :: "string \<Rightarrow> string" where
  "HTTP_CONTENT_TYPE contenttype = ''Content-Type: '' @ contenttype @ CRLF @ CRLF"

definition HTTP_CONTENT_TYPE_ENCODING :: "string \<Rightarrow> string \<Rightarrow> string" where
  "HTTP_CONTENT_TYPE_ENCODING contenttype encoding =
     ''Content-Type: '' @ contenttype @ CRLF @ ''Content-Encoding: '' @ encoding @ CRLF @ CRLF"

definition HTTP_HDR_HTML :: string where "HTTP_HDR_HTML = HTTP_CONTENT_TYPE ''text/html''"
definition HTTP_HDR_SSI :: string where
  "HTTP_HDR_SSI = HTTP_CONTENT_TYPE (''text/html'' @ CRLF @ ''Expires: Fri, 10 Apr 2008 14:00:00 GMT'' @ CRLF @
     ''Pragma: no-cache'')"
definition HTTP_HDR_APP :: string where "HTTP_HDR_APP = HTTP_CONTENT_TYPE ''application/octet-stream''"
definition HTTP_HDR_DEFAULT_TYPE :: string where
  "HTTP_HDR_DEFAULT_TYPE = HTTP_CONTENT_TYPE ''text/plain''"

definition g_psHTTPHeaders :: "(string \<times> string) list" where
  "g_psHTTPHeaders = [
     (''html'', HTTP_HDR_HTML), (''htm'', HTTP_HDR_HTML), (''shtml'', HTTP_HDR_SSI), (''shtm'', HTTP_HDR_SSI),
     (''ssi'', HTTP_HDR_SSI), (''gif'', HTTP_CONTENT_TYPE ''image/gif''), (''png'', HTTP_CONTENT_TYPE ''image/png''),
     (''jpg'', HTTP_CONTENT_TYPE ''image/jpeg''), (''bmp'', HTTP_CONTENT_TYPE ''image/bmp''),
     (''ico'', HTTP_CONTENT_TYPE ''image/x-icon''), (''class'', HTTP_CONTENT_TYPE ''application/octet-stream''),
     (''cls'', HTTP_CONTENT_TYPE ''application/octet-stream''), (''js'', HTTP_CONTENT_TYPE ''application/javascript''),
     (''ram'', HTTP_CONTENT_TYPE ''application/javascript''), (''css'', HTTP_CONTENT_TYPE ''text/css''),
     (''swf'', HTTP_CONTENT_TYPE ''application/x-shockwave-flash''), (''xml'', HTTP_CONTENT_TYPE ''text/xml''),
     (''xsl'', HTTP_CONTENT_TYPE ''text/xml''), (''pdf'', HTTP_CONTENT_TYPE ''application/pdf''),
     (''json'', HTTP_CONTENT_TYPE ''application/json''), (''csv'', HTTP_CONTENT_TYPE ''text/csv''),
     (''tsv'', HTTP_CONTENT_TYPE ''text/tsv''), (''svg'', HTTP_CONTENT_TYPE ''image/svg+xml''),
     (''svgz'', HTTP_CONTENT_TYPE_ENCODING ''image/svg+xml'' ''gzip'')]"

definition NUM_HTTP_HEADERS :: nat where "NUM_HTTP_HEADERS = length g_psHTTPHeaders"

definition g_pcSSIExtensions :: "string list" where
  "g_pcSSIExtensions = [''.shtml'', ''.shtm'', ''.ssi'', ''.xml'', ''.json'']"

text \<open>
  The index of the entry for an extension, \<open>NUM_HTTP_HEADERS\<close> if there is none. \<open>stricmp\<close> is
  lwIP's comparison function, zero for equal strings.
\<close>

fun content_type_loop :: "(string \<Rightarrow> string \<Rightarrow> int) \<Rightarrow> (string \<times> string) list \<Rightarrow> string \<Rightarrow> nat \<Rightarrow> nat" where
  "content_type_loop stricmp [] ext i = i"
| "content_type_loop stricmp (h # hs) ext i =
     (if stricmp (fst h) ext = 0 then i else content_type_loop stricmp hs ext (Suc i))"

definition get_content_type_from_extension :: "(string \<Rightarrow> string \<Rightarrow> int) \<Rightarrow> string option \<Rightarrow> nat" where
  "get_content_type_from_extension stricmp ext =
     (case ext of Some x \<Rightarrow> content_type_loop stricmp g_psHTTPHeaders x 0 | None \<Rightarrow> NUM_HTTP_HEADERS)"

section \<open>Properties of the tables\<close>

lemma content_type_loop_bounds: "i \<le> content_type_loop cmp hs ext i \<and> content_type_loop cmp hs ext i \<le> i + length hs"
proof (induction hs arbitrary: i)
  case (Cons h hs)
  from Cons.IH [of "Suc i"] show ?case by auto
qed simp

lemma content_type_loop_found:
  assumes "content_type_loop cmp hs ext i = i + k" "k < length hs"
  shows "cmp (fst (hs ! k)) ext = 0 \<and> (\<forall>j < k. cmp (fst (hs ! j)) ext \<noteq> 0)"
  using assms
proof (induction hs arbitrary: i k)
  case (Cons h hs)
  show ?case
  proof (cases "cmp (fst h) ext = 0")
    case True
    with Cons.prems show ?thesis by simp
  next
    case False
    have "content_type_loop cmp hs ext (Suc i) \<ge> Suc i" using content_type_loop_bounds by blast
    with False Cons.prems obtain k' where k: "k = Suc k'" by (cases k) auto
    from Cons.IH [of "Suc i" k'] Cons.prems k False have
      "cmp (fst (hs ! k')) ext = 0 \<and> (\<forall>j < k'. cmp (fst (hs ! j)) ext \<noteq> 0)" by simp
    with False k show ?thesis by (auto simp: less_Suc_eq_0_disj)
  qed
qed simp

lemma content_type_loop_none:
  "content_type_loop cmp hs ext i = i + length hs \<longleftrightarrow> (\<forall>h \<in> set hs. cmp (fst h) ext \<noteq> 0)"
proof (induction hs arbitrary: i)
  case (Cons h hs)
  from Cons.IH [of "Suc i"] content_type_loop_bounds [of "Suc i" cmp hs ext] show ?case by auto
qed simp

text \<open>Every entry of the table ends the header with an empty line.\<close>

lemma content_types_end:
  "\<forall>(ext, ct) \<in> set g_psHTTPHeaders. \<exists>s. ct = s @ CRLF @ CRLF"
  by (auto simp: g_psHTTPHeaders_def HTTP_CONTENT_TYPE_def HTTP_CONTENT_TYPE_ENCODING_def HTTP_HDR_HTML_def
      HTTP_HDR_SSI_def)

lemma default_type_end: "\<exists>s. HTTP_HDR_DEFAULT_TYPE = s @ CRLF @ CRLF"
  by (auto simp: HTTP_HDR_DEFAULT_TYPE_def HTTP_CONTENT_TYPE_def)

end
