(* ===== verification/Make_Fsdata.thy ===== *)
theory Make_Fsdata
  imports Httpd_Headers
begin

text \<open>
  \<^verbatim>\<open>src/httpserver/makefsdata/makefsdata.c\<close>: the generator that turns a directory of web pages into
  the C source of the read-only file system. The two temporary files are strings of the state, to
  which the operations append exactly what the code prints; messages on the console are left out.

  A run that does not get to its end is an error value: \<open>Exit\<close> for a call of \<^verbatim>\<open>exit\<close>, \<open>Assert_failed\<close> for
  a failed assertion, \<open>Out_of_bounds\<close> for an access outside a buffer, \<open>No_return\<close> for a loop that does not
  end. The directory tree is given with the entries of each directory in the order in which
  \<^verbatim>\<open>tinydir_open_sorted\<close> lists them.
\<close>

datatype mk_error = Exit int | Assert_failed | Out_of_bounds | No_return

definition andThen :: "'e + 'a \<Rightarrow> ('a \<Rightarrow> 'e + 'b) \<Rightarrow> 'e + 'b" where
  "andThen r f = (case r of Inl e \<Rightarrow> Inl e | Inr x \<Rightarrow> f x)"

definition checked :: "'a option \<Rightarrow> mk_error + 'a" where
  "checked r = (case r of None \<Rightarrow> Inl Out_of_bounds | Some x \<Rightarrow> Inr x)"

lemma andThen_simps [simp]: "andThen (Inl e) f = Inl e" "andThen (Inr x) f = f x"
  by (simp_all add: andThen_def)

lemma checked_simps [simp]: "checked None = Inl Out_of_bounds" "checked (Some x) = Inr x"
  by (simp_all add: checked_def)

lemma andThen_Inr: "andThen r f = Inr y \<longleftrightarrow> (\<exists>x. r = Inr x \<and> f x = Inr y)"
  by (cases r) auto

section \<open>Printing numbers\<close>

definition hex_digit :: "nat \<Rightarrow> char" where
  "hex_digit n = ''0123456789abcdef'' ! n"

definition hex_byte :: "u8 \<Rightarrow> string" where
  "hex_byte b = [CHR ''0'', CHR ''x'', hex_digit (unat b div 16), hex_digit (unat b mod 16), CHR '','']"

definition hex4 :: "u16 \<Rightarrow> string" where
  "hex4 w = [hex_digit (unat w div 4096), hex_digit (unat w div 256 mod 16),
             hex_digit (unat w div 16 mod 16), hex_digit (unat w mod 16)]"

fun dec :: "nat \<Rightarrow> string" where
  "dec n = (if n < 10 then [hex_digit n] else dec (n div 10) @ [hex_digit (n mod 10)])"

declare dec.simps [simp del]

section \<open>Options, state and environment\<close>

record mk_opts =
  processSubs :: bool
  includeHttpHeader :: bool
  useHttp11 :: bool
  supportSsi :: bool
  precalcChksum :: bool
  includeLastModified :: bool
  deflateNonSsiFiles :: bool
  deflate_level :: int
  exclude_list :: "string option"
  ncompress_list :: "string option"
  serverID :: string
  ssi_file_lines :: "string list option"
  targetfile :: string
  mk_path :: string

record mk_state =
  data_file :: string
  struct_file :: string
  lastFileVar :: string
  first_file :: "string list"
  curSubdir :: string
  payload_alingment_dummy_counter :: nat
  overallDataBytes :: nat
  deflatedBytesReduced :: nat

text \<open>
  What is outside the file: the compiled-in switch for compression, the maximum segment size, lwIP's
  \<^verbatim>\<open>lwip_itoa\<close> and \<^verbatim>\<open>inet_chksum\<close>, the compression library, and the text the C library makes of a
  file's modification time (\<open>None\<close> when \<^verbatim>\<open>stat\<close> or \<^verbatim>\<open>gmtime\<close> fails).
\<close>

record mk_env =
  LWIP_VERSION_STRING :: string
  MAKEFS_SUPPORT_DEFLATE :: bool
  mk_TCP_MSS :: nat
  lwip_itoa :: "nat \<Rightarrow> string"
  mk_inet_chksum :: "bytes \<Rightarrow> u16"
  mk_deflate :: "int \<Rightarrow> bytes \<Rightarrow> bytes option"
  mk_inflate :: "bytes \<Rightarrow> bytes option"
  last_modified :: "string \<Rightarrow> string option"

datatype node = File string bytes | Dir string "node list"

definition COPY_BUFSIZE :: nat where "COPY_BUFSIZE = 1024 * 1024"
definition HEX_BYTES_PER_LINE :: nat where "HEX_BYTES_PER_LINE = 16"
definition MAX_PATH_LEN :: nat where "MAX_PATH_LEN = 256"
definition PAYLOAD_ALIGNMENT :: nat where "PAYLOAD_ALIGNMENT = 4"
definition FILE_BUFFER_SIZE :: nat where
  "FILE_BUFFER_SIZE = COPY_BUFSIZE * 5 + (COPY_BUFSIZE div HEX_BYTES_PER_LINE) * 3"
definition SUBDIR_SIZE :: nat where "SUBDIR_SIZE = MAX_PATH_LEN - 3"
definition HDR_BUF_SIZE :: nat where "HDR_BUF_SIZE = 4096"

definition emit_data :: "string \<Rightarrow> mk_state \<Rightarrow> mk_state" where
  "emit_data t s = s\<lparr>data_file := data_file s @ t\<rparr>"

definition emit_struct :: "string \<Rightarrow> mk_state \<Rightarrow> mk_state" where
  "emit_struct t s = s\<lparr>struct_file := struct_file s @ t\<rparr>"

text \<open>\<^verbatim>\<open>strncat\<close> into a buffer of \<open>cap\<close> bytes; \<open>n\<close> is a \<^verbatim>\<open>size_t\<close>.\<close>

definition strncat :: "nat \<Rightarrow> string \<Rightarrow> string \<Rightarrow> nat \<Rightarrow> string option" where
  "strncat cap dst src n = (if length dst + min n (length src) < cap then Some (dst @ take n src) else None)"

definition size_pred :: "nat \<Rightarrow> nat" where
  "size_pred n = (n + (2 ^ 64 - 1)) mod 2 ^ 64"

section \<open>The code: paths and extensions\<close>

text \<open>\<open>path\<close> is the whole buffer; the result is the buffer afterwards and the return value.\<close>

fun check_path_loop :: "bytes \<Rightarrow> nat \<Rightarrow> (bytes \<times> nat) option" where
  "check_path_loop path 0 = Some (path, 0)"
| "check_path_loop path (Suc n) = do {
     c \<leftarrow> mem_get path (Suc n);
     if c = of_char (CHR 0x5C) \<or> c = of_char (CHR ''/'') then do {
       path \<leftarrow> mem_set path (Suc n) 0;
       check_path_loop path n
     } else Some (path, Suc n)
   }"

definition check_path :: "bytes \<Rightarrow> (bytes \<times> bool) option" where
  "check_path path = do {
     c \<leftarrow> mem_get path 0;
     if c = 0 then Some (path, False)
     else do {
       txt \<leftarrow> cstr_at path 0;
       if length txt \<ge> length path then Some (path, False)
       else do {
         (path, slen) \<leftarrow> check_path_loop path (length txt);
         Some (path, slen \<noteq> 0)
       }
     }
   }"

text \<open>
  Position \<open>i\<close> runs over the extension list with its terminating NUL; leaving that memory, or
  indexing before the start of the file name, is \<open>None\<close>.
\<close>

definition list_item :: "string \<Rightarrow> string" where
  "list_item s = takeWhile (\<lambda>c. c \<noteq> CHR '','' \<and> c \<noteq> CHR 0x00) s"

function ext_loop :: "string \<Rightarrow> string \<Rightarrow> nat \<Rightarrow> bool option" where
  "ext_loop filename m i =
     (if i \<ge> length m then None
      else if m ! i = CHR 0x00 then Some False
      else
        (let ext = list_item (drop i m); ext_size = length ext; filename_size = length filename
         in if filename_size < ext_size + 1 then None
            else if filename ! (filename_size - ext_size - 1) = CHR ''.'' \<and>
                    drop (filename_size - ext_size) filename = ext
            then Some True
            else ext_loop filename m (i + ext_size + 1)))"
  by pat_completeness auto
termination
  by (relation "measure (\<lambda>(f, m, i). length m - i)") auto

declare ext_loop.simps [simp del]

definition ext_in_list :: "string \<Rightarrow> string option \<Rightarrow> bool option" where
  "ext_in_list filename ext_list =
     (case ext_list of None \<Rightarrow> Some False | Some l \<Rightarrow> ext_loop filename (l @ [CHR 0x00]) 0)"

definition file_to_exclude :: "mk_opts \<Rightarrow> string \<Rightarrow> bool option" where
  "file_to_exclude opts filename =
     (if exclude_list opts \<noteq> None then ext_in_list filename (exclude_list opts) else Some False)"

definition file_can_be_compressed :: "mk_opts \<Rightarrow> string \<Rightarrow> bool option" where
  "file_can_be_compressed opts filename =
     (if ncompress_list opts = None then Some True
      else map_option Not (ext_in_list filename (ncompress_list opts)))"

section \<open>The code: SSI files\<close>

text \<open>
  The list of SSI files: line ends become NULs, and the strings between NULs are the entries. The
  array of entries has one place per line, and the code insists that one place stays free.
\<close>

definition ssi_clear_newlines :: "bytes \<Rightarrow> bytes" where
  "ssi_clear_newlines buf = map (\<lambda>c. if c = 10 \<or> c = 13 then 0 else c) buf"

definition ssi_num_lines :: "bytes \<Rightarrow> nat" where
  "ssi_num_lines buf = 1 + length (filter (\<lambda>c. c = 10) buf)"

fun ssi_scan :: "nat \<Rightarrow> bytes \<Rightarrow> bool \<Rightarrow> nat \<Rightarrow> bytes list \<Rightarrow> mk_error + bytes list" where
  "ssi_scan num_lines [] state l acc = Inr acc"
| "ssi_scan num_lines (c # cs) state l acc =
     (if state then ssi_scan num_lines cs (c \<noteq> 0) l acc
      else if c \<noteq> 0 then
        (if \<not> l < num_lines then Inl Assert_failed
         else ssi_scan num_lines cs True (Suc l) (acc @ [takeWhile (\<lambda>x. x \<noteq> 0) (c # cs)]))
      else ssi_scan num_lines cs False l acc)"

text \<open>\<open>contents\<close> is what is read from the list file, \<open>None\<close> if it cannot be opened or read. The result is
  the return value and the list, if one was read.\<close>

definition checkSsiByFilelist :: "bytes option \<Rightarrow> mk_error + (bool \<times> bytes list option)" where
  "checkSsiByFilelist contents =
     (case contents of
        None \<Rightarrow> Inr (False, None)
      | Some buf \<Rightarrow>
          if buf = [] then Inr (False, None)
          else
            andThen (ssi_scan (ssi_num_lines buf) (ssi_clear_newlines buf) False 0 []) (\<lambda>ls.
              if \<not> length ls < ssi_num_lines buf then Inl Assert_failed
              else Inr (False, Some ls)))"

definition is_ssi_file :: "mk_opts \<Rightarrow> mk_state \<Rightarrow> string \<Rightarrow> mk_error + bool" where
  "is_ssi_file opts s filename =
     (if \<not> supportSsi opts then Inr False
      else
        (case ssi_file_lines opts of
           Some ls \<Rightarrow>
             (let freelen = SUBDIR_SIZE - length (curSubdir s) - 1 in
              andThen (checked (strncat SUBDIR_SIZE (curSubdir s) ''/'' freelen)) (\<lambda>p.
              andThen (checked (strncat SUBDIR_SIZE p filename (size_pred freelen))) (\<lambda>p.
                Inr (drop 1 p \<in> set ls))))
         | None \<Rightarrow> Inr (list_ex (\<lambda>e. strstr filename e \<noteq> None) g_pcSSIExtensions)))"

section \<open>The code: byte dumps\<close>

text \<open>The text printed for the bytes, and the counter afterwards.\<close>

fun file_put_ascii :: "bytes \<Rightarrow> nat \<Rightarrow> string \<times> nat" where
  "file_put_ascii [] i = ([], i)"
| "file_put_ascii (c # cs) i =
     (let nl = (if Suc i mod HEX_BYTES_PER_LINE = 0 then CRLF else []);
          (rest, j) = file_put_ascii cs (Suc i)
      in (hex_byte c @ nl @ rest, j))"

text \<open>The variant that prints into a buffer; each \<^verbatim>\<open>sprintf\<close> also writes a NUL.\<close>

fun s_put_ascii :: "string \<Rightarrow> nat \<Rightarrow> bytes \<Rightarrow> nat \<Rightarrow> (string \<times> nat) option" where
  "s_put_ascii buf idx [] i = Some (buf, i)"
| "s_put_ascii buf idx (c # cs) i = do {
     buf \<leftarrow> mem_cpy buf idx (hex_byte c @ [CHR 0x00]);
     (if Suc i mod HEX_BYTES_PER_LINE = 0 then do {
        buf \<leftarrow> mem_cpy buf (idx + 5) (CRLF @ [CHR 0x00]);
        s_put_ascii buf (idx + 7) cs (Suc i)
      } else s_put_ascii buf (idx + 5) cs (Suc i))
   }"

text \<open>
  The file dump goes through a buffer of \<open>bufsize\<close> bytes: \<open>pend\<close> is what the buffer holds (its length
  is \<^verbatim>\<open>off\<close>), \<open>out\<close> what was written to the file. Both assertions of the loop are kept.
\<close>

fun process_file_data_loop :: "nat \<Rightarrow> bytes \<Rightarrow> nat \<Rightarrow> string \<Rightarrow> string \<Rightarrow> mk_error + string" where
  "process_file_data_loop bufsize [] src_off pend out = Inr (out @ pend)"
| "process_file_data_loop bufsize (b # bs) src_off pend out =
     (if \<not> length pend < bufsize - 5 then Inl Assert_failed
      else
        (let pend = pend @ hex_byte b in
         if Suc src_off mod HEX_BYTES_PER_LINE = 0 \<and> \<not> length pend < bufsize - 2 then Inl Assert_failed
         else
           (let pend = (if Suc src_off mod HEX_BYTES_PER_LINE = 0 then pend @ CRLF else pend) in
            if length pend + 20 \<ge> bufsize
            then process_file_data_loop bufsize bs (Suc src_off) [] (out @ pend)
            else process_file_data_loop bufsize bs (Suc src_off) pend out)))"

definition process_file_data :: "bytes \<Rightarrow> mk_error + string" where
  "process_file_data file_data = process_file_data_loop FILE_BUFFER_SIZE file_data 0 [] []"

section \<open>The code: file contents\<close>

text \<open>The bytes to store, whether they are compressed, and the state with its byte counts.\<close>

definition get_file_data ::
  "mk_env \<Rightarrow> mk_opts \<Rightarrow> mk_state \<Rightarrow> bytes \<Rightarrow> bool \<Rightarrow> mk_error + (bytes \<times> bool \<times> mk_state)" where
  "get_file_data env opts s buf can_be_compressed =
     (if \<not> MAKEFS_SUPPORT_DEFLATE env then Inr (buf, False, s)
      else
        (let s = s\<lparr>overallDataBytes := overallDataBytes s + length buf\<rparr> in
         if deflateNonSsiFiles opts \<and> can_be_compressed \<and> length buf < COPY_BUFSIZE then
           (case mk_deflate env (deflate_level opts) buf of
              None \<Rightarrow> Inl (Exit (- 1))
            | Some ret_buf \<Rightarrow>
                if \<not> length ret_buf \<le> COPY_BUFSIZE then Inl Assert_failed
                else if length ret_buf < length buf then
                  (case mk_inflate env ret_buf of
                     None \<Rightarrow> Inl Assert_failed
                   | Some check \<Rightarrow>
                       if length check \<noteq> length buf then Inl Assert_failed
                       else if check \<noteq> buf then Inl Assert_failed
                       else Inr (ret_buf, True,
                              s\<lparr>deflatedBytesReduced := deflatedBytesReduced s + (length buf - length ret_buf)\<rparr>))
                else Inr (buf, False, s))
         else Inr (buf, False, s)))"

text \<open>
  Checksums of the parts of a file. \<open>src_offset\<close> is never advanced in the loop, so that it ends only
  for an empty file; \<open>None\<close> is a loop that does not end.
\<close>

definition chksum_entry :: "nat \<Rightarrow> u16 \<Rightarrow> nat \<Rightarrow> string" where
  "chksum_entry offset chk len = ''{'' @ dec offset @ '', 0x'' @ hex4 chk @ '', '' @ dec len @ ''},'' @ CRLF"

partial_function (option) write_checksums_loop ::
  "(bytes \<Rightarrow> u16) \<Rightarrow> nat \<Rightarrow> bytes \<Rightarrow> nat \<Rightarrow> nat \<Rightarrow> nat \<Rightarrow> string \<Rightarrow> (string \<times> nat) option" where
  "write_checksums_loop ck chunk_size file_data src_offset offset i out =
     (let len = min chunk_size (length file_data - src_offset) in
      if len = 0 then Some (out, i)
      else write_checksums_loop ck chunk_size file_data src_offset (offset + len) (Suc i)
             (out @ chksum_entry offset (NOT (ck (take len (drop src_offset file_data)))) len))"

definition write_checksums ::
  "mk_env \<Rightarrow> string \<Rightarrow> nat \<Rightarrow> u16 \<Rightarrow> bytes \<Rightarrow> mk_error + (string \<times> nat)" where
  "write_checksums env varname hdr_len hdr_chksum file_data = (
     let pre = ''#if HTTPD_PRECALCULATED_CHECKSUM'' @ CRLF @
               ''const struct fsdata_chksum chksums_'' @ varname @ ''[] = {'' @ CRLF;
         (out, i) = (if hdr_len > 0 then (pre @ chksum_entry 0 hdr_chksum hdr_len, 1) else (pre, 0))
     in (case write_checksums_loop (mk_inet_chksum env) (mk_TCP_MSS env) file_data 0 hdr_len i out of
           None \<Rightarrow> Inl No_return
         | Some (out, i) \<Rightarrow>
             Inr (out @ ''};'' @ CRLF @ ''#endif /* HTTPD_PRECALCULATED_CHECKSUM */'' @ CRLF, i)))"

section \<open>The code: C names\<close>

definition is_valid_char_for_c_var :: "char \<Rightarrow> bool" where
  "is_valid_char_for_c_var x = (
     let n = of_char x :: nat in 65 \<le> n \<and> n \<le> 90 \<or> 97 \<le> n \<and> n \<le> 122 \<or> 48 \<le> n \<and> n \<le> 57 \<or> n = 95)"

text \<open>
  The search for an unused name: \<open>base\<close> is the cleaned name, \<open>cur\<close> the content of \<^verbatim>\<open>new_name\<close>, which has
  room for two bytes behind the base. A number of more than one digit does not fit.
\<close>

function fix_filename_loop :: "string list \<Rightarrow> string \<Rightarrow> nat \<Rightarrow> string \<Rightarrow> mk_error + string" where
  "fix_filename_loop files base cnt cur =
     (if cur \<notin> set files then Inr cur
      else
        (let cnt' = cnt + 1; digits = dec cnt' in
         if length base + length digits + 1 > length base + 2 then Inl Out_of_bounds
         else if cnt' < 999 then fix_filename_loop files base cnt' (base @ digits)
         else Inl (Exit (- 1))))"
  by pat_completeness auto
termination
  by (relation "measure (\<lambda>(f, b, c, n). 999 - c)") (auto simp: Let_def)

declare fix_filename_loop.simps [simp del]

definition fix_filename_for_c :: "string list \<Rightarrow> string \<Rightarrow> nat \<Rightarrow> mk_error + string" where
  "fix_filename_for_c files qualifiedName max_len =
     (if length qualifiedName + 3 = max_len then Inl (Exit (- 1))
      else
        (let base = map (\<lambda>c. if is_valid_char_for_c_var c then c else CHR ''_'') qualifiedName in
         andThen (fix_filename_loop files base 0 base) (\<lambda>new_name.
           if length new_name + 1 > max_len then Inl Out_of_bounds else Inr new_name)))"

definition register_filename :: "string \<Rightarrow> mk_state \<Rightarrow> mk_state" where
  "register_filename qualifiedName s = s\<lparr>first_file := first_file s @ [qualifiedName]\<rparr>"

section \<open>The code: HTTP headers\<close>

definition dquote :: string where "dquote = [CHR 0x22]"

text \<open>A comment line and the bytes of one header string.\<close>

definition put_header :: "string \<Rightarrow> string" where
  "put_header str = CRLF @ ''/* '' @ dquote @ str @ dquote @ '' ('' @ dec (length str) @ '' bytes) */'' @ CRLF
     @ fst (file_put_ascii (bytes_of str) 0)"

definition response_type :: "mk_opts \<Rightarrow> string \<Rightarrow> HTTPHeaderStrings" where
  "response_type opts filename =
     (if take 4 filename = ''404.'' then
        (if useHttp11 opts then HTTP_HDR_NOT_FOUND_11 else HTTP_HDR_NOT_FOUND)
      else if take 4 filename = ''400.'' then
        (if useHttp11 opts then HTTP_HDR_BAD_REQUEST_11 else HTTP_HDR_BAD_REQUEST)
      else if take 4 filename = ''501.'' then
        (if useHttp11 opts then HTTP_HDR_NOT_IMPL_11 else HTTP_HDR_NOT_IMPL)
      else (if useHttp11 opts then HTTP_HDR_OK_11 else HTTP_HDR_OK))"

text \<open>What follows the last dot, or the whole name if there is none.\<close>

function file_ext :: "string \<Rightarrow> string" where
  "file_ext f = (case strchr f (CHR ''.'') of None \<Rightarrow> f | Some i \<Rightarrow> file_ext (drop (Suc i) f))"
  by pat_completeness auto
termination
  by (relation "measure length") (auto dest!: strchr_Some)

declare file_ext.simps [simp del]

definition file_type :: "string \<Rightarrow> string" where
  "file_type filename =
     (if file_ext filename = [] then HTTP_HDR_DEFAULT_TYPE
      else
        (case map_of g_psHTTPHeaders (file_ext filename) of
           Some ct \<Rightarrow> ct
         | None \<Rightarrow> HTTP_HDR_DEFAULT_TYPE))"

text \<open>
  The header strings in the order in which they are written, each with its text in the data file
  and whether it is also copied into the buffer for the checksum.
\<close>

definition put_content_length :: "mk_env \<Rightarrow> nat \<Rightarrow> string \<times> string" where
  "put_content_length env content_len = (
     let cur = g_psHTTPHeaderStrings (LWIP_VERSION_STRING env) HTTP_HDR_CONTENT_LENGTH;
         num = lwip_itoa env content_len @ CRLF;
         (t1, i) = file_put_ascii (bytes_of cur) 0;
         (t2, j) = file_put_ascii (bytes_of num) i
     in (CRLF @ ''/* '' @ dquote @ cur @ dec content_len @ CRLF @ dquote @ '' ('' @ dec (length cur + 2) @
           ''+ bytes) */'' @ CRLF @ t1 @ t2, cur @ num))"

definition put_last_modified :: "string \<Rightarrow> string \<times> string" where
  "put_last_modified time = (
     let cur = ''Last-Modified: '' @ time;
         (t1, i) = file_put_ascii (bytes_of cur) 0;
         (t2, j) = file_put_ascii (bytes_of CRLF) i
     in (CRLF @ ''/* '' @ dquote @ cur @ dquote @ CRLF @ dquote @ '' ('' @ dec (length cur + 2) @
           ''+ bytes) */'' @ CRLF @ t1 @ t2, cur @ CRLF))"

definition header_segments ::
  "mk_env \<Rightarrow> mk_opts \<Rightarrow> string \<Rightarrow> nat \<Rightarrow> bool \<Rightarrow> bool \<Rightarrow> mk_error + (string \<times> string \<times> bool) list" where
  "header_segments env opts filename file_size provide_content_len is_compressed = (
     let str = (\<lambda>h. g_psHTTPHeaderStrings (LWIP_VERSION_STRING env) h);
         seg = (\<lambda>t. (put_header t, t, True));
         start = [seg (str (response_type opts filename)), seg (serverID opts)];
         len = (if provide_content_len
                then [(fst (put_content_length env file_size), snd (put_content_length env file_size), True)]
                else []);
         conn = (if useHttp11 opts
                 then [seg (str (if provide_content_len then HTTP_HDR_CONN_KEEPALIVE else HTTP_HDR_CONN_CLOSE))]
                 else []);
         enc = (if MAKEFS_SUPPORT_DEFLATE env \<and> is_compressed
                then [(put_header (''Content-Encoding: deflate'' @ CRLF), ''Content-Encoding: deflate'' @ CRLF, False)]
                else []);
         ty = [seg (file_type filename)]
     in if MAKEFS_SUPPORT_DEFLATE env \<and> is_compressed \<and> \<not> deflateNonSsiFiles opts then Inl Assert_failed
        else if includeLastModified opts then
          (case last_modified env filename of
             None \<Rightarrow> Inl (Exit (- 1))
           | Some time \<Rightarrow>
               Inr (start @ len @ [(fst (put_last_modified time), snd (put_last_modified time), True)] @ conn @ enc @ ty))
        else Inr (start @ len @ conn @ enc @ ty))"

text \<open>
  The result: the text for the data file, the number of header bytes written, and the length and
  checksum of the header, which stay zero unless checksums are wanted.
\<close>

definition file_write_http_header ::
  "mk_env \<Rightarrow> mk_opts \<Rightarrow> string \<Rightarrow> nat \<Rightarrow> bool \<Rightarrow> bool \<Rightarrow> mk_error + (string \<times> nat \<times> nat \<times> u16)" where
  "file_write_http_header env opts filename file_size provide_content_len is_compressed =
     andThen (header_segments env opts filename file_size provide_content_len is_compressed) (\<lambda>segs.
       let text = CRLF @ ''/* HTTP header */'' @ concat (map fst segs);
           written = length (concat (map (fst \<circ> snd) segs));
           hdr_buf = concat (map (fst \<circ> snd) (filter (snd \<circ> snd) segs))
       in if precalcChksum opts then
            (if \<not> length hdr_buf \<le> HDR_BUF_SIZE then Inl Assert_failed
             else if CHR 0x00 \<in> set hdr_buf then Inl Assert_failed
             else Inr (text, written, length hdr_buf, NOT (mk_inet_chksum env (bytes_of hdr_buf))))
          else Inr (text, written, 0, 0))"

section \<open>The code: one file\<close>

definition FS_FILE_FLAGS_HEADER_INCLUDED :: u8 where "FS_FILE_FLAGS_HEADER_INCLUDED = 0x01"
definition FS_FILE_FLAGS_HEADER_PERSISTENT :: u8 where "FS_FILE_FLAGS_HEADER_PERSISTENT = 0x02"
definition FS_FILE_FLAGS_HEADER_HTTPVER_1_1 :: u8 where "FS_FILE_FLAGS_HEADER_HTTPVER_1_1 = 0x04"
definition FS_FILE_FLAGS_SSI :: u8 where "FS_FILE_FLAGS_SSI = 0x08"
definition FS_FILE_FLAGS_CUSTOM :: u8 where "FS_FILE_FLAGS_CUSTOM = 0x10"

definition file_flags :: "mk_opts \<Rightarrow> bool \<Rightarrow> u8" where
  "file_flags opts is_ssi = (
     let flags = (if is_ssi then FS_FILE_FLAGS_SSI else 0)
     in if includeHttpHeader opts then
          (let flags = flags OR FS_FILE_FLAGS_HEADER_INCLUDED in
           if \<not> is_ssi then
             (let flags = flags OR FS_FILE_FLAGS_HEADER_PERSISTENT in
              if useHttp11 opts then flags OR FS_FILE_FLAGS_HEADER_HTTPVER_1_1 else flags)
           else flags)
        else flags)"

text \<open>The flags as printed: their names separated by bars, or a zero.\<close>

fun join_bar :: "string list \<Rightarrow> string" where
  "join_bar [] = ''0''"
| "join_bar [t] = t"
| "join_bar (t # ts) = t @ '' | '' @ join_bar ts"

definition print_flags :: "u8 \<Rightarrow> string" where
  "print_flags flags = join_bar (
     (if flags AND FS_FILE_FLAGS_HEADER_INCLUDED \<noteq> 0 then [''FS_FILE_FLAGS_HEADER_INCLUDED''] else []) @
     (if flags AND FS_FILE_FLAGS_HEADER_PERSISTENT \<noteq> 0 then [''FS_FILE_FLAGS_HEADER_PERSISTENT''] else []) @
     (if flags AND FS_FILE_FLAGS_HEADER_HTTPVER_1_1 \<noteq> 0 then [''FS_FILE_FLAGS_HEADER_HTTPVER_1_1''] else []) @
     (if flags AND FS_FILE_FLAGS_SSI \<noteq> 0 then [''FS_FILE_FLAGS_SSI''] else []))"

text \<open>Zero bytes up to the next multiple of the alignment.\<close>

definition pad_count :: "nat \<Rightarrow> nat" where
  "pad_count i = (PAYLOAD_ALIGNMENT - i mod PAYLOAD_ALIGNMENT) mod PAYLOAD_ALIGNMENT"

text \<open>The declaration of the array and the name, with padding; the second component is the offset \<^verbatim>\<open>i\<close>
  at which the payload starts.\<close>

definition data_prologue :: "mk_state \<Rightarrow> string \<Rightarrow> string \<Rightarrow> string \<times> nat" where
  "data_prologue s varname qualifiedName = (
     let (name_text, i) = file_put_ascii (bytes_of qualifiedName @ [0]) 0
     in (''#if FSDATA_FILE_ALIGNMENT==1'' @ CRLF @
         ''static const unsigned int dummy_align_'' @ varname @ '' = '' @
           dec (payload_alingment_dummy_counter s) @ '';'' @ CRLF @
         ''#endif'' @ CRLF @
         ''static const unsigned char FSDATA_ALIGN_PRE data_'' @ varname @ ''[] FSDATA_ALIGN_POST = {'' @ CRLF @
         ''/* '' @ qualifiedName @ '' ('' @ dec (length qualifiedName + 1) @ '' chars) */'' @ CRLF @
         name_text @ concat (replicate (pad_count i) (hex_byte 0)) @ CRLF,
         i + pad_count i))"

definition struct_entry :: "mk_opts \<Rightarrow> mk_state \<Rightarrow> string \<Rightarrow> nat \<Rightarrow> u8 \<Rightarrow> nat \<Rightarrow> string" where
  "struct_entry opts s varname i flags chksum_count =
     ''const struct fsdata_file file_'' @ varname @ ''[] = { {'' @ CRLF @
     ''file_'' @ lastFileVar s @ '','' @ CRLF @
     ''data_'' @ varname @ '','' @ CRLF @
     ''data_'' @ varname @ '' + '' @ dec i @ '','' @ CRLF @
     ''sizeof(data_'' @ varname @ '') - '' @ dec i @ '','' @ CRLF @
     print_flags flags @ '','' @ CRLF @
     (if precalcChksum opts then
        ''#if HTTPD_PRECALCULATED_CHECKSUM'' @ CRLF @
        dec chksum_count @ '', chksums_'' @ varname @ '','' @ CRLF @
        ''#endif /* HTTPD_PRECALCULATED_CHECKSUM */'' @ CRLF
      else []) @
     ''}};'' @ CRLF @ CRLF"

definition process_file ::
  "mk_env \<Rightarrow> mk_opts \<Rightarrow> mk_state \<Rightarrow> string \<Rightarrow> bytes \<Rightarrow> mk_error + mk_state" where
  "process_file env opts s filename contents = (
     let qualifiedName = take (MAX_PATH_LEN - 1) (curSubdir s @ ''/'' @ filename) in
     andThen (fix_filename_for_c (first_file s) qualifiedName MAX_PATH_LEN) (\<lambda>varname.
       let s = register_filename varname s;
           (prologue, i) = data_prologue s varname qualifiedName;
           s = emit_data prologue
                 (s\<lparr>payload_alingment_dummy_counter := payload_alingment_dummy_counter s + 1\<rparr>)
       in
       andThen (is_ssi_file opts s filename) (\<lambda>is_ssi.
       andThen (if includeHttpHeader opts \<and> \<not> is_ssi then checked (file_can_be_compressed opts filename)
                else Inr False) (\<lambda>can_be_compressed.
       andThen (get_file_data env opts s contents can_be_compressed) (\<lambda>(file_data, is_compressed, s).
       andThen (if includeHttpHeader opts
                then file_write_http_header env opts filename (length file_data) (\<not> is_ssi) is_compressed
                else Inr ([], 0, 0, 0)) (\<lambda>(hdr_text, _, http_hdr_len, http_hdr_chksum).
       andThen (if precalcChksum opts
                then write_checksums env varname http_hdr_len http_hdr_chksum file_data
                else Inr ([], 0)) (\<lambda>(chk_text, chksum_count).
       andThen (process_file_data file_data) (\<lambda>dump.
         Inr ((emit_data (hdr_text @ CRLF @ ''/* raw file data ('' @ dec (length file_data) @ '' bytes) */'' @ CRLF @
                          dump @ ''};'' @ CRLF @ CRLF)
               (emit_struct (chk_text @ struct_entry opts s varname i (file_flags opts is_ssi) chksum_count) s))
              \<lparr>lastFileVar := varname\<rparr>)))))))))"

section \<open>The code: the directory tree\<close>

text \<open>The second loop: the plain files of a directory.\<close>

fun process_files :: "mk_env \<Rightarrow> mk_opts \<Rightarrow> mk_state \<Rightarrow> node list \<Rightarrow> mk_error + (nat \<times> mk_state)" where
  "process_files env opts s [] = Inr (0, s)"
| "process_files env opts s (Dir n sub # ns) = process_files env opts s ns"
| "process_files env opts s (File n contents # ns) =
     (if n = ''fsdata.tmp'' \<or> n = ''fshdr.tmp'' then process_files env opts s ns
      else
        andThen (checked (file_to_exclude opts n)) (\<lambda>excluded.
          if excluded then process_files env opts s ns
          else
            andThen (process_file env opts s n contents) (\<lambda>s.
            andThen (process_files env opts s ns) (\<lambda>(k, s). Inr (Suc k, s)))))"

text \<open>
  The first loop goes down into the subdirectories. A directory is only entered when its name fits
  behind the current path, which is cut back afterwards.
\<close>

function (sequential) process_subdirs ::
    "mk_env \<Rightarrow> mk_opts \<Rightarrow> mk_state \<Rightarrow> node list \<Rightarrow> mk_error + (nat \<times> mk_state)"
  and process_sub :: "mk_env \<Rightarrow> mk_opts \<Rightarrow> mk_state \<Rightarrow> node list \<Rightarrow> mk_error + (nat \<times> mk_state)" where
  "process_subdirs env opts s [] = Inr (0, s)"
| "process_subdirs env opts s (File n contents # ns) = process_subdirs env opts s ns"
| "process_subdirs env opts s (Dir n sub # ns) =
     (let freelen = SUBDIR_SIZE - length (curSubdir s) - 1; here = curSubdir s in
      if n \<noteq> [] \<and> hd n = CHR ''.'' then process_subdirs env opts s ns
      else if freelen > 0 then
        andThen (checked (strncat SUBDIR_SIZE here ''/'' freelen)) (\<lambda>p.
        andThen (checked (strncat SUBDIR_SIZE p n (size_pred freelen))) (\<lambda>p.
        andThen (process_sub env opts (s\<lparr>curSubdir := p\<rparr>) sub) (\<lambda>(k, s).
        andThen (process_subdirs env opts (s\<lparr>curSubdir := here\<rparr>) ns) (\<lambda>(m, s). Inr (k + m, s)))))
      else process_subdirs env opts s ns)"
| "process_sub env opts s ns =
     (if processSubs opts then
        (if \<not> length (curSubdir s) < SUBDIR_SIZE then Inl Assert_failed
         else
           andThen (process_subdirs env opts s ns) (\<lambda>(k, s).
           andThen (process_files env opts s ns) (\<lambda>(m, s). Inr (k + m, s))))
      else Inr (0, s))"
  by pat_completeness auto
termination
  by (relation "measure (\<lambda>x. case x of Inl (e, o1, s, ns) \<Rightarrow> 2 * size_list size ns
                              | Inr (e, o1, s, ns) \<Rightarrow> 2 * size_list size ns + 1)") auto

section \<open>The code: the program\<close>

definition starts_with :: "string \<Rightarrow> string \<Rightarrow> bool" where
  "starts_with p str \<longleftrightarrow> take (length p) str = p"

text \<open>The level given with \<^verbatim>\<open>-defl:\<close>; \<open>atoi\<close> reads the leading digits.\<close>

fun atoi_loop :: "string \<Rightarrow> int \<Rightarrow> int" where
  "atoi_loop [] acc = acc"
| "atoi_loop (c # cs) acc =
     (let n = of_char c :: int in if 48 \<le> n \<and> n \<le> 57 then atoi_loop cs (acc * 10 + (n - 48)) else acc)"

definition atoi :: "string \<Rightarrow> int" where
  "atoi str = (case str of CHR ''-'' # cs \<Rightarrow> - atoi_loop cs 0 | _ \<Rightarrow> atoi_loop str 0)"

definition deflate_arg :: "string \<Rightarrow> mk_opts \<Rightarrow> mk_error + mk_opts" where
  "deflate_arg rest opts =
     (case rest of
        CHR '':'' # lvl \<Rightarrow>
          if lvl \<noteq> [] \<and> 0 \<le> atoi lvl \<and> atoi lvl \<le> 10
          then Inr (opts\<lparr>deflate_level := atoi lvl, deflateNonSsiFiles := True\<rparr>)
          else Inl (Exit 0)
      | _ \<Rightarrow> Inr (opts\<lparr>deflate_level := 10, deflateNonSsiFiles := True\<rparr>))"

text \<open>One argument of the command line; \<open>read_list\<close> gives the contents of a list file.\<close>

definition parse_arg ::
  "mk_env \<Rightarrow> (string \<Rightarrow> bytes option) \<Rightarrow> mk_opts \<Rightarrow> string \<Rightarrow> mk_error + mk_opts" where
  "parse_arg env read_list opts a =
     (if starts_with ''-'' a then
        (if starts_with ''-svr:'' a then
           Inr (opts\<lparr>serverID := take 1023 (''Server: '' @ drop 5 a @ CRLF)\<rparr>)
         else if a = ''-s'' then Inr (opts\<lparr>processSubs := False\<rparr>)
         else if a = ''-e'' then Inr (opts\<lparr>includeHttpHeader := False\<rparr>)
         else if a = ''-11'' then Inr (opts\<lparr>useHttp11 := True\<rparr>)
         else if a = ''-nossi'' then Inr (opts\<lparr>supportSsi := False\<rparr>)
         else if starts_with ''-ssi:'' a then
           andThen (checkSsiByFilelist (read_list (drop 5 a))) (\<lambda>(_, ls).
             Inr (case ls of None \<Rightarrow> opts
                  | Some ls \<Rightarrow> opts\<lparr>ssi_file_lines := Some (map (map (\<lambda>b. char_of (unat b))) ls)\<rparr>))
         else if a = ''-c'' then Inr (opts\<lparr>precalcChksum := True\<rparr>)
         else if starts_with ''-f:'' a then Inr (opts\<lparr>targetfile := take 255 (drop 3 a)\<rparr>)
         else if a = ''-m'' then Inr (opts\<lparr>includeLastModified := True\<rparr>)
         else if starts_with ''-defl'' a then
           (if MAKEFS_SUPPORT_DEFLATE env then deflate_arg (drop 5 a) opts else Inr opts)
         else if starts_with ''-x:'' a then Inr (opts\<lparr>exclude_list := Some (drop 3 a)\<rparr>)
         else if starts_with ''-xc:'' a then Inr (opts\<lparr>ncompress_list := Some (drop 4 a)\<rparr>)
         else if strstr a ''-?'' \<noteq> None \<or> strstr a ''-h'' \<noteq> None then Inl (Exit 0)
         else Inr opts)
      else if a = ''/?'' then Inl (Exit 0)
      else Inr (opts\<lparr>mk_path := take 255 a\<rparr>))"

fun parse_args ::
  "mk_env \<Rightarrow> (string \<Rightarrow> bytes option) \<Rightarrow> mk_opts \<Rightarrow> string list \<Rightarrow> mk_error + mk_opts" where
  "parse_args env read_list opts [] = Inr opts"
| "parse_args env read_list opts (a # as) =
     andThen (parse_arg env read_list opts a) (\<lambda>opts. parse_args env read_list opts as)"

definition default_opts :: "mk_env \<Rightarrow> mk_opts" where
  "default_opts env = \<lparr>processSubs = True, includeHttpHeader = True, useHttp11 = False, supportSsi = True,
     precalcChksum = False, includeLastModified = False, deflateNonSsiFiles = False, deflate_level = 0,
     exclude_list = None, ncompress_list = None,
     serverID = ''Server: '' @ HTTPD_SERVER_AGENT (LWIP_VERSION_STRING env) @ CRLF,
     ssi_file_lines = None, targetfile = ''fsdata.c'', mk_path = ''fs''\<rparr>"

definition preamble :: string where
  "preamble =
     ''#include '' @ dquote @ ''fs.h'' @ dquote @ CRLF @
     ''#include '' @ dquote @ ''lwip/def.h'' @ dquote @ CRLF @ CRLF @ CRLF @
     ''#define file_NULL (struct fsdata_file *) NULL'' @ CRLF @ CRLF @ CRLF @
     ''#ifndef FS_FILE_FLAGS_HEADER_INCLUDED'' @ CRLF @ ''#define FS_FILE_FLAGS_HEADER_INCLUDED 1'' @ CRLF @ ''#endif'' @ CRLF @
     ''#ifndef FS_FILE_FLAGS_HEADER_PERSISTENT'' @ CRLF @ ''#define FS_FILE_FLAGS_HEADER_PERSISTENT 0'' @ CRLF @ ''#endif'' @ CRLF @
     ''/* FSDATA_FILE_ALIGNMENT: 0=off, 1=by variable, 2=by include */'' @ CRLF @
     ''#ifndef FSDATA_FILE_ALIGNMENT'' @ CRLF @ ''#define FSDATA_FILE_ALIGNMENT 0'' @ CRLF @ ''#endif'' @ CRLF @
     ''#ifndef FSDATA_ALIGN_PRE'' @ CRLF @ ''#define FSDATA_ALIGN_PRE'' @ CRLF @ ''#endif'' @ CRLF @
     ''#ifndef FSDATA_ALIGN_POST'' @ CRLF @ ''#define FSDATA_ALIGN_POST'' @ CRLF @ ''#endif'' @ CRLF @
     ''#if FSDATA_FILE_ALIGNMENT==2'' @ CRLF @ ''#include '' @ dquote @ ''fsdata_alignment.h'' @ dquote @ CRLF @ ''#endif'' @ CRLF"

definition initial_state :: mk_state where
  "initial_state = \<lparr>data_file = preamble, struct_file = [], lastFileVar = ''NULL'', first_file = [],
     curSubdir = [], payload_alingment_dummy_counter = 0, overallDataBytes = 0, deflatedBytesReduced = 0\<rparr>"

text \<open>
  The whole program. \<open>dirs\<close> gives the tree below a path, \<open>None\<close> if there is no such directory; the
  result is the name and the text of the target file and the number of files.
\<close>

definition finish :: "nat \<Rightarrow> mk_state \<Rightarrow> string" where
  "finish n s = data_file s @ CRLF @ CRLF @ struct_file s @
     ''#define FS_ROOT file_'' @ lastFileVar s @ CRLF @ ''#define FS_NUMFILES '' @ dec n @ CRLF @ CRLF"

definition makefsdata ::
  "mk_env \<Rightarrow> (string \<Rightarrow> bytes option) \<Rightarrow> (string \<Rightarrow> node list option) \<Rightarrow> string list
    \<Rightarrow> mk_error + (string \<times> string \<times> nat)" where
  "makefsdata env read_list dirs args =
     andThen (parse_args env read_list (default_opts env) args) (\<lambda>opts.
     andThen (checked (check_path (bytes_of (mk_path opts) @ replicate (MAX_PATH_LEN - length (mk_path opts)) 0)))
       (\<lambda>(_, ok).
         if \<not> ok then Inl (Exit (- 1))
         else
           (case dirs (mk_path opts) of
              None \<Rightarrow> Inl (Exit (- 1))
            | Some tree \<Rightarrow>
                andThen (process_sub env opts initial_state tree) (\<lambda>(n, s).
                  Inr (targetfile opts, finish n s, n)))))"

end
