(* ===== verification/Make_Fsdata_Proofs.thy ===== *)
theory Make_Fsdata_Proofs
  imports Make_Fsdata
begin

text \<open>
  Properties of the file system generator: the byte dumps parse back, the headers are complete, the
  C names are valid and distinct, and what the options do.
\<close>

section \<open>Byte dumps\<close>

text \<open>Reference: reading a list of hexadecimal bytes, line breaks allowed between them.\<close>

definition hex_value :: "char \<Rightarrow> nat option" where
  "hex_value c = (let n = of_char c :: nat in
     if 48 \<le> n \<and> n \<le> 57 then Some (n - 48) else if 97 \<le> n \<and> n \<le> 102 then Some (n - 87) else None)"

fun parse_hex :: "string \<Rightarrow> bytes option" where
  "parse_hex [] = Some []"
| "parse_hex (c # cs) =
     (if c = CHR 0x0D \<or> c = CHR 0x0A then parse_hex cs
      else
        (case cs of
           x # h # l # k # rest \<Rightarrow>
             if c = CHR ''0'' \<and> x = CHR ''x'' \<and> k = CHR '','' then do {
               a \<leftarrow> hex_value h;
               b \<leftarrow> hex_value l;
               bs \<leftarrow> parse_hex rest;
               Some (of_nat (16 * a + b) # bs)
             } else None
         | _ \<Rightarrow> None))"

lemma hex_value_digit: "n < 16 \<Longrightarrow> hex_value (hex_digit n) = Some n"
  by (auto simp: less_Suc_eq numeral_eq_Suc hex_digit_def hex_value_def)

lemma length_hex_byte [simp]: "length (hex_byte b) = 5" by (simp add: hex_byte_def)

lemma parse_hex_byte: "parse_hex (hex_byte b @ rest) = map_option (Cons b) (parse_hex rest)"
proof -
  have b: "unat b < 256" by simp
  then have "unat b div 16 < 16" by linarith
  moreover have "of_nat (16 * (unat b div 16) + unat b mod 16) = b" by (subst mult_div_mod_eq) simp
  ultimately show ?thesis
    by (cases "parse_hex rest") (simp_all add: hex_byte_def hex_value_digit del: of_nat_add of_nat_mult)
qed

lemma parse_hex_CRLF: "parse_hex (CRLF @ rest) = parse_hex rest"
  by (simp add: CRLF_def)

lemma parse_hex_dump: "parse_hex (fst (file_put_ascii bs i) @ rest) = map_option ((@) bs) (parse_hex rest)"
proof (induction bs arbitrary: i)
  case Nil
  show ?case by (cases "parse_hex rest") simp_all
next
  case (Cons b bs)
  from Cons.IH [of "Suc i"] show ?case
    by (cases "parse_hex rest") (auto simp: split_beta Let_def parse_hex_byte parse_hex_CRLF)
qed

lemma file_put_ascii_count [simp]: "snd (file_put_ascii bs i) = i + length bs"
  by (induction bs arbitrary: i) (auto simp: split_beta Let_def)

lemma process_file_data_loop_eq:
  assumes "length pend + 20 < N"
  shows "process_file_data_loop N bs so pend out = Inr (out @ pend @ fst (file_put_ascii bs so))"
  using assms
proof (induction bs arbitrary: so pend out)
  case Nil
  then show ?case by simp
next
  case (Cons b bs)
  define pend' where "pend' = pend @ hex_byte b @ (if Suc so mod HEX_BYTES_PER_LINE = 0 then CRLF else [])"
  have step: "process_file_data_loop N (b # bs) so pend out =
      (if length pend' + 20 \<ge> N then process_file_data_loop N bs (Suc so) [] (out @ pend')
       else process_file_data_loop N bs (Suc so) pend' out)"
    using Cons.prems by (auto simp: Let_def pend'_def)
  have "length pend' + 20 < N \<Longrightarrow> process_file_data_loop N bs (Suc so) pend' out =
      Inr (out @ pend' @ fst (file_put_ascii bs (Suc so)))"
    by (rule Cons.IH)
  moreover have "process_file_data_loop N bs (Suc so) [] (out @ pend') =
      Inr (out @ pend' @ fst (file_put_ascii bs (Suc so)))"
    using Cons.IH [of "[]" "Suc so" "out @ pend'"] Cons.prems by simp
  ultimately show ?case
    unfolding step by (auto simp: pend'_def split_beta Let_def)
qed

lemma process_file_data_eq: "process_file_data bs = Inr (fst (file_put_ascii bs 0))"
  unfolding process_file_data_def
  using process_file_data_loop_eq [of "[]" FILE_BUFFER_SIZE bs 0 "[]"]
  by (simp add: FILE_BUFFER_SIZE_def COPY_BUFSIZE_def HEX_BYTES_PER_LINE_def)

section \<open>C names\<close>

lemma fix_filename_loop_fresh:
  "fix_filename_loop files base cnt cur = Inr name \<Longrightarrow> name \<notin> set files \<and> (name = cur \<or> (\<exists>n. name = base @ dec n))"
proof (induction files base cnt cur rule: fix_filename_loop.induct)
  case (1 files base cnt cur)
  show ?case
  proof (cases "cur \<in> set files")
    case True
    with "1.prems" have "fix_filename_loop files base (cnt + 1) (base @ dec (cnt + 1)) = Inr name"
      by (subst (asm) fix_filename_loop.simps) (auto simp: Let_def split: if_splits)
    moreover have "\<not> length base + length (dec (cnt + 1)) + 1 > length base + 2" "cnt + 1 < 999"
      using True "1.prems" by (subst (asm) fix_filename_loop.simps; auto simp: Let_def split: if_splits)+
    ultimately show ?thesis using "1.IH" [OF _ refl refl] True by auto
  next
    case False
    with "1.prems" show ?thesis by (subst (asm) fix_filename_loop.simps) auto
  qed
qed

lemma digit_valid: "n < 10 \<Longrightarrow> is_valid_char_for_c_var (hex_digit n)"
  by (auto simp: less_Suc_eq numeral_eq_Suc hex_digit_def is_valid_char_for_c_var_def)

lemma dec_valid: "list_all is_valid_char_for_c_var (dec n)"
proof (induction n rule: dec.induct)
  case (1 n)
  then show ?case by (subst dec.simps) (auto simp: digit_valid)
qed

lemma fix_filename_for_c_ok:
  assumes "fix_filename_for_c files q m = Inr name"
  shows "name \<notin> set files" "list_all is_valid_char_for_c_var name" "length name < m"
proof -
  define base where "base = map (\<lambda>c. if is_valid_char_for_c_var c then c else CHR ''_'') q"
  from assms have l: "fix_filename_loop files base 0 base = Inr name" and "length name < m"
    by (auto simp: fix_filename_for_c_def andThen_Inr base_def [symmetric] split: if_splits)
  then show "length name < m" by simp
  have "list_all is_valid_char_for_c_var base"
    by (auto simp: base_def list_all_iff is_valid_char_for_c_var_def)
  then show "name \<notin> set files" "list_all is_valid_char_for_c_var name"
    using fix_filename_loop_fresh [OF l] dec_valid by auto
qed

section \<open>The run\<close>

definition mk_inv :: "mk_state \<Rightarrow> bool" where
  "mk_inv s \<longleftrightarrow> distinct (first_file s) \<and> (\<forall>n \<in> set (first_file s). list_all is_valid_char_for_c_var n)
     \<and> lastFileVar s = (if first_file s = [] then ''NULL'' else last (first_file s))"

lemma get_file_data_state:
  "get_file_data env opts s buf c = Inr (d, z, s') \<Longrightarrow>
   first_file s' = first_file s \<and> lastFileVar s' = lastFileVar s \<and> curSubdir s' = curSubdir s
   \<and> data_file s' = data_file s \<and> struct_file s' = struct_file s"
  by (auto simp: get_file_data_def Let_def split: if_splits option.splits)

lemma process_file_step:
  assumes "process_file env opts s f c = Inr s'"
  obtains varname where "first_file s' = first_file s @ [varname]" "varname \<notin> set (first_file s)"
    "list_all is_valid_char_for_c_var varname" "lastFileVar s' = varname" "curSubdir s' = curSubdir s"
proof -
  from assms obtain varname where v: "fix_filename_for_c (first_file s)
      (take (MAX_PATH_LEN - 1) (curSubdir s @ ''/'' @ f)) MAX_PATH_LEN = Inr varname"
    by (auto simp: process_file_def Let_def andThen_Inr)
  with assms have "first_file s' = first_file s @ [varname] \<and> lastFileVar s' = varname \<and> curSubdir s' = curSubdir s"
    by (auto simp: process_file_def Let_def andThen_Inr split_beta emit_data_def emit_struct_def
        register_filename_def dest!: get_file_data_state)
  with that fix_filename_for_c_ok [OF v] show thesis by blast
qed

text \<open>A run adds one valid new name per processed file, and the path is restored.\<close>

definition adds_files :: "nat \<Rightarrow> mk_state \<Rightarrow> mk_state \<Rightarrow> bool" where
  "adds_files k s s' \<longleftrightarrow> (mk_inv s \<longrightarrow> mk_inv s') \<and> length (first_file s') = length (first_file s) + k"

lemma adds_files_refl [simp]: "adds_files 0 s s"
  by (simp add: adds_files_def)

lemma adds_files_trans: "adds_files k s s' \<Longrightarrow> adds_files m s' s'' \<Longrightarrow> adds_files (k + m) s s''"
  by (simp add: adds_files_def)

lemma adds_files_subdir [simp]:
  "adds_files k (s\<lparr>curSubdir := p\<rparr>) s' = adds_files k s s'" "adds_files k s (s'\<lparr>curSubdir := p\<rparr>) = adds_files k s s'"
  by (simp_all add: adds_files_def mk_inv_def)

lemma process_file_adds:
  assumes "process_file env opts s f c = Inr s'"
  shows "adds_files 1 s s'"
  using assms by (rule process_file_step) (auto simp: adds_files_def mk_inv_def)

lemma process_files_adds:
  "process_files env opts s ns = Inr (k, s') \<Longrightarrow> adds_files k s s'"
proof (induction env opts s ns arbitrary: k s' rule: process_files.induct)
  case (3 env opts s n contents ns)
  show ?case
  proof (cases "n = ''fsdata.tmp'' \<or> n = ''fshdr.tmp''")
    case True
    with 3 show ?thesis by auto
  next
    case False
    with "3.prems" obtain ex where ex: "checked (file_to_exclude opts n) = Inr ex" by (auto simp: andThen_Inr)
    show ?thesis
    proof (cases ex)
      case True
      with "3.IH"(2) [OF False] "3.prems" False ex show ?thesis by simp
    next
      case nex: False
      with "3.prems" False ex obtain s1 m where s1: "process_file env opts s n contents = Inr s1"
          "process_files env opts s1 ns = Inr (m, s')" "k = Suc m"
        by (auto simp: andThen_Inr)
      have "adds_files m s1 s'" using "3.IH"(3) [OF False nex s1(2)] .
      with process_file_adds [OF s1(1)] s1(3) show ?thesis by (auto dest: adds_files_trans)
    qed
  qed
qed auto

lemma process_tree_adds:
  "process_subdirs env opts s ns = Inr (k, s') \<Longrightarrow> adds_files k s s'"
  "process_sub env opts s ns = Inr (k, s') \<Longrightarrow> adds_files k s s'"
proof (induction env opts s ns and env opts s ns arbitrary: k s' and k s' rule: process_subdirs_process_sub.induct)
  case (3 env opts s n sub ns)
  show ?case
  proof (cases "n \<noteq> [] \<and> hd n = CHR ''.''")
    case True
    with 3 show ?thesis by (simp add: Let_def)
  next
    case False
    show ?thesis
    proof (cases "SUBDIR_SIZE - length (curSubdir s) - 1 > 0")
      case nf: True
      with "3.prems" False obtain p q k1 s1 m where
        p: "checked (strncat SUBDIR_SIZE (curSubdir s) ''/'' (SUBDIR_SIZE - length (curSubdir s) - 1)) = Inr p"
        and q: "checked (strncat SUBDIR_SIZE p n (size_pred (SUBDIR_SIZE - length (curSubdir s) - 1))) = Inr q"
        and s1: "process_sub env opts (s\<lparr>curSubdir := q\<rparr>) sub = Inr (k1, s1)"
        and s2: "process_subdirs env opts (s1\<lparr>curSubdir := curSubdir s\<rparr>) ns = Inr (m, s')" and k: "k = k1 + m"
        by (auto simp: Let_def andThen_Inr simp del: process_sub.simps split: if_splits)
      have "adds_files k1 s s1" using "3.IH"(2) [OF refl refl False nf s1] by simp
      moreover have "adds_files m s1 s'" using "3.IH"(3) [OF refl refl False nf s2] by simp
      ultimately show ?thesis using k adds_files_trans by blast
    next
      case nf: False
      with "3.prems" False "3.IH"(4) [OF refl refl False nf] show ?thesis by (simp add: Let_def)
    qed
  qed
next
  case (4 env opts s ns)
  show ?case
  proof (cases "processSubs opts \<and> length (curSubdir s) < SUBDIR_SIZE")
    case True
    with "4.prems" obtain k1 s1 m where s1: "process_subdirs env opts s ns = Inr (k1, s1)"
        "process_files env opts s1 ns = Inr (m, s')" "k = k1 + m"
      by (auto simp: andThen_Inr)
    with True "4.IH" have "adds_files k1 s s1" by blast
    with process_files_adds [OF s1(2)] s1(3) show ?thesis using adds_files_trans by blast
  next
    case False
    with "4.prems" show ?thesis by (auto split: if_splits)
  qed
qed auto

section \<open>Headers\<close>

definition header_string :: "(string \<times> string \<times> bool) list \<Rightarrow> string" where
  "header_string segs = concat (map (fst \<circ> snd) segs)"

text \<open>Non-empty lines, each ended by CRLF.\<close>

definition is_lines :: "string \<Rightarrow> bool" where
  "is_lines str \<longleftrightarrow> (\<exists>ls. str = concat (map (\<lambda>l. l @ CRLF) ls) \<and> (\<forall>l \<in> set ls. l \<noteq> [] \<and> CHR 0x0D \<notin> set l))"

lemma is_lines_Nil [simp]: "is_lines []"
  unfolding is_lines_def by (rule exI [of _ "[]"]) simp

lemma is_lines_append: "is_lines a \<Longrightarrow> is_lines b \<Longrightarrow> is_lines (a @ b)"
proof -
  assume "is_lines a" "is_lines b"
  then obtain as bs where
    "a = concat (map (\<lambda>l. l @ CRLF) as)" "\<forall>l \<in> set as. l \<noteq> [] \<and> CHR 0x0D \<notin> set l"
    "b = concat (map (\<lambda>l. l @ CRLF) bs)" "\<forall>l \<in> set bs. l \<noteq> [] \<and> CHR 0x0D \<notin> set l"
    by (auto simp: is_lines_def)
  then show ?thesis unfolding is_lines_def by (intro exI [of _ "as @ bs"]) auto
qed

lemma is_lines_line: "l \<noteq> [] \<Longrightarrow> CHR 0x0D \<notin> set l \<Longrightarrow> is_lines (l @ CRLF)"
  unfolding is_lines_def by (rule exI [of _ "[l]"]) simp

lemma is_lines_Cons: "l \<noteq> [] \<Longrightarrow> CHR 0x0D \<notin> set l \<Longrightarrow> is_lines r \<Longrightarrow> is_lines (l @ CRLF @ r)"
  using is_lines_append [OF is_lines_line, of l r] by simp

lemma strstr_skip: "CHR 0x0D \<notin> set l \<Longrightarrow>
    strstr (l @ r) (CRLF @ CRLF) = map_option ((+) (length l)) (strstr r (CRLF @ CRLF))"
proof (induction l)
  case Nil
  then show ?case by (cases "strstr r (CRLF @ CRLF)") simp_all
next
  case (Cons c l)
  then show ?case by (cases "strstr r (CRLF @ CRLF)") (auto simp: CRLF_def)
qed

lemma strstr_empty_line: "strstr (CRLF @ CRLF @ r) (CRLF @ CRLF) = Some 0"
  by (simp add: CRLF_def)

lemma strstr_skip_CRLF: "c \<noteq> CHR 0x0D \<Longrightarrow>
    strstr (CRLF @ c # r) (CRLF @ CRLF) = map_option ((+) 2) (strstr (c # r) (CRLF @ CRLF))"
  by (cases "strstr r (CRLF @ CRLF)") (auto simp: CRLF_def)

text \<open>The first empty line is the one behind the lines.\<close>

lemma strstr_lines:
  assumes "is_lines str" "str \<noteq> []"
  shows "strstr (str @ CRLF @ r) (CRLF @ CRLF) = Some (length str - 2)"
proof -
  have "ls \<noteq> [] \<Longrightarrow> \<forall>l \<in> set ls. l \<noteq> [] \<and> CHR 0x0D \<notin> set l \<Longrightarrow>
      strstr (concat (map (\<lambda>l. l @ CRLF) ls) @ CRLF @ r) (CRLF @ CRLF) =
      Some (length (concat (map (\<lambda>l. l @ CRLF) ls)) - 2)" for ls
  proof (induction ls)
    case (Cons l ls)
    show ?case
    proof (cases ls)
      case Nil
      then show ?thesis using Cons.prems strstr_skip [of l "CRLF @ CRLF @ r"] strstr_empty_line [of r] by simp
    next
      case (Cons m ms)
      with \<open>\<forall>l \<in> set (l # ls). _ l\<close> obtain c cs where m: "m = c # cs" "c \<noteq> CHR 0x0D" by (cases m) auto
      let ?t = "concat (map (\<lambda>l. l @ CRLF) ls)"
      have "strstr (?t @ CRLF @ r) (CRLF @ CRLF) = Some (length ?t - 2)"
        using Cons.IH Cons Cons.prems by simp
      moreover have "strstr (CRLF @ ?t @ CRLF @ r) (CRLF @ CRLF) =
          map_option ((+) 2) (strstr (?t @ CRLF @ r) (CRLF @ CRLF))"
        using strstr_skip_CRLF [OF m(2)] by (simp add: Cons m(1))
      moreover have "length ?t \<ge> 2" by (simp add: Cons)
      ultimately show ?thesis
        using strstr_skip [of l "CRLF @ ?t @ CRLF @ r"] Cons.prems by simp
    qed
  qed simp
  with assms show ?thesis by (auto simp: is_lines_def)
qed

lemma status_lines: "is_lines (g_psHTTPHeaderStrings v (response_type opts f))"
proof -
  have "is_lines (g_psHTTPHeaderStrings v h)"
    if "h \<in> {HTTP_HDR_OK, HTTP_HDR_NOT_FOUND, HTTP_HDR_BAD_REQUEST, HTTP_HDR_NOT_IMPL,
      HTTP_HDR_OK_11, HTTP_HDR_NOT_FOUND_11, HTTP_HDR_BAD_REQUEST_11, HTTP_HDR_NOT_IMPL_11}" for h
    using that
    by (elim insertE emptyE; simp only: g_psHTTPHeaderStrings.simps; intro is_lines_line; simp)
  moreover have "response_type opts f \<in> {HTTP_HDR_OK, HTTP_HDR_NOT_FOUND, HTTP_HDR_BAD_REQUEST, HTTP_HDR_NOT_IMPL,
      HTTP_HDR_OK_11, HTTP_HDR_NOT_FOUND_11, HTTP_HDR_BAD_REQUEST_11, HTTP_HDR_NOT_IMPL_11}"
    by (simp add: response_type_def)
  ultimately show ?thesis .
qed

lemma keepalive_lines: "is_lines (g_psHTTPHeaderStrings v HTTP_HDR_CONN_KEEPALIVE)"
  by (simp only: g_psHTTPHeaderStrings.simps; intro is_lines_line; simp)

lemma content_type_lines:
  assumes "CHR 0x0D \<notin> set t"
  shows "\<exists>str. is_lines str \<and> str \<noteq> [] \<and> HTTP_CONTENT_TYPE t = str @ CRLF"
  using assms by (intro exI [of _ "''Content-Type: '' @ t @ CRLF"])
    (auto simp: HTTP_CONTENT_TYPE_def intro!: is_lines_line [of "''Content-Type: '' @ t", simplified])

lemma file_type_lines: "\<exists>str. is_lines str \<and> str \<noteq> [] \<and> file_type f = str @ CRLF"
proof -
  have ssi: "\<exists>str. is_lines str \<and> str \<noteq> [] \<and> HTTP_HDR_SSI = str @ CRLF"
  proof -
    have "is_lines (''Content-Type: text/html'' @ CRLF @ ''Expires: Fri, 10 Apr 2008 14:00:00 GMT'' @ CRLF @
        ''Pragma: no-cache'' @ CRLF)"
      by (intro is_lines_Cons is_lines_line) auto
    then show ?thesis
      by (intro exI [of _ "''Content-Type: text/html'' @ CRLF @ ''Expires: Fri, 10 Apr 2008 14:00:00 GMT'' @ CRLF @
        ''Pragma: no-cache'' @ CRLF"]) (simp add: HTTP_HDR_SSI_def HTTP_CONTENT_TYPE_def)
  qed
  have enc: "\<exists>str. is_lines str \<and> str \<noteq> [] \<and> HTTP_CONTENT_TYPE_ENCODING ''image/svg+xml'' ''gzip'' = str @ CRLF"
  proof -
    have "is_lines (''Content-Type: image/svg+xml'' @ CRLF @ ''Content-Encoding: gzip'' @ CRLF)"
      by (intro is_lines_Cons is_lines_line) auto
    then show ?thesis
      by (intro exI [of _ "''Content-Type: image/svg+xml'' @ CRLF @ ''Content-Encoding: gzip'' @ CRLF"])
        (simp add: HTTP_CONTENT_TYPE_ENCODING_def)
  qed
  have "\<forall>(e, ct) \<in> set g_psHTTPHeaders. \<exists>str. is_lines str \<and> str \<noteq> [] \<and> ct = str @ CRLF"
    unfolding g_psHTTPHeaders_def HTTP_HDR_HTML_def
    using ssi enc by (simp add: content_type_lines)
  moreover have "file_type f = HTTP_HDR_DEFAULT_TYPE \<or> (file_ext f, file_type f) \<in> set g_psHTTPHeaders"
    by (auto simp: file_type_def split: option.splits dest: map_of_SomeD)
  moreover have "\<exists>str. is_lines str \<and> str \<noteq> [] \<and> HTTP_HDR_DEFAULT_TYPE = str @ CRLF"
    unfolding HTTP_HDR_DEFAULT_TYPE_def by (rule content_type_lines) simp
  ultimately show ?thesis by (auto simp: split_beta)
qed

lemma content_length_lines:
  assumes "CHR 0x0D \<notin> set (lwip_itoa env n)"
  shows "is_lines (snd (put_content_length env n))"
proof -
  have "snd (put_content_length env n) = (''Content-Length: '' @ lwip_itoa env n) @ CRLF"
    by (simp add: put_content_length_def split_beta Let_def)
  with assms show ?thesis by (simp only: is_lines_line) (intro is_lines_line; simp)
qed

text \<open>The header is the status line and server line, some more lines, and the content type.\<close>

lemma header_segments_shape:
  assumes "header_segments env opts f n pc ic = Inr segs"
    and "serverID opts = srv @ CRLF" "srv \<noteq> []" "CHR 0x0D \<notin> set srv"
    and "CHR 0x0D \<notin> set (lwip_itoa env n)" and "\<And>t. last_modified env f = Some t \<Longrightarrow> CHR 0x0D \<notin> set t"
  obtains (one) front where "pc \<or> \<not> useHttp11 opts" "is_lines front" "front \<noteq> []"
      "header_string segs = front @ file_type f"
  | (two) front mid where "\<not> pc" "useHttp11 opts" "is_lines front" "is_lines mid"
      "header_string segs = front @ ''Connection: Close'' @ CRLF @ CRLF @ mid @ file_type f"
proof -
  let ?st = "g_psHTTPHeaderStrings (LWIP_VERSION_STRING env) (response_type opts f)"
  let ?len = "if pc then snd (put_content_length env n) else []"
  let ?ka = "g_psHTTPHeaderStrings (LWIP_VERSION_STRING env) HTTP_HDR_CONN_KEEPALIVE"
  let ?enc = "if MAKEFS_SUPPORT_DEFLATE env \<and> ic then ''Content-Encoding: deflate'' @ CRLF else []"
  obtain lm where lm: "is_lines lm" and h: "header_string segs = ?st @ serverID opts @ ?len @ lm @
      (if useHttp11 opts then (if pc then ?ka else ''Connection: Close'' @ CRLF @ CRLF) else []) @ ?enc @ file_type f"
  proof (cases "includeLastModified opts")
    case True
    with assms(1) obtain t where t: "last_modified env f = Some t"
      by (auto simp: header_segments_def Let_def split: if_splits option.splits)
    have "snd (put_last_modified t) = (''Last-Modified: '' @ t) @ CRLF"
      by (simp add: put_last_modified_def split_beta Let_def)
    then have "is_lines (snd (put_last_modified t))"
      using assms(6) [OF t] by (simp only: is_lines_line) (intro is_lines_line; simp)
    then show thesis
      using that [of "snd (put_last_modified t)"] True t assms(1)
      by (auto simp: header_segments_def header_string_def Let_def split: if_splits)
  next
    case False
    then show thesis
      using that [of "[]"] assms(1)
      by (auto simp: header_segments_def header_string_def Let_def split: if_splits)
  qed
  have pre: "is_lines (?st @ serverID opts @ ?len @ lm)" "?st @ serverID opts @ ?len @ lm \<noteq> []"
    using assms(2-5) lm
    by (auto intro!: is_lines_append status_lines content_length_lines is_lines_line simp del: append_assoc g_psHTTPHeaderStrings.simps)
  have enc: "is_lines ?enc"
  proof -
    have "is_lines (''Content-Encoding: deflate'' @ CRLF)" by (rule is_lines_line) simp_all
    then show ?thesis by simp
  qed
  show thesis
  proof (cases "pc \<or> \<not> useHttp11 opts")
    case True
    define A where "A = ?st @ serverID opts @ ?len @ lm"
    let ?k = "if useHttp11 opts then ?ka else []"
    have k: "is_lines ?k" using keepalive_lines by (simp del: g_psHTTPHeaderStrings.simps)
    have "is_lines (A @ ?k @ ?enc)"
      unfolding A_def by (intro is_lines_append pre(1) k enc)
    moreover have "header_string segs = (A @ ?k @ ?enc) @ file_type f"
      using h True by (auto simp: A_def)
    moreover have "A @ ?k @ ?enc \<noteq> []" using pre(2) unfolding A_def [symmetric] by simp
    ultimately show thesis using one True by blast
  next
    case False
    with two [OF _ _ pre(1) enc] h show thesis by auto
  qed
qed

text \<open>The checksummed header lacks the encoding line.\<close>

lemma header_chksum_length:
  assumes "file_write_http_header env opts f n pc ic = Inr (text, written, hl, chk)" "precalcChksum opts"
  shows "written = hl + (if MAKEFS_SUPPORT_DEFLATE env \<and> ic then 27 else 0)"
  using assms
  by (auto simp: file_write_http_header_def header_segments_def andThen_Inr Let_def split: if_splits option.splits)

section \<open>Options\<close>

lemma check_path_ok:
  assumes "0 \<notin> set xs" "xs \<noteq> []"
  shows "check_path (xs @ 0 # ys) = Some (xs @ 0 # ys, True)"
proof -
  obtain c cs where xs: "xs = c # cs" "c \<noteq> 0" using assms by (cases xs) auto
  have "check_path_loop (xs @ 0 # ys) (length xs) = Some (xs @ 0 # ys, length xs)"
    by (simp add: xs mem_get_def)
  then show ?thesis using cstr_at_append [OF assms(1), of ys] xs by (simp add: check_path_def)
qed

lemma check_path_keeps: "check_path path = Some (path', ok) \<Longrightarrow> path' = path \<and> (ok \<longleftrightarrow> path ! 0 \<noteq> 0)"
proof -
  assume a: "check_path path = Some (path', ok)"
  show ?thesis
  proof (cases "path ! 0 = 0")
    case True
    with a show ?thesis by (auto simp: check_path_def mem_get_def split: if_splits)
  next
    case False
    with a obtain tx where ne: "path \<noteq> []" and tx: "cstr_at path 0 = Some tx"
      by (auto simp: check_path_def mem_get_def split: if_splits Option.bind_splits)
    have "0 \<in> set path" and z: "tx = takeWhile (\<lambda>c. c \<noteq> 0) path"
      using tx by (auto simp: cstr_at_def split: if_splits)
    then obtain xs ys where path: "path = xs @ 0 # ys" "0 \<notin> set xs" by (auto dest: split_list_first)
    then have "tx = xs" using z path by (simp add: takeWhile_nul)
    then have len: "length tx < length path" and nul: "path ! length tx = 0" using path by auto
    have "tx \<noteq> []" using False ne z by (cases path) auto
    then obtain k where k: "length tx = Suc k" by (cases tx) auto
    have "check_path_loop path (length tx) = Some (path, length tx)"
      using len nul by (simp add: k)
    with a False ne tx len show ?thesis by (auto simp: check_path_def mem_get_def k)
  qed
qed

lemma write_checksums_loop_returns:
  "write_checksums_loop ck c d src off i out = Some r \<Longrightarrow> \<not> (0 < c \<and> src < length d)"
  by (rule write_checksums_loop.raw_induct [where P = "\<lambda>ck c d src off i out r. \<not> (0 < c \<and> src < length d)"])
    (auto simp: Let_def split: if_splits, blast)

lemma write_checksums_loop_diverges:
  assumes "chunk > 0" "src < length data"
  shows "write_checksums_loop ck chunk data src off i out = None"
  using assms write_checksums_loop_returns by (cases "write_checksums_loop ck chunk data src off i out") blast+

lemma write_checksums_diverges:
  assumes "mk_TCP_MSS env > 0" "data \<noteq> []"
  shows "write_checksums env v hl hc data = Inl No_return"
  using assms by (simp add: write_checksums_def write_checksums_loop_diverges split_beta Let_def)

lemma write_checksums_empty:
  "\<exists>t. write_checksums env v hl hc [] = Inr (t, if hl > 0 then 1 else 0)"
  by (auto simp: write_checksums_def Let_def write_checksums_loop.simps)

text \<open>
  A search that ends without a match has gone over a comma right before the terminating NUL: after
  the last item without a comma behind it, it goes on past the end of the list.
\<close>

lemma list_item_end:
  assumes "i + length (list_item (drop i m)) < length m"
  shows "m ! (i + length (list_item (drop i m))) \<in> {CHR '','', CHR 0x00}"
  using assms nth_length_takeWhile [of "\<lambda>c. c \<noteq> CHR '','' \<and> c \<noteq> CHR 0x00" "drop i m"]
  by (auto simp: list_item_def)

lemma ext_loop_not_found:
  assumes "ext_loop f m i = Some False" "i < length m" "\<forall>k. Suc k < length m \<longrightarrow> m ! k \<noteq> CHR 0x00"
    "m ! i = CHR 0x00 \<longrightarrow> P"
    "\<And>j. i < j \<Longrightarrow> j < length m \<Longrightarrow> m ! j = CHR 0x00 \<Longrightarrow> m ! (j - 1) = CHR '','' \<Longrightarrow> P"
  shows P
  using assms
proof (induction f m i rule: ext_loop.induct)
  case (1 f m i)
  show ?case
  proof (cases "m ! i = CHR 0x00")
    case False
    define ext where "ext = list_item (drop i m)"
    let ?j = "i + length ext + 1"
    have rec: "ext_loop f m ?j = Some False"
      and cont: "\<not> length f < length ext + 1"
        "\<not> (f ! (length f - length ext - 1) = CHR ''.'' \<and> drop (length f - length ext) f = ext)"
      using "1.prems"(1) False by (subst (asm) ext_loop.simps; auto simp: Let_def ext_def split: if_splits)+
    then have j: "?j < length m" by (subst (asm) ext_loop.simps) (auto split: if_splits)
    have c: "m ! (?j - 1) = CHR '',''"
      using list_item_end [of i m] "1.prems"(3) j by (auto simp: ext_def)
    have P2: "m ! ?j = CHR 0x00 \<longrightarrow> P" using "1.prems"(5) [of ?j] j c by simp
    have P5: P if "?j < j" "j < length m" "m ! j = CHR 0x00" "m ! (j - 1) = CHR '',''" for j
      using "1.prems"(5) [of j] that by simp
    show ?thesis
      by (rule "1.IH" [OF _ False ext_def refl refl _ _ rec j "1.prems"(3) P2 P5])
        (use "1.prems"(2) cont in \<open>auto simp: not_le\<close>)
  qed (use "1.prems" in simp)
qed

lemma ext_in_list_not_found:
  assumes "ext_in_list f (Some l) = Some False" "CHR 0x00 \<notin> set l"
  shows "l = [] \<or> last l = CHR '',''"
proof -
  have "ext_loop f (l @ [CHR 0x00]) 0 = Some False" using assms(1) by (simp add: ext_in_list_def)
  then show ?thesis
  proof (rule ext_loop_not_found)
    show "\<forall>k. Suc k < length (l @ [CHR 0x00]) \<longrightarrow> (l @ [CHR 0x00]) ! k \<noteq> CHR 0x00"
      using assms(2) by (auto simp: nth_append) (metis nth_mem)
    show "(l @ [CHR 0x00]) ! 0 = CHR 0x00 \<longrightarrow> l = [] \<or> last l = CHR '',''"
      using assms(2) by (cases l) auto
    fix j
    assume "0 < j" "j < length (l @ [CHR 0x00])" "(l @ [CHR 0x00]) ! j = CHR 0x00" "(l @ [CHR 0x00]) ! (j - 1) = CHR '',''"
    moreover from this have "j = length l"
      using assms(2) by (auto simp: nth_append split: if_splits) (metis nth_mem)
    ultimately show "l = [] \<or> last l = CHR '',''" by (auto simp: nth_append last_conv_nth)
  qed simp
qed

section \<open>Properties\<close>

definition demo_env :: mk_env where
  "demo_env = \<lparr>LWIP_VERSION_STRING = ''2.2.0'', MAKEFS_SUPPORT_DEFLATE = False, mk_TCP_MSS = 1460, lwip_itoa = dec,
     mk_inet_chksum = (\<lambda>h. 0), mk_deflate = (\<lambda>l b. None), mk_inflate = (\<lambda>b. None), last_modified = (\<lambda>f. None)\<rparr>"

text \<open>The byte dump of a file parses back to the file's bytes: the dump buffer is flushed in time for
  every file size (neither overflow assertion of the loop can fail), lines break after every
  sixteen bytes, and reading the printed text gives the same bytes. The same holds of the
  dumps of names and headers.\<close>

theorem makefsdata_dump_roundtrip:
  "(\<exists>t. process_file_data bs = Inr t \<and> parse_hex t = Some bs) \<and>
   parse_hex (fst (file_put_ascii bs i)) = Some bs \<and> snd (file_put_ascii bs i) = i + length bs"
  using parse_hex_dump [of bs 0 "[]"] parse_hex_dump [of bs i "[]"] by (simp add: process_file_data_eq)


definition demo_tree :: "node list" where
  "demo_tree = [Dir ''js'' [File ''a.b'' [1, 2]], File ''.x'' [], File ''c.css'' [3]]"

lemma demo_run:
  "\<exists>s. makefsdata demo_env (\<lambda>f. None) (\<lambda>p. Some demo_tree) [''-e''] = Inr (''fsdata.c'', finish 3 s, 3)
     \<and> first_file s = [''_js_a_b'', ''__x'', ''_c_css'']"
proof -
  let ?o = "(default_opts demo_env)\<lparr>includeHttpHeader := False\<rparr>"
  have p: "parse_args demo_env (\<lambda>f. None) (default_opts demo_env) [''-e''] = Inr ?o"
    by (simp add: parse_arg_def starts_with_def)
  have c: "check_path (bytes_of ''fs'' @ replicate 254 0) = Some (bytes_of ''fs'' @ replicate 254 0, True)"
  proof -
    have "replicate 254 (0 :: u8) = 0 # replicate 253 0" by (simp add: numeral_eq_Suc)
    then show ?thesis using check_path_ok [of "bytes_of ''fs''" "replicate 253 0"] by (simp add: bytes_of_def)
  qed
  have "\<exists>s. process_sub demo_env ?o initial_state demo_tree = Inr (3, s) \<and>
      first_file s = [''_js_a_b'', ''__x'', ''_c_css'']"
    by (simp add: demo_tree_def default_opts_def initial_state_def SUBDIR_SIZE_def MAX_PATH_LEN_def strncat_def
        size_pred_def file_to_exclude_def process_file_def fix_filename_for_c_def fix_filename_loop.simps
        is_valid_char_for_c_var_def register_filename_def emit_data_def emit_struct_def split_beta Let_def
        is_ssi_file_def g_pcSSIExtensions_def get_file_data_def demo_env_def process_file_data_eq)
  moreover have "targetfile ?o = ''fsdata.c''" "mk_path ?o = ''fs''" by (simp_all add: default_opts_def)
  ultimately show ?thesis
    using c by (auto simp: makefsdata_def p MAX_PATH_LEN_def simp del: process_sub.simps parse_args.simps)
qed


text \<open>C36: The HTTP header stored with a file is complete: its only empty line is at its very end, right
  before the file's data. The exception is a file without Content-Length (an SSI file) under
  HTTP/1.1: there the string \<^verbatim>\<open>Connection: Close\<close> already carries the empty line, so the header ends
  before its Content-Type line, which becomes part of the body.\<close>

theorem makefsdata_header_end:
  assumes "header_segments env opts f n pc ic = Inr segs"
    and "serverID opts = srv @ CRLF" "srv \<noteq> []" "CHR 0x0D \<notin> set srv"
    and "CHR 0x0D \<notin> set (lwip_itoa env n)" and "\<forall>t. last_modified env f = Some t \<longrightarrow> CHR 0x0D \<notin> set t"
  shows "if pc \<or> \<not> useHttp11 opts
    then strstr (header_string segs) (CRLF @ CRLF) = Some (length (header_string segs) - 4)
    else \<exists>k rest. strstr (header_string segs) (CRLF @ CRLF) = Some k \<and>
           drop (k + 4) (header_string segs) = rest @ file_type f"
proof -
  have lm: "\<And>t. last_modified env f = Some t \<Longrightarrow> CHR 0x0D \<notin> set t" using assms(6) by blast
  obtain ct where ct: "is_lines ct" "ct \<noteq> []" "file_type f = ct @ CRLF" using file_type_lines by blast
  show ?thesis
  proof (rule header_segments_shape [OF assms(1-5) lm])
    fix front
    assume c: "pc \<or> \<not> useHttp11 opts" and f: "is_lines front" "front \<noteq> []"
      "header_string segs = front @ file_type f"
    have "strstr ((front @ ct) @ CRLF @ []) (CRLF @ CRLF) = Some (length (front @ ct) - 2)"
      using f ct by (intro strstr_lines is_lines_append) auto
    then show ?thesis using c f(3) ct(3) by simp
  next
    fix front mid
    assume c: "\<not> pc" "useHttp11 opts" and f: "is_lines front"
      "header_string segs = front @ ''Connection: Close'' @ CRLF @ CRLF @ mid @ file_type f"
    let ?l = "front @ ''Connection: Close'' @ CRLF"
    have l: "is_lines ?l"
    proof (rule is_lines_append [OF f(1)])
      show "is_lines (''Connection: Close'' @ CRLF)" by (rule is_lines_line) simp_all
    qed
    have "strstr (?l @ CRLF @ mid @ file_type f) (CRLF @ CRLF) = Some (length ?l - 2)"
      by (rule strstr_lines [OF l]) simp
    moreover have "drop (length ?l - 2 + 4) (header_string segs) = mid @ file_type f"
      using f(2) by (simp add: CRLF_def)
    ultimately show ?thesis using c f(2) by auto
  qed
qed

theorem makefsdata_header_end_witness:
  "\<exists>segs k rest. header_segments demo_env ((default_opts demo_env)\<lparr>useHttp11 := True\<rparr>) ''a.shtml'' 7 False False = Inr segs
     \<and> strstr (header_string segs) (CRLF @ CRLF) = Some k
     \<and> drop (k + 4) (header_string segs) = rest @ file_type ''a.shtml''"
proof -
  let ?o = "(default_opts demo_env)\<lparr>useHttp11 := True\<rparr>"
  obtain segs where s: "header_segments demo_env ?o ''a.shtml'' 7 False False = Inr segs"
    by (simp add: header_segments_def demo_env_def default_opts_def Let_def)
  have srv: "serverID ?o = (''Server: lwIP/2.2.0 (http://savannah.nongnu.org/projects/lwip)'') @ CRLF"
    by (simp add: default_opts_def demo_env_def HTTPD_SERVER_AGENT_def)
  from makefsdata_header_end [OF s srv] obtain k rest where
    "strstr (header_string segs) (CRLF @ CRLF) = Some k" "drop (k + 4) (header_string segs) = rest @ file_type ''a.shtml''"
    by (auto simp: demo_env_def dec.simps hex_digit_def)
  with s show ?thesis by blast
qed

text \<open>With precalculated checksums (\<^verbatim>\<open>-c\<close>) the generator returns for empty files only: the loop
  over the parts of a file never advances its source offset, so for every non-empty file it goes on
  for ever, printing checksums of the same part.\<close>

theorem makefsdata_checksums_diverge:
  assumes "mk_TCP_MSS env > 0"
  shows "write_checksums env varname hdr_len hdr_chksum data = Inl No_return \<longleftrightarrow> data \<noteq> []"
  using write_checksums_diverges [OF assms] write_checksums_empty [of env varname hdr_len hdr_chksum]
  by (cases "data = []") auto

theorem makefsdata_checksums_diverge_witness:
  "write_checksums demo_env ''_a'' 10 0x1234 [1, 2, 3] = Inl No_return"
proof -
  have "mk_TCP_MSS demo_env > 0" by (simp add: demo_env_def)
  from makefsdata_checksums_diverge [OF this] show ?thesis by simp
qed

text \<open>The extension lists of \<^verbatim>\<open>-x\<close> and \<^verbatim>\<open>-xc\<close>: a file whose extension is the first item of the list is
  found. But a search without a match leaves the list's memory: it is answered only for an empty
  list or one that ends with a comma; behind the last item the loop steps over the terminating NUL.\<close>

theorem makefsdata_ext_list:
  assumes "CHR 0x00 \<notin> set l"
  shows "(ext_in_list f (Some l) = Some False \<longrightarrow> l = [] \<or> last l = CHR '','') \<and>
    (\<forall>g e r. f = g @ CHR ''.'' # e \<longrightarrow> l = e @ r \<longrightarrow> e \<noteq> [] \<longrightarrow> CHR '','' \<notin> set e \<longrightarrow> (r = [] \<or> hd r = CHR '','')
      \<longrightarrow> ext_in_list f (Some l) = Some True)"
proof (intro conjI allI impI)
  assume "ext_in_list f (Some l) = Some False"
  then show "l = [] \<or> last l = CHR '',''" using assms by (rule ext_in_list_not_found)
next
  fix g e r
  assume a: "f = g @ CHR ''.'' # e" "l = e @ r" "e \<noteq> []" "CHR '','' \<notin> set e" "r = [] \<or> hd r = CHR '',''"
  have "list_item (l @ [CHR 0x00]) = e"
  proof -
    obtain c t where t: "r @ [CHR 0x00] = c # t" "c \<in> {CHR '','', CHR 0x00}" using a(5) by (cases r) auto
    have "\<forall>x \<in> set e. x \<noteq> CHR '','' \<and> x \<noteq> CHR 0x00" using a(2,4) assms by auto
    then have "takeWhile (\<lambda>c. c \<noteq> CHR '','' \<and> c \<noteq> CHR 0x00) (e @ c # t) = e" using t(2) by (induction e) auto
    then show ?thesis using a(2) t(1) by (simp add: list_item_def)
  qed
  moreover have "(l @ [CHR 0x00]) ! 0 \<noteq> CHR 0x00" using a(2,3) assms by (cases e) auto
  ultimately show "ext_in_list f (Some l) = Some True"
    unfolding ext_in_list_def using a(1,3) by (simp, subst ext_loop.simps) (simp add: Let_def nth_append)
qed

theorem makefsdata_ext_list_witness:
  "ext_in_list ''a.txt'' (Some ''txt,json'') = Some True \<and> ext_in_list ''b.html'' (Some ''txt,json'') = None"
proof -
  have "CHR 0x00 \<notin> set ''txt,json''" by simp
  note t = makefsdata_ext_list [OF this]
  have "ext_in_list ''a.txt'' (Some ''txt,json'') = Some True"
    using t [of "''a.txt''"] by (elim conjE allE [of _ "''a''"] allE [of _ "''txt''"] allE [of _ "'',json''"]) simp
  moreover have "ext_in_list ''b.html'' (Some ''txt,json'') = None"
    by (simp add: ext_in_list_def ext_loop.simps list_item_def Let_def)
  ultimately show ?thesis by blast
qed

end
