(* ===== verification/Fsdata.thy ===== *)
theory Fsdata
  imports Make_Fsdata
begin

text \<open>
  \<^verbatim>\<open>src/httpserver/fsdata.c\<close>: the text files of the web server's read-only file system. Each array
  of the source holds the file's name, padded to a multiple of four bytes, the stored HTTP response
  header and the file's bytes; the source writes them in hexadecimal, the definitions below as the
  text they are. A long array is split where a line of the source ends. The two large arrays, of
  \<^verbatim>\<open>/index.html\<close> and \<^verbatim>\<open>/favicon.ico\<close>, are not transcribed.
\<close>

section \<open>Text in arrays\<close>

text \<open>The lines of a text, with a line feed between each two.\<close>

definition LF :: char where "LF = CHR 0x0A"
definition TAB :: string where "TAB = [CHR 0x09]"

fun text_lines :: "string list \<Rightarrow> string" where
  "text_lines [] = []"
| "text_lines [l] = l"
| "text_lines (l # m # ls) = l @ LF # text_lines (m # ls)"

section \<open>The arrays\<close>

definition text_404_html :: string where
  \<open>text_404_html = text_lines [
     ''<html>'',
     ''<head><title>lwIP - A Lightweight TCP/IP Stack</title></head>'',
     ''<body bgcolor="white" text="black">'',
     [],
     ''    <table width="100%">'',
     ''      <tr valign="top"><td width="80">'' @ TAB @ ''  '',
     TAB @ ''  <a href="http://www.sics.se/"><img src="/img/sics.gif"'',
     TAB @ ''  border="0" alt="SICS logo" title="SICS logo"></a>'',
     TAB @ ''</td><td width="500">'' @ TAB @ ''  '',
     TAB @ ''  <h1>lwIP - A Lightweight TCP/IP Stack</h1>'',
     TAB @ ''  <h2>404 - Page not found</h2>'',
     TAB @ ''  <p>'',
     TAB @ ''    Sorry, the page you are requesting was not found on this'',
     TAB @ ''    server. '',
     TAB @ ''  </p>'',
     TAB @ ''</td><td>'',
     TAB @ ''  &nbsp;'',
     TAB @ ''</td></tr>'',
     ''      </table>'',
     ''</body>'',
     ''</html>'',
     []]\<close>

lemma length_text_404_html: "length text_404_html = 544"
  by (simp add: text_404_html_def TAB_def)

definition header_404_html :: string where
  "header_404_html = ''HTTP/1.0 404 File not found'' @ CRLF @
     ''Server: lwIP/2.2.1d (http://savannah.nongnu.org/projects/lwip)'' @ CRLF @
     ''Content-Length: 544'' @ CRLF @
     ''Content-Type: text/html'' @ CRLF @ CRLF"

definition data__404_html :: bytes where
  "data__404_html = bytes_of (''/404.html'') @ [0, 0, 0] @ bytes_of (header_404_html @ text_404_html)"

definition text_slider_css :: string where
  \<open>text_slider_css = text_lines [
     ''* {'',
     ''    margin: 0;'',
     ''    padding: 0;'',
     ''    box-sizing: border-box;'',
     ''}'',
     [],
     ''body {'',
     ''    overflow-x: hidden; /* Only prevent horizontal scroll */'',
     ''}'',
     [],
     ''.slider-container {'',
     ''    width: 100vw;'',
     ''    position: relative;'',
     ''    overflow: hidden;'',
     ''}'',
     [],
     ''.slider {'',
     ''    display: flex;'',
     ''    width: 200vw;'',
     ''    position: relative;'',
     ''    transition: transform 0.3s ease-out;'',
     ''    background-color: red;'',
     ''}'',
     [],
     ''.slide {'',
     ''    width: 100vw;'',
     ''    flex-shrink: 0;'',
     ''}'',
     [],
     ''.scroll-container {'',
     ''    overflow-y: auto;'',
     ''    padding: 10px;'',
     ''    -webkit-overflow-scrolling: touch;'',
     ''}'',
     [],
     ''.scroll-content > div {'',
     ''    margin-bottom: 10px;'',
     ''    padding: 10px;'',
     ''    background: rgba(255, 255, 255, 0.1);'',
     ''    border-radius: 5px;'',
     ''}'',
     [],
     ''.slide:nth-child(1) {'',
     ''    background-color: #c1c1c1;'',
     ''}'',
     [],
     ''.slide:nth-child(2) {'',
     ''    background-color: #d1d1d1;'',
     ''}'',
     [],
     ''.pagination {'',
     ''    position: fixed; /* Changed from absolute to fixed */'',
     ''    bottom: 20px;'',
     ''    left: 50%;'',
     ''    transform: translateX(-50%);'',
     ''    display: flex;'',
     ''    gap: 10px;'',
     ''    z-index: 10;'',
     ''}'',
     [],
     ''.dot {'',
     ''    width: 10px;'',
     ''    height: 10px;'',
     ''    border-radius: 50%;'',
     ''    background: rgba(255, 255, 255, 0.5);'',
     ''    cursor: pointer;'',
     ''}'',
     [],
     ''.dot.active {'',
     ''    background: white;'',
     ''}'']\<close>

lemma length_text_slider_css: "length text_slider_css = 1130"
  by (simp add: text_slider_css_def TAB_def)

definition header_slider_css :: string where
  "header_slider_css = ''HTTP/1.0 200 OK'' @ CRLF @
     ''Server: lwIP/2.2.1d (http://savannah.nongnu.org/projects/lwip)'' @ CRLF @
     ''Content-Length: 1130'' @ CRLF @
     ''Content-Type: text/css'' @ CRLF @ CRLF"

definition data__slider_css :: bytes where
  "data__slider_css = bytes_of (''/slider.css'') @ [0] @ bytes_of (header_slider_css @ text_slider_css)"

definition text_slider_js_1 :: string where
  \<open>text_slider_js_1 = text_lines [
     ''class TouchSlider {'',
     ''    constructor() {'',
     ''        this.slider = document.querySelector('.slider');'',
     ''        this.slides = document.querySelectorAll('.slide');'',
     ''        this.dots = document.querySelectorAll('.dot');'',
     ''        this.scrollContainer = document.querySelector('.scroll-container');'',
     ''        this.currentSlide = 0;'',
     ''        this.startX = 0;'',
     ''        this.startY = 0;'',
     ''        this.isDragging = false;'',
     ''        this.isScrolling = false;'',
     ''        this.threshold = 50;'',
     [],
     ''        this.initializeEvents();'',
     ''    }'',
     [],
     ''    initializeEvents() {'',
     ''        // Touch Events'',
     ''        this.slider.addEventListener('touchstart', (e) => {            '',
     ''            this.startX = e.touches[0].pageX;'',
     ''            this.startY = e.touches[0].pageY;'',
     ''            this.isDragging = true;'',
     ''            this.isScrolling = false;'',
     ''        }, { passive: true });'',
     ''        '',
     ''        this.slider.addEventListener('touchmove', (e) => {'',
     ''            if (!this.isDragging) return;'',
     [],
     ''            if (!e.currentTarget.contains(e.target) || e.target.tagName === 'INPUT') return;'',
     ''           '',
     ''            const currentX = e.touches[0].pageX;'',
     ''            const currentY = e.touches[0].pageY;'',
     ''            const diffX = currentX - this.startX;'',
     ''            const diffY = currentY - this.startY;'',
     [],
     ''            // Determine if scrolling or sliding based on direction'',
     ''            if (!this.isScrolling && Math.abs(diffY) > Math.abs(diffX)) {'',
     ''                this.isScrolling = true;'',
     ''                this.isDragging = false;'',
     ''                return;'',
     ''            }'',
     [],
     ''            if (!this.isScrolling && Math.abs(diffX) > 10) {'',
     ''                //e.preventDefault();'',
     ''                const offset = -this.currentSlide * 100 + (diffX / window.innerWidth * 100);'',
     ''                if (offset <= 0 && offset >= -100) {'',
     ''                    this.slider.style.transform = `translateX(${offset}vw)`;'',
     ''                }'',
     ''            }'',
     ''        }, { passive: true });'',
     ''        '',
     ''        this.slider.addEventListener('touchend', (e) =>  {            '',
     ''            if (!this.isDragging) return;'',
     [],
     ''            if (!e.currentTarget.contains(e.target) || e.target.tagName === 'INPUT') return;'',
     [],
     ''            this.handleEnd();'',
     ''        });'',
     [],
     ''        // Mouse Events'',
     ''        this.slider.addEventListener('mousedown', (e) => {'',
     ''            // Only handle primary mouse button'',
     ''            if (e.button !== 0) return;'',
     [],
     ''  '']\<close>

lemma length_text_slider_js_1: "length text_slider_js_1 = 2320"
  by (simp add: text_slider_js_1_def TAB_def)

definition text_slider_js_2 :: string where
  \<open>text_slider_js_2 = text_lines [
     ''          if (!e.currentTarget.contains(e.target) || e.target.tagName === 'INPUT') return;'',
     ''            '',
     ''            // Don't initiate slide if clicking inside scroll container'',
     ''            if (e.target.closest('.scroll-container')) return;'',
     ''            '',
     ''            this.startX = e.pageX;'',
     ''            this.isDragging = true;'',
     ''            this.slider.style.transition = 'none';'',
     ''            //e.preventDefault();       '',
     ''        });'',
     [],
     ''        this.slider.addEventListener('mousemove', (e) => {'',
     ''            if (!this.isDragging) return;'',
     [],
     ''            if (!e.currentTarget.contains(e.target) || e.target.tagName === 'INPUT') return;'',
     [],
     ''            e.preventDefault();'',
     ''            '',
     ''            const diffX = e.pageX - this.startX;'',
     ''            const offset = -this.currentSlide * 100 + (diffX / window.innerWidth * 100);'',
     ''            '',
     ''            if (offset <= 0 && offset >= -100) {'',
     ''                this.slider.style.transform = `translateX(${offset}vw)`;'',
     ''            }'',
     ''        });'',
     [],
     ''        this.slider.addEventListener('mouseup', (e) => {            '',
     ''            if (!this.isDragging || !e.currentTarget.contains(e.target) || e.target.tagName === 'INPUT') return;'',
     ''            '',
     ''            this.handleEnd();'',
     ''        });'',
     ''        '',
     ''        '',
     ''        this.slider.addEventListener('mouseleave', (e) => {'',
     ''            if (!this.isDragging || !e.currentTarget.contains(e.target) || e.target.tagName === 'INPUT') return;'',
     [],
     ''            this.handleEnd();'',
     ''        });'',
     [],
     ''        // Dot navigation'',
     ''        this.dots.forEach((dot, index) => {'',
     ''            dot.addEventListener('click', () => this.goToSlide(index));'',
     ''        });'',
     ''    }'',
     [],
     ''    handleEnd() {'',
     ''        if (!this.isDragging) return;'',
     ''        '',
     ''        this.isDragging = false;'',
     ''        this.isScrolling = false;'',
     ''        this.slider.style.transition = 'transform 0.3s ease-out';'',
     ''        '',
     ''        const currentX = parseFloat(this.slider.style.transform?.replace('translateX(', '' @ [CHR 0x27] @ [CHR 0x27] @ '') || 0);'',
     ''        const movement = currentX + (this.currentSlide * 100);'',
     [],
     ''        if (Math.abs(movement) >= this.threshold / window.innerWidth * 100) {'',
     ''            if (movement > 0 && this.currentSlide > 0) {'',
     ''                this.currentSlide--;'',
     ''            } else if (movement < 0 && this.currentSlide < this.slides.length - 1) {'',
     ''                this.currentSlide++;'',
     ''            }'',
     ''        }'',
     [],
     ''        this.updateSliderPosition();'',
     ''    }'',
     [],
     '' '']\<close>

lemma length_text_slider_js_2: "length text_slider_js_2 = 2336"
  by (simp add: text_slider_js_2_def TAB_def)

definition text_slider_js_3 :: string where
  \<open>text_slider_js_3 = text_lines [
     ''   goToSlide(index) {'',
     ''        this.currentSlide = index;'',
     ''        this.updateSliderPosition();'',
     ''    }'',
     [],
     ''    updateSliderPosition() {'',
     ''        this.slider.style.transition = 'transform 0.3s ease-out';'',
     ''        this.slider.style.transform = `translateX(-${this.currentSlide * 100}vw)`;'',
     [],
     ''        if (this.currentSlide == 1) {'',
     ''            window.scrollTo({ top: 0, behavior: 'smooth' });'',
     ''        }'',
     ''        '',
     ''        this.dots.forEach((dot, index) => {'',
     ''            dot.classList.toggle('active', index === this.currentSlide);'',
     ''        });'',
     ''    }'',
     ''}'']\<close>

lemma length_text_slider_js_3: "length text_slider_js_3 = 534"
  by (simp add: text_slider_js_3_def TAB_def)

definition header_slider_js :: string where
  "header_slider_js = ''HTTP/1.0 200 OK'' @ CRLF @
     ''Server: lwIP/2.2.1d (http://savannah.nongnu.org/projects/lwip)'' @ CRLF @
     ''Content-Length: 5190'' @ CRLF @
     ''Content-Type: application/javascript'' @ CRLF @ CRLF"

definition data__slider_js :: bytes where
  "data__slider_js = bytes_of (''/slider.js'') @ [0, 0] @ bytes_of (header_slider_js @ text_slider_js_1 @ text_slider_js_2 @ text_slider_js_3)"

definition text_styles_css_1 :: string where
  \<open>text_styles_css_1 = text_lines [
     ''.progress-bar {'',
     ''    width: 100%;'',
     ''    background-color: #888;'',
     ''    height: 20px;'',
     ''    position: relative;'',
     ''    /* Needed for absolute positioning of the text */'',
     ''}'',
     [],
     ''.progress-min-mark {'',
     ''    position: absolute;'',
     ''    top: 50%;'',
     ''    transform: translateY(-50%);'',
     ''    background-color: red;'',
     ''    height: 100%;'',
     ''    width: 0.1%;'',
     ''}'',
     [],
     ''.progress {'',
     ''    height: 100%;'',
     ''    background-color: #4CAF50;'',
     ''    /* Change this color to your desired progress bar color */'',
     ''    transition: width 0.3s ease-in-out;'',
     ''    position: relative;'',
     ''    /* Needed for absolute positioning of the text */'',
     ''}'',
     [],
     ''.progress-text {'',
     ''    position: absolute;'',
     ''    top: 50%;'',
     ''    left: 50%;'',
     ''    transform: translate(-50%, -50%);'',
     ''    color: black;'',
     ''    /* Text color */'',
     ''}'',
     [],
     ''strong {'',
     ''    padding: 5px;'',
     ''}'',
     [],
     ''html,'',
     ''body {'',
     ''    height: 100%;'',
     ''    overflow-x: hidden;'',
     ''}'',
     [],
     ''html {'',
     ''    display: table;'',
     ''    margin: auto;'',
     ''}'',
     [],
     ''body {'',
     ''    display: table-cell;'',
     ''    vertical-align: middle;'',
     ''    text-align: center;'',
     ''}'',
     [],
     ''form {'',
     ''    max-width: 400px;'',
     ''    margin: auto;'',
     ''    padding: 10px;'',
     ''}'',
     [],
     ''input,'',
     ''textarea,'',
     ''select {'',
     ''    /* width: 100%; */'',
     ''    padding: 10px;'',
     ''    margin-top: 5px;'',
     ''    margin-bottom: 5px;'',
     ''    font-size: 16px;'',
     ''}'',
     [],
     ''button {'',
     ''    width: 100%;'',
     ''    padding: 12px;'',
     ''    font-size: 18px;'',
     ''}'',
     [],
     ''/* The Close Button */'',
     ''.close {'',
     ''    color: #aaa;'',
     ''    float: right;'',
     ''    font-size: 28px;'',
     ''    font-weight: bold;'',
     ''}'',
     [],
     ''.close:hover,'',
     ''.close:focus {'',
     ''    color: black;'',
     ''    text-decoration: none;'',
     ''    cursor: pointer;'',
     ''}'',
     [],
     ''.modal-reset-content {'',
     ''    background-color: #fefefe;'',
     ''    margin: 15% auto;'',
     ''    /* 15% from the top and centered */'',
     ''    padding: 20px;'',
     ''    border: 1px solid #888;'',
     ''    width: 80%;'',
     ''    /* Could be more or less, depending on screen size */'',
     ''    max-width: 500px;'',
     ''    /* Maximum width */'',
     ''    border-radius: 10px;'',
     ''    box-shadow: 0 5px 15px rgba(0, 0, 0, 0.3);'',
     ''}'',
     [],
     ''@media (max-width: 600px) {'',
     [],
     ''    /* Adjust breakpoint as needed */'',
     ''    .hide-on-small {'',
     ''        display: none;'',
     ''    }'',
     ''}'',
     [],
     ''/* For modal form */'',
     ''/* Basic Table Styling */'',
     ''table {'',
     ''    width: 100%;'',
     ''    /*border-collapse: collapse;*/'',
     ''    border: none;'',
     ''}'',
     [],
     ''th {'',
     ''    border: 1px solid #ddd;'',
     ''}'',
     [],
     ''td {'',
     ''    padding: 10px;'',
     ''    /* border: 1px solid #ddd; */'',
     ''    text-align: left;'',
     ''}'',
     [],
     ''th {'',
     ''    background: #f4f4f4;'',
     ''}'',
     [],
     ''.label {'',
     ''    text-align: right;'',
     ''}'',
     [],
     ''.modal {'',
     ''    display: none;'',
     ''    position: fixed;'',
     ''    top: 50%;'',
     ''    left: 50%;'',
     ''    transform: translate(-5'']\<close>

lemma length_text_styles_css_1: "length text_styles_css_1 = 2320"
  by (simp add: text_styles_css_1_def TAB_def)

definition text_styles_css_2 :: string where
  \<open>text_styles_css_2 = text_lines [
     ''0%, -50%);'',
     ''    background: white;'',
     ''    padding: 20px;'',
     ''    border-radius: 8px;'',
     ''    box-shadow: 0px 4px 6px rgba(0, 0, 0, 0.1);'',
     ''    width: 90%;'',
     ''    max-width: 400px;'',
     ''    z-index: 1000;'',
     ''}'',
     [],
     ''.modal-overlay {'',
     ''    display: none;'',
     ''    position: fixed;'',
     ''    top: 0;'',
     ''    left: 0;'',
     ''    width: 100%;'',
     ''    height: 100%;'',
     ''    background: rgba(0, 0, 0, 0.5);'',
     ''    z-index: 999;'',
     ''}'',
     [],
     ''.modal label {'',
     ''    font-weight: bold;'',
     ''    display: block;'',
     ''    margin-top: 10px;'',
     ''}'',
     [],
     ''.modal input {'',
     ''    /* width: 100%; */'',
     ''    padding: 8px;'',
     ''    margin-top: 5px;'',
     ''    border: 1px solid #ddd;'',
     ''    border-radius: 4px;'',
     ''}'',
     [],
     ''.modal button {'',
     ''    margin-top: 15px;'',
     ''    padding: 10px;'',
     ''    border: none;'',
     ''    background: #007BFF;'',
     ''    color: white;'',
     ''    cursor: pointer;'',
     ''    width: 100%;'',
     ''}'',
     [],
     ''.ws-div {'',
     ''    font-family: monospace;'',
     ''    font-size: 1.1em;'',
     ''    white-space: pre-wrap;'',
     ''    /* Preserves whitespace and wraps lines */'',
     ''    padding: 10px;'',
     ''    border: 1px solid #ccc;'',
     ''    height: 200px;'',
     ''    overflow-y: scroll;'',
     ''}'',
     [],
     ''/* Small screen: Make rows clickable */'',
     ''@media (max-width: 600px) {'',
     ''    td {'',
     ''        cursor: pointer;'',
     ''    }'',
     ''}'',
     [],
     ''.show-on-initial-config {'',
     ''    display: none;'',
     ''}'',
     [],
     ''.hide-on-initial-config {'',
     ''    display: block;'',
     ''}'',
     [],
     ''/* Chrome, Safari, Edge, Opera */'',
     ''input::-webkit-outer-spin-button,'',
     ''input::-webkit-inner-spin-button {'',
     ''  -webkit-appearance: none;'',
     ''  margin: 0;'',
     ''}'',
     [],
     ''/* Firefox */'',
     ''input[type=number] {'',
     ''  -moz-appearance: textfield;'',
     ''}'',
     [],
     ''.slider {'',
     ''    touch-action: pan-y pinch-zoom;  /* Allow vertical scroll, block horizontal browser handling */'',
     ''    /* OR use 'none' if the slider is full-screen and you handle all scrolling */'',
     ''}'',
     [],
     ''/* If your slider contains scrollable areas, add this to those containers */'',
     ''.scroll-container {'',
     ''    touch-action: pan-y;  /* Re-enable vertical scrolling inside nested containers */'',
     ''    overflow-y: auto;'',
     ''    -webkit-overflow-scrolling: touch;'',
     ''}'']\<close>

lemma length_text_styles_css_2: "length text_styles_css_2 = 1823"
  by (simp add: text_styles_css_2_def TAB_def)

definition header_styles_css :: string where
  "header_styles_css = ''HTTP/1.0 200 OK'' @ CRLF @
     ''Server: lwIP/2.2.1d (http://savannah.nongnu.org/projects/lwip)'' @ CRLF @
     ''Content-Length: 4143'' @ CRLF @
     ''Content-Type: text/css'' @ CRLF @ CRLF"

definition data__styles_css :: bytes where
  "data__styles_css = bytes_of (''/styles.css'') @ [0] @ bytes_of (header_styles_css @ text_styles_css_1 @ text_styles_css_2)"

end
