(* ===== verification/Rom_Fs.thy ===== *)
theory Rom_Fs
  imports Fsdata
begin

text \<open>
  \<^verbatim>\<open>src/httpserver/fs.cpp\<close> and \<^verbatim>\<open>src/httpserver/fs.h\<close>: the read-only file system from which the web server
  takes its pages. The linked list \<open>FS_ROOT\<close> is a list in the order of the \<open>next\<close> pointers; the data
  pointer of an open file is the bytes it points to. The preprocessor options and the functions an
  application supplies for its own files are a record.
\<close>

section \<open>Data\<close>

definition FS_READ_EOF :: int where "FS_READ_EOF = - 1"
definition FS_READ_DELAYED :: int where "FS_READ_DELAYED = - 2"

record fsdata_chksum =
  ck_offset :: u32
  ck_chksum :: u16
  ck_len :: u16

record fsdata_file =
  fd_name :: bytes
  fd_data :: bytes
  fd_len :: int
  fd_flags :: u8
  fd_chksum_count :: u16
  fd_chksum :: "fsdata_chksum list"

text \<open>\<open>'s\<close> is the application's state of an open file.\<close>

record 's fs_file =
  f_data :: bytes
  f_len :: int
  f_index :: int
  f_pextension :: "'s option"
  f_chksum :: "fsdata_chksum list"
  f_chksum_count :: u16
  f_flags :: u8
  f_state :: "'s option"

record 's fs_cfg =
  LWIP_HTTPD_CUSTOM_FILES :: bool
  LWIP_HTTPD_FILE_EXTENSION :: bool
  LWIP_HTTPD_FILE_STATE :: bool
  HTTPD_PRECALCULATED_CHECKSUM :: bool
  fs_open_custom :: "'s fs_file \<Rightarrow> bytes \<Rightarrow> bool \<times> 's fs_file"
  fs_close_custom :: "'s fs_file \<Rightarrow> 's fs_file"
  fs_read_custom :: "'s fs_file \<Rightarrow> bytes \<Rightarrow> int \<Rightarrow> (int \<times> bytes \<times> 's fs_file) option"
  fs_canread_custom :: "'s fs_file \<Rightarrow> bool"
  fs_wait_read_custom :: "'s fs_file \<Rightarrow> bool"
  fs_state_init :: "'s fs_file \<Rightarrow> bytes \<Rightarrow> 's option"
  fs_state_free :: "'s fs_file \<Rightarrow> 's option \<Rightarrow> 's fs_file"

datatype err_t = ERR_OK | ERR_MEM | ERR_INPROGRESS | ERR_VAL | ERR_USE | ERR_ARG | ERR_OTHER

section \<open>The code\<close>

text \<open>
  \<^verbatim>\<open>strcmp\<close> against zero, for a C string (given without its NUL) and the array it is compared with:
  \<open>None\<close> when the comparison would run past the array.
\<close>

fun str_eq :: "bytes \<Rightarrow> bytes \<Rightarrow> bool option" where
  "str_eq as [] = None"
| "str_eq [] (b # bs) = Some (b = 0)"
| "str_eq (a # as) (b # bs) = (if a = b then str_eq as bs else Some False)"

definition open_entry :: "'s fs_cfg \<Rightarrow> 's fs_file \<Rightarrow> bytes \<Rightarrow> fsdata_file \<Rightarrow> 's fs_file" where
  "open_entry cfg file name f = (
     let file = file\<lparr>f_data := fd_data f, f_len := fd_len f, f_index := fd_len f, f_flags := fd_flags f\<rparr>;
         file = (if HTTPD_PRECALCULATED_CHECKSUM cfg
                 then file\<lparr>f_chksum_count := fd_chksum_count f, f_chksum := fd_chksum f\<rparr> else file);
         file = (if LWIP_HTTPD_FILE_EXTENSION cfg then file\<lparr>f_pextension := None\<rparr> else file)
     in if LWIP_HTTPD_FILE_STATE cfg then file\<lparr>f_state := fs_state_init cfg file name\<rparr> else file)"

fun open_loop :: "'s fs_cfg \<Rightarrow> fsdata_file list \<Rightarrow> 's fs_file \<Rightarrow> bytes \<Rightarrow> (err_t \<times> 's fs_file) option" where
  "open_loop cfg [] file name = Some (ERR_VAL, file)"
| "open_loop cfg (f # fs) file name = do {
     eq \<leftarrow> str_eq name (fd_name f);
     if eq then Some (ERR_OK, open_entry cfg file name f) else open_loop cfg fs file name }"

text \<open>The arguments are pointers, \<open>None\<close> for a null pointer.\<close>

definition fs_open ::
  "'s fs_cfg \<Rightarrow> fsdata_file list \<Rightarrow> 's fs_file option \<Rightarrow> bytes option \<Rightarrow> (err_t \<times> 's fs_file option) option" where
  "fs_open cfg FS_ROOT file_ptr name_ptr =
     (case (file_ptr, name_ptr) of
        (Some file, Some name) \<Rightarrow>
          (let (custom, file1) = (if LWIP_HTTPD_CUSTOM_FILES cfg then fs_open_custom cfg file name else (False, file))
           in if custom then Some (ERR_OK, Some (file1\<lparr>f_flags := f_flags file1 OR FS_FILE_FLAGS_CUSTOM\<rparr>))
              else map_option (\<lambda>(err, f). (err, Some f)) (open_loop cfg FS_ROOT file1 name))
      | _ \<Rightarrow> Some (ERR_ARG, file_ptr))"

definition fs_close :: "'s fs_cfg \<Rightarrow> 's fs_file \<Rightarrow> 's fs_file" where
  "fs_close cfg file = (
     let file = (if LWIP_HTTPD_CUSTOM_FILES cfg \<and> f_flags file AND FS_FILE_FLAGS_CUSTOM \<noteq> 0
                 then fs_close_custom cfg file else file)
     in if LWIP_HTTPD_FILE_STATE cfg then fs_state_free cfg file (f_state file) else file)"

text \<open>
  \<^verbatim>\<open>fs_read\<close>: the return value, the caller's buffer and the file. The number of bytes is converted to an
  unsigned size for the copy, so a negative one is a copy of almost the whole address space. The
  asynchronous variant differs in the arguments it passes on to \<^verbatim>\<open>fs_read_async_custom\<close>.
\<close>

definition fs_read :: "'s fs_cfg \<Rightarrow> 's fs_file \<Rightarrow> bytes \<Rightarrow> int \<Rightarrow> (int \<times> bytes \<times> 's fs_file) option" where
  "fs_read cfg file buffer count =
     (if f_index file = f_len file then Some (FS_READ_EOF, buffer, file)
      else if LWIP_HTTPD_CUSTOM_FILES cfg \<and> f_flags file AND FS_FILE_FLAGS_CUSTOM \<noteq> 0
      then fs_read_custom cfg file buffer count
      else do {
        let read = (if f_len file - f_index file > count then count else f_len file - f_index file);
        if read < 0 \<or> f_index file < 0 then None
        else do {
          src \<leftarrow> mem_read (f_data file) (nat (f_index file)) (nat read);
          buffer \<leftarrow> mem_cpy buffer 0 src;
          Some (read, buffer, file\<lparr>f_index := f_index file + read\<rparr>) } })"

text \<open>Zero when the application has registered the callback to wait for the file.\<close>

definition fs_is_file_ready :: "'s fs_cfg \<Rightarrow> 's fs_file option \<Rightarrow> int" where
  "fs_is_file_ready cfg file_ptr =
     (case file_ptr of
        Some file \<Rightarrow> (if LWIP_HTTPD_CUSTOM_FILES cfg \<and> \<not> fs_canread_custom cfg file \<and> fs_wait_read_custom cfg file
                      then 0 else 1)
      | None \<Rightarrow> 1)"

definition fs_bytes_left :: "'s fs_file \<Rightarrow> int" where
  "fs_bytes_left file = f_len file - f_index file"

section \<open>The file list\<close>

definition rom_flags :: u8 where
  "rom_flags = FS_FILE_FLAGS_HEADER_INCLUDED OR FS_FILE_FLAGS_HEADER_PERSISTENT"

text \<open>An entry: the name is the start of the array, the data starts at an offset.\<close>

definition rom_entry :: "bytes \<Rightarrow> nat \<Rightarrow> fsdata_file" where
  "rom_entry arr off = \<lparr>fd_name = arr, fd_data = drop off arr, fd_len = int (length arr) - int off,
     fd_flags = rom_flags, fd_chksum_count = 0, fd_chksum = []\<rparr>"

definition file__404_html :: fsdata_file where "file__404_html = rom_entry data__404_html 12"
definition file__favicon_ico :: "bytes \<Rightarrow> fsdata_file" where "file__favicon_ico arr = rom_entry arr 16"
definition file__index_html :: "bytes \<Rightarrow> fsdata_file" where "file__index_html arr = rom_entry arr 12"
definition file__slider_css :: fsdata_file where "file__slider_css = rom_entry data__slider_css 12"
definition file__slider_js :: fsdata_file where "file__slider_js = rom_entry data__slider_js 12"
definition file__styles_css :: fsdata_file where "file__styles_css = rom_entry data__styles_css 12"

text \<open>The list, for given arrays of the icon and the index page.\<close>

definition FS_ROOT :: "bytes \<Rightarrow> bytes \<Rightarrow> fsdata_file list" where
  "FS_ROOT favicon indexhtml = [file__styles_css, file__slider_js, file__slider_css, file__index_html indexhtml,
     file__favicon_ico favicon, file__404_html]"

definition FS_NUMFILES :: nat where "FS_NUMFILES = 6"

section \<open>Opening and reading\<close>

lemma str_eq_terminated: "0 \<notin> set name \<Longrightarrow> 0 \<notin> set n \<Longrightarrow> str_eq name (n @ 0 # rest) = Some (name = n)"
proof (induction name arbitrary: n)
  case Nil
  then show ?case by (cases n) auto
next
  case (Cons a name)
  then show ?case by (cases n) auto
qed

definition rom_file_ok :: "fsdata_file \<Rightarrow> bool" where
  "rom_file_ok f = (0 \<in> set (fd_name f) \<and> fd_len f = int (length (fd_data f)))"

definition rom_name :: "fsdata_file \<Rightarrow> bytes" where "rom_name f = takeWhile (\<lambda>c. c \<noteq> 0) (fd_name f)"

lemma str_eq_rom:
  assumes "0 \<in> set (fd_name f)" "0 \<notin> set name"
  shows "str_eq name (fd_name f) = Some (rom_name f = name)"
proof -
  obtain n rest where f: "fd_name f = n @ 0 # rest" "0 \<notin> set n" using assms(1) by (metis split_list_first)
  then have "rom_name f = n" by (simp add: rom_name_def takeWhile_nul)
  with f assms(2) show ?thesis by (auto simp: str_eq_terminated)
qed

lemma open_loop_find:
  assumes "\<forall>f \<in> set fs. 0 \<in> set (fd_name f)" "0 \<notin> set name"
  shows "open_loop cfg fs fl name = Some
    (case find (\<lambda>f. rom_name f = name) fs of
       None \<Rightarrow> (ERR_VAL, fl) | Some f \<Rightarrow> (ERR_OK, open_entry cfg fl name f))"
  using assms by (induction fs) (auto simp: str_eq_rom)

lemma open_entry_fields [simp]:
  "f_data (open_entry cfg fl name f) = fd_data f" "f_len (open_entry cfg fl name f) = fd_len f"
  "f_index (open_entry cfg fl name f) = fd_len f" "f_flags (open_entry cfg fl name f) = fd_flags f"
  by (simp_all add: open_entry_def Let_def)

text \<open>Reading with a sequence of buffers until the end of the fl is reported: the bytes read and whether
  the end was seen.\<close>

fun fs_read_all :: "'s fs_cfg \<Rightarrow> 's fs_file \<Rightarrow> nat list \<Rightarrow> (bytes \<times> bool) option" where
  "fs_read_all cfg fl [] = Some ([], False)"
| "fs_read_all cfg fl (n # ns) = do {
     (r, buffer, fl) \<leftarrow> fs_read cfg fl (replicate n 0) (int n);
     if r = FS_READ_EOF then Some ([], True)
     else do { (bs, eof) \<leftarrow> fs_read_all cfg fl ns; Some (take (nat r) buffer @ bs, eof) } }"

definition rom_open :: "'s fs_file \<Rightarrow> bool" where
  "rom_open fl = (f_len fl = int (length (f_data fl)) \<and> 0 \<le> f_index fl \<and> f_index fl \<le> f_len fl)"

lemma fs_read_step:
  fixes cfg :: "'s fs_cfg" and fl :: "'s fs_file"
  assumes "rom_open fl" "f_index fl < f_len fl" "f_flags fl AND FS_FILE_FLAGS_CUSTOM = 0" 
  shows "\<exists>k buf. k = min n (nat (f_len fl - f_index fl)) \<and>
    fs_read cfg fl (replicate n 0) (int n) = Some (int k, buf, fl\<lparr>f_index := f_index fl + int k\<rparr>) \<and>
    take k buf = take n (drop (nat (f_index fl)) (f_data fl))"
proof -
  obtain i where i: "f_index fl = int i" using assms(1) nonneg_int_cases unfolding rom_open_def by blast
  define k where "k = min n (length (f_data fl) - i)"
  have len: "f_len fl = int (length (f_data fl))" using assms(1) by (simp add: rom_open_def)
  have il: "i < length (f_data fl)" using assms(2) i len by simp
  have r: "(if f_len fl - f_index fl > int n then int n else f_len fl - f_index fl) = int k"
    using i len il by (auto simp: k_def)
  have rd: "mem_read (f_data fl) i k = Some (take k (drop i (f_data fl)))"
    using il by (simp add: mem_read_def k_def)
  obtain buf where buf: "mem_cpy (replicate n 0) 0 (take k (drop i (f_data fl))) = Some buf"
    using il by (simp add: mem_cpy_def k_def)
  have "length (take k (drop i (f_data fl))) = k" using il by (simp add: k_def)
  with buf have tk: "take k buf = take k (drop i (f_data fl))"
    using mem_cpy_read [OF buf] by (simp add: mem_read_def split: if_splits)
  have tn: "take k (drop i (f_data fl)) = take n (drop i (f_data fl))"
    by (simp add: k_def min_def)
  have "fs_read cfg fl (replicate n 0) (int n) = Some (int k, buf, fl\<lparr>f_index := f_index fl + int k\<rparr>)"
    unfolding fs_read_def Let_def r using assms(2,3) i rd buf by simp
  then show ?thesis using tk tn i len by (intro exI [of _ k] exI [of _ buf]) (simp add: k_def nat_diff_distrib)
qed

text \<open>Reading a file of the read-only file system in pieces of any sizes returns the bytes from the current
  position on, in order and without gaps, never touches memory outside the file or the buffer, reports the end
  only when everything has been returned, and does report it when the pieces are not empty and enough.\<close>

theorem fs_read_concatenates:
  fixes cfg :: "'s fs_cfg" and fl :: "'s fs_file"
  assumes "rom_open fl" "f_flags fl AND FS_FILE_FLAGS_CUSTOM = 0" 
  shows "\<exists>eof. fs_read_all cfg fl ns = Some (take (sum_list ns) (drop (nat (f_index fl)) (f_data fl)), eof) \<and>
     (eof \<longrightarrow> int (sum_list ns) \<ge> fs_bytes_left fl) \<and>
     (0 \<notin> set ns \<and> f_len fl - f_index fl < int (length ns) \<longrightarrow> eof)"
  using assms
proof (induction ns arbitrary: fl)
  case Nil
  then show ?case by (auto simp: rom_open_def fs_bytes_left_def)
next
  case (Cons n ns)
  show ?case
  proof (cases "f_index fl = f_len fl")
    case True
    then have "fs_read cfg fl (replicate n 0) (int n) = Some (FS_READ_EOF, replicate n 0, fl)"
      by (simp add: fs_read_def)
    with True Cons.prems show ?thesis by (auto simp: rom_open_def fs_bytes_left_def)
  next
    case False
    with Cons.prems have lt: "f_index fl < f_len fl" by (simp add: rom_open_def)
    obtain k buf where k: "k = min n (nat (f_len fl - f_index fl))"
      "fs_read cfg fl (replicate n 0) (int n) = Some (int k, buf, fl\<lparr>f_index := f_index fl + int k\<rparr>)"
      "take k buf = take n (drop (nat (f_index fl)) (f_data fl))"
      using fs_read_step [OF Cons.prems(1) lt Cons.prems(2)] by blast
    let ?f = "fl\<lparr>f_index := f_index fl + int k\<rparr>"
    have ok: "rom_open ?f" using Cons.prems(1) k(1) lt by (auto simp: rom_open_def)
    obtain eof where eof: "fs_read_all cfg ?f ns = Some (take (sum_list ns) (drop (nat (f_index ?f)) (f_data ?f)), eof)"
      "eof \<longrightarrow> int (sum_list ns) \<ge> fs_bytes_left ?f"
      "0 \<notin> set ns \<and> f_len ?f - f_index ?f < int (length ns) \<longrightarrow> eof"
      using Cons.IH [OF ok] Cons.prems(2) by auto
    obtain i where i: "f_index fl = int i" using Cons.prems(1) nonneg_int_cases unfolding rom_open_def by blast
    have len: "f_len fl = int (length (f_data fl))" using Cons.prems(1) by (simp add: rom_open_def)
    have kk: "k = min n (length (f_data fl) - i)" using k(1) i len by (simp add: nat_diff_distrib)
    have "int k \<noteq> FS_READ_EOF" by (simp add: FS_READ_EOF_def)
    then have run: "fs_read_all cfg fl (n # ns) =
        Some (take n (drop i (f_data fl)) @ take (sum_list ns) (drop (i + k) (f_data fl)), eof)"
      using k(2,3) eof(1) i by (simp add: nat_add_distrib)
    have "take n (drop i (f_data fl)) @ take (sum_list ns) (drop (i + k) (f_data fl))
        = take (n + sum_list ns) (drop i (f_data fl))"
      using kk by (cases "n \<le> length (f_data fl) - i") (simp_all add: take_add min_def add.commute)
    moreover have "eof \<longrightarrow> int (sum_list (n # ns)) \<ge> fs_bytes_left fl"
      using eof(2) kk by (auto simp: fs_bytes_left_def)
    moreover have "0 \<notin> set (n # ns) \<and> f_len fl - f_index fl < int (length (n # ns)) \<longrightarrow> eof"
      using eof(3) kk i len lt by (auto simp: min_def split: if_splits)
    ultimately show ?thesis using run i by auto
  qed
qed

text \<open>The options as the firmware is built, with functions that are then not called.\<close>

definition default_cfg :: "nat fs_cfg" where
  "default_cfg = \<lparr>LWIP_HTTPD_CUSTOM_FILES = False, LWIP_HTTPD_FILE_EXTENSION = False, LWIP_HTTPD_FILE_STATE = False,
     HTTPD_PRECALCULATED_CHECKSUM = False, fs_open_custom = (\<lambda>h _. (False, h)), fs_close_custom = (\<lambda>h. h),
     fs_read_custom = (\<lambda>_ _ _. None), fs_canread_custom = (\<lambda>_. True), fs_wait_read_custom = (\<lambda>_. False),
     fs_state_init = (\<lambda>_ _. None), fs_state_free = (\<lambda>h _. h)\<rparr>"

theorem fs_read_concatenates_witness:
  "\<exists>h :: nat fs_file. f_len h = 5 \<and> f_index h = 1 \<and>
     (\<exists>eof. fs_read_all (default_cfg) h [2, 3, 1, 1, 1] = Some ([2, 3, 4, 5], eof) \<and> eof)"
proof -
  let ?h = "\<lparr>f_data = [1, 2, 3, 4, 5], f_len = 5, f_index = 1, f_pextension = None, f_chksum = [], f_chksum_count = 0,
    f_flags = 3, f_state = None\<rparr> :: nat fs_file"
  have "rom_open ?h" "f_flags ?h AND FS_FILE_FLAGS_CUSTOM = 0"
    by (simp_all add: rom_open_def FS_FILE_FLAGS_CUSTOM_def)
  from fs_read_concatenates [OF this, of _ "[2, 3, 1, 1, 1]"]
  show ?thesis by (intro exI [of _ ?h]) auto
qed

text \<open>Opening a file of the list by its name succeeds exactly when some entry has that name, gives the first such
  entry's data, length and flags, with nothing left to read by \<^verbatim>\<open>fs_read\<close> (the server sends the data directly), and otherwise
  reports \<open>ERR_VAL\<close> and leaves the file as it was; no comparison reads past a name.\<close>

theorem fs_open_finds:
  fixes cfg :: "'s fs_cfg"
  assumes "\<not> LWIP_HTTPD_CUSTOM_FILES cfg" "\<forall>f \<in> set root. 0 \<in> set (fd_name f)" "0 \<notin> set name"
  shows "\<exists>err h'. fs_open cfg root (Some h) (Some name) = Some (err, Some h') \<and>
    (err = ERR_OK \<longleftrightarrow> name \<in> rom_name ` set root) \<and>
    (err = ERR_OK \<longrightarrow> (\<exists>pre f post. root = pre @ f # post \<and> rom_name f = name \<and> name \<notin> rom_name ` set pre \<and>
        f_data h' = fd_data f \<and> f_len h' = fd_len f \<and> f_flags h' = fd_flags f \<and> fs_bytes_left h' = 0 \<and>
        fs_read cfg h' buffer count = Some (FS_READ_EOF, buffer, h'))) \<and>
    (err \<noteq> ERR_OK \<longrightarrow> err = ERR_VAL \<and> h' = h)"
proof (cases "find (\<lambda>f. rom_name f = name) root")
  case None
  then have "name \<notin> rom_name ` set root" by (auto simp: find_None_iff)
  with None assms show ?thesis by (simp add: fs_open_def open_loop_find)
next
  case (Some f)
  then obtain i where i: "i < length root" "rom_name (root ! i) = name" "f = root ! i"
    "\<forall>j < i. rom_name (root ! j) \<noteq> name" by (auto simp: find_Some_iff)
  then have "root = take i root @ f # drop (Suc i) root" by (simp add: id_take_nth_drop)
  moreover have "name \<notin> rom_name ` set (take i root)"
  proof
    assume "name \<in> rom_name ` set (take i root)"
    then obtain j where "j < i" "rom_name (root ! j) = name" by (auto simp: in_set_conv_nth)
    with i(4) show False by blast
  qed
  moreover have "name \<in> rom_name ` set root" using i by auto
  ultimately show ?thesis using Some assms i
    by (simp add: fs_open_def open_loop_find fs_bytes_left_def fs_read_def) blast
qed

lemma rom_names:
  "rom_name file__404_html = bytes_of ''/404.html''" "rom_name file__slider_css = bytes_of ''/slider.css''"
  "rom_name file__slider_js = bytes_of ''/slider.js''" "rom_name file__styles_css = bytes_of ''/styles.css''"
  by (simp_all add: rom_name_def file__404_html_def file__slider_css_def file__slider_js_def file__styles_css_def
      rom_entry_def data__404_html_def data__slider_css_def data__slider_js_def data__styles_css_def bytes_of_def)

theorem fs_open_finds_witness:
  "\<exists>h'. fs_open default_cfg [file__styles_css, file__slider_css, file__404_html]
      (Some \<lparr>f_data = [], f_len = 0, f_index = 0, f_pextension = None, f_chksum = [], f_chksum_count = 0,
         f_flags = 0, f_state = None\<rparr>) (Some (bytes_of ''/slider.css'')) = Some (ERR_OK, Some h')"
  (is "\<exists>h'. fs_open _ ?root (Some ?h) (Some ?name) = _")
proof -
  have "\<not> LWIP_HTTPD_CUSTOM_FILES default_cfg" by (simp add: default_cfg_def)
  moreover have "\<forall>f \<in> set ?root. 0 \<in> set (fd_name f)"
    by (simp add: file__404_html_def file__slider_css_def file__styles_css_def rom_entry_def data__404_html_def
        data__slider_css_def data__styles_css_def)
  moreover have "0 \<notin> set ?name" by (simp add: bytes_of_def)
  moreover have "?name \<in> rom_name ` set ?root" by (simp add: rom_names)
  ultimately show ?thesis using fs_open_finds [of default_cfg ?root ?name ?h] by metis
qed

section \<open>The arrays are the generator's\<close>

text \<open>What the generator stores for a file: name and padding, header segments, contents.\<close>

definition rom_image :: "mk_env \<Rightarrow> string \<Rightarrow> string \<Rightarrow> mk_error + bytes" where
  "rom_image env filename body =
     andThen (header_segments env (default_opts env) filename (length body) True False) (\<lambda>segs.
       Inr (bytes_of (CHR 0x2F # filename) @ [0] @ replicate (pad_count (length filename + 2)) 0 @
            bytes_of (concat (map (fst \<circ> snd) segs) @ body)))"
lemma default_opts_sel:
  "useHttp11 (default_opts env) = False" "includeLastModified (default_opts env) = False"
  "deflateNonSsiFiles (default_opts env) = False"
  "serverID (default_opts env) = ''Server: '' @ HTTPD_SERVER_AGENT (LWIP_VERSION_STRING env) @ CRLF"
  by (simp_all add: default_opts_def)

lemma header_segments_default:
  assumes "LWIP_VERSION_STRING env = ''2.2.1d''" "\<forall>n. lwip_itoa env n = dec n"
  shows "\<exists>segs. header_segments env (default_opts env) filename n True False = Inr segs \<and>
     concat (map (fst \<circ> snd) segs) =
       g_psHTTPHeaderStrings ''2.2.1d'' (response_type (default_opts env) filename) @
       ''Server: lwIP/2.2.1d (http://savannah.nongnu.org/projects/lwip)'' @ CRLF @
       ''Content-Length: '' @ dec n @ CRLF @ file_type filename"
  using assms by (simp add: header_segments_def Let_def default_opts_sel put_content_length_def HTTPD_SERVER_AGENT_def split_def)
lemma rom_image_eq:
  assumes "LWIP_VERSION_STRING env = ''2.2.1d''" "\<forall>n. lwip_itoa env n = dec n"
  shows "rom_image env filename body = Inr (bytes_of (CHR 0x2F # filename) @ [0] @
     replicate (pad_count (length filename + 2)) 0 @ bytes_of
      ((g_psHTTPHeaderStrings ''2.2.1d'' (response_type (default_opts env) filename) @
        ''Server: lwIP/2.2.1d (http://savannah.nongnu.org/projects/lwip)'' @ CRLF @
        ''Content-Length: '' @ dec (length body) @ CRLF @ file_type filename) @ body))"
proof -
  obtain segs where "header_segments env (default_opts env) filename (length body) True False = Inr segs"
    "concat (map (fst \<circ> snd) segs) = 
       g_psHTTPHeaderStrings ''2.2.1d'' (response_type (default_opts env) filename) @
       ''Server: lwIP/2.2.1d (http://savannah.nongnu.org/projects/lwip)'' @ CRLF @
       ''Content-Length: '' @ dec (length body) @ CRLF @ file_type filename"
    using header_segments_default [OF assms] by blast
  then show ?thesis by (simp only: rom_image_def andThen_def sum.case)
qed

lemma rom_file_types:
  "file_type ''404.html'' = ''Content-Type: text/html'' @ CRLF @ CRLF"
  "file_type ''slider.css'' = ''Content-Type: text/css'' @ CRLF @ CRLF"
  "file_type ''styles.css'' = ''Content-Type: text/css'' @ CRLF @ CRLF"
  "file_type ''slider.js'' = ''Content-Type: application/javascript'' @ CRLF @ CRLF"
  by code_simp+

lemma rom_response_types:
  "g_psHTTPHeaderStrings v (response_type (default_opts env) ''404.html'') = ''HTTP/1.0 404 File not found'' @ CRLF"
  "g_psHTTPHeaderStrings v (response_type (default_opts env) ''slider.css'') = ''HTTP/1.0 200 OK'' @ CRLF"
  "g_psHTTPHeaderStrings v (response_type (default_opts env) ''styles.css'') = ''HTTP/1.0 200 OK'' @ CRLF"
  "g_psHTTPHeaderStrings v (response_type (default_opts env) ''slider.js'') = ''HTTP/1.0 200 OK'' @ CRLF"
  by (simp_all add: response_type_def default_opts_def)

lemma pad_counts: "pad_count 10 = 2" "pad_count 12 = 0" "pad_count 11 = 1"
  by (simp_all add: pad_count_def PAYLOAD_ALIGNMENT_def)

lemma name_lengths:
  "length ''404.html'' + 2 = 10" "length ''slider.css'' + 2 = 12" "length ''styles.css'' + 2 = 12"
  "length ''slider.js'' + 2 = 11"
  by simp_all

lemma replicates: "replicate 2 x = [x, x]" "replicate 0 x = []" "replicate 1 x = [x]"
  by (simp_all add: numeral_2_eq_2)

lemmas rom_pads = name_lengths pad_counts replicates

lemma rom_decs: "dec 544 = ''544''" "dec 1130 = ''1130''" "dec 5190 = ''5190''" "dec 4143 = ''4143''"
  by (simp_all add: dec.simps hex_digit_def)

text \<open>The byte arrays the firmware was built with are exactly what the generator makes of the files,
  with its default options: the name with its padding, the stored response header with the right
  status and content type, and the file. In particular the \<open>Content-Length\<close> in each stored header is the number
  of bytes that follow it.\<close>

theorem rom_arrays_generated:
  assumes "LWIP_VERSION_STRING env = ''2.2.1d''" "\<forall>n. lwip_itoa env n = dec n"
  shows "rom_image env ''404.html'' text_404_html = Inr data__404_html \<and>
    rom_image env ''slider.css'' text_slider_css = Inr data__slider_css \<and>
    rom_image env ''slider.js'' (text_slider_js_1 @ text_slider_js_2 @ text_slider_js_3) = Inr data__slider_js \<and>
    rom_image env ''styles.css'' (text_styles_css_1 @ text_styles_css_2) = Inr data__styles_css"
proof -
  have "length (text_slider_js_1 @ text_slider_js_2 @ text_slider_js_3) = 5190"
    "length (text_styles_css_1 @ text_styles_css_2) = 4143"
    by (simp_all add: length_text_slider_js_1 length_text_slider_js_2 length_text_slider_js_3
        length_text_styles_css_1 length_text_styles_css_2)
  note eqs = this rom_image_eq [OF assms] rom_file_types rom_response_types rom_decs rom_pads
    length_text_404_html length_text_slider_css append_assoc append_Nil append_Cons
  show ?thesis
    by (intro conjI) (simp_all only: eqs data__404_html_def header_404_html_def data__slider_css_def
        header_slider_css_def data__slider_js_def header_slider_js_def data__styles_css_def header_styles_css_def)
qed

definition rom_env :: mk_env where
  "rom_env = \<lparr>LWIP_VERSION_STRING = ''2.2.1d'', MAKEFS_SUPPORT_DEFLATE = False, mk_TCP_MSS = 1460, lwip_itoa = dec,
     mk_inet_chksum = (\<lambda>_. 0), mk_deflate = (\<lambda>_ _. None), mk_inflate = (\<lambda>_. None), last_modified = (\<lambda>_. None)\<rparr>"

theorem rom_arrays_generated_witness:
  "rom_image rom_env ''404.html'' text_404_html = Inr data__404_html \<and> dec 544 = ''544''"
  using rom_arrays_generated [of rom_env] rom_decs by (simp add: rom_env_def)

end
