(* ===== verification/MQTT_Packet.thy ===== *)
theory MQTT_Packet
  imports Prelude "HOL-Library.Signed_Division"
begin

text \<open>
  The packet codec of the MQTT library, \<^verbatim>\<open>src/paho.mqtt.embedded-c/MQTTPacket/src\<close>: remaining lengths,
  integers and strings (\<^verbatim>\<open>MQTTPacket.cpp\<close>), the serialisers and deserialisers of the client and of the server
  side, and the blocking and non-blocking packet readers.

  A writer is a function on the output buffer and the position of \<^verbatim>\<open>*pptr\<close> in it, a reader takes the
  input buffer and a position and returns the advanced position; positions are only compared, never
  dereferenced, when they are past the end. \<^verbatim>\<open>int\<close> is \<open>int\<close>, \<^verbatim>\<open>char\<close> is unsigned as on the target, and \<open>None\<close>
  is an access outside of a buffer. Pointers that a deserialiser returns into its input are the bytes
  pointed to, for strings, and the position, for the payload of a message.
\<close>

section \<open>Constants\<close>

definition MQTTPACKET_BUFFER_TOO_SHORT :: int where "MQTTPACKET_BUFFER_TOO_SHORT = - 2"
definition MQTTPACKET_READ_ERROR :: int where "MQTTPACKET_READ_ERROR = - 1"
definition MAX_NO_OF_REMAINING_LENGTH_BYTES :: int where "MAX_NO_OF_REMAINING_LENGTH_BYTES = 4"

definition CONNECT :: u8 where "CONNECT = 1"
definition CONNACK :: u8 where "CONNACK = 2"
definition PUBLISH :: u8 where "PUBLISH = 3"
definition PUBACK :: u8 where "PUBACK = 4"
definition PUBREC :: u8 where "PUBREC = 5"
definition PUBREL :: u8 where "PUBREL = 6"
definition PUBCOMP :: u8 where "PUBCOMP = 7"
definition SUBSCRIBE :: u8 where "SUBSCRIBE = 8"
definition SUBACK :: u8 where "SUBACK = 9"
definition UNSUBSCRIBE :: u8 where "UNSUBSCRIBE = 10"
definition UNSUBACK :: u8 where "UNSUBACK = 11"
definition PINGREQ :: u8 where "PINGREQ = 12"
definition PINGRESP :: u8 where "PINGRESP = 13"
definition DISCONNECT :: u8 where "DISCONNECT = 14"

lemmas msg_types = CONNECT_def CONNACK_def PUBLISH_def PUBACK_def PUBREC_def PUBREL_def PUBCOMP_def
  SUBSCRIBE_def SUBACK_def UNSUBSCRIBE_def UNSUBACK_def PINGREQ_def PINGRESP_def DISCONNECT_def

section \<open>Data\<close>

text \<open>The first byte of a packet: its bit fields and the byte they make up.\<close>

record MQTTHeader =
  h_type :: u8
  h_dup :: u8
  h_qos :: u8
  h_retain :: u8

definition header_byte :: "MQTTHeader \<Rightarrow> u8" where
  "header_byte h = push_bit 4 (h_type h AND 0xF) OR push_bit 3 (h_dup h AND 1) OR
     push_bit 1 (h_qos h AND 3) OR (h_retain h AND 1)"

definition header_of :: "u8 \<Rightarrow> MQTTHeader" where
  "header_of b = \<lparr>h_type = drop_bit 4 b, h_dup = drop_bit 3 b AND 1, h_qos = drop_bit 1 b AND 3, h_retain = b AND 1\<rparr>"

text \<open>A string is a C string (without its NUL) or a length with data; \<open>None\<close> is a null pointer.\<close>

record MQTTString =
  cstring :: "bytes option"
  ls_len :: int
  ls_data :: "bytes option"

definition MQTTString_initializer :: MQTTString where
  "MQTTString_initializer = \<lparr>cstring = None, ls_len = 0, ls_data = None\<rparr>"

record MQTTPacket_willOptions =
  topicName :: MQTTString
  will_message :: MQTTString
  will_retained :: u8
  will_qos :: u8

record MQTTPacket_connectData =
  MQTTVersion :: u8
  clientID :: MQTTString
  keepAliveInterval :: u16
  cleansession :: u8
  willFlag :: u8
  will :: MQTTPacket_willOptions
  username :: MQTTString
  password :: MQTTString

definition MQTTPacket_willOptions_initializer :: MQTTPacket_willOptions where
  "MQTTPacket_willOptions_initializer = \<lparr>topicName = MQTTString_initializer, will_message = MQTTString_initializer,
     will_retained = 0, will_qos = 0\<rparr>"

definition MQTTPacket_connectData_initializer :: MQTTPacket_connectData where
  "MQTTPacket_connectData_initializer = \<lparr>MQTTVersion = 4, clientID = MQTTString_initializer, keepAliveInterval = 60,
     cleansession = 1, willFlag = 0, will = MQTTPacket_willOptions_initializer, username = MQTTString_initializer,
     password = MQTTString_initializer\<rparr>"

text \<open>The flags byte of a connect packet, from its bit fields.\<close>

record MQTTConnectFlags =
  f_cleansession :: u8
  f_will :: u8
  f_willQoS :: u8
  f_willRetain :: u8
  f_password :: u8
  f_username :: u8

definition connect_flags_byte :: "MQTTConnectFlags \<Rightarrow> u8" where
  "connect_flags_byte f = push_bit 1 (f_cleansession f AND 1) OR push_bit 2 (f_will f AND 1) OR
     push_bit 3 (f_willQoS f AND 3) OR push_bit 5 (f_willRetain f AND 1) OR push_bit 6 (f_password f AND 1) OR
     push_bit 7 (f_username f AND 1)"

definition connect_flags_of :: "u8 \<Rightarrow> MQTTConnectFlags" where
  "connect_flags_of b = \<lparr>f_cleansession = drop_bit 1 b AND 1, f_will = drop_bit 2 b AND 1, f_willQoS = drop_bit 3 b AND 3,
     f_willRetain = drop_bit 5 b AND 1, f_password = drop_bit 6 b AND 1, f_username = drop_bit 7 b AND 1\<rparr>"

section \<open>The code: remaining length\<close>

text \<open>The bytes \<^verbatim>\<open>MQTTPacket_encode\<close> writes; \<^verbatim>\<open>%\<close> and \<^verbatim>\<open>/\<close> truncate towards zero.\<close>

function encode_digits :: "int \<Rightarrow> bytes" where
  "encode_digits n = (
     let d = (of_int (n smod 128) :: u8);
         n = n sdiv 128
     in if n > 0 then (d OR 0x80) # encode_digits n else [d])"
  by pat_completeness auto
termination
  by (relation "measure nat") (auto simp: signed_divide_int_def sgn_if split: if_splits)

declare encode_digits.simps [simp del]

type_synonym out = "bytes \<times> nat"

definition MQTTPacket_encode :: "int \<Rightarrow> out \<Rightarrow> out option" where
  "MQTTPacket_encode n = (\<lambda>(buf, ptr). do {
     buf \<leftarrow> mem_cpy buf ptr (encode_digits n);
     Some (buf, ptr + length (encode_digits n)) })"

text \<open>
  \<^verbatim>\<open>MQTTPacket_decode\<close>, with the state of the character source: the source gives its return value and a
  character. The result is \<^verbatim>\<open>len\<close>, \<^verbatim>\<open>*value\<close> and the source's state.
\<close>

function decode_loop :: "('s \<Rightarrow> (int \<times> u8 \<times> 's) option) \<Rightarrow> int \<Rightarrow> int \<Rightarrow> int \<Rightarrow> 's \<Rightarrow> (int \<times> int \<times> 's) option" where
  "decode_loop getcharfn len multiplier val s = (
     let len = len + 1 in
     if len > MAX_NO_OF_REMAINING_LENGTH_BYTES then Some (len, val, s)
     else do {
       (rc, c, s) \<leftarrow> getcharfn s;
       if rc \<noteq> 1 then Some (len, val, s)
       else do {
         let val = val + uint (c AND 127) * multiplier;
         if c AND 128 \<noteq> 0 then decode_loop getcharfn len (multiplier * 128) val s
         else Some (len, val, s) } })"
  by pat_completeness auto
termination
  by (relation "measure (\<lambda>(_, len, _). nat (5 - len))") (auto simp: MAX_NO_OF_REMAINING_LENGTH_BYTES_def)

declare decode_loop.simps [simp del]

definition MQTTPacket_decode :: "('s \<Rightarrow> (int \<times> u8 \<times> 's) option) \<Rightarrow> 's \<Rightarrow> (int \<times> int \<times> 's) option" where
  "MQTTPacket_decode getcharfn = decode_loop getcharfn 0 1 0"

definition MQTTPacket_len :: "int \<Rightarrow> int" where
  "MQTTPacket_len rem_len = (
     let rem_len = rem_len + 1 in
     if rem_len < 128 then rem_len + 1
     else if rem_len < 16384 then rem_len + 2
     else if rem_len < 2097151 then rem_len + 3
     else rem_len + 4)"

definition bufchar :: "bytes \<Rightarrow> nat \<Rightarrow> (int \<times> u8 \<times> nat) option" where
  "bufchar buf bufptr = do { c \<leftarrow> mem_get buf bufptr; Some (1, c, bufptr + 1) }"

text \<open>The number of bytes it reports and the value.\<close>

definition MQTTPacket_decodeBuf :: "bytes \<Rightarrow> nat \<Rightarrow> (int \<times> int) option" where
  "MQTTPacket_decodeBuf buf cur = do { (len, val, _) \<leftarrow> MQTTPacket_decode (bufchar buf) cur; Some (len, val) }"

section \<open>The code: characters, integers and strings\<close>

definition readInt :: "bytes \<Rightarrow> nat \<Rightarrow> (int \<times> nat) option" where
  "readInt buf ptr = do {
     hi \<leftarrow> mem_get buf ptr;
     lo \<leftarrow> mem_get buf (ptr + 1);
     Some (256 * uint hi + uint lo, ptr + 2) }"

definition readChar :: "bytes \<Rightarrow> nat \<Rightarrow> (u8 \<times> nat) option" where
  "readChar buf ptr = do { c \<leftarrow> mem_get buf ptr; Some (c, ptr + 1) }"

definition writeChar :: "u8 \<Rightarrow> out \<Rightarrow> out option" where
  "writeChar c = (\<lambda>(buf, ptr). do { buf \<leftarrow> mem_set buf ptr c; Some (buf, ptr + 1) })"

definition writeInt :: "int \<Rightarrow> out \<Rightarrow> out option" where
  "writeInt anInt = (\<lambda>(buf, ptr). do {
     buf \<leftarrow> mem_set buf ptr (of_int (anInt sdiv 256));
     let ptr = ptr + 1;
     buf \<leftarrow> mem_set buf ptr (of_int (anInt smod 256));
     Some (buf, ptr + 1) })"

definition writeCString :: "bytes \<Rightarrow> out \<Rightarrow> out option" where
  "writeCString str s = do {
     (buf, ptr) \<leftarrow> writeInt (int (length str)) s;
     buf \<leftarrow> mem_cpy buf ptr str;
     Some (buf, ptr + length str) }"

definition getLenStringLen :: "bytes \<Rightarrow> nat \<Rightarrow> int option" where
  "getLenStringLen buf ptr = map_option fst (readInt buf ptr)"

definition writeMQTTString :: "MQTTString \<Rightarrow> out \<Rightarrow> out option" where
  "writeMQTTString str s =
     (if ls_len str > 0 then do {
        (buf, ptr) \<leftarrow> writeInt (ls_len str) s;
        data \<leftarrow> ls_data str;
        src \<leftarrow> mem_read data 0 (nat (ls_len str));
        buf \<leftarrow> mem_cpy buf ptr src;
        Some (buf, ptr + nat (ls_len str)) }
      else (case cstring str of
              Some cs \<Rightarrow> writeCString cs s
            | None \<Rightarrow> writeInt 0 s))"

text \<open>The return value, the string and the position.\<close>

definition readMQTTLenString :: "bytes \<Rightarrow> MQTTString \<Rightarrow> nat \<Rightarrow> int \<Rightarrow> (bool \<times> MQTTString \<times> nat) option" where
  "readMQTTLenString buf str ptr enddata =
     (if enddata - int ptr > 1 then do {
        (n, ptr) \<leftarrow> readInt buf ptr;
        let str = str\<lparr>ls_len := n\<rparr>;
        if int ptr + n \<le> enddata
        then Some (True, str\<lparr>ls_data := Some (take (nat n) (drop ptr buf)), cstring := None\<rparr>, ptr + nat n)
        else Some (False, str\<lparr>cstring := None\<rparr>, ptr) }
      else Some (False, str\<lparr>cstring := None\<rparr>, ptr))"

definition MQTTstrlen :: "MQTTString \<Rightarrow> int" where
  "MQTTstrlen str = (case cstring str of Some cs \<Rightarrow> int (length cs) | None \<Rightarrow> ls_len str)"

definition MQTTPacket_equals :: "MQTTString \<Rightarrow> bytes \<Rightarrow> bool option" where
  "MQTTPacket_equals a b = (
     let (aptr, alen) = (case cstring a of Some cs \<Rightarrow> (Some cs, int (length cs)) | None \<Rightarrow> (ls_data a, ls_len a))
     in if alen = int (length b)
        then (if b = [] then Some True
              else do { data \<leftarrow> aptr; src \<leftarrow> mem_read data 0 (length b); Some (src = b) })
        else Some False)"

end
