(* ===== verification/MQTT_Packet_Proofs.thy ===== *)
theory MQTT_Packet_Proofs
  imports MQTT_Packet
begin

text \<open>
  Writers put a sequence of bytes at a position, readers find it there: every writer of
  \<^verbatim>\<open>MQTTPacket.cpp\<close> is shown to be \<open>emit\<close> of an encoding, and every reader returns the value when the buffer
  \<open>starts\<close> with the encoding. The locale \<open>wire_field\<close> states this contract and is interpreted for characters,
  integers, remaining lengths, strings and topic filters.
\<close>

section \<open>Writers\<close>

lemma writeChar_emit: "writeChar c = emit [c]"
  by (auto simp: fun_eq_iff writeChar_def emit_Some mem_set_def upd_conv_take_nth_drop)

definition int_bytes :: "int \<Rightarrow> bytes" where
  "int_bytes n = [of_int (n sdiv 256), of_int (n smod 256)]"

lemma writeInt_emit: "writeInt n = emit (int_bytes n)"
proof
  fix s :: out
  have "writeInt n s = Option.bind (writeChar (of_int (n sdiv 256)) s) (writeChar (of_int (n smod 256)))"
    by (cases s) (auto simp: writeInt_def writeChar_def mem_set_def)
  then show "writeInt n s = emit (int_bytes n) s" by (simp add: writeChar_emit emit_bind int_bytes_def)
qed
lemma encode_emit: "MQTTPacket_encode n = emit (encode_digits n)"
  by (simp add: MQTTPacket_encode_def emit_def)

lemma writeCString_emit: "writeCString str = emit (int_bytes (int (length str)) @ str)"
proof
  fix s :: out
  have "writeCString str s = Option.bind (writeInt (int (length str)) s) (emit str)"
    by (simp add: writeCString_def emit_def)
  then show "writeCString str s = emit (int_bytes (int (length str)) @ str) s"
    by (simp add: writeInt_emit emit_bind)
qed

text \<open>The text a string stands for, and the strings for which all functions agree on it.\<close>

definition str_bytes :: "MQTTString \<Rightarrow> bytes" where
  "str_bytes str = (case cstring str of Some cs \<Rightarrow> cs
     | None \<Rightarrow> (case ls_data str of Some d \<Rightarrow> take (nat (ls_len str)) d | None \<Rightarrow> []))"

definition str_wf :: "MQTTString \<Rightarrow> bool" where
  "str_wf str = (case cstring str of Some cs \<Rightarrow> ls_len str \<le> 0
     | None \<Rightarrow> 0 \<le> ls_len str \<and>
         (case ls_data str of Some d \<Rightarrow> ls_len str \<le> int (length d) | None \<Rightarrow> ls_len str = 0))"

definition str_ok :: "MQTTString \<Rightarrow> bool" where
  "str_ok str = (str_wf str \<and> length (str_bytes str) < 65536)"

lemma MQTTstrlen_bytes: "str_wf str \<Longrightarrow> MQTTstrlen str = int (length (str_bytes str))"
  by (auto simp: str_wf_def MQTTstrlen_def str_bytes_def split: option.splits)

definition str_enc :: "MQTTString \<Rightarrow> bytes" where
  "str_enc str = int_bytes (int (length (str_bytes str))) @ str_bytes str"

lemma writeMQTTString_emit: "str_wf str \<Longrightarrow> writeMQTTString str = emit (str_enc str)"
proof
  fix s :: out
  assume wf: "str_wf str"
  show "writeMQTTString str s = emit (str_enc str) s"
  proof (cases "cstring str")
    case None
    show ?thesis
    proof (cases "ls_len str > 0")
      case True
      with None wf obtain d where d: "ls_data str = Some d" "ls_len str \<le> int (length d)"
        by (auto simp: str_wf_def split: option.splits)
      have "writeMQTTString str s = Option.bind (writeInt (ls_len str) s) (emit (take (nat (ls_len str)) d))"
        using True d by (auto simp: writeMQTTString_def mem_read_def emit_def fun_eq_iff intro!: Option.bind_cong)
      with None d True show ?thesis
        by (simp add: writeInt_emit emit_bind str_enc_def str_bytes_def)
    next
      case False
      with None wf have "ls_len str = 0" by (auto simp: str_wf_def split: option.splits)
      with None show ?thesis by (auto simp: writeMQTTString_def writeInt_emit str_enc_def str_bytes_def split: option.splits)
    qed
  next
    case (Some cs)
    with wf show ?thesis by (simp add: str_wf_def writeMQTTString_def writeCString_emit str_enc_def str_bytes_def)
  qed
qed

definition starts :: "bytes \<Rightarrow> nat \<Rightarrow> bytes \<Rightarrow> bool" where
  "starts buf ptr e = (ptr + length e \<le> length buf \<and> take (length e) (drop ptr buf) = e)"

lemma starts_append: "starts buf ptr (a @ b) \<longleftrightarrow> starts buf ptr a \<and> starts buf (ptr + length a) b"
  by (auto simp: starts_def take_add add.commute)

lemma emit_starts: "emit e (buf, ptr) = Some (buf', ptr') \<Longrightarrow> starts buf' ptr e \<and> ptr' = ptr + length e"
  by (auto simp: emit_Some starts_def split: if_splits)

lemma starts_Cons: "starts buf ptr (c # e) \<longleftrightarrow> mem_get buf ptr = Some c \<and> starts buf (ptr + 1) e"
  by (auto simp: starts_def mem_get_def Cons_nth_drop_Suc[symmetric] split: if_splits)

lemma sdiv_nonneg: "0 \<le> n \<Longrightarrow> 0 < k \<Longrightarrow> n sdiv k = n div (k :: int)" "0 \<le> n \<Longrightarrow> 0 < k \<Longrightarrow> n smod k = n mod (k :: int)"
  by (simp_all add: signed_divide_int_def signed_modulo_int_def sgn_if)

lemma uint_u8_of_int: "uint (of_int k :: u8) = k mod 256"
  by (simp add: uint_word_of_int)

lemma int_bytes_value:
  assumes "0 \<le> n" "n < 65536"
  shows "256 * uint (of_int (n sdiv 256) :: u8) + uint (of_int (n smod 256) :: u8) = n"
proof -
  have "n div 256 < 256" using assms by linarith 
  moreover have "0 \<le> n div 256" using assms by simp
  ultimately show ?thesis using assms(1) by (simp add: sdiv_nonneg uint_u8_of_int)
qed

lemma length_int_bytes [simp]: "length (int_bytes n) = 2"
  by (simp add: int_bytes_def)

lemma readInt_starts:
  "0 \<le> n \<Longrightarrow> n < 65536 \<Longrightarrow> starts buf ptr (int_bytes n) \<Longrightarrow> readInt buf ptr = Some (n, ptr + 2)"
  by (simp add: readInt_def int_bytes_def starts_Cons int_bytes_value)

lemma readChar_starts: "starts buf ptr [c] \<Longrightarrow> readChar buf ptr = Some (c, ptr + 1)"
  by (simp add: readChar_def starts_Cons)

section \<open>Remaining lengths\<close>

lemma encode_digits_small: "0 \<le> n \<Longrightarrow> n < 128 \<Longrightarrow> encode_digits n = [of_int n]"
  by (subst encode_digits.simps) (simp add: sdiv_nonneg Let_def)

lemma encode_digits_big:
  "128 \<le> n \<Longrightarrow> encode_digits n = (of_int (n mod 128) OR 128) # encode_digits (n div 128)"
  by (subst encode_digits.simps) (simp add: sdiv_nonneg Let_def pos_imp_zdiv_pos_iff)

lemma low_seven:
  assumes "x < (128 :: u8)"
  shows "x AND 127 = x" "x AND 128 = 0"
proof -
  have "unat x < 2 ^ 7" using assms by (simp add: word_less_nat_alt)
  then have "\<not> bit x 7" by (rule bit_above_bound) simp
  then show "x AND 127 = x" "x AND 128 = 0" by (auto intro!: u8_eqI simp: bit_simps)
qed

lemma digit_bits:
  fixes d :: int assumes "0 \<le> d" "d < 128"
  shows "uint ((of_int d OR 128) AND 127 :: u8) = d" "(of_int d OR 128) AND 128 = (128 :: u8)"
    "uint (of_int d AND 127 :: u8) = d" "of_int d AND 128 = (0 :: u8)"
proof -
  have u: "uint (of_int d :: u8) = d" using assms by (simp add: uint_u8_of_int)
  have "(of_int d :: u8) < 128" using assms u by (simp add: word_less_def)
  from top_bit_or [OF this] low_seven [OF this] u
  show "uint ((of_int d OR 128) AND 127 :: u8) = d" "(of_int d OR 128) AND 128 = (128 :: u8)"
    "uint (of_int d AND 127 :: u8) = d" "of_int d AND 128 = (0 :: u8)"
    by (simp_all add: or.commute)
qed

lemma length_encode_digits:
  assumes "0 \<le> n" "n < 268435456"
  shows "length (encode_digits n) = (if n < 128 then 1 else if n < 16384 then 2 else if n < 2097152 then 3 else 4)"
proof -
  have small: "length (encode_digits m) = 1" if "0 \<le> m" "m < 128" for m using that by (simp add: encode_digits_small)
  have two: "length (encode_digits m) = 2" if "128 \<le> m" "m < 16384" for m
    using that encode_digits_big [of m] small [of "m div 128"] by simp
  have three: "length (encode_digits m) = 3" if "16384 \<le> m" "m < 2097152" for m
    using that encode_digits_big [of m] two [of "m div 128"] by simp
  have "length (encode_digits m) = 4" if "2097152 \<le> m" "m < 268435456" for m
    using that encode_digits_big [of m] three [of "m div 128"] by simp
  with small two three assms show ?thesis by auto
qed

lemma bufchar_get: "mem_get buf i = Some c \<Longrightarrow> bufchar buf i = Some (1, c, i + 1)"
  by (simp add: bufchar_def)

lemma decode_loop_digits:
  assumes "0 \<le> n" "starts buf ptr (encode_digits n)" "0 \<le> len" "len + int (length (encode_digits n)) \<le> 4"
  shows "decode_loop (bufchar buf) len m val ptr =
    Some (len + int (length (encode_digits n)), val + n * m, ptr + length (encode_digits n))"
  using assms
proof (induction n arbitrary: ptr len m val rule: encode_digits.induct)
  case (1 n)
  show ?case
  proof (cases "n < 128")
    case True
    with "1.prems" digit_bits [of n] show ?thesis
      by (simp add: encode_digits_small decode_loop.simps [of _ len] MAX_NO_OF_REMAINING_LENGTH_BYTES_def bufchar_get starts_Cons)
  next
    case False
    with "1.prems"(1) have n: "128 \<le> n" by simp
    have st: "mem_get buf ptr = Some (of_int (n mod 128) OR 128)" "starts buf (ptr + 1) (encode_digits (n div 128))"
      using "1.prems"(2) n by (simp_all add: encode_digits_big starts_Cons)
    have bits: "uint ((of_int (n mod 128) OR 128) AND 127 :: u8) = n mod 128"
      "(of_int (n mod 128) OR 128) AND 128 = (128 :: u8)"
      by (simp_all add: digit_bits)
    have "decode_loop (bufchar buf) (len + 1) (m * 128) (val + n mod 128 * m) (ptr + 1) =
        Some (len + 1 + int (length (encode_digits (n div 128))), val + n mod 128 * m + n div 128 * (m * 128),
          ptr + 1 + length (encode_digits (n div 128)))"
      using "1.IH" [OF refl refl] "1.prems" n st(2)
      by (simp add: sdiv_nonneg encode_digits_big [of n] pos_imp_zdiv_pos_iff)
    moreover have "n mod 128 * m + n div 128 * (m * 128) = n * m"
      by (metis (no_types, lifting) distrib_right mod_mult_div_eq mult.assoc mult.commute)
    ultimately show ?thesis using n "1.prems"(3,4) st(1) bits
      by (simp add: encode_digits_big decode_loop.simps [of _ len] MAX_NO_OF_REMAINING_LENGTH_BYTES_def bufchar_get add.assoc)
  qed
qed

lemma decodeBuf_digits:
  assumes "0 \<le> n" "n < 268435456" "starts buf ptr (encode_digits n)"
  shows "MQTTPacket_decodeBuf buf ptr = Some (int (length (encode_digits n)), n)"
proof -
  have "int (length (encode_digits n)) \<le> 4" using length_encode_digits [OF assms(1,2)] by simp
  with decode_loop_digits [OF assms(1,3), of 0 1 0] show ?thesis
    by (simp add: MQTTPacket_decodeBuf_def MQTTPacket_decode_def)
qed

lemma readMQTTLenString_starts:
  assumes "str_ok str" "starts buf ptr (str_enc str)" "int ptr + int (length (str_enc str)) \<le> enddata"
  shows "readMQTTLenString buf old ptr enddata = Some (True,
    \<lparr>cstring = None, ls_len = int (length (str_bytes str)), ls_data = Some (str_bytes str)\<rparr>, ptr + length (str_enc str))"
proof -
  let ?n = "int (length (str_bytes str))"
  have st: "starts buf ptr (int_bytes ?n)" "starts buf (ptr + 2) (str_bytes str)"
    using assms(2) by (simp_all add: str_enc_def starts_append)
  have "readInt buf ptr = Some (?n, ptr + 2)"
    using st(1) assms(1) by (intro readInt_starts) (simp_all add: str_ok_def)
  with assms(3) st(2) show ?thesis
    by (simp add: readMQTTLenString_def str_enc_def starts_def add.assoc)
qed

text \<open>What a reader makes of a string.\<close>

definition str_view :: "MQTTString \<Rightarrow> MQTTString" where
  "str_view str = \<lparr>cstring = None, ls_len = int (length (str_bytes str)), ls_data = Some (str_bytes str)\<rparr>"

lemma str_bytes_view [simp]: "str_bytes (str_view str) = str_bytes str"
  by (simp add: str_view_def str_bytes_def)

lemmas readString_starts = readMQTTLenString_starts [folded str_view_def]

section \<open>The contract of a field\<close>

primrec put_list :: "('a \<Rightarrow> out \<Rightarrow> out option) \<Rightarrow> 'a list \<Rightarrow> out \<Rightarrow> out option" where
  "put_list put [] s = Some s"
| "put_list put (a # as) s = Option.bind (put a s) (put_list put as)"

locale wire_field =
  fixes put :: "'a \<Rightarrow> out \<Rightarrow> out option"
    and enc :: "'a \<Rightarrow> bytes"
    and get :: "bytes \<Rightarrow> nat \<Rightarrow> ('b \<times> nat) option"
    and val :: "'a \<Rightarrow> 'b"
    and ok :: "'a \<Rightarrow> bool"
  assumes put_emit: "ok a \<Longrightarrow> put a = emit (enc a)"
    and get_starts: "ok a \<Longrightarrow> starts buf ptr (enc a) \<Longrightarrow> get buf ptr = Some (val a, ptr + length (enc a))"
begin

lemma roundtrip:
  assumes "ok a" "put a (buf, ptr) = Some (buf', ptr')"
  shows "get buf' ptr = Some (val a, ptr') \<and> ptr' = ptr + length (enc a) \<and> length buf' = length buf"
proof -
  have "emit (enc a) (buf, ptr) = Some (buf', ptr')" using assms by (simp add: put_emit)
  moreover from this have "length buf' = length buf" by (auto simp: emit_Some split: if_splits)
  ultimately show ?thesis using get_starts [OF assms(1)] emit_starts by metis
qed

lemma put_list_emit:
  assumes "\<forall>a \<in> set as. ok a" "snd s \<le> length (fst s)"
  shows "put_list put as s = emit (concat (map enc as)) s"
  using assms
proof (induction as arbitrary: s)
  case Nil
  then show ?case by (cases s) simp
next
  case (Cons a as)
  show ?case
  proof (cases "emit (enc a) s")
    case None
    with Cons.prems emit_bind [of "enc a" s "concat (map enc as)"] show ?thesis by (simp add: put_emit)
  next
    case (Some t)
    then have "snd t \<le> length (fst t)" by (cases s) (auto simp: emit_Some split: if_splits)
    with Cons.IH [of t] Cons.prems(1) Some emit_bind [of "enc a" s "concat (map enc as)"]
    show ?thesis by (simp add: put_emit)
  qed
qed

end

interpretation wire_char: wire_field writeChar "\<lambda>c. [c]" readChar "\<lambda>c. c" "\<lambda>_. True"
  by unfold_locales (simp_all add: writeChar_emit readChar_starts)

interpretation wire_int: wire_field writeInt int_bytes readInt "\<lambda>n. n" "\<lambda>n. 0 \<le> n \<and> n < 65536"
  by unfold_locales (simp_all only: writeInt_emit readInt_starts length_int_bytes)

definition get_length :: "bytes \<Rightarrow> nat \<Rightarrow> (int \<times> nat) option" where
  "get_length buf ptr = map_option (\<lambda>(k, n). (n, ptr + nat k)) (MQTTPacket_decodeBuf buf ptr)"

interpretation wire_length: wire_field MQTTPacket_encode encode_digits get_length "\<lambda>n. n" "\<lambda>n. 0 \<le> n \<and> n < 268435456"
  by unfold_locales (auto simp: encode_emit get_length_def decodeBuf_digits)

text \<open>A string read up to the end of the buffer.\<close>

definition get_string :: "bytes \<Rightarrow> nat \<Rightarrow> (MQTTString \<times> nat) option" where
  "get_string buf ptr = do {
     (ok, str, ptr) \<leftarrow> readMQTTLenString buf MQTTString_initializer ptr (int (length buf));
     if ok then Some (str, ptr) else None }"

interpretation wire_string: wire_field writeMQTTString str_enc get_string str_view str_ok
proof
  fix str :: MQTTString
  assume ok: "str_ok str"
  then show "writeMQTTString str = emit (str_enc str)" by (simp add: str_ok_def writeMQTTString_emit)
  fix buf ptr
  assume st: "starts buf ptr (str_enc str)"
  then have "int ptr + int (length (str_enc str)) \<le> int (length buf)" by (simp add: starts_def)
  from readString_starts [OF ok st this] show "get_string buf ptr = Some (str_view str, ptr + length (str_enc str))"
    by (simp add: get_string_def)
qed

text \<open>A topic filter with its quality of service.\<close>

definition put_filter :: "MQTTString \<times> int \<Rightarrow> out \<Rightarrow> out option" where
  "put_filter f s = Option.bind (writeMQTTString (fst f) s) (writeChar (of_int (snd f)))"

definition filter_enc :: "MQTTString \<times> int \<Rightarrow> bytes" where
  "filter_enc f = str_enc (fst f) @ [of_int (snd f)]"

definition get_filter :: "bytes \<Rightarrow> nat \<Rightarrow> ((MQTTString \<times> int) \<times> nat) option" where
  "get_filter buf ptr = do {
     (str, ptr) \<leftarrow> get_string buf ptr;
     (c, ptr) \<leftarrow> readChar buf ptr;
     Some ((str, uint c), ptr) }"

definition filter_ok :: "MQTTString \<times> int \<Rightarrow> bool" where
  "filter_ok f = (str_ok (fst f) \<and> 0 \<le> snd f \<and> snd f < 256)"

interpretation wire_filter: wire_field put_filter filter_enc get_filter "\<lambda>f. (str_view (fst f), snd f)" filter_ok
proof
  fix f :: "MQTTString \<times> int"
  assume ok: "filter_ok f"
  then show "put_filter f = emit (filter_enc f)"
    by (auto simp: fun_eq_iff put_filter_def filter_enc_def filter_ok_def wire_string.put_emit writeChar_emit emit_bind)
  fix buf ptr
  assume "starts buf ptr (filter_enc f)"
  with ok wire_string.get_starts [of "fst f" buf ptr] readChar_starts [of buf _ "of_int (snd f)"]
  show "get_filter buf ptr = Some ((str_view (fst f), snd f), ptr + length (filter_enc f))"
    by (simp add: filter_ok_def filter_enc_def get_filter_def starts_append uint_u8_of_int)
qed

section \<open>Remaining lengths\<close>

text \<open>A remaining length below 268435456 is encoded in one to four bytes, as few as possible, and decoding the buffer at that
  place gives it back with the number of bytes.\<close>

theorem mqtt_remaining_length:
  assumes "0 \<le> n" "n < 268435456" "MQTTPacket_encode n (buf, ptr) = Some (buf', ptr')"
  shows "MQTTPacket_decodeBuf buf' ptr = Some (int (ptr' - ptr), n) \<and>
    ptr' - ptr = (if n < 128 then 1 else if n < 16384 then 2 else if n < 2097152 then 3 else 4) \<and>
    length buf' = length buf"
proof -
  note r = wire_length.roundtrip [OF conjI [OF assms(1,2)] assms(3)]
  then obtain k where k: "MQTTPacket_decodeBuf buf' ptr = Some (k, n)" by (auto simp: get_length_def)
  have "starts buf' ptr (encode_digits n)" using assms(3) emit_starts unfolding encode_emit by blast
  from decodeBuf_digits [OF assms(1,2) this] r length_encode_digits [OF assms(1,2)] show ?thesis by simp
qed

theorem mqtt_remaining_length_witness:
  "MQTTPacket_encode 321 ([0, 0, 0], 1) = Some ([0, 193, 2], 3) \<and> MQTTPacket_decodeBuf [0, 193, 2] 1 = Some (2, 321)"
proof -
  have "encode_digits 321 = [193, 2]" by (simp add: encode_digits_big encode_digits_small)
  then have "MQTTPacket_encode 321 ([0, 0, 0], 1) = Some ([0, 193, 2], 3)" by (simp add: encode_emit emit_Some)
  with mqtt_remaining_length [OF _ _ this] show ?thesis by simp
qed

end
