(* ===== verification/MQTT_Read.thy ===== *)
theory MQTT_Read
  imports MQTT_Packet
begin

text \<open>
  Reading a packet from a transport: \<^verbatim>\<open>MQTTPacket_read\<close> and the non-blocking \<^verbatim>\<open>MQTTPacket_readnb\<close> of
  \<^verbatim>\<open>MQTTPacket.cpp\<close>. The transport's read function is a parameter: for its state and the number of
  bytes wanted it gives its return value, the bytes it stored and its next state.
\<close>

type_synonym 's getfn = "'s \<Rightarrow> int \<Rightarrow> int \<times> bytes \<times> 's"

section \<open>The blocking reader\<close>

text \<open>Reading one character; a source that reports one but stored none leaves it uninitialised.\<close>

definition get_char :: "'s getfn \<Rightarrow> 's \<Rightarrow> (int \<times> u8 \<times> 's) option" where
  "get_char getfn sck =
     (case getfn sck 1 of (rc, data, sck) \<Rightarrow>
        if rc = 1 then (case data of [] \<Rightarrow> None | c # _ \<Rightarrow> Some (rc, c, sck)) else Some (rc, 0, sck))"

text \<open>The packet type or \<open>-1\<close>, the buffer and the transport.\<close>

definition MQTTPacket_read :: "'s getfn \<Rightarrow> 's \<Rightarrow> bytes \<Rightarrow> int \<Rightarrow> (int \<times> bytes \<times> 's) option" where
  "MQTTPacket_read getfn sck buf buflen = (
     let (rc, data, sck) = getfn sck 1 in do {
     buf \<leftarrow> mem_cpy buf 0 data;
     if rc \<noteq> 1 then Some (- 1, buf, sck)
     else do {
       (_, rem_len, sck) \<leftarrow> MQTTPacket_decode (get_char getfn) sck;
       (buf, len) \<leftarrow> MQTTPacket_encode rem_len (buf, 1);
       if rem_len + int len > buflen then Some (- 1, buf, sck)
       else do {
         (ok, buf, sck) \<leftarrow>
           (if rem_len = 0 then Some (True, buf, sck)
            else (case getfn sck rem_len of (rc, data, sck) \<Rightarrow> do {
                    buf \<leftarrow> mem_cpy buf len data;
                    Some (rc = rem_len, buf, sck) }));
         if \<not> ok then Some (- 1, buf, sck)
         else do {
           b \<leftarrow> mem_get buf 0;
           Some (uint (h_type (header_of b)), buf, sck) } } } })"

section \<open>The non-blocking reader\<close>

record 's MQTTTransport =
  trp_sck :: 's
  trp_multiplier :: int
  trp_rem_len :: int
  trp_len :: int
  trp_state :: nat

text \<open>The loop of \<^verbatim>\<open>MQTTPacket_decodenb\<close>: the return value and the transport.\<close>

function decodenb_loop :: "'s getfn \<Rightarrow> 's MQTTTransport \<Rightarrow> (int \<times> 's MQTTTransport) option" where
  "decodenb_loop getfn trp =
     (if trp_len trp \<ge> MAX_NO_OF_REMAINING_LENGTH_BYTES then Some (MQTTPACKET_READ_ERROR, trp)
      else (case getfn (trp_sck trp) 1 of (frc, data, sck) \<Rightarrow>
        (let trp = trp\<lparr>trp_sck := sck\<rparr> in
         if frc = - 1 then Some (MQTTPACKET_READ_ERROR, trp)
         else if frc = 0 then Some (0, trp)
         else (case data of
             [] \<Rightarrow> None
           | c # _ \<Rightarrow>
               (let trp' = trp\<lparr>trp_len := trp_len trp + 1,
                               trp_rem_len := trp_rem_len trp + uint (c AND 127) * trp_multiplier trp,
                               trp_multiplier := trp_multiplier trp * 128\<rparr>
                in if c AND 128 \<noteq> 0 then decodenb_loop getfn trp' else Some (trp_len trp', trp'))))))"
  by pat_completeness auto
termination
  by (relation "measure (\<lambda>(_, trp). nat (5 - trp_len trp))") (auto simp: MAX_NO_OF_REMAINING_LENGTH_BYTES_def)

declare decodenb_loop.simps [simp del]

definition MQTTPacket_decodenb :: "'s getfn \<Rightarrow> 's MQTTTransport \<Rightarrow> (int \<times> 's MQTTTransport) option" where
  "MQTTPacket_decodenb getfn trp =
     decodenb_loop getfn (if trp_len trp = 0 then trp\<lparr>trp_multiplier := 1, trp_rem_len := 0\<rparr> else trp)"

text \<open>
  The cases of the switch, from the last: each gives the return value, the buffer and the transport.
  \<open>reset\<close> is the code at the label \<^verbatim>\<open>exit\<close>.
\<close>

definition reset :: "int \<Rightarrow> bytes \<Rightarrow> 's MQTTTransport \<Rightarrow> (int \<times> bytes \<times> 's MQTTTransport) option" where
  "reset rc buf trp = Some (rc, buf, trp\<lparr>trp_state := 0\<rparr>)"

definition readnb_finish :: "bytes \<Rightarrow> 's MQTTTransport \<Rightarrow> (int \<times> bytes \<times> 's MQTTTransport) option" where
  "readnb_finish buf trp = do { b \<leftarrow> mem_get buf 0; reset (uint (h_type (header_of b))) buf trp }"

definition readnb_case2 :: "'s getfn \<Rightarrow> bytes \<Rightarrow> 's MQTTTransport \<Rightarrow> (int \<times> bytes \<times> 's MQTTTransport) option" where
  "readnb_case2 getfn buf trp =
     (if trp_rem_len trp = 0 then readnb_finish buf trp
      else (case getfn (trp_sck trp) (trp_rem_len trp) of (frc, data, sck) \<Rightarrow> do {
        buf \<leftarrow> (if trp_len trp < 0 then None else mem_cpy buf (nat (trp_len trp)) data);
        let trp = trp\<lparr>trp_sck := sck\<rparr>;
        if frc = - 1 then reset (- 1) buf trp
        else if frc = 0 then Some (0, buf, trp)
        else do {
          let trp = trp\<lparr>trp_rem_len := trp_rem_len trp - frc, trp_len := trp_len trp + frc\<rparr>;
          if trp_rem_len trp \<noteq> 0 then Some (0, buf, trp) else readnb_finish buf trp } }))"

definition readnb_case1 ::
  "'s getfn \<Rightarrow> bytes \<Rightarrow> int \<Rightarrow> 's MQTTTransport \<Rightarrow> (int \<times> bytes \<times> 's MQTTTransport) option" where
  "readnb_case1 getfn buf buflen trp = do {
     (frc, trp) \<leftarrow> MQTTPacket_decodenb getfn trp;
     if frc = MQTTPACKET_READ_ERROR then reset (- 1) buf trp
     else if frc = 0 then Some (0, buf, trp)
     else do {
       (buf, len) \<leftarrow> MQTTPacket_encode (trp_rem_len trp) (buf, 1);
       let trp = trp\<lparr>trp_len := int len\<rparr>;
       if trp_rem_len trp + trp_len trp > buflen then reset (- 1) buf trp
       else readnb_case2 getfn buf (trp\<lparr>trp_state := trp_state trp + 1\<rparr>) } }"

definition readnb_case0 ::
  "'s getfn \<Rightarrow> bytes \<Rightarrow> int \<Rightarrow> 's MQTTTransport \<Rightarrow> (int \<times> bytes \<times> 's MQTTTransport) option" where
  "readnb_case0 getfn buf buflen trp =
     (case getfn (trp_sck trp) 1 of (frc, data, sck) \<Rightarrow> do {
        buf \<leftarrow> mem_cpy buf 0 data;
        let trp = trp\<lparr>trp_sck := sck\<rparr>;
        if frc = - 1 then reset (- 1) buf trp
        else if frc = 0 then Some (0, buf, trp)
        else readnb_case1 getfn buf buflen (trp\<lparr>trp_len := 0, trp_state := trp_state trp + 1\<rparr>) })"

definition MQTTPacket_readnb ::
  "'s getfn \<Rightarrow> bytes \<Rightarrow> int \<Rightarrow> 's MQTTTransport \<Rightarrow> (int \<times> bytes \<times> 's MQTTTransport) option" where
  "MQTTPacket_readnb getfn buf buflen trp =
     (if trp_state trp = 1 then readnb_case1 getfn buf buflen trp
      else if trp_state trp = 2 then readnb_case2 getfn buf trp
      else readnb_case0 getfn buf buflen (trp\<lparr>trp_state := 0\<rparr>))"

end
