(* ===== verification/MQTT_Read_Proofs.thy ===== *)
theory MQTT_Read_Proofs
  imports MQTT_Packet_Proofs MQTT_Read
begin

text \<open>
  The non-blocking reader over a transport that delivers the bytes in arbitrary pieces: an invariant of the states
  between two calls, and the completion of a packet within a bounded number of calls.
\<close>

section \<open>The transport and the invariant\<close>

text \<open>
  A transport that delivers a byte stream in pieces: the \<open>i\<close>-th read gets at most \<open>avail i\<close> bytes, none if
  that is zero.
\<close>

definition piecewise :: "(nat \<Rightarrow> nat) \<Rightarrow> (bytes \<times> nat) getfn" where
  "piecewise avail = (\<lambda>(bs, i) n.
     let k = min (avail i) (min (nat n) (length bs)) in (int k, take k bs, (drop k bs, i + 1)))"

text \<open>Calling the non-blocking reader until it returns something other than \<open>0\<close>, at most \<open>n\<close> times.\<close>

fun readnb_calls ::
  "nat \<Rightarrow> 's getfn \<Rightarrow> bytes \<Rightarrow> int \<Rightarrow> 's MQTTTransport \<Rightarrow> (int \<times> bytes \<times> 's MQTTTransport) option" where
  "readnb_calls 0 getfn buf buflen trp = Some (0, buf, trp)"
| "readnb_calls (Suc n) getfn buf buflen trp = do {
     (rc, buf, trp) \<leftarrow> MQTTPacket_readnb getfn buf buflen trp;
     if rc \<noteq> 0 then Some (rc, buf, trp) else readnb_calls n getfn buf buflen trp }"

definition packet_bytes :: "u8 \<Rightarrow> bytes \<Rightarrow> bytes" where
  "packet_bytes b body = b # encode_digits (int (length body)) @ body"

text \<open>The packet has a type, its length can be encoded, and it fits.\<close>

definition packet_ok :: "u8 \<Rightarrow> bytes \<Rightarrow> int \<Rightarrow> bool" where
  "packet_ok b body buflen = (h_type (header_of b) \<noteq> 0 \<and> length body < 268435456 \<and>
     int (length (packet_bytes b body)) \<le> buflen)"

text \<open>The states between two calls, with the bytes still to come, the number of the next read and the buffer.\<close>

definition nb_inv :: "u8 \<Rightarrow> bytes \<Rightarrow> bytes \<Rightarrow> bytes \<Rightarrow> (bytes \<times> nat) MQTTTransport \<Rightarrow> bool" where
  "nb_inv b body rest buf trp = (
     let n = int (length body); k = length (encode_digits n); s = fst (trp_sck trp) in
     length (packet_bytes b body) \<le> length buf \<and>
     (trp_state trp = 0 \<and> s = packet_bytes b body @ rest \<or>
      trp_state trp = 1 \<and> buf ! 0 = b \<and>
        (\<exists>x \<ge> 0. s = encode_digits x @ body @ rest \<and> 0 \<le> trp_len trp \<and>
           trp_len trp + int (length (encode_digits x)) = int k \<and>
           (if trp_len trp = 0 then x = n else trp_rem_len trp + x * trp_multiplier trp = n)) \<or>
      trp_state trp = 2 \<and>
        (\<exists>m < length body. trp_len trp = int (1 + k + m) \<and> trp_rem_len trp = n - int m \<and>
           take (1 + k + m) buf = take (1 + k + m) (packet_bytes b body) \<and> s = drop m body @ rest)))"

definition nb_done :: "u8 \<Rightarrow> bytes \<Rightarrow> bytes \<Rightarrow> bytes \<Rightarrow> (bytes \<times> nat) MQTTTransport \<Rightarrow> bool" where
  "nb_done b body rest buf trp = (fst (trp_sck trp) = rest \<and> trp_state trp = 0 \<and>
     take (length (packet_bytes b body)) buf = packet_bytes b body)"

text \<open>What a call achieves: it completes the packet, or it returns \<open>0\<close> in a state from which it can go on, and
  has got further if the first read of the call got something.\<close>

definition nb_result ::
  "(nat \<Rightarrow> nat) \<Rightarrow> u8 \<Rightarrow> bytes \<Rightarrow> bytes \<Rightarrow> bytes \<Rightarrow> nat \<Rightarrow> nat \<Rightarrow>
    (int \<times> bytes \<times> (bytes \<times> nat) MQTTTransport) option \<Rightarrow> bool" where
  "nb_result avail b body rest buf left i r =
     (case r of None \<Rightarrow> False
      | Some (rc, buf', trp') \<Rightarrow> length buf' = length buf \<and> drop (length (packet_bytes b body)) buf' = drop (length (packet_bytes b body)) buf \<and>
          (rc = uint (h_type (header_of b)) \<and> nb_done b body rest buf' trp' \<or>
           rc = 0 \<and> nb_inv b body rest buf' trp' \<and> snd (trp_sck trp') > i \<and> length (fst (trp_sck trp')) \<le> left \<and>
             (avail i > 0 \<longrightarrow> length (fst (trp_sck trp')) < left)))"

lemma nb_case2:
  fixes trp :: "(bytes \<times> nat) MQTTTransport"
  assumes "packet_ok b body buflen" "length (packet_bytes b body) \<le> length buf" "trp_state trp = 2"
    "m \<le> length body" "trp_len trp = int (1 + length (encode_digits (int (length body))) + m)" "trp_rem_len trp = int (length body) - int m"
    "take (1 + length (encode_digits (int (length body))) + m) buf = take (1 + length (encode_digits (int (length body))) + m) (packet_bytes b body)"
    "fst (trp_sck trp) = drop m body @ rest"
  shows "\<exists>rc buf' trp'. readnb_case2 (piecewise avail) buf trp = Some (rc, buf', trp') \<and> length buf' = length buf \<and>
     drop (length (packet_bytes b body)) buf' = drop (length (packet_bytes b body)) buf \<and>
     (rc = uint (h_type (header_of b)) \<and> nb_done b body rest buf' trp' \<or>
      rc = 0 \<and> nb_inv b body rest buf' trp' \<and> snd (trp_sck trp') > snd (trp_sck trp) \<and>
      length (fst (trp_sck trp')) \<le> length (fst (trp_sck trp)) \<and>
      (avail (snd (trp_sck trp)) > 0 \<longrightarrow> length (fst (trp_sck trp')) < length (fst (trp_sck trp))))"
proof -
  define q where "q = 1 + length (encode_digits (int (length body)))"
  let ?p = "packet_bytes b body" and ?i = "snd (trp_sck trp)"
  have lp: "length ?p = q + length body" by (simp add: packet_bytes_def q_def)
  have q: "0 < q" by (simp add: q_def)
  have b0: "mem_get x 0 = Some b" if "take (Suc j) x = take (Suc j) ?p" "Suc j \<le> length x" for x j
    using that by (cases x) (auto simp: packet_bytes_def)
  show ?thesis
  proof (cases "m = length body")
    case True
    have "mem_get buf 0 = Some b" using b0 [of "q + m - 1" buf] assms(2,7) q lp True by (simp add: q_def)
    moreover have "take (length ?p) buf = ?p" using assms(7) lp True by (simp add: q_def)
    ultimately show ?thesis using assms(6,8) True
      by (simp add: readnb_case2_def readnb_finish_def reset_def nb_done_def)
  next
    case False
    define k where "k = min (avail ?i) (length body - m)"
    have kb: "k \<le> length body - m" by (simp add: k_def)
    obtain s i where sck: "trp_sck trp = (s, i)" by (cases "trp_sck trp")
    have s: "s = drop m body @ rest" using assms(8) sck by simp
    have get: "piecewise avail (trp_sck trp) (trp_rem_len trp) = (int k, take k (drop m body), (drop (m + k) body @ rest, ?i + 1))"
    proof -
      have "nat (trp_rem_len trp) = length body - m" using assms(4,6) by simp
      then have "min (avail i) (min (nat (trp_rem_len trp)) (length s)) = k" by (simp add: k_def s sck)
      then show ?thesis using kb by (simp add: piecewise_def sck Let_def) (simp add: s add.commute)
    qed
    define buf' where "buf' = take (q + m) buf @ take k (drop m body) @ drop (q + m + k) buf"
    have cpy: "mem_cpy buf (nat (trp_len trp)) (take k (drop m body)) = Some buf'"
    proof -
      have "nat (trp_len trp) = q + m" unfolding assms(5) q_def by (rule nat_int)
      then show ?thesis using assms(2,4) lp kb by (simp add: mem_cpy_def buf'_def)
    qed
    have len: "length buf' = length buf" using assms(2,4) lp kb by (simp add: buf'_def)
    have tk: "take (q + m + k) buf' = take (q + m + k) ?p"
    proof -
      have "take (q + m + k) ?p = take (q + m) ?p @ take k (drop (q + m) ?p)" by (simp add: take_add)
      moreover have "drop (q + m) ?p = drop m body" by (simp add: packet_bytes_def q_def)
      moreover have "take (q + m + k) buf' = take (q + m) buf @ take k (drop m body)"
        using assms(2,4) lp kb by (simp add: buf'_def)
      ultimately show ?thesis using assms(7) by (simp add: q_def)
    qed
    have dr: "drop (length ?p) buf' = drop (length ?p) buf"
      using assms(2,4) lp kb by (simp add: buf'_def add.commute)
    have rem0: "trp_rem_len trp \<noteq> 0" using assms(4,6) False by simp
    show ?thesis
    proof (cases "k = 0")
      case True
      then have "avail ?i = 0" using False assms(4) by (simp add: k_def)
      have "buf' = buf" using True by (simp add: buf'_def)
      let ?t = "trp\<lparr>trp_sck := (drop m body @ rest, ?i + 1)\<rparr>"
      have "readnb_case2 (piecewise avail) buf trp = Some (0, buf, ?t)"
        unfolding readnb_case2_def Let_def get using True rem0 cpy \<open>buf' = buf\<close> assms(5) by simp
      moreover have "nb_inv b body rest buf ?t"
        using assms False by (auto simp: nb_inv_def Let_def)
      ultimately show ?thesis using sck s \<open>avail ?i = 0\<close> by simp
    next
      case k0: False
      let ?t = "trp\<lparr>trp_sck := (drop (m + k) body @ rest, ?i + 1), trp_rem_len := trp_rem_len trp - int k, trp_len := trp_len trp + int k\<rparr>"
      have run: "readnb_case2 (piecewise avail) buf trp =
          (if trp_rem_len trp - int k \<noteq> 0 then Some (0, buf', ?t) else readnb_finish buf' ?t)"
        unfolding readnb_case2_def Let_def get using k0 rem0 cpy assms(5) by simp
      have lens: "length (drop (m + k) body @ rest) < length s" using k0 kb s by simp
      show ?thesis
      proof (cases "trp_rem_len trp - int k = 0")
        case True
        then have mk: "m + k = length body" using assms(4,6) by simp
        have "mem_get buf' 0 = Some b" using b0 [of "q + m + k - 1" buf'] tk q len assms(2) lp mk by simp
        moreover have "take (length ?p) buf' = ?p" using tk lp mk by (simp add: add.assoc)
        ultimately show ?thesis using run True mk len dr
          by (simp add: readnb_finish_def reset_def nb_done_def)
      next
        case False
        then have mk: "m + k < length body" using assms(4,6) kb by simp
        have "nb_inv b body rest buf' ?t"
          using assms mk tk len by (auto simp: nb_inv_def Let_def q_def add.assoc intro!: exI [of _ "m + k"])
        then show ?thesis using run False len dr lens sck by simp
      qed
    qed
  qed
qed

section \<open>The remaining length\<close>

lemma digit_step:
  assumes "0 \<le> x"
  obtains c ds where "encode_digits x = c # ds" "uint (c AND 127) = x mod 128"
    "(c AND 128 \<noteq> 0) = (128 \<le> x)" "128 \<le> x \<longrightarrow> ds = encode_digits (x div 128)" "x < 128 \<longrightarrow> ds = []"
proof (cases "x < 128")
  case True
  show ?thesis
    by (rule that [OF encode_digits_small]) (use assms True digit_bits [of x] in simp_all)
next
  case False
  then have x: "128 \<le> x" by simp
  show ?thesis
    by (rule that [OF encode_digits_big [OF x]]) (use x digit_bits [of "x mod 128"] in simp_all)
qed

definition same_value :: "(bytes \<times> nat) MQTTTransport \<Rightarrow> int \<Rightarrow> (bytes \<times> nat) MQTTTransport \<Rightarrow> int \<Rightarrow> bool" where
  "same_value trp x trp' x' =
     (trp_len trp' + int (length (encode_digits x')) = trp_len trp + int (length (encode_digits x)) \<and>
      trp_rem_len trp' + x' * trp_multiplier trp' = trp_rem_len trp + x * trp_multiplier trp)"

lemma decodenb_loop_pieces:
  fixes trp :: "(bytes \<times> nat) MQTTTransport"
  assumes "0 \<le> x" "fst (trp_sck trp) = encode_digits x @ tail" "0 \<le> trp_len trp"
    "trp_len trp + int (length (encode_digits x)) \<le> 4"
  shows "\<exists>rc trp'. decodenb_loop (piecewise avail) trp = Some (rc, trp') \<and> trp_state trp' = trp_state trp \<and>
    snd (trp_sck trp') > snd (trp_sck trp) \<and>
    (rc = trp_len trp + int (length (encode_digits x)) \<and> fst (trp_sck trp') = tail \<and>
       trp_rem_len trp' = trp_rem_len trp + x * trp_multiplier trp \<or>
     rc = 0 \<and> (\<exists>x' \<ge> 0. fst (trp_sck trp') = encode_digits x' @ tail \<and> same_value trp x trp' x' \<and>
       trp_len trp \<le> trp_len trp' \<and> (trp_len trp' = trp_len trp \<longrightarrow> x' = x) \<and>
       (avail (snd (trp_sck trp)) > 0 \<longrightarrow> trp_len trp < trp_len trp')))"
  using assms
proof (induction "nat x" arbitrary: x trp rule: less_induct)
  case less
  obtain s i where sck: "trp_sck trp = (s, i)" by (cases "trp_sck trp")
  obtain c ds where c: "encode_digits x = c # ds" "uint (c AND 127) = x mod 128" "(c AND 128 \<noteq> 0) = (128 \<le> x)"
    "128 \<le> x \<longrightarrow> ds = encode_digits (x div 128)" "x < 128 \<longrightarrow> ds = []" using digit_step [OF less.prems(1)] .
  have s: "s = c # ds @ tail" using less.prems(2) sck c(1) by simp
  have room: "\<not> MAX_NO_OF_REMAINING_LENGTH_BYTES \<le> trp_len trp"
    using less.prems(4) c(1) by (simp add: MAX_NO_OF_REMAINING_LENGTH_BYTES_def)
  show ?case
  proof (cases "avail i = 0")
    case True
    then have "piecewise avail (trp_sck trp) 1 = (0, [], (s, i + 1))" by (simp add: piecewise_def sck)
    then have "decodenb_loop (piecewise avail) trp = Some (0, trp\<lparr>trp_sck := (s, i + 1)\<rparr>)"
      using room by (simp add: decodenb_loop.simps)
    moreover have "same_value trp x (trp\<lparr>trp_sck := (s, i + 1)\<rparr>) x" by (simp add: same_value_def)
    ultimately show ?thesis using True s less.prems(1) c(1) sck by auto
  next
    case False
    then have get: "piecewise avail (trp_sck trp) 1 = (1, [c], (ds @ tail, i + 1))"
    proof -
      have "min (avail i) (min (nat 1) (length s)) = 1" using False s by simp
      then show ?thesis using s by (simp add: piecewise_def sck Let_def)
    qed
    let ?t = "trp\<lparr>trp_sck := (ds @ tail, i + 1), trp_len := trp_len trp + 1,
      trp_rem_len := trp_rem_len trp + x mod 128 * trp_multiplier trp, trp_multiplier := trp_multiplier trp * 128\<rparr>"
    have run: "decodenb_loop (piecewise avail) trp =
        (if 128 \<le> x then decodenb_loop (piecewise avail) ?t else Some (trp_len trp + 1, ?t))"
      using room get c(2,3) by (subst decodenb_loop.simps) (simp add: Let_def)
    show ?thesis
    proof (cases "128 \<le> x")
      case False
      then show ?thesis using run c(1,5) less.prems(1) sck by simp
    next
      case True
      have val: "x mod 128 * trp_multiplier trp + x div 128 * (trp_multiplier trp * 128) = x * trp_multiplier trp"
        by (metis (no_types, lifting) distrib_right mod_mult_div_eq mult.assoc mult.commute)
      have "nat (x div 128) < nat x" "0 \<le> x div 128" using True by simp_all
      moreover have "fst (trp_sck ?t) = encode_digits (x div 128) @ tail" using c(4) True by simp
      moreover have "trp_len ?t + int (length (encode_digits (x div 128))) \<le> 4" using less.prems(4) c(1,4) True by simp
      ultimately obtain rc trp' where r: "decodenb_loop (piecewise avail) ?t = Some (rc, trp')" "trp_state trp' = trp_state trp"
        "snd (trp_sck trp') > i + 1"
        "rc = trp_len trp + 1 + int (length (encode_digits (x div 128))) \<and> fst (trp_sck trp') = tail \<and>
           trp_rem_len trp' = trp_rem_len ?t + x div 128 * trp_multiplier ?t \<or>
         rc = 0 \<and> (\<exists>x' \<ge> 0. fst (trp_sck trp') = encode_digits x' @ tail \<and> same_value ?t (x div 128) trp' x' \<and>
           trp_len trp + 1 \<le> trp_len trp')"
        using less.hyps [of "x div 128" ?t] less.prems(3) by auto
      have sv: "same_value ?t (x div 128) trp' x' = same_value trp x trp' x'" for x'
        using val c(1,4) True by (simp add: same_value_def add.assoc)
      have rem: "trp_rem_len ?t + x div 128 * trp_multiplier ?t = trp_rem_len trp + x * trp_multiplier trp"
        using val by simp
      show ?thesis using r True run rem c(1,4) sck unfolding sv by fastforce
    qed
  qed
qed

section \<open>The cases of the reader\<close>

lemma nb_resultI:
  assumes "r = Some (rc, buf', trp')" "length buf' = length buf"
    "drop (length (packet_bytes b body)) buf' = drop (length (packet_bytes b body)) buf"
    "rc = uint (h_type (header_of b)) \<and> nb_done b body rest buf' trp' \<or>
     rc = 0 \<and> nb_inv b body rest buf' trp' \<and> snd (trp_sck trp') > i \<and> length (fst (trp_sck trp')) \<le> left \<and>
       (avail i > 0 \<longrightarrow> length (fst (trp_sck trp')) < left)"
  shows "nb_result avail b body rest buf left i r"
  using assms by (simp add: nb_result_def)

lemma nb_case1:
  fixes trp :: "(bytes \<times> nat) MQTTTransport"
  assumes ok: "packet_ok b body buflen" and buf: "length (packet_bytes b body) \<le> length buf" "buf ! 0 = b"
    and st: "trp_state trp = 1" "fst (trp_sck trp) = encode_digits x @ body @ rest" "0 \<le> x" "0 \<le> trp_len trp"
      "trp_len trp + int (length (encode_digits x)) = int (length (encode_digits (int (length body))))"
      "if trp_len trp = 0 then x = int (length body) else trp_rem_len trp + x * trp_multiplier trp = int (length body)"
  shows "nb_result avail b body rest buf (length (fst (trp_sck trp))) (snd (trp_sck trp))
    (readnb_case1 (piecewise avail) buf buflen trp)"
proof -
  let ?n = "int (length body)" and ?p = "packet_bytes b body"
  define ds where "ds = encode_digits ?n"
  have n: "0 \<le> ?n" "?n < 268435456" using ok by (simp_all add: packet_ok_def)
  have k4: "int (length ds) \<le> 4" using length_encode_digits [OF n] by (simp add: ds_def)
  have pos: "0 < length (encode_digits x)" by (subst encode_digits.simps) (simp add: Let_def)
  have k0: "0 < length ds" using st(4,5) pos unfolding ds_def by linarith
  let ?t = "if trp_len trp = 0 then trp\<lparr>trp_multiplier := 1, trp_rem_len := 0\<rparr> else trp"
  have t: "trp_rem_len ?t + x * trp_multiplier ?t = ?n" "trp_len ?t = trp_len trp" "trp_sck ?t = trp_sck trp"
    "trp_state ?t = 1" using st(1,6) by (auto split: if_splits)
  obtain rc trp' where r: "decodenb_loop (piecewise avail) ?t = Some (rc, trp')" "trp_state trp' = 1"
    "snd (trp_sck trp') > snd (trp_sck trp)"
    "rc = int (length ds) \<and> fst (trp_sck trp') = body @ rest \<and> trp_rem_len trp' = ?n \<or>
     rc = 0 \<and> (\<exists>x' \<ge> 0. fst (trp_sck trp') = encode_digits x' @ body @ rest \<and> same_value ?t x trp' x' \<and>
       trp_len trp \<le> trp_len trp' \<and> (trp_len trp' = trp_len trp \<longrightarrow> x' = x) \<and>
       (avail (snd (trp_sck trp)) > 0 \<longrightarrow> trp_len trp < trp_len trp'))"
    using decodenb_loop_pieces [of x ?t "body @ rest" avail] st(2-5) k4 unfolding t ds_def by metis
  have dec: "MQTTPacket_decodenb (piecewise avail) trp = Some (rc, trp')"
    using r(1) by (simp add: MQTTPacket_decodenb_def)
  from r(4) show ?thesis
  proof
    assume dn: "rc = int (length ds) \<and> fst (trp_sck trp') = body @ rest \<and> trp_rem_len trp' = ?n"
    define buf' where "buf' = take 1 buf @ ds @ drop (1 + length ds) buf"
    have lp: "length ?p = 1 + length ds + length body" by (simp add: packet_bytes_def ds_def)
    have enc: "MQTTPacket_encode ?n (buf, 1) = Some (buf', 1 + length ds)"
      using buf(1) lp by (simp add: encode_emit emit_Some buf'_def ds_def)
    have len: "length buf' = length buf" using buf(1) lp by (simp add: buf'_def)
    have dr: "drop (length ?p) buf' = drop (length ?p) buf" using buf(1) lp by (simp add: buf'_def ac_simps)
    let ?u = "trp'\<lparr>trp_len := int (1 + length ds), trp_state := 2\<rparr>"
    have run: "readnb_case1 (piecewise avail) buf buflen trp = readnb_case2 (piecewise avail) buf' ?u"
      using dn dec enc r(2) k0 ok lp unfolding readnb_case1_def Let_def
      by (simp add: MQTTPACKET_READ_ERROR_def packet_ok_def numeral_2_eq_2)
    have "take 1 buf = [b]" using buf lp by (cases buf) simp_all
    then have "take (1 + length ds) buf' = take (1 + length ds) ?p"
      by (simp add: buf'_def packet_bytes_def ds_def)
    then obtain rc2 buf2 trp2 where c2: "readnb_case2 (piecewise avail) buf' ?u = Some (rc2, buf2, trp2)"
      "length buf2 = length buf'" "drop (length ?p) buf2 = drop (length ?p) buf'"
      "rc2 = uint (h_type (header_of b)) \<and> nb_done b body rest buf2 trp2 \<or>
       rc2 = 0 \<and> nb_inv b body rest buf2 trp2 \<and> snd (trp_sck trp2) > snd (trp_sck ?u) \<and>
        length (fst (trp_sck trp2)) \<le> length (fst (trp_sck ?u))"
      using nb_case2 [OF ok, of buf' ?u 0 rest avail] len buf(1) dn by (auto simp: ds_def)
    have "length (fst (trp_sck ?u)) < length (fst (trp_sck trp))" using dn st(2) pos by simp
    with c2 r(3) have "rc2 = uint (h_type (header_of b)) \<and> nb_done b body rest buf2 trp2 \<or>
       rc2 = 0 \<and> nb_inv b body rest buf2 trp2 \<and> snd (trp_sck trp2) > snd (trp_sck trp) \<and>
        length (fst (trp_sck trp2)) \<le> length (fst (trp_sck trp)) \<and>
        (avail (snd (trp_sck trp)) > 0 \<longrightarrow> length (fst (trp_sck trp2)) < length (fst (trp_sck trp)))" by auto
    then show ?thesis using run c2 len dr by (intro nb_resultI [of _ rc2 buf2 trp2]) simp_all
  next
    assume "rc = 0 \<and> (\<exists>x' \<ge> 0. fst (trp_sck trp') = encode_digits x' @ body @ rest \<and> same_value ?t x trp' x' \<and>
       trp_len trp \<le> trp_len trp' \<and> (trp_len trp' = trp_len trp \<longrightarrow> x' = x) \<and>
       (avail (snd (trp_sck trp)) > 0 \<longrightarrow> trp_len trp < trp_len trp'))"
    then obtain x' where x': "rc = 0" "0 \<le> x'" "fst (trp_sck trp') = encode_digits x' @ body @ rest" "same_value ?t x trp' x'"
      "trp_len trp \<le> trp_len trp'" "trp_len trp' = trp_len trp \<longrightarrow> x' = x"
      "avail (snd (trp_sck trp)) > 0 \<longrightarrow> trp_len trp < trp_len trp'" by - (elim conjE exE, rule that)
    have run: "readnb_case1 (piecewise avail) buf buflen trp = Some (0, buf, trp')"
      using dec x'(1) by (simp add: readnb_case1_def MQTTPACKET_READ_ERROR_def)
    have sv: "trp_len trp' + int (length (encode_digits x')) = int (length ds)"
      "trp_rem_len trp' + x' * trp_multiplier trp' = ?n"
      using x'(4) unfolding same_value_def t(1,2) st(5) ds_def [symmetric] by (simp_all only: simp_thms)
    have "if trp_len trp' = 0 then x' = ?n else trp_rem_len trp' + x' * trp_multiplier trp' = ?n"
      using sv x'(5,6) st(4,6) by auto
    then have inv: "nb_inv b body rest buf trp'"
      using buf r(2) x'(2,3,5) st(4) sv(1) by (auto simp: nb_inv_def Let_def ds_def)
    have lens: "trp_len trp + int (length (encode_digits x)) = int (length ds)" using st(5) by (simp add: ds_def)
    have "length (encode_digits x') \<le> length (encode_digits x)" using sv(1) lens x'(5) by linarith
    moreover have "avail (snd (trp_sck trp)) > 0 \<longrightarrow> length (encode_digits x') < length (encode_digits x)"
      using sv(1) lens x'(7) by linarith
    ultimately show ?thesis using run inv r(3) x'(3) st(2)
      by (intro nb_resultI [of _ 0 buf trp']) simp_all
  qed
qed

section \<open>Calls until completion\<close>

lemma nb_case0:
  fixes trp :: "(bytes \<times> nat) MQTTTransport"
  assumes ok: "packet_ok b body buflen" and buf: "length (packet_bytes b body) \<le> length buf"
    and st: "trp_state trp = 0" "fst (trp_sck trp) = packet_bytes b body @ rest"
  shows "nb_result avail b body rest buf (length (fst (trp_sck trp))) (snd (trp_sck trp))
    (readnb_case0 (piecewise avail) buf buflen trp)"
proof -
  obtain s i where sck: "trp_sck trp = (s, i)" by (cases "trp_sck trp")
  have s: "s = b # encode_digits (int (length body)) @ body @ rest" using st(2) sck by (simp add: packet_bytes_def)
  have lp: "0 < length (packet_bytes b body)" by (simp add: packet_bytes_def)
  show ?thesis
  proof (cases "avail i = 0")
    case True
    then have "piecewise avail (trp_sck trp) 1 = (0, [], (s, i + 1))" by (simp add: piecewise_def sck)
    then have run: "readnb_case0 (piecewise avail) buf buflen trp = Some (0, buf, trp\<lparr>trp_sck := (s, i + 1)\<rparr>)"
      by (simp add: readnb_case0_def mem_cpy_def)
    have "nb_inv b body rest buf (trp\<lparr>trp_sck := (s, i + 1)\<rparr>)"
      using st sck buf by (simp add: nb_inv_def Let_def)
    with True sck show ?thesis by (intro nb_resultI [OF run]) simp_all
  next
    case False
    let ?s = "encode_digits (int (length body)) @ body @ rest"
    let ?t = "trp\<lparr>trp_sck := (?s, i + 1), trp_len := 0, trp_state := 1\<rparr>"
    have "min (avail i) (min (nat 1) (length s)) = 1" using False s by simp
    then have get: "piecewise avail (trp_sck trp) 1 = (1, [b], (?s, i + 1))"
      using s by (simp add: piecewise_def sck Let_def)
    obtain c cs where cs: "buf = c # cs" using buf lp by (cases buf) auto
    then have run: "readnb_case0 (piecewise avail) buf buflen trp = readnb_case1 (piecewise avail) (b # cs) buflen ?t"
      using get st(1) by (simp add: readnb_case0_def mem_cpy_def Let_def)
    have "nb_result avail b body rest (b # cs) (length (fst (trp_sck ?t))) (snd (trp_sck ?t))
      (readnb_case1 (piecewise avail) (b # cs) buflen ?t)"
      by (rule nb_case1 [OF ok, where x = "int (length body)"]) (use buf cs in simp_all)
    with lp cs s sck show ?thesis unfolding run
      by (auto simp: nb_result_def drop_Cons split: option.splits nat.splits)
  qed
qed

lemma nb_call:
  fixes trp :: "(bytes \<times> nat) MQTTTransport"
  assumes ok: "packet_ok b body buflen" and inv: "nb_inv b body rest buf trp"
  shows "nb_result avail b body rest buf (length (fst (trp_sck trp))) (snd (trp_sck trp))
    (MQTTPacket_readnb (piecewise avail) buf buflen trp)"
proof -
  let ?n = "int (length body)"
  have len: "length (packet_bytes b body) \<le> length buf" using inv by (simp add: nb_inv_def Let_def)
  from inv consider (zero) "trp_state trp = 0" "fst (trp_sck trp) = packet_bytes b body @ rest"
    | (one) "trp_state trp = 1" | (two) "trp_state trp = 2"
    by (auto simp: nb_inv_def Let_def)
  then show ?thesis
  proof cases
    case zero
    then have "MQTTPacket_readnb (piecewise avail) buf buflen trp = readnb_case0 (piecewise avail) buf buflen trp"
      by (cases trp) (simp add: MQTTPacket_readnb_def)
    with nb_case0 [OF ok len zero] show ?thesis by simp
  next
    case one
    with inv obtain x where "buf ! 0 = b" "0 \<le> x" "fst (trp_sck trp) = encode_digits x @ body @ rest" "0 \<le> trp_len trp"
      "trp_len trp + int (length (encode_digits x)) = int (length (encode_digits ?n))"
      "if trp_len trp = 0 then x = ?n else trp_rem_len trp + x * trp_multiplier trp = ?n"
      by (auto simp: nb_inv_def Let_def)
    with nb_case1 [OF ok len, where x = x and rest = rest] one show ?thesis by (simp add: MQTTPacket_readnb_def)
  next
    case two
    with inv obtain m where m: "m < length body" "trp_len trp = int (1 + length (encode_digits ?n) + m)"
      "trp_rem_len trp = ?n - int m"
      "take (1 + length (encode_digits ?n) + m) buf = take (1 + length (encode_digits ?n) + m) (packet_bytes b body)"
      "fst (trp_sck trp) = drop m body @ rest" by (auto simp: nb_inv_def Let_def)
    from nb_case2 [OF ok len two less_imp_le [OF m(1)] m(2-5), of avail] obtain rc buf' trp' where
      "readnb_case2 (piecewise avail) buf trp = Some (rc, buf', trp')" "length buf' = length buf"
      "drop (length (packet_bytes b body)) buf' = drop (length (packet_bytes b body)) buf"
      "rc = uint (h_type (header_of b)) \<and> nb_done b body rest buf' trp' \<or>
      rc = 0 \<and> nb_inv b body rest buf' trp' \<and> snd (trp_sck trp') > snd (trp_sck trp) \<and>
      length (fst (trp_sck trp')) \<le> length (fst (trp_sck trp)) \<and>
      (avail (snd (trp_sck trp)) > 0 \<longrightarrow> length (fst (trp_sck trp')) < length (fst (trp_sck trp)))" by - (elim exE conjE, rule that)
    with two show ?thesis by (simp add: MQTTPacket_readnb_def nb_result_def)
  qed
qed

lemma nb_inv_more: "nb_inv b body rest buf trp \<Longrightarrow> length rest < length (fst (trp_sck trp))"
proof -
  assume inv: "nb_inv b body rest buf trp"
  have "0 < length (encode_digits x)" for x by (subst encode_digits.simps) (simp add: Let_def)
  with inv show ?thesis by (auto simp: nb_inv_def Let_def packet_bytes_def)
qed

lemma nb_calls:
  fixes trp :: "(bytes \<times> nat) MQTTTransport"
  assumes "packet_ok b body buflen" "nb_inv b body rest buf trp" "\<forall>i \<ge> N. avail i > 0"
  shows "\<exists>rc buf' trp'. readnb_calls n (piecewise avail) buf buflen trp = Some (rc, buf', trp') \<and> length buf' = length buf \<and>
    drop (length (packet_bytes b body)) buf' = drop (length (packet_bytes b body)) buf \<and>
    (rc = uint (h_type (header_of b)) \<and> nb_done b body rest buf' trp' \<or> rc = 0) \<and>
    ((N - snd (trp_sck trp)) + (length (fst (trp_sck trp)) - length rest) \<le> n \<longrightarrow> rc \<noteq> 0)"
  using assms(2)
proof (induction n arbitrary: buf trp)
  case 0
  with nb_inv_more [OF 0] show ?case by simp
next
  case (Suc n)
  let ?i = "snd (trp_sck trp)" and ?s = "fst (trp_sck trp)"
  have ty: "uint (h_type (header_of b)) \<noteq> 0" using assms(1) unfolding packet_ok_def unsigned_eq_0_iff by blast
  obtain rc buf1 trp1 where c: "MQTTPacket_readnb (piecewise avail) buf buflen trp = Some (rc, buf1, trp1)"
    "length buf1 = length buf" "drop (length (packet_bytes b body)) buf1 = drop (length (packet_bytes b body)) buf"
    "rc = uint (h_type (header_of b)) \<and> nb_done b body rest buf1 trp1 \<or>
     rc = 0 \<and> nb_inv b body rest buf1 trp1 \<and> snd (trp_sck trp1) > ?i \<and> length (fst (trp_sck trp1)) \<le> length ?s \<and>
       (avail ?i > 0 \<longrightarrow> length (fst (trp_sck trp1)) < length ?s)"
    using nb_call [OF assms(1) Suc.prems, of avail] by (auto simp: nb_result_def split: option.splits)
  from c(4) show ?case
  proof
    assume "rc = uint (h_type (header_of b)) \<and> nb_done b body rest buf1 trp1"
    with c ty show ?thesis by simp
  next
    assume r: "rc = 0 \<and> nb_inv b body rest buf1 trp1 \<and> snd (trp_sck trp1) > ?i \<and> length (fst (trp_sck trp1)) \<le> length ?s \<and>
       (avail ?i > 0 \<longrightarrow> length (fst (trp_sck trp1)) < length ?s)"
    have more: "length rest < length (fst (trp_sck trp1))" using r nb_inv_more by blast
    have "(N - ?i) + (length ?s - length rest) > (N - snd (trp_sck trp1)) + (length (fst (trp_sck trp1)) - length rest)"
    proof (cases "N \<le> ?i")
      case True
      then have "avail ?i > 0" using assms(3) by simp
      with r have "length (fst (trp_sck trp1)) < length ?s" by simp
      with True r more show ?thesis by linarith
    next
      case False
      with r more show ?thesis by linarith
    qed
    then have M: "(N - ?i) + (length ?s - length rest) \<le> Suc n \<Longrightarrow>
        (N - snd (trp_sck trp1)) + (length (fst (trp_sck trp1)) - length rest) \<le> n" by linarith
    have eq: "readnb_calls (Suc n) (piecewise avail) buf buflen trp = readnb_calls n (piecewise avail) buf1 buflen trp1"
      using c(1) r by simp
    have "nb_inv b body rest buf1 trp1" using r by blast
    from Suc.IH [OF this] obtain rc2 buf2 trp2 where
      h: "readnb_calls n (piecewise avail) buf1 buflen trp1 = Some (rc2, buf2, trp2)" "length buf2 = length buf1"
      "drop (length (packet_bytes b body)) buf2 = drop (length (packet_bytes b body)) buf1"
      "rc2 = uint (h_type (header_of b)) \<and> nb_done b body rest buf2 trp2 \<or> rc2 = 0"
      "(N - snd (trp_sck trp1)) + (length (fst (trp_sck trp1)) - length rest) \<le> n \<longrightarrow> rc2 \<noteq> 0"
      by - (elim exE conjE, rule that)
    show ?thesis unfolding eq
    proof (intro exI conjI impI)
      show "readnb_calls n (piecewise avail) buf1 buflen trp1 = Some (rc2, buf2, trp2)" by (rule h(1))
      show "length buf2 = length buf" "drop (length (packet_bytes b body)) buf2 = drop (length (packet_bytes b body)) buf"
        using h(2,3) c(2,3) by simp_all
      show "rc2 = uint (h_type (header_of b)) \<and> nb_done b body rest buf2 trp2 \<or> rc2 = 0" by (rule h(4))
      assume "(N - ?i) + (length ?s - length rest) \<le> Suc n"
      then show "rc2 \<noteq> 0" using M h(5) by blast
    qed
  qed
qed

text \<open>C23: However the bytes of a packet trickle in, the non-blocking reader never fails, never returns a wrong type and
  never writes behind the packet; and if from some read on each read gets at least one byte, a bounded
  number of calls completes the packet: they return its type with the packet in the buffer, leave the following bytes
  in the transport and the reader ready for the next packet.\<close>

theorem mqtt_readnb_completes:
  fixes trp :: "(bytes \<times> nat) MQTTTransport"
  assumes "packet_ok b body buflen" "buflen \<le> int (length buf)" "\<forall>i \<ge> N. avail i > 0"
    and "trp_state trp = 0" "trp_sck trp = (packet_bytes b body @ rest, 0)"
  shows "\<exists>rc buf' trp'. readnb_calls n (piecewise avail) buf buflen trp = Some (rc, buf', trp') \<and>
    rc \<in> {0, uint (h_type (header_of b))} \<and> length buf' = length buf \<and>
    drop (length (packet_bytes b body)) buf' = drop (length (packet_bytes b body)) buf \<and>
    (n \<ge> N + length (packet_bytes b body) \<longrightarrow>
       rc \<noteq> 0 \<and> take (length (packet_bytes b body)) buf' = packet_bytes b body \<and>
       fst (trp_sck trp') = rest \<and> trp_state trp' = 0)"
proof -
  have "nb_inv b body rest buf trp" using assms by (simp add: nb_inv_def Let_def packet_ok_def)
  from nb_calls [OF assms(1) this assms(3), of n] obtain rc buf' trp' where
    "readnb_calls n (piecewise avail) buf buflen trp = Some (rc, buf', trp')" "length buf' = length buf"
    "drop (length (packet_bytes b body)) buf' = drop (length (packet_bytes b body)) buf"
    "rc = uint (h_type (header_of b)) \<and> nb_done b body rest buf' trp' \<or> rc = 0"
    "(N - snd (trp_sck trp)) + (length (fst (trp_sck trp)) - length rest) \<le> n \<longrightarrow> rc \<noteq> 0" by blast
  then show ?thesis using assms(5) by (auto simp: nb_done_def)
qed

theorem mqtt_readnb_completes_witness:
  "\<exists>rc buf' trp'. readnb_calls 4 (piecewise (\<lambda>i. if i = 1 then 0 else 2)) (replicate 5 0) 5
      \<lparr>trp_sck = ([0x20, 1, 9, 77], 0), trp_multiplier = 0, trp_rem_len = 0, trp_len = 0, trp_state = 0\<rparr> = Some (rc, buf', trp') \<and>
    length buf' = 5"
proof -
  let ?t = "\<lparr>trp_sck = ([0x20, 1, 9, 77], 0), trp_multiplier = 0, trp_rem_len = 0, trp_len = 0, trp_state = 0\<rparr>
    :: (bytes \<times> nat) MQTTTransport"
  have p: "packet_bytes 0x20 [9] = [0x20, 1, 9]" by (simp add: packet_bytes_def encode_digits_small)
  have "packet_ok 0x20 [9] 5" by (simp add: packet_ok_def p header_of_def)
  from mqtt_readnb_completes [OF this, of "replicate 5 0" 2 "\<lambda>i. if i = 1 then 0 else 2" ?t "[77]" 4] p
  show ?thesis by auto
qed

end
