(* ===== verification/MQTT_Serialize.thy ===== *)
theory MQTT_Serialize
  imports MQTT_Packet
begin

text \<open>
  The serialisers and deserialisers of whole packets, from the \<^verbatim>\<open>MQTTConnect\<close>, \<^verbatim>\<open>MQTTSerializePublish\<close>,
  \<^verbatim>\<open>MQTTDeserializePublish\<close>, \<^verbatim>\<open>MQTTSubscribe\<close> and \<^verbatim>\<open>MQTTUnsubscribe\<close> files of the client and the server. A
  serialiser returns its return value and the buffer, a deserialiser its return value and the values
  of its output parameters, which it takes with their previous contents.
\<close>

section \<open>The code: writing packets\<close>

text \<open>The common start: the header byte and the remaining length.\<close>

definition write_header :: "MQTTHeader \<Rightarrow> int \<Rightarrow> out \<Rightarrow> out option" where
  "write_header h rem_len s = do {
     s \<leftarrow> writeChar (header_byte h) s;
     MQTTPacket_encode rem_len s }"

definition zero_header :: MQTTHeader where
  "zero_header = \<lparr>h_type = 0, h_dup = 0, h_qos = 0, h_retain = 0\<rparr>"

definition has_string :: "MQTTString \<Rightarrow> bool" where
  "has_string str = (cstring str \<noteq> None \<or> ls_data str \<noteq> None)"

definition MQTTSerialize_connectLength :: "MQTTPacket_connectData \<Rightarrow> int" where
  "MQTTSerialize_connectLength options = (
     let len = (if MQTTVersion options = 3 then 12 else if MQTTVersion options = 4 then 10 else 0);
         len = len + (MQTTstrlen (clientID options) + 2);
         len = (if willFlag options \<noteq> 0
                then len + (MQTTstrlen (topicName (will options)) + 2 + MQTTstrlen (will_message (will options)) + 2)
                else len);
         len = (if has_string (username options) then len + (MQTTstrlen (username options) + 2) else len)
     in if has_string (password options) then len + (MQTTstrlen (password options) + 2) else len)"

definition connect_flags :: "MQTTPacket_connectData \<Rightarrow> MQTTConnectFlags" where
  "connect_flags options = (
     let w = (willFlag options \<noteq> 0) in
     \<lparr>f_cleansession = cleansession options, f_will = (if w then 1 else 0),
      f_willQoS = (if w then will_qos (will options) else 0),
      f_willRetain = (if w then will_retained (will options) else 0),
      f_password = (if has_string (password options) then 1 else 0),
      f_username = (if has_string (username options) then 1 else 0)\<rparr>)"

definition write_connect :: "MQTTPacket_connectData \<Rightarrow> int \<Rightarrow> out \<Rightarrow> out option" where
  "write_connect options len s = do {
     s \<leftarrow> write_header (zero_header\<lparr>h_type := CONNECT\<rparr>) len s;
     s \<leftarrow> (if MQTTVersion options = 4
           then do { s \<leftarrow> writeCString (bytes_of ''MQTT'') s; writeChar 4 s }
           else do { s \<leftarrow> writeCString (bytes_of ''MQIsdp'') s; writeChar 3 s });
     let flags = connect_flags options;
     s \<leftarrow> writeChar (connect_flags_byte flags) s;
     s \<leftarrow> writeInt (uint (keepAliveInterval options)) s;
     s \<leftarrow> writeMQTTString (clientID options) s;
     s \<leftarrow> (if willFlag options \<noteq> 0
           then do { s \<leftarrow> writeMQTTString (topicName (will options)) s;
                     writeMQTTString (will_message (will options)) s }
           else Some s);
     s \<leftarrow> (if f_username flags \<noteq> 0 then writeMQTTString (username options) s else Some s);
     if f_password flags \<noteq> 0 then writeMQTTString (password options) s else Some s }"

text \<open>\<open>finish\<close> is the return of the position reached, relative to the start of the buffer.\<close>

definition finish_packet :: "out option \<Rightarrow> (int \<times> bytes) option" where
  "finish_packet r = map_option (\<lambda>(buf, ptr). (int ptr, buf)) r"

definition MQTTSerialize_connect :: "bytes \<Rightarrow> int \<Rightarrow> MQTTPacket_connectData \<Rightarrow> (int \<times> bytes) option" where
  "MQTTSerialize_connect buf buflen options = (
     let len = MQTTSerialize_connectLength options in
     if MQTTPacket_len len > buflen then Some (MQTTPACKET_BUFFER_TOO_SHORT, buf)
     else finish_packet (write_connect options len (buf, 0)))"

definition MQTTSerialize_zero :: "bytes \<Rightarrow> int \<Rightarrow> u8 \<Rightarrow> (int \<times> bytes) option" where
  "MQTTSerialize_zero buf buflen packettype =
     (if buflen < 2 then Some (MQTTPACKET_BUFFER_TOO_SHORT, buf)
      else finish_packet (write_header (zero_header\<lparr>h_type := packettype\<rparr>) 0 (buf, 0)))"

definition MQTTSerialize_disconnect :: "bytes \<Rightarrow> int \<Rightarrow> (int \<times> bytes) option" where
  "MQTTSerialize_disconnect buf buflen = MQTTSerialize_zero buf buflen DISCONNECT"

definition MQTTSerialize_pingreq :: "bytes \<Rightarrow> int \<Rightarrow> (int \<times> bytes) option" where
  "MQTTSerialize_pingreq buf buflen = MQTTSerialize_zero buf buflen PINGREQ"

text \<open>The flags byte of a connack packet has the session-present flag in its lowest bit.\<close>

definition MQTTSerialize_connack :: "bytes \<Rightarrow> int \<Rightarrow> u8 \<Rightarrow> u8 \<Rightarrow> (int \<times> bytes) option" where
  "MQTTSerialize_connack buf buflen connack_rc sessionPresent =
     (if buflen < 2 then Some (MQTTPACKET_BUFFER_TOO_SHORT, buf)
      else finish_packet (do {
        s \<leftarrow> write_header (zero_header\<lparr>h_type := CONNACK\<rparr>) 2 (buf, 0);
        s \<leftarrow> writeChar (sessionPresent AND 1) s;
        writeChar connack_rc s }))"

definition MQTTSerialize_publishLength :: "int \<Rightarrow> MQTTString \<Rightarrow> int \<Rightarrow> int" where
  "MQTTSerialize_publishLength qos topic payloadlen = (
     let len = 2 + MQTTstrlen topic + payloadlen in if qos > 0 then len + 2 else len)"

text \<open>The copy of the payload: a negative length is a copy of almost the whole address space.\<close>

definition copy_payload :: "bytes \<Rightarrow> int \<Rightarrow> out \<Rightarrow> out option" where
  "copy_payload payload payloadlen = (\<lambda>(buf, ptr).
     if payloadlen < 0 then None
     else do {
       src \<leftarrow> mem_read payload 0 (nat payloadlen);
       buf \<leftarrow> mem_cpy buf ptr src;
       Some (buf, ptr + nat payloadlen) })"

definition MQTTSerialize_publish ::
  "bytes \<Rightarrow> int \<Rightarrow> u8 \<Rightarrow> int \<Rightarrow> u8 \<Rightarrow> u16 \<Rightarrow> MQTTString \<Rightarrow> bytes \<Rightarrow> int \<Rightarrow> (int \<times> bytes) option" where
  "MQTTSerialize_publish buf buflen dup qos retained packetid topic payload payloadlen = (
     let rem_len = MQTTSerialize_publishLength qos topic payloadlen in
     if MQTTPacket_len rem_len > buflen then Some (MQTTPACKET_BUFFER_TOO_SHORT, buf)
     else finish_packet (do {
       s \<leftarrow> write_header \<lparr>h_type = PUBLISH, h_dup = dup, h_qos = of_int qos, h_retain = retained\<rparr> rem_len (buf, 0);
       s \<leftarrow> writeMQTTString topic s;
       s \<leftarrow> (if qos > 0 then writeInt (uint packetid) s else Some s);
       copy_payload payload payloadlen s }))"

definition MQTTSerialize_ack :: "bytes \<Rightarrow> int \<Rightarrow> u8 \<Rightarrow> u8 \<Rightarrow> u16 \<Rightarrow> (int \<times> bytes) option" where
  "MQTTSerialize_ack buf buflen packettype dup packetid =
     (if buflen < 4 then Some (MQTTPACKET_BUFFER_TOO_SHORT, buf)
      else finish_packet (do {
        s \<leftarrow> write_header \<lparr>h_type = packettype, h_dup = dup, h_qos = (if packettype = PUBREL then 1 else 0),
                          h_retain = 0\<rparr> 2 (buf, 0);
        writeInt (uint packetid) s }))"

definition MQTTSerialize_puback :: "bytes \<Rightarrow> int \<Rightarrow> u16 \<Rightarrow> (int \<times> bytes) option" where
  "MQTTSerialize_puback buf buflen packetid = MQTTSerialize_ack buf buflen PUBACK 0 packetid"

definition MQTTSerialize_pubrel :: "bytes \<Rightarrow> int \<Rightarrow> u8 \<Rightarrow> u16 \<Rightarrow> (int \<times> bytes) option" where
  "MQTTSerialize_pubrel buf buflen dup packetid = MQTTSerialize_ack buf buflen PUBREL dup packetid"

definition MQTTSerialize_pubcomp :: "bytes \<Rightarrow> int \<Rightarrow> u16 \<Rightarrow> (int \<times> bytes) option" where
  "MQTTSerialize_pubcomp buf buflen packetid = MQTTSerialize_ack buf buflen PUBCOMP 0 packetid"

text \<open>The arrays of topic filters and qualities of service are lists of \<^verbatim>\<open>count\<close> elements.\<close>

fun MQTTSerialize_subscribeLength :: "MQTTString list \<Rightarrow> int" where
  "MQTTSerialize_subscribeLength [] = 2"
| "MQTTSerialize_subscribeLength (t # ts) = MQTTSerialize_subscribeLength ts + (2 + MQTTstrlen t + 1)"

fun write_filters :: "(MQTTString \<times> int) list \<Rightarrow> out \<Rightarrow> out option" where
  "write_filters [] s = Some s"
| "write_filters ((t, q) # ts) s = do {
     s \<leftarrow> writeMQTTString t s;
     s \<leftarrow> writeChar (of_int q) s;
     write_filters ts s }"

definition MQTTSerialize_subscribe ::
  "bytes \<Rightarrow> int \<Rightarrow> u8 \<Rightarrow> u16 \<Rightarrow> (MQTTString \<times> int) list \<Rightarrow> (int \<times> bytes) option" where
  "MQTTSerialize_subscribe buf buflen dup packetid filters = (
     let rem_len = MQTTSerialize_subscribeLength (map fst filters) in
     if MQTTPacket_len rem_len > buflen then Some (MQTTPACKET_BUFFER_TOO_SHORT, buf)
     else finish_packet (do {
       s \<leftarrow> write_header \<lparr>h_type = SUBSCRIBE, h_dup = dup, h_qos = 1, h_retain = 0\<rparr> rem_len (buf, 0);
       s \<leftarrow> writeInt (uint packetid) s;
       write_filters filters s }))"

fun write_chars :: "int list \<Rightarrow> out \<Rightarrow> out option" where
  "write_chars [] s = Some s"
| "write_chars (q # qs) s = do { s \<leftarrow> writeChar (of_int q) s; write_chars qs s }"

definition MQTTSerialize_suback :: "bytes \<Rightarrow> int \<Rightarrow> u16 \<Rightarrow> int list \<Rightarrow> (int \<times> bytes) option" where
  "MQTTSerialize_suback buf buflen packetid grantedQoSs =
     (if buflen < 2 + int (length grantedQoSs) then Some (MQTTPACKET_BUFFER_TOO_SHORT, buf)
      else finish_packet (do {
        s \<leftarrow> write_header (zero_header\<lparr>h_type := SUBACK\<rparr>) (2 + int (length grantedQoSs)) (buf, 0);
        s \<leftarrow> writeInt (uint packetid) s;
        write_chars grantedQoSs s }))"

fun MQTTSerialize_unsubscribeLength :: "MQTTString list \<Rightarrow> int" where
  "MQTTSerialize_unsubscribeLength [] = 2"
| "MQTTSerialize_unsubscribeLength (t # ts) = MQTTSerialize_unsubscribeLength ts + (2 + MQTTstrlen t)"

fun write_topics :: "MQTTString list \<Rightarrow> out \<Rightarrow> out option" where
  "write_topics [] s = Some s"
| "write_topics (t # ts) s = do { s \<leftarrow> writeMQTTString t s; write_topics ts s }"

definition MQTTSerialize_unsubscribe ::
  "bytes \<Rightarrow> int \<Rightarrow> u8 \<Rightarrow> u16 \<Rightarrow> MQTTString list \<Rightarrow> (int \<times> bytes) option" where
  "MQTTSerialize_unsubscribe buf buflen dup packetid topics = (
     let rem_len = MQTTSerialize_unsubscribeLength topics in
     if MQTTPacket_len rem_len > buflen then Some (MQTTPACKET_BUFFER_TOO_SHORT, buf)
     else finish_packet (do {
       s \<leftarrow> write_header \<lparr>h_type = UNSUBSCRIBE, h_dup = dup, h_qos = 1, h_retain = 0\<rparr> rem_len (buf, 0);
       s \<leftarrow> writeInt (uint packetid) s;
       write_topics topics s }))"

definition MQTTSerialize_unsuback :: "bytes \<Rightarrow> int \<Rightarrow> u16 \<Rightarrow> (int \<times> bytes) option" where
  "MQTTSerialize_unsuback buf buflen packetid =
     (if buflen < 2 then Some (MQTTPACKET_BUFFER_TOO_SHORT, buf)
      else finish_packet (do {
        s \<leftarrow> write_header (zero_header\<lparr>h_type := UNSUBACK\<rparr>) 2 (buf, 0);
        writeInt (uint packetid) s }))"

section \<open>The code: reading packets\<close>

text \<open>\<open>payload\<close> is the position of the payload in the buffer.\<close>

record publish_out =
  p_dup :: u8
  p_qos :: int
  p_retained :: u8
  p_packetid :: u16
  p_topic :: MQTTString
  p_payload :: nat
  p_payloadlen :: int

definition MQTTDeserialize_publish :: "publish_out \<Rightarrow> bytes \<Rightarrow> (int \<times> publish_out) option" where
  "MQTTDeserialize_publish r buf = do {
     (b, curdata) \<leftarrow> readChar buf 0;
     let header = header_of b;
     if h_type header \<noteq> PUBLISH then Some (0, r)
     else do {
       let r = r\<lparr>p_dup := h_dup header, p_qos := uint (h_qos header), p_retained := h_retain header\<rparr>;
       (rc, mylen) \<leftarrow> MQTTPacket_decodeBuf buf curdata;
       let curdata = curdata + nat rc;
       let enddata = int curdata + mylen;
       (ok, topic, curdata) \<leftarrow> readMQTTLenString buf (p_topic r) curdata enddata;
       let r = r\<lparr>p_topic := topic\<rparr>;
       if \<not> ok \<or> enddata - int curdata < 0 then Some (rc, r)
       else do {
         (packetid, curdata) \<leftarrow> (if p_qos r > 0 then map_option (\<lambda>(n, cur). (of_int n, cur)) (readInt buf curdata)
                                 else Some (p_packetid r, curdata));
         Some (1, r\<lparr>p_packetid := packetid, p_payloadlen := enddata - int curdata, p_payload := curdata\<rparr>) } } }"

record ack_out =
  a_type :: u8
  a_dup :: u8
  a_packetid :: u16

definition MQTTDeserialize_ack :: "ack_out \<Rightarrow> bytes \<Rightarrow> (int \<times> ack_out) option" where
  "MQTTDeserialize_ack r buf = do {
     (b, curdata) \<leftarrow> readChar buf 0;
     let header = header_of b;
     let r = r\<lparr>a_dup := h_dup header, a_type := h_type header\<rparr>;
     (rc, mylen) \<leftarrow> MQTTPacket_decodeBuf buf curdata;
     let curdata = curdata + nat rc;
     let enddata = int curdata + mylen;
     if enddata - int curdata < 2 then Some (rc, r)
     else do {
       (n, curdata) \<leftarrow> readInt buf curdata;
       Some (1, r\<lparr>a_packetid := of_int n\<rparr>) } }"

text \<open>The session-present flag and the return code.\<close>

definition MQTTDeserialize_connack :: "(u8 \<times> u8) \<Rightarrow> bytes \<Rightarrow> (int \<times> (u8 \<times> u8)) option" where
  "MQTTDeserialize_connack r buf = do {
     (b, curdata) \<leftarrow> readChar buf 0;
     if h_type (header_of b) \<noteq> CONNACK then Some (0, r)
     else do {
       (rc, mylen) \<leftarrow> MQTTPacket_decodeBuf buf curdata;
       let curdata = curdata + nat rc;
       let enddata = int curdata + mylen;
       if enddata - int curdata < 2 then Some (rc, r)
       else do {
         (flags, curdata) \<leftarrow> readChar buf curdata;
         (connack_rc, curdata) \<leftarrow> readChar buf curdata;
         Some (1, (flags AND 1, connack_rc)) } } }"

definition MQTTPacket_checkVersion :: "MQTTString \<Rightarrow> int \<Rightarrow> bool option" where
  "MQTTPacket_checkVersion protocol version = do {
     let len = ls_len protocol;
     let same = (\<lambda>name. do {
           data \<leftarrow> ls_data protocol;
           src \<leftarrow> mem_read data 0 (nat (if int (length name) < len then int (length name) else len));
           Some (src = take (length src) name) });
     if version = 3 then same (bytes_of ''MQIsdp'')
     else if version = 4 then same (bytes_of ''MQTT'')
     else Some False }"

text \<open>The will of a connect packet, if its flag is set: whether the strings could be read.\<close>

definition read_will ::
  "MQTTConnectFlags \<Rightarrow> MQTTPacket_connectData \<Rightarrow> bytes \<Rightarrow> nat \<Rightarrow> int
    \<Rightarrow> (bool \<times> MQTTPacket_connectData \<times> nat) option" where
  "read_will flags data buf curdata enddata =
     (if f_will flags = 0 then Some (True, data, curdata)
      else do {
        let w = (will data)\<lparr>will_qos := f_willQoS flags, will_retained := f_willRetain flags\<rparr>;
        (ok, topic, curdata) \<leftarrow> readMQTTLenString buf (topicName w) curdata enddata;
        let w = w\<lparr>topicName := topic\<rparr>;
        if \<not> ok then Some (False, data\<lparr>will := w\<rparr>, curdata)
        else do {
          (ok, msg, curdata) \<leftarrow> readMQTTLenString buf (will_message w) curdata enddata;
          Some (ok, data\<lparr>will := w\<lparr>will_message := msg\<rparr>\<rparr>, curdata) } })"

definition read_credentials ::
  "MQTTConnectFlags \<Rightarrow> MQTTPacket_connectData \<Rightarrow> bytes \<Rightarrow> nat \<Rightarrow> int
    \<Rightarrow> (int \<times> MQTTPacket_connectData) option" where
  "read_credentials flags data buf curdata enddata =
     (if f_username flags \<noteq> 0 then
        if enddata - int curdata < 3 then Some (0, data)
        else do {
          (ok, user, curdata) \<leftarrow> readMQTTLenString buf (username data) curdata enddata;
          let data = data\<lparr>username := user\<rparr>;
          if \<not> ok then Some (0, data)
          else if f_password flags \<noteq> 0 then
            if enddata - int curdata < 3 then Some (0, data)
            else do {
              (ok, pw, curdata) \<leftarrow> readMQTTLenString buf (password data) curdata enddata;
              Some (if ok then 1 else 0, data\<lparr>password := pw\<rparr>) }
          else Some (1, data) }
      else if f_password flags \<noteq> 0 then Some (0, data)
      else Some (1, data))"

definition MQTTDeserialize_connect ::
  "MQTTPacket_connectData \<Rightarrow> bytes \<Rightarrow> int \<Rightarrow> (int \<times> MQTTPacket_connectData) option" where
  "MQTTDeserialize_connect data buf len = do {
     let enddata = len;
     (b, curdata) \<leftarrow> readChar buf 0;
     if h_type (header_of b) \<noteq> CONNECT then Some (0, data)
     else do {
       (rc, mylen) \<leftarrow> MQTTPacket_decodeBuf buf curdata;
       let curdata = curdata + nat rc;
       (ok, Protocol, curdata) \<leftarrow> readMQTTLenString buf MQTTString_initializer curdata enddata;
       if \<not> ok \<or> enddata - int curdata < 0 then Some (0, data)
       else do {
         (version, curdata) \<leftarrow> readChar buf curdata;
         known \<leftarrow> MQTTPacket_checkVersion Protocol (uint version);
         if \<not> known then Some (0, data)
         else do {
           (b, curdata) \<leftarrow> readChar buf curdata;
           let flags = connect_flags_of b;
           (keepalive, curdata) \<leftarrow> readInt buf curdata;
           (ok, client, curdata) \<leftarrow> readMQTTLenString buf (clientID data) curdata enddata;
           let data = data\<lparr>cleansession := f_cleansession flags, keepAliveInterval := of_int keepalive,
                           clientID := client\<rparr>;
           if \<not> ok then Some (0, data)
           else do {
             (ok, data, curdata) \<leftarrow> read_will flags (data\<lparr>willFlag := f_will flags\<rparr>) buf curdata enddata;
             if \<not> ok then Some (0, data) else read_credentials flags data buf curdata enddata } } } } }"

text \<open>
  The loop over the granted qualities of service; the array is a list as long as the caller made it.
  The result is the return value, \<^verbatim>\<open>*count\<close> and the array.
\<close>

function suback_loop :: "bytes \<Rightarrow> nat \<Rightarrow> int \<Rightarrow> int \<Rightarrow> nat \<Rightarrow> int list \<Rightarrow> (int \<times> nat \<times> int list) option" where
  "suback_loop buf curdata enddata maxcount count grantedQoSs =
     (if int curdata < enddata then
        if int count > maxcount then Some (- 1, count, grantedQoSs)
        else do {
          (c, cur) \<leftarrow> readChar buf curdata;
          grantedQoSs \<leftarrow> mem_set grantedQoSs count (uint c);
          suback_loop buf (curdata + 1) enddata maxcount (count + 1) grantedQoSs }
      else Some (1, count, grantedQoSs))"
  by pat_completeness auto
termination
  by (relation "measure (\<lambda>(_, curdata, enddata, _). nat (enddata - int curdata))") auto

declare suback_loop.simps [simp del]

definition MQTTDeserialize_suback ::
  "u16 \<Rightarrow> int \<Rightarrow> nat \<Rightarrow> int list \<Rightarrow> bytes \<Rightarrow> (int \<times> u16 \<times> nat \<times> int list) option" where
  "MQTTDeserialize_suback packetid maxcount count grantedQoSs buf = do {
     (b, curdata) \<leftarrow> readChar buf 0;
     if h_type (header_of b) \<noteq> SUBACK then Some (0, packetid, count, grantedQoSs)
     else do {
       (rc, mylen) \<leftarrow> MQTTPacket_decodeBuf buf curdata;
       let curdata = curdata + nat rc;
       let enddata = int curdata + mylen;
       if enddata - int curdata < 2 then Some (rc, packetid, count, grantedQoSs)
       else do {
         (n, curdata) \<leftarrow> readInt buf curdata;
         (rc, count, grantedQoSs) \<leftarrow> suback_loop buf curdata enddata maxcount 0 grantedQoSs;
         Some (rc, of_int n, count, grantedQoSs) } } }"

text \<open>The out parameters: \<^verbatim>\<open>dup\<close>, \<^verbatim>\<open>packetid\<close>, \<^verbatim>\<open>count\<close> and the two arrays.\<close>

record subscribe_out =
  s_dup :: u8
  s_packetid :: u16
  s_count :: nat
  s_topics :: "MQTTString list"
  s_qos :: "int list"

lemma readMQTTLenString_advances:
  "readMQTTLenString buf str ptr enddata = Some (ok, str', ptr') \<Longrightarrow> ptr \<le> ptr'"
  by (auto simp: readMQTTLenString_def readInt_def Let_def bind_eq_Some_conv split: if_splits)

lemma readMQTTLenString_progress:
  "readMQTTLenString buf str ptr enddata = Some (True, str', ptr') \<Longrightarrow> ptr + 2 \<le> ptr'"
  by (auto simp: readMQTTLenString_def readInt_def Let_def bind_eq_Some_conv split: if_splits)

function subscribe_loop :: "bytes \<Rightarrow> nat \<Rightarrow> int \<Rightarrow> int \<Rightarrow> subscribe_out \<Rightarrow> (int \<times> subscribe_out) option" where
  "subscribe_loop buf curdata enddata maxcount r =
     (if int curdata < enddata then
        if int (s_count r) = maxcount then Some (MQTTPACKET_READ_ERROR, r)
        else do {
          old \<leftarrow> mem_get (s_topics r) (s_count r);
          (ok, topic, cur) \<leftarrow> readMQTTLenString buf old curdata enddata;
          topics \<leftarrow> mem_set (s_topics r) (s_count r) topic;
          let r = r\<lparr>s_topics := topics\<rparr>;
          if \<not> ok then Some (MQTTPACKET_READ_ERROR, r)
          else if int cur \<ge> enddata then Some (MQTTPACKET_READ_ERROR, r)
          else do {
            (c, cur') \<leftarrow> readChar buf cur;
            qos \<leftarrow> mem_set (s_qos r) (s_count r) (uint c);
            subscribe_loop buf (cur + 1) enddata maxcount (r\<lparr>s_qos := qos, s_count := s_count r + 1\<rparr>) } }
      else Some (1, r))"
  by pat_completeness auto
termination
  by (relation "measure (\<lambda>(_, curdata, enddata, _). nat (enddata - int curdata))")
     (auto dest!: readMQTTLenString_advances)

declare subscribe_loop.simps [simp del]

text \<open>The previous contents of \<^verbatim>\<open>*count\<close> and of the arrays are those of the record.\<close>

definition MQTTDeserialize_subscribe :: "int \<Rightarrow> subscribe_out \<Rightarrow> bytes \<Rightarrow> (int \<times> subscribe_out) option" where
  "MQTTDeserialize_subscribe maxcount r buf = do {
     (b, curdata) \<leftarrow> readChar buf 0;
     let header = header_of b;
     if h_type header \<noteq> SUBSCRIBE then Some (MQTTPACKET_READ_ERROR, r)
     else do {
       let r = r\<lparr>s_dup := h_dup header\<rparr>;
       (rc, mylen) \<leftarrow> MQTTPacket_decodeBuf buf curdata;
       if rc \<le> 0 then Some (rc, r)
       else do {
         let curdata = curdata + nat rc;
         let enddata = int curdata + mylen;
         (n, curdata) \<leftarrow> readInt buf curdata;
         subscribe_loop buf curdata enddata maxcount (r\<lparr>s_packetid := of_int n, s_count := 0\<rparr>) } } }"

text \<open>This loop does not compare the count with \<^verbatim>\<open>maxcount\<close>.\<close>

function unsubscribe_loop :: "bytes \<Rightarrow> nat \<Rightarrow> int \<Rightarrow> int \<Rightarrow> subscribe_out \<Rightarrow> (int \<times> subscribe_out) option" where
  "unsubscribe_loop buf curdata enddata rc r =
     (if int curdata < enddata then do {
        old \<leftarrow> mem_get (s_topics r) (s_count r);
        (ok, topic, cur) \<leftarrow> readMQTTLenString buf old curdata enddata;
        topics \<leftarrow> mem_set (s_topics r) (s_count r) topic;
        let r = r\<lparr>s_topics := topics\<rparr>;
        if \<not> ok then Some (rc, r)
        else unsubscribe_loop buf cur enddata rc (r\<lparr>s_count := s_count r + 1\<rparr>) }
      else Some (1, r))"
  by pat_completeness auto
termination
  by (relation "measure (\<lambda>(_, curdata, enddata, _). nat (enddata - int curdata))")
     (auto dest!: readMQTTLenString_progress)

declare unsubscribe_loop.simps [simp del]

definition MQTTDeserialize_unsubscribe :: "subscribe_out \<Rightarrow> bytes \<Rightarrow> (int \<times> subscribe_out) option" where
  "MQTTDeserialize_unsubscribe r buf = do {
     (b, curdata) \<leftarrow> readChar buf 0;
     let header = header_of b;
     if h_type header \<noteq> UNSUBSCRIBE then Some (0, r)
     else do {
       let r = r\<lparr>s_dup := h_dup header\<rparr>;
       (rc, mylen) \<leftarrow> MQTTPacket_decodeBuf buf curdata;
       let curdata = curdata + nat rc;
       let enddata = int curdata + mylen;
       (n, curdata) \<leftarrow> readInt buf curdata;
       unsubscribe_loop buf curdata enddata rc (r\<lparr>s_packetid := of_int n, s_count := 0\<rparr>) } }"

definition MQTTDeserialize_unsuback :: "u16 \<Rightarrow> bytes \<Rightarrow> (int \<times> u16) option" where
  "MQTTDeserialize_unsuback packetid buf = do {
     (rc, r) \<leftarrow> MQTTDeserialize_ack \<lparr>a_type = 0, a_dup = 0, a_packetid = packetid\<rparr> buf;
     Some (if a_type r = UNSUBACK then 1 else rc, a_packetid r) }"

end
