(* ===== verification/MQTT_Client.thy ===== *)
theory MQTT_Client
  imports MQTT_Serialize
begin

text \<open>
  The MQTT client, \<^verbatim>\<open>src/paho.mqtt.embedded-c/MQTTClient-C/src/MQTTClient.cpp\<close>, with its timers,
  \<^verbatim>\<open>src/src/FreeRTOSTimers.cpp\<close>.

  Every operation maps the client and the world to its result, the client and the world. The world
  \<open>'w\<close> is what lies behind the network and the kernel; the functions of the network, of FreeRTOS
  and the application's message handlers are the record \<open>port\<close>. The loops that wait for the network
  are partial functions: \<open>None\<close> is an access outside of a buffer, or a loop that does not end. The public operations
  hold the client's mutex from start to end, so each is one step; the mutex is not
  represented.
\<close>

section \<open>Data\<close>

text \<open>A timer: the ticks left and FreeRTOS's own record \<open>'tm\<close>.\<close>

record 'tm Timer =
  xTicksToWait :: u32
  xTimeOut :: 'tm

record MQTTMessage =
  m_qos :: int
  m_retained :: u8
  m_dup :: u8
  m_id :: u16
  m_payload :: bytes
  m_payloadlen :: u32

record 'h MessageHandlers =
  topicFilter :: "bytes option"
  fp :: "'h option"

record ('tm, 'h) MQTTClient =
  next_packetid :: u32
  command_timeout_ms :: u32
  buf :: bytes
  readbuf :: bytes
  c_keepAliveInterval :: u32
  ping_outstanding :: bool
  isconnected :: bool
  c_cleansession :: int
  messageHandlers :: "'h MessageHandlers list"
  defaultMessageHandler :: "'h option"
  last_sent :: "'tm Timer"
  last_received :: "'tm Timer"

text \<open>
  The timeouts of FreeRTOS, and the functions of the network and the application. \<open>mqttread\<close> gets the number of bytes wanted
  and a time limit, and gives its return value and the bytes it stored; \<open>mqttwrite\<close> gets the bytes it may read, their number
  and a time limit; both may not return.
\<close>

record ('w, 'tm) kernel =
  vTaskSetTimeOutState :: "'w \<Rightarrow> 'tm \<times> 'w"
  xTaskCheckForTimeOut :: "'tm \<Rightarrow> u32 \<Rightarrow> 'w \<Rightarrow> bool \<times> 'tm \<times> u32 \<times> 'w"

record ('w, 'tm, 'h) port = "('w, 'tm) kernel" +
  mqttread :: "int \<Rightarrow> int \<Rightarrow> 'w \<Rightarrow> (int \<times> bytes \<times> 'w) option"
  mqttwrite :: "bytes \<Rightarrow> int \<Rightarrow> int \<Rightarrow> 'w \<Rightarrow> (int \<times> 'w) option"
  call_handler :: "'h \<Rightarrow> MQTTString \<Rightarrow> MQTTMessage \<Rightarrow> 'w \<Rightarrow> 'w"

definition MAX_PACKET_ID :: u32 where "MAX_PACKET_ID = 65535"
definition MAX_MESSAGE_HANDLERS :: nat where "MAX_MESSAGE_HANDLERS = 5"
definition BUFFER_OVERFLOW :: int where "BUFFER_OVERFLOW = - 2"
definition FAILURE :: int where "FAILURE = - 1"
definition SUCCESS :: int where "SUCCESS = 0"
definition portTICK_PERIOD_MS :: u32 where "portTICK_PERIOD_MS = 1"

lemmas return_codes = BUFFER_OVERFLOW_def FAILURE_def SUCCESS_def

section \<open>The code: timers\<close>

definition TimerCountdownMS :: "('w, 'tm, 'x) kernel_scheme \<Rightarrow> u32 \<Rightarrow> 'w \<Rightarrow> 'tm Timer \<times> 'w" where
  "TimerCountdownMS p timeout_ms w = (
     let (t, w) = vTaskSetTimeOutState p w
     in (\<lparr>xTicksToWait = timeout_ms div portTICK_PERIOD_MS, xTimeOut = t\<rparr>, w))"

definition TimerCountdown :: "('w, 'tm, 'x) kernel_scheme \<Rightarrow> u32 \<Rightarrow> 'w \<Rightarrow> 'tm Timer \<times> 'w" where
  "TimerCountdown p timeout w = TimerCountdownMS p (timeout * 1000) w"

definition check_timer :: "('w, 'tm, 'x) kernel_scheme \<Rightarrow> 'tm Timer \<Rightarrow> 'w \<Rightarrow> bool \<times> 'tm Timer \<times> 'w" where
  "check_timer p timer w = (
     let (expired, t, ticks, w) = xTaskCheckForTimeOut p (xTimeOut timer) (xTicksToWait timer) w
     in (expired, \<lparr>xTicksToWait = ticks, xTimeOut = t\<rparr>, w))"

text \<open>The ticks are unsigned, so the test for a negative number never holds.\<close>

definition TimerLeftMS :: "('w, 'tm, 'x) kernel_scheme \<Rightarrow> 'tm Timer \<Rightarrow> 'w \<Rightarrow> int \<times> 'tm Timer \<times> 'w" where
  "TimerLeftMS p timer w = (
     let (_, timer, w) = check_timer p timer w
     in (sint (xTicksToWait timer * portTICK_PERIOD_MS), timer, w))"

definition TimerIsExpired :: "('w, 'tm, 'x) kernel_scheme \<Rightarrow> 'tm Timer \<Rightarrow> 'w \<Rightarrow> bool \<times> 'tm Timer \<times> 'w" where
  "TimerIsExpired p timer w = check_timer p timer w"

section \<open>The code: packets\<close>

definition getNextPacketId :: "('tm, 'h) MQTTClient \<Rightarrow> u16 \<times> ('tm, 'h) MQTTClient" where
  "getNextPacketId c = (
     let n = (if next_packetid c = MAX_PACKET_ID then 1 else next_packetid c + 1)
     in (ucast n, c\<lparr>next_packetid := n\<rparr>))"

text \<open>The loop of \<^verbatim>\<open>sendPacket\<close>: the number of bytes sent.\<close>

partial_function (option) send_loop ::
  "('w, 'tm, 'h) port \<Rightarrow> bytes \<Rightarrow> int \<Rightarrow> int \<Rightarrow> 'tm Timer \<Rightarrow> 'w \<Rightarrow> (int \<times> 'tm Timer \<times> 'w) option" where
  "send_loop p b len sent timer w =
     (if sent < len then
        (case TimerIsExpired p timer w of (expired, timer, w) \<Rightarrow>
         if expired then Some (sent, timer, w)
         else (case TimerLeftMS p timer w of (left, timer, w) \<Rightarrow> do {
           data \<leftarrow> mem_read b (nat sent) (nat len);
           (rc, w) \<leftarrow> mqttwrite p data len left w;
           if rc < 0 then Some (sent, timer, w) else send_loop p b len (sent + rc) timer w }))
      else Some (sent, timer, w))"

definition sendPacket ::
  "('w, 'tm, 'h) port \<Rightarrow> ('tm, 'h) MQTTClient \<Rightarrow> int \<Rightarrow> 'tm Timer \<Rightarrow> 'w
    \<Rightarrow> (int \<times> ('tm, 'h) MQTTClient \<times> 'tm Timer \<times> 'w) option" where
  "sendPacket p c len timer w = do {
     (sent, timer, w) \<leftarrow> send_loop p (buf c) len 0 timer w;
     if sent = len
     then (case TimerCountdown p (c_keepAliveInterval c) w of (t, w) \<Rightarrow> Some (SUCCESS, c\<lparr>last_sent := t\<rparr>, timer, w))
     else Some (FAILURE, c, timer, w) }"

definition MQTTClientInit ::
  "u32 \<Rightarrow> bytes \<Rightarrow> bytes \<Rightarrow> ('tm, 'h) MQTTClient \<Rightarrow> ('tm, 'h) MQTTClient" where
  "MQTTClientInit timeout_ms sendbuf rbuf c =
     c\<lparr>messageHandlers := map (\<lambda>m. m\<lparr>topicFilter := None\<rparr>) (messageHandlers c),
       command_timeout_ms := timeout_ms, buf := sendbuf, readbuf := rbuf, isconnected := False,
       c_cleansession := 0, ping_outstanding := False, defaultMessageHandler := None, next_packetid := 1\<rparr>"

text \<open>The loop is that of \<^verbatim>\<open>MQTTPacket_decode\<close>, on the network.\<close>

definition decodePacket :: "('w, 'tm, 'h) port \<Rightarrow> int \<Rightarrow> 'w \<Rightarrow> (int \<times> int \<times> 'w) option" where
  "decodePacket p timeout w = decode_loop (\<lambda>w. do {
       (rc, data, w) \<leftarrow> mqttread p 1 timeout w;
       if rc = 1 then (case data of [] \<Rightarrow> None | c # _ \<Rightarrow> Some (rc, c, w)) else Some (rc, 0, w) }) 0 1 0 w"

text \<open>The packet type, or \<open>0\<close> for none, or a negative code.\<close>

definition readPacket ::
  "('w, 'tm, 'h) port \<Rightarrow> ('tm, 'h) MQTTClient \<Rightarrow> 'tm Timer \<Rightarrow> 'w
    \<Rightarrow> (int \<times> ('tm, 'h) MQTTClient \<times> 'tm Timer \<times> 'w) option" where
  "readPacket p c timer w =
     (case TimerLeftMS p timer w of (left, timer, w) \<Rightarrow> do {
        (rc, data, w) \<leftarrow> mqttread p 1 left w;
        rb \<leftarrow> mem_cpy (readbuf c) 0 data;
        let c = c\<lparr>readbuf := rb\<rparr>;
        if rc \<noteq> 1 then Some (rc, c, timer, w)
        else (case TimerLeftMS p timer w of (left, timer, w) \<Rightarrow> do {
          (_, rem_len, w) \<leftarrow> decodePacket p left w;
          (rb, len) \<leftarrow> MQTTPacket_encode rem_len (readbuf c, 1);
          let c = c\<lparr>readbuf := rb\<rparr>;
          if (of_int rem_len :: u32) > of_nat (length rb) - of_nat len then Some (BUFFER_OVERFLOW, c, timer, w)
          else do {
            (ok, c, timer, w) \<leftarrow>
              (if rem_len > 0 then
                 (case TimerLeftMS p timer w of (left, timer, w) \<Rightarrow> do {
                    (rc, data, w) \<leftarrow> mqttread p rem_len left w;
                    rb \<leftarrow> mem_cpy (readbuf c) len data;
                    Some (rc = rem_len, c\<lparr>readbuf := rb\<rparr>, timer, w) })
               else Some (True, c, timer, w));
            if \<not> ok then Some (0, c, timer, w)
            else do {
              b \<leftarrow> mem_get (readbuf c) 0;
              let rc = uint (h_type (header_of b));
              if c_keepAliveInterval c > 0
              then (case TimerCountdown p (c_keepAliveInterval c) w of (t, w) \<Rightarrow>
                      Some (rc, c\<lparr>last_received := t\<rparr>, timer, w))
              else Some (rc, c, timer, w) } } }) })"

section \<open>The code: message handlers\<close>

text \<open>
  The loop of \<^verbatim>\<open>isTopicMatched\<close>, on the rest of the filter and of the topic name. After a \<^verbatim>\<open>+\<close> the name goes on at
  the end of its current level, after a \<^verbatim>\<open>#\<close> at its end.
\<close>

definition slash :: u8 where "slash = 0x2F"
definition plus_sign :: u8 where "plus_sign = 0x2B"
definition hash_sign :: u8 where "hash_sign = 0x23"

fun topic_loop :: "bytes \<Rightarrow> bytes \<Rightarrow> bool" where
  "topic_loop [] curn = (curn = [])"
| "topic_loop (f # fs) [] = False"
| "topic_loop (f # fs) (n # ns) =
     (if n = slash \<and> f \<noteq> slash then False
      else if f \<noteq> plus_sign \<and> f \<noteq> hash_sign \<and> f \<noteq> n then False
      else if f = plus_sign then topic_loop fs (dropWhile (\<lambda>c. c \<noteq> slash) ns)
      else if f = hash_sign then topic_loop fs []
      else topic_loop fs ns)"

definition isTopicMatched :: "bytes \<Rightarrow> MQTTString \<Rightarrow> bool option" where
  "isTopicMatched tf topic = do {
     data \<leftarrow> ls_data topic;
     curn \<leftarrow> mem_read data 0 (nat (ls_len topic));
     Some (topic_loop tf curn) }"

text \<open>Whether any handler was called, and the world.\<close>

fun deliver_loop ::
  "('w, 'tm, 'h) port \<Rightarrow> 'h MessageHandlers list \<Rightarrow> MQTTString \<Rightarrow> MQTTMessage \<Rightarrow> bool \<Rightarrow> 'w \<Rightarrow> (bool \<times> 'w) option" where
  "deliver_loop p [] topic message called w = Some (called, w)"
| "deliver_loop p (mh # mhs) topic message called w = do {
     matched \<leftarrow> (case topicFilter mh of
         None \<Rightarrow> Some False
       | Some tf \<Rightarrow> do {
           eq \<leftarrow> MQTTPacket_equals topic tf;
           if eq then Some True else isTopicMatched tf topic });
     (case (matched, fp mh) of
        (True, Some h) \<Rightarrow> deliver_loop p mhs topic message True (call_handler p h topic message w)
      | _ \<Rightarrow> deliver_loop p mhs topic message called w) }"

definition deliverMessage ::
  "('w, 'tm, 'h) port \<Rightarrow> ('tm, 'h) MQTTClient \<Rightarrow> MQTTString \<Rightarrow> MQTTMessage \<Rightarrow> 'w \<Rightarrow> (int \<times> 'w) option" where
  "deliverMessage p c topic message w = do {
     (called, w) \<leftarrow> deliver_loop p (messageHandlers c) topic message False w;
     (case (called, defaultMessageHandler c) of
        (False, Some h) \<Rightarrow> Some (SUCCESS, call_handler p h topic message w)
      | _ \<Rightarrow> Some (if called then SUCCESS else FAILURE, w)) }"

text \<open>Setting and removing a handler. \<open>find_slot\<close> is the index of the first slot with a property, or the number of slots.\<close>

fun find_slot :: "('h MessageHandlers \<Rightarrow> bool) \<Rightarrow> 'h MessageHandlers list \<Rightarrow> nat" where
  "find_slot P [] = 0"
| "find_slot P (m # ms) = (if P m then 0 else Suc (find_slot P ms))"

definition MQTTSetMessageHandler ::
  "('tm, 'h) MQTTClient \<Rightarrow> bytes \<Rightarrow> 'h option \<Rightarrow> int \<times> ('tm, 'h) MQTTClient" where
  "MQTTSetMessageHandler c tf handler = (
     let hs = messageHandlers c;
         i = find_slot (\<lambda>m. topicFilter m = Some tf) hs;
         rc = (if i < length hs then SUCCESS else FAILURE)
     in case handler of
          None \<Rightarrow>
            (if i < length hs
             then (rc, c\<lparr>messageHandlers := hs[i := (hs ! i)\<lparr>topicFilter := None, fp := None\<rparr>]\<rparr>)
             else (rc, c))
        | Some h \<Rightarrow>
            (let j = (if i < length hs then i else find_slot (\<lambda>m. topicFilter m = None) hs);
                 rc = (if j < length hs then SUCCESS else rc)
             in if j < length hs
                then (rc, c\<lparr>messageHandlers := hs[j := (hs ! j)\<lparr>topicFilter := Some tf, fp := Some h\<rparr>]\<rparr>)
                else (rc, c)))"

section \<open>The code: sessions\<close>

definition keepalive ::
  "('w, 'tm, 'h) port \<Rightarrow> ('tm, 'h) MQTTClient \<Rightarrow> 'w \<Rightarrow> (int \<times> ('tm, 'h) MQTTClient \<times> 'w) option" where
  "keepalive p c w =
     (if c_keepAliveInterval c = 0 then Some (SUCCESS, c, w)
      else (case TimerIsExpired p (last_sent c) w of (expired, t, w) \<Rightarrow>
        (let c = c\<lparr>last_sent := t\<rparr>;
             (expired, c, w) =
               (if expired then (True, c, w)
                else (case TimerIsExpired p (last_received c) w of (expired, t, w) \<Rightarrow>
                        (expired, c\<lparr>last_received := t\<rparr>, w)))
         in if \<not> expired then Some (SUCCESS, c, w)
            else if ping_outstanding c then Some (FAILURE, c, w)
            else (case TimerCountdownMS p 1000 w of (timer, w) \<Rightarrow> do {
              (len, b) \<leftarrow> MQTTSerialize_pingreq (buf c) (int (length (buf c)));
              let c = c\<lparr>buf := b\<rparr>;
              if len > 0 then do {
                (rc, c, timer, w) \<leftarrow> sendPacket p c len timer w;
                Some (rc, if rc = SUCCESS then c\<lparr>ping_outstanding := True\<rparr> else c, w) }
              else Some (SUCCESS, c, w) }))))"

definition MQTTCleanSession :: "('tm, 'h) MQTTClient \<Rightarrow> ('tm, 'h) MQTTClient" where
  "MQTTCleanSession c = c\<lparr>messageHandlers := map (\<lambda>m. m\<lparr>topicFilter := None\<rparr>) (messageHandlers c)\<rparr>"

definition MQTTCloseSession :: "('tm, 'h) MQTTClient \<Rightarrow> ('tm, 'h) MQTTClient" where
  "MQTTCloseSession c = (
     let c = c\<lparr>ping_outstanding := False, isconnected := False\<rparr>
     in if c_cleansession c \<noteq> 0 then MQTTCleanSession c else c)"

definition MQTTIsConnected :: "('tm, 'h) MQTTClient \<Rightarrow> bool" where
  "MQTTIsConnected c = isconnected c"

section \<open>The code: the packet cycle\<close>

text \<open>
  The cases of the switch in \<^verbatim>\<open>cycle\<close>. The result is \<^verbatim>\<open>rc\<close> and whether the code after the switch is reached;
  otherwise it has jumped to \<^verbatim>\<open>exit\<close>.
\<close>

definition cycle_publish ::
  "('w, 'tm, 'h) port \<Rightarrow> ('tm, 'h) MQTTClient \<Rightarrow> 'tm Timer \<Rightarrow> 'w
    \<Rightarrow> (int \<times> bool \<times> ('tm, 'h) MQTTClient \<times> 'tm Timer \<times> 'w) option" where
  "cycle_publish p c timer w = do {
     (ok, r) \<leftarrow> MQTTDeserialize_publish \<lparr>p_dup = 0, p_qos = 0, p_retained = 0, p_packetid = 0,
         p_topic = MQTTString_initializer, p_payload = 0, p_payloadlen = 0\<rparr> (readbuf c);
     if ok \<noteq> 1 then Some (SUCCESS, False, c, timer, w)
     else do {
       let msg = \<lparr>m_qos = p_qos r, m_retained = p_retained r, m_dup = p_dup r, m_id = p_packetid r,
                  m_payload = drop (p_payload r) (readbuf c), m_payloadlen = of_int (p_payloadlen r)\<rparr>;
       (_, w) \<leftarrow> deliverMessage p c (p_topic r) msg w;
       if m_qos msg = 0 then Some (SUCCESS, True, c, timer, w)
       else do {
         (len, b) \<leftarrow> (if m_qos msg = 1 then MQTTSerialize_ack (buf c) (int (length (buf c))) PUBACK 0 (m_id msg)
                      else if m_qos msg = 2 then MQTTSerialize_ack (buf c) (int (length (buf c))) PUBREC 0 (m_id msg)
                      else Some (0, buf c));
         let c = c\<lparr>buf := b\<rparr>;
         (rc, c, timer, w) \<leftarrow> (if len \<le> 0 then Some (FAILURE, c, timer, w) else sendPacket p c len timer w);
         Some (rc, rc \<noteq> FAILURE, c, timer, w) } } }"

definition cycle_pubrec ::
  "('w, 'tm, 'h) port \<Rightarrow> int \<Rightarrow> ('tm, 'h) MQTTClient \<Rightarrow> 'tm Timer \<Rightarrow> 'w
    \<Rightarrow> (int \<times> bool \<times> ('tm, 'h) MQTTClient \<times> 'tm Timer \<times> 'w) option" where
  "cycle_pubrec p packet_type c timer w = do {
     (ok, r) \<leftarrow> MQTTDeserialize_ack \<lparr>a_type = 0, a_dup = 0, a_packetid = 0\<rparr> (readbuf c);
     if ok \<noteq> 1 then Some (FAILURE, False, c, timer, w)
     else do {
       (len, b) \<leftarrow> MQTTSerialize_ack (buf c) (int (length (buf c)))
           (if packet_type = uint PUBREC then PUBREL else PUBCOMP) 0 (a_packetid r);
       let c = c\<lparr>buf := b\<rparr>;
       if len \<le> 0 then Some (FAILURE, False, c, timer, w)
       else do {
         (rc, c, timer, w) \<leftarrow> sendPacket p c len timer w;
         if rc \<noteq> SUCCESS then Some (FAILURE, False, c, timer, w) else Some (rc, True, c, timer, w) } } }"

definition cycle_switch ::
  "('w, 'tm, 'h) port \<Rightarrow> int \<Rightarrow> ('tm, 'h) MQTTClient \<Rightarrow> 'tm Timer \<Rightarrow> 'w
    \<Rightarrow> (int \<times> bool \<times> ('tm, 'h) MQTTClient \<times> 'tm Timer \<times> 'w) option" where
  "cycle_switch p packet_type c timer w =
     (if packet_type \<in> {0, uint CONNACK, uint PUBACK, uint SUBACK, uint UNSUBACK, uint PUBCOMP}
      then Some (SUCCESS, True, c, timer, w)
      else if packet_type = uint PUBLISH then cycle_publish p c timer w
      else if packet_type = uint PUBREC \<or> packet_type = uint PUBREL then cycle_pubrec p packet_type c timer w
      else if packet_type = uint PINGRESP then Some (SUCCESS, True, c\<lparr>ping_outstanding := False\<rparr>, timer, w)
      else Some (packet_type, False, c, timer, w))"

definition cycle ::
  "('w, 'tm, 'h) port \<Rightarrow> ('tm, 'h) MQTTClient \<Rightarrow> 'tm Timer \<Rightarrow> 'w
    \<Rightarrow> (int \<times> ('tm, 'h) MQTTClient \<times> 'tm Timer \<times> 'w) option" where
  "cycle p c timer w = do {
     (packet_type, c, timer, w) \<leftarrow> readPacket p c timer w;
     (rc, go, c, timer, w) \<leftarrow> cycle_switch p packet_type c timer w;
     (rc, c, w) \<leftarrow> (if go then do {
                      (k, c, w) \<leftarrow> keepalive p c w;
                      Some (if k \<noteq> SUCCESS then FAILURE else rc, c, w) }
                    else Some (rc, c, w));
     if rc = SUCCESS then Some (packet_type, c, timer, w)
     else Some (rc, if isconnected c then MQTTCloseSession c else c, timer, w) }"

partial_function (option) yield_loop ::
  "('w, 'tm, 'h) port \<Rightarrow> ('tm, 'h) MQTTClient \<Rightarrow> 'tm Timer \<Rightarrow> 'w \<Rightarrow> (int \<times> ('tm, 'h) MQTTClient \<times> 'w) option" where
  "yield_loop p c timer w = do {
     (rc, c, timer, w) \<leftarrow> cycle p c timer w;
     if rc < 0 then Some (FAILURE, c, w)
     else (case TimerIsExpired p timer w of (expired, timer, w) \<Rightarrow>
             if expired then Some (SUCCESS, c, w) else yield_loop p c timer w) }"

definition MQTTYield ::
  "('w, 'tm, 'h) port \<Rightarrow> ('tm, 'h) MQTTClient \<Rightarrow> u32 \<Rightarrow> 'w \<Rightarrow> (int \<times> ('tm, 'h) MQTTClient \<times> 'w) option" where
  "MQTTYield p c timeout_ms w = (case TimerCountdownMS p timeout_ms w of (timer, w) \<Rightarrow> yield_loop p c timer w)"

text \<open>One turn of the endless loop of \<^verbatim>\<open>MQTTRun\<close>.\<close>

definition MQTTRun_turn ::
  "('w, 'tm, 'h) port \<Rightarrow> ('tm, 'h) MQTTClient \<Rightarrow> 'w \<Rightarrow> (('tm, 'h) MQTTClient \<times> 'w) option" where
  "MQTTRun_turn p c w =
     (if isconnected c
      then (case TimerCountdownMS p 50 w of (timer, w) \<Rightarrow> do { (_, c, _, w) \<leftarrow> cycle p c timer w; Some (c, w) })
      else Some (c, w))"

partial_function (option) waitfor_loop ::
  "('w, 'tm, 'h) port \<Rightarrow> int \<Rightarrow> int \<Rightarrow> ('tm, 'h) MQTTClient \<Rightarrow> 'tm Timer \<Rightarrow> 'w
    \<Rightarrow> (int \<times> ('tm, 'h) MQTTClient \<times> 'tm Timer \<times> 'w) option" where
  "waitfor_loop p packet_type rc c timer w =
     (case TimerIsExpired p timer w of (expired, timer, w) \<Rightarrow>
        if expired then Some (rc, c, timer, w)
        else do {
          (rc, c, timer, w) \<leftarrow> cycle p c timer w;
          if rc \<noteq> packet_type \<and> rc \<ge> 0 then waitfor_loop p packet_type rc c timer w
          else Some (rc, c, timer, w) })"

definition waitfor ::
  "('w, 'tm, 'h) port \<Rightarrow> ('tm, 'h) MQTTClient \<Rightarrow> u8 \<Rightarrow> 'tm Timer \<Rightarrow> 'w
    \<Rightarrow> (int \<times> ('tm, 'h) MQTTClient \<times> 'tm Timer \<times> 'w) option" where
  "waitfor p c packet_type timer w = waitfor_loop p (uint packet_type) FAILURE c timer w"

section \<open>The code: connecting\<close>

text \<open>\<open>data\<close> is the session-present flag and the return code of the caller's \<^verbatim>\<open>MQTTConnackData\<close>.\<close>

definition MQTTConnectWithResults ::
  "('w, 'tm, 'h) port \<Rightarrow> ('tm, 'h) MQTTClient \<Rightarrow> MQTTPacket_connectData option \<Rightarrow> (u8 \<times> u8) \<Rightarrow> 'w
    \<Rightarrow> (int \<times> (u8 \<times> u8) \<times> ('tm, 'h) MQTTClient \<times> 'w) option" where
  "MQTTConnectWithResults p c options_ptr data w =
     (if isconnected c then Some (FAILURE, data, c, w)
      else (case TimerCountdownMS p (command_timeout_ms c) w of (connect_timer, w) \<Rightarrow>
        (let options = (case options_ptr of Some d \<Rightarrow> d | None \<Rightarrow> MQTTPacket_connectData_initializer);
             c = c\<lparr>c_keepAliveInterval := ucast (keepAliveInterval options),
                   c_cleansession := uint (cleansession options)\<rparr>
         in (case TimerCountdown p (c_keepAliveInterval c) w of (t, w) \<Rightarrow> do {
           let c = c\<lparr>last_received := t\<rparr>;
           (len, b) \<leftarrow> MQTTSerialize_connect (buf c) (int (length (buf c))) options;
           let c = c\<lparr>buf := b\<rparr>;
           if len \<le> 0 then Some (FAILURE, data, c, w)
           else do {
             (rc, c, timer, w) \<leftarrow> sendPacket p c len connect_timer w;
             if rc \<noteq> SUCCESS then Some (rc, data, c, w)
             else do {
               (r, c, timer, w) \<leftarrow> waitfor p c CONNACK timer w;
               (rc, data) \<leftarrow>
                 (if r = uint CONNACK then do {
                    (ok, sp, crc) \<leftarrow> MQTTDeserialize_connack (0, 0) (readbuf c);
                    Some (if ok = 1 then uint crc else FAILURE, (sp, crc)) }
                  else Some (FAILURE, data));
               if rc = SUCCESS
               then Some (rc, data, c\<lparr>isconnected := True, ping_outstanding := False\<rparr>, w)
               else Some (rc, data, c, w) } } }))))"

definition MQTTConnect ::
  "('w, 'tm, 'h) port \<Rightarrow> ('tm, 'h) MQTTClient \<Rightarrow> MQTTPacket_connectData option \<Rightarrow> 'w
    \<Rightarrow> (int \<times> ('tm, 'h) MQTTClient \<times> 'w) option" where
  "MQTTConnect p c options w = do {
     (rc, _, c, w) \<leftarrow> MQTTConnectWithResults p c options (0, 0) w;
     Some (rc, c, w) }"

section \<open>The code: subscribing and publishing\<close>

text \<open>The code at the label \<^verbatim>\<open>exit\<close> of these operations.\<close>

definition close_on_failure :: "int \<Rightarrow> ('tm, 'h) MQTTClient \<Rightarrow> ('tm, 'h) MQTTClient" where
  "close_on_failure rc c = (if rc = FAILURE then MQTTCloseSession c else c)"

definition c_topic :: "bytes \<Rightarrow> MQTTString" where
  "c_topic t = \<lparr>cstring = Some t, ls_len = 0, ls_data = None\<rparr>"

text \<open>The third component of the result is the caller's \<^verbatim>\<open>data->grantedQoS\<close>.\<close>

definition MQTTSubscribeWithResults ::
  "('w, 'tm, 'h) port \<Rightarrow> ('tm, 'h) MQTTClient \<Rightarrow> bytes \<Rightarrow> int \<Rightarrow> 'h option \<Rightarrow> int \<Rightarrow> 'w
    \<Rightarrow> (int \<times> int \<times> ('tm, 'h) MQTTClient \<times> 'w) option" where
  "MQTTSubscribeWithResults p c tf qos handler granted w =
     (if \<not> isconnected c then Some (FAILURE, granted, close_on_failure FAILURE c, w)
      else (case TimerCountdownMS p (command_timeout_ms c) w of (timer, w) \<Rightarrow>
           (case getNextPacketId c of (pid, c) \<Rightarrow> do {
        (len, b) \<leftarrow> MQTTSerialize_subscribe (buf c) (int (length (buf c))) 0 pid [(c_topic tf, qos)];
        let c = c\<lparr>buf := b\<rparr>;
        if len \<le> 0 then Some (FAILURE, granted, close_on_failure FAILURE c, w)
        else do {
          (rc, c, timer, w) \<leftarrow> sendPacket p c len timer w;
          if rc \<noteq> SUCCESS then Some (rc, granted, close_on_failure rc c, w)
          else do {
            (r, c, timer, w) \<leftarrow> waitfor p c SUBACK timer w;
            if r = uint SUBACK then do {
              (ok, _, _, qs) \<leftarrow> MQTTDeserialize_suback 0 1 0 [0] (readbuf c);
              let (rc, c) = (if ok = 1 \<and> hd qs \<noteq> 0x80 then MQTTSetMessageHandler c tf handler else (rc, c));
              Some (rc, hd qs, close_on_failure rc c, w) }
            else Some (FAILURE, granted, close_on_failure FAILURE c, w) } } })))"

definition MQTTSubscribe ::
  "('w, 'tm, 'h) port \<Rightarrow> ('tm, 'h) MQTTClient \<Rightarrow> bytes \<Rightarrow> int \<Rightarrow> 'h option \<Rightarrow> 'w
    \<Rightarrow> (int \<times> ('tm, 'h) MQTTClient \<times> 'w) option" where
  "MQTTSubscribe p c tf qos handler w = do {
     (rc, _, c, w) \<leftarrow> MQTTSubscribeWithResults p c tf qos handler 0 w;
     Some (rc, c, w) }"

definition MQTTUnsubscribe ::
  "('w, 'tm, 'h) port \<Rightarrow> ('tm, 'h) MQTTClient \<Rightarrow> bytes \<Rightarrow> 'w \<Rightarrow> (int \<times> ('tm, 'h) MQTTClient \<times> 'w) option" where
  "MQTTUnsubscribe p c tf w =
     (if \<not> isconnected c then Some (FAILURE, close_on_failure FAILURE c, w)
      else (case TimerCountdownMS p (command_timeout_ms c) w of (timer, w) \<Rightarrow>
           (case getNextPacketId c of (pid, c) \<Rightarrow> do {
        (len, b) \<leftarrow> MQTTSerialize_unsubscribe (buf c) (int (length (buf c))) 0 pid [c_topic tf];
        let c = c\<lparr>buf := b\<rparr>;
        if len \<le> 0 then Some (FAILURE, close_on_failure FAILURE c, w)
        else do {
          (rc, c, timer, w) \<leftarrow> sendPacket p c len timer w;
          if rc \<noteq> SUCCESS then Some (rc, close_on_failure rc c, w)
          else do {
            (r, c, timer, w) \<leftarrow> waitfor p c UNSUBACK timer w;
            if r = uint UNSUBACK then do {
              (ok, _) \<leftarrow> MQTTDeserialize_unsuback 0 (readbuf c);
              let c = (if ok = 1 then snd (MQTTSetMessageHandler c tf None) else c);
              Some (rc, close_on_failure rc c, w) }
            else Some (FAILURE, close_on_failure FAILURE c, w) } } })))"

text \<open>The message is the caller's and gets its packet identifier here.\<close>

definition MQTTPublish ::
  "('w, 'tm, 'h) port \<Rightarrow> ('tm, 'h) MQTTClient \<Rightarrow> bytes \<Rightarrow> MQTTMessage \<Rightarrow> 'w
    \<Rightarrow> (int \<times> MQTTMessage \<times> ('tm, 'h) MQTTClient \<times> 'w) option" where
  "MQTTPublish p c topic message w =
     (if \<not> isconnected c then Some (FAILURE, message, close_on_failure FAILURE c, w)
      else (case TimerCountdownMS p (command_timeout_ms c) w of (timer, w) \<Rightarrow>
           (case (if m_qos message = 1 \<or> m_qos message = 2
                  then (case getNextPacketId c of (pid, c) \<Rightarrow> (message\<lparr>m_id := pid\<rparr>, c)) else (message, c)) of
              (message, c) \<Rightarrow> do {
        (len, b) \<leftarrow> MQTTSerialize_publish (buf c) (int (length (buf c))) 0 (m_qos message) (m_retained message)
            (m_id message) (c_topic topic) (m_payload message) (sint (m_payloadlen message));
        let c = c\<lparr>buf := b\<rparr>;
        if len \<le> 0 then Some (FAILURE, message, close_on_failure FAILURE c, w)
        else do {
          (rc, c, timer, w) \<leftarrow> sendPacket p c len timer w;
          if rc \<noteq> SUCCESS then Some (rc, message, close_on_failure rc c, w)
          else if m_qos message = 1 \<or> m_qos message = 2 then do {
            let ack = (if m_qos message = 1 then PUBACK else PUBCOMP);
            (r, c, timer, w) \<leftarrow> waitfor p c ack timer w;
            rc \<leftarrow> (if r = uint ack then do {
                     (ok, _) \<leftarrow> MQTTDeserialize_ack \<lparr>a_type = 0, a_dup = 0, a_packetid = 0\<rparr> (readbuf c);
                     Some (if ok \<noteq> 1 then FAILURE else rc) }
                   else Some FAILURE);
            Some (rc, message, close_on_failure rc c, w) }
          else Some (rc, message, close_on_failure rc c, w) } })))"

definition MQTTDisconnect ::
  "('w, 'tm, 'h) port \<Rightarrow> ('tm, 'h) MQTTClient \<Rightarrow> 'w \<Rightarrow> (int \<times> ('tm, 'h) MQTTClient \<times> 'w) option" where
  "MQTTDisconnect p c w =
     (case TimerCountdownMS p (command_timeout_ms c) w of (timer, w) \<Rightarrow> do {
        (len, b) \<leftarrow> MQTTSerialize_disconnect (buf c) (int (length (buf c)));
        let c = c\<lparr>buf := b\<rparr>;
        (rc, c, timer, w) \<leftarrow> (if len > 0 then sendPacket p c len timer w else Some (FAILURE, c, timer, w));
        Some (rc, MQTTCloseSession c, w) })"

end
