(* ===== verification/MQTT_Serialize_Proofs.thy ===== *)
theory MQTT_Serialize_Proofs
  imports MQTT_Packet_Proofs MQTT_Serialize
begin

text \<open>
  What the serialisers write is read back by the deserialisers; serialisers stay within the announced length of
  the buffer, except for the short acknowledgements.
\<close>

section \<open>Publish\<close>

lemma MQTTPacket_len_bound:
  assumes "0 \<le> n" "n < 268435456"
  shows "1 + int (length (encode_digits n)) + n \<le> MQTTPacket_len n"
  using length_encode_digits [OF assms] assms by (simp add: MQTTPacket_len_def Let_def)

lemma finish_packet_emit:
  "finish_packet (emit e (buf, 0)) =
     (if length e \<le> length buf then Some (int (length e), e @ drop (length e) buf) else None)"
  by (simp add: finish_packet_def emit_Some)

lemma write_header_emit: "write_header h n = emit (header_byte h # encode_digits n)"
  by (simp add: fun_eq_iff write_header_def writeChar_emit encode_emit emit_bind)

lemma header_of_byte:
  "h_type (header_of (header_byte h)) = h_type h AND 15" "h_dup (header_of (header_byte h)) = h_dup h AND 1"
  "h_qos (header_of (header_byte h)) = h_qos h AND 3" "h_retain (header_of (header_byte h)) = h_retain h AND 1"
  by (auto simp: header_of_def header_byte_def bit_simps simp del: push_bit_Suc intro!: u8_eqI)

lemma starts_0: "starts (e @ r) 0 e" "starts (e @ r) 0 (e @ []) "
  by (simp_all add: starts_def)

lemma copy_payload_emit:
  "n \<le> length payload \<Longrightarrow> copy_payload payload (int n) = emit (take n payload)"
  by (auto simp: fun_eq_iff copy_payload_def emit_def mem_read_def)

lemma msg_types_nibble [simp]: "CONNECT AND 15 = CONNECT" "CONNACK AND 15 = CONNACK" "PUBLISH AND 15 = PUBLISH" "SUBSCRIBE AND 15 = SUBSCRIBE"
 "SUBACK AND 15 = SUBACK" "UNSUBSCRIBE AND 15 = UNSUBSCRIBE" "UNSUBACK AND 15 = UNSUBACK"
  by (simp_all add: msg_types)

definition publish_enc :: "u8 \<Rightarrow> int \<Rightarrow> u8 \<Rightarrow> u16 \<Rightarrow> MQTTString \<Rightarrow> bytes \<Rightarrow> bytes" where
  "publish_enc dup qos retained packetid topic payload =
     header_byte \<lparr>h_type = PUBLISH, h_dup = dup, h_qos = of_int qos, h_retain = retained\<rparr> #
     encode_digits (MQTTSerialize_publishLength qos topic (int (length payload))) @
     str_enc topic @ (if qos > 0 then int_bytes (uint packetid) else []) @ payload"

lemma MQTTSerialize_publish_eq:
  assumes "str_wf topic" "n \<le> length payload" "MQTTPacket_len (MQTTSerialize_publishLength qos topic (int n)) \<le> buflen"
  shows "MQTTSerialize_publish buf buflen dup qos retained packetid topic payload (int n) =
    finish_packet (emit (publish_enc dup qos retained packetid topic (take n payload)) (buf, 0))"
  using assms by (simp add: MQTTSerialize_publish_def Let_def write_header_emit writeMQTTString_emit writeInt_emit emit_bind
      copy_payload_emit publish_enc_def)

lemma publishLength_enc:
  assumes "str_wf topic"
  shows "MQTTSerialize_publishLength qos topic (int (length payload)) =
    int (length (str_enc topic @ (if qos > 0 then int_bytes (uint packetid) else []) @ payload))"
  using assms by (simp add: MQTTSerialize_publishLength_def MQTTstrlen_bytes str_enc_def)

text \<open>Reading the common start of a packet.\<close>

lemma read_start:
  assumes "starts buf 0 (header_byte h # encode_digits n @ body)" "0 \<le> n" "n < 268435456"
  shows "readChar buf 0 = Some (header_byte h, 1)"
    "MQTTPacket_decodeBuf buf 1 = Some (int (length (encode_digits n)), n)"
    "MQTTPacket_decodeBuf buf (Suc 0) = Some (int (length (encode_digits n)), n)"
    "starts buf (Suc (length (encode_digits n))) body"
  using assms by (simp_all add: starts_Cons starts_append readChar_def decodeBuf_digits)

lemma MQTTDeserialize_publish_enc:
  assumes "str_ok topic" "qos \<in> {0, 1, 2}" "starts buf 0 (publish_enc dup qos retained packetid topic payload)"
    and len: "MQTTSerialize_publishLength qos topic (int (length payload)) < 268435456"
  shows "\<exists>r. MQTTDeserialize_publish r0 buf = Some (1, r) \<and> p_dup r = dup AND 1 \<and> p_qos r = qos \<and>
    p_retained r = retained AND 1 \<and> (qos > 0 \<longrightarrow> p_packetid r = packetid) \<and> p_topic r = str_view topic \<and>
    p_payloadlen r = int (length payload) \<and> take (length payload) (drop (p_payload r) buf) = payload"
proof -
  define h where "h = \<lparr>h_type = PUBLISH, h_dup = dup, h_qos = of_int qos, h_retain = retained\<rparr>"
  define n where "n = MQTTSerialize_publishLength qos topic (int (length payload))"
  define pid where "pid = (if qos > 0 then int_bytes (uint packetid) else [])"
  define body where "body = str_enc topic @ pid @ payload"
  have wf: "str_wf topic" using assms(1) by (simp add: str_ok_def)
  have n: "n = int (length body)" unfolding n_def body_def pid_def by (rule publishLength_enc [OF wf])
  have "starts buf 0 (header_byte h # encode_digits n @ body)"
    using assms(3) by (simp add: publish_enc_def h_def n_def pid_def body_def)
  note start = read_start [OF this _ len [folded n_def]]
  let ?k = "Suc (length (encode_digits n))"
  have st: "starts buf ?k (str_enc topic)" "starts buf (?k + length (str_enc topic)) pid"
    "starts buf (?k + length (str_enc topic) + length pid) payload"
    using start(4) n by (simp_all add: body_def starts_append)
  have topic: "readMQTTLenString buf old ?k (int ?k + n) = Some (True, str_view topic, ?k + length (str_enc topic))" for old
    using readString_starts [OF assms(1) st(1), of "int ?k + n"] n by (simp add: body_def)
  have qos: "uint (of_int qos AND 3 :: u8) = qos" using assms(2) by auto
  have pidr: "qos > 0 \<Longrightarrow> readInt buf (?k + length (str_enc topic)) = Some (uint packetid, ?k + length (str_enc topic) + 2)"
    using st(2) uint_lt2p [of packetid] by (intro readInt_starts) (auto simp: pid_def)
  have start': "readChar buf 0 = Some (header_byte h, 1)" 
    "MQTTPacket_decodeBuf buf (Suc 0) = Some (int (length (encode_digits n)), n)" using start n by auto
  show ?thesis
    unfolding MQTTDeserialize_publish_def Let_def
    using topic [of "p_topic r0"] pidr st(3) n qos
    by (cases "qos > 0") (simp_all add: start' header_of_byte h_def body_def pid_def starts_def )
qed

lemma length_publish_enc:
  assumes "str_wf topic"
  shows "int (length (publish_enc dup qos retained packetid topic payload)) =
    1 + int (length (encode_digits (MQTTSerialize_publishLength qos topic (int (length payload))))) +
    MQTTSerialize_publishLength qos topic (int (length payload))"
  using publishLength_enc [OF assms, of qos payload packetid] by (simp add: publish_enc_def)

text \<open>C19: A message serialised for publishing fits the announced buffer length, changes nothing behind the packet, and
  is read back with its flags, packet identifier, topic and payload; when the packet does not fit, the
  buffer is left alone.\<close>

theorem mqtt_publish_roundtrip:
  assumes "str_ok topic" "n \<le> length payload" "qos \<in> {0, 1, 2}" "MQTTSerialize_publishLength qos topic (int n) < 268435456"
    and "buflen \<le> int (length buf)"
  shows "if MQTTPacket_len (MQTTSerialize_publishLength qos topic (int n)) > buflen
    then MQTTSerialize_publish buf buflen dup qos retained packetid topic payload (int n) =
           Some (MQTTPACKET_BUFFER_TOO_SHORT, buf)
    else \<exists>k buf' r. MQTTSerialize_publish buf buflen dup qos retained packetid topic payload (int n) = Some (int k, buf') \<and>
      0 < k \<and> int k \<le> buflen \<and> length buf' = length buf \<and> drop k buf' = drop k buf \<and>
      MQTTDeserialize_publish r0 buf' = Some (1, r) \<and>
      p_dup r = dup AND 1 \<and> p_qos r = qos \<and> p_retained r = retained AND 1 \<and>
      (qos > 0 \<longrightarrow> p_packetid r = packetid) \<and> str_bytes (p_topic r) = str_bytes topic \<and>
      p_payloadlen r = int n \<and> take n (drop (p_payload r) buf') = take n payload"
proof (cases "MQTTPacket_len (MQTTSerialize_publishLength qos topic (int n)) > buflen")
  case True
  then show ?thesis by (simp add: MQTTSerialize_publish_def)
next
  case False
  have wf: "str_wf topic" using assms(1) by (simp add: str_ok_def)
  let ?e = "publish_enc dup qos retained packetid topic (take n payload)"
  have n: "length (take n payload) = n" using assms(2) by simp
  have pos: "0 \<le> MQTTSerialize_publishLength qos topic (int n)" using publishLength_enc [OF wf, of qos "take n payload" packetid]
    unfolding n by linarith
  have len: "int (length ?e) \<le> MQTTPacket_len (MQTTSerialize_publishLength qos topic (int n))"
    using length_publish_enc [OF wf, of dup qos retained packetid "take n payload"]
      MQTTPacket_len_bound [OF pos assms(4)] n by simp
  with False assms(5) have fits: "int (length ?e) \<le> buflen" "length ?e \<le> length buf" by simp_all
  have ser: "MQTTSerialize_publish buf buflen dup qos retained packetid topic payload (int n) =
      Some (int (length ?e), ?e @ drop (length ?e) buf)"
    using False fits(2) by (simp add: MQTTSerialize_publish_eq [OF wf assms(2)] finish_packet_emit)
  have "starts (?e @ drop (length ?e) buf) 0 ?e" by (rule starts_0)
  from MQTTDeserialize_publish_enc [OF assms(1,3) this, of r0] assms(4) n
  obtain r where "MQTTDeserialize_publish r0 (?e @ drop (length ?e) buf) = Some (1, r)"
    "p_dup r = dup AND 1" "p_qos r = qos" "p_retained r = retained AND 1" "qos > 0 \<longrightarrow> p_packetid r = packetid"
    "p_topic r = str_view topic" "p_payloadlen r = int n" "take n (drop (p_payload r) (?e @ drop (length ?e) buf)) = take n payload"
    by auto
  moreover have "0 < length ?e" by (simp add: publish_enc_def)
  ultimately have "\<exists>k buf' r. MQTTSerialize_publish buf buflen dup qos retained packetid topic payload (int n) = Some (int k, buf') \<and>
      0 < k \<and> int k \<le> buflen \<and> length buf' = length buf \<and> drop k buf' = drop k buf \<and>
      MQTTDeserialize_publish r0 buf' = Some (1, r) \<and>
      p_dup r = dup AND 1 \<and> p_qos r = qos \<and> p_retained r = retained AND 1 \<and>
      (qos > 0 \<longrightarrow> p_packetid r = packetid) \<and> str_bytes (p_topic r) = str_bytes topic \<and>
      p_payloadlen r = int n \<and> take n (drop (p_payload r) buf') = take n payload"
    using fits by (intro exI [of _ "length ?e"] exI [of _ "?e @ drop (length ?e) buf"] exI [of _ r]) (simp add: ser)
  with False show ?thesis by simp
qed

theorem mqtt_publish_roundtrip_witness:
  "\<exists>k buf' r. MQTTSerialize_publish (replicate 20 0) 20 0 1 0 7
      \<lparr>cstring = Some (bytes_of ''t/1''), ls_len = 0, ls_data = None\<rparr> [104, 105] 2 = Some (int k, buf') \<and>
    MQTTDeserialize_publish \<lparr>p_dup = 0, p_qos = 0, p_retained = 0, p_packetid = 0, p_topic = MQTTString_initializer,
      p_payload = 0, p_payloadlen = 0\<rparr> buf' = Some (1, r) \<and> p_packetid r = 7 \<and>
    take 2 (drop (p_payload r) buf') = [104, 105]"
proof -
  let ?t = "\<lparr>cstring = Some (bytes_of ''t/1''), ls_len = 0, ls_data = None\<rparr>"
  let ?r = "\<lparr>p_dup = 0, p_qos = 0, p_retained = 0, p_packetid = 0, p_topic = MQTTString_initializer,
      p_payload = 0, p_payloadlen = 0\<rparr>"
  have "str_ok ?t" by (simp add: str_ok_def str_wf_def str_bytes_def)
  moreover have len: "MQTTSerialize_publishLength 1 ?t (int 2) = 9"
    by (simp add: MQTTSerialize_publishLength_def MQTTstrlen_def)
  moreover have "\<not> MQTTPacket_len 9 > 20" by (simp add: MQTTPacket_len_def)
  ultimately show ?thesis
    using mqtt_publish_roundtrip [of ?t 2 "[104, 105]" 1 20 "replicate 20 0" 0 0 7 ?r]
    by (simp only: len) auto
qed

section \<open>Subscribe\<close>

lemma write_filters_put: "write_filters fs = put_list put_filter fs"
proof (induction fs)
  case (Cons f fs)
  then show ?case by (cases f) (intro ext, simp add: put_filter_def)
qed (intro ext, simp)

lemma write_topics_put: "write_topics ts = put_list writeMQTTString ts"
  by (induction ts) (intro ext, simp)+

definition filters_enc :: "(MQTTString \<times> int) list \<Rightarrow> bytes" where
  "filters_enc fs = concat (map filter_enc fs)"

lemma subscribeLength_enc:
  "\<forall>f \<in> set fs. filter_ok f \<Longrightarrow> MQTTSerialize_subscribeLength (map fst fs) = 2 + int (length (filters_enc fs))"
  by (induction fs) (auto simp: filters_enc_def filter_enc_def filter_ok_def str_ok_def str_enc_def MQTTstrlen_bytes)

lemma subscribe_loop_filters:
  assumes "\<forall>f \<in> set fs. filter_ok f" "starts buf cur (filters_enc fs)"
    "length (s_topics r) = maxcount" "length (s_qos r) = maxcount" "s_count r + length fs \<le> maxcount"
  shows "\<exists>r'. subscribe_loop buf cur (int cur + int (length (filters_enc fs))) (int maxcount) r = Some (1, r') \<and>
    s_dup r' = s_dup r \<and> s_packetid r' = s_packetid r \<and> s_count r' = s_count r + length fs \<and>
    take (s_count r') (s_topics r') = take (s_count r) (s_topics r) @ map (str_view \<circ> fst) fs \<and>
    take (s_count r') (s_qos r') = take (s_count r) (s_qos r) @ map snd fs"
  using assms
proof (induction fs arbitrary: cur r)
  case Nil
  then show ?case by (simp add: filters_enc_def subscribe_loop.simps)
next
  case (Cons f fs)
  let ?n = "length (filters_enc fs)" and ?e = "length (str_enc (fst f))"
  define E where "E = int cur + int (length (filters_enc (f # fs)))"
  have ok: "str_ok (fst f)" "0 \<le> snd f" "snd f < 256" using Cons.prems(1) by (auto simp: filter_ok_def)
  have st: "starts buf cur (str_enc (fst f))" "starts buf (cur + ?e) [of_int (snd f)]"
    "starts buf (cur + ?e + 1) (filters_enc fs)"
  proof -
    have "filters_enc (f # fs) = str_enc (fst f) @ [of_int (snd f)] @ filters_enc fs"
      by (simp add: filters_enc_def filter_enc_def)
    with Cons.prems(2) have "starts buf cur (str_enc (fst f) @ [of_int (snd f)] @ filters_enc fs)" by (simp only:)
    then show "starts buf cur (str_enc (fst f))" "starts buf (cur + ?e) [of_int (snd f)]"
      "starts buf (cur + ?e + 1) (filters_enc fs)"
      by (simp_all only: starts_append) simp
  qed
  have enddata: "E = int (cur + ?e + 1) + int ?n" by (simp add: E_def filters_enc_def filter_enc_def)
  then have lt: "int cur < E" "int (cur + ?e) < E" by simp_all
  have rs: "readMQTTLenString buf old cur E = Some (True, str_view (fst f), cur + ?e)" for old
    using readString_starts [OF ok(1) st(1)] enddata by simp
  have c: "s_count r < maxcount" using Cons.prems(5) by simp
  let ?r = "r\<lparr>s_topics := (s_topics r)[s_count r := str_view (fst f)], s_qos := (s_qos r)[s_count r := snd f],
              s_count := s_count r + 1\<rparr>"
  have step: "subscribe_loop buf cur E (int maxcount) r = subscribe_loop buf (cur + ?e + 1) E (int maxcount) ?r"
    using rs readChar_starts [OF st(2)] c Cons.prems(3,4) ok lt
    by (subst subscribe_loop.simps) (simp add: mem_set_def uint_u8_of_int)
  obtain r' where "subscribe_loop buf (cur + ?e + 1) E (int maxcount) ?r = Some (1, r')"
    "s_dup r' = s_dup r" "s_packetid r' = s_packetid r" "s_count r' = s_count r + 1 + length fs"
    "take (s_count r') (s_topics r') = take (s_count r + 1) (s_topics ?r) @ map (str_view \<circ> fst) fs"
    "take (s_count r') (s_qos r') = take (s_count r + 1) (s_qos ?r) @ map snd fs"
    using Cons.IH [of "cur + ?e + 1" ?r] Cons.prems st(3) enddata by auto
  with step c Cons.prems(3,4) show ?case
    unfolding E_def by (intro exI [of _ r']) (simp add: take_update_at [simplified])
qed

definition subscribe_enc :: "u8 \<Rightarrow> u16 \<Rightarrow> (MQTTString \<times> int) list \<Rightarrow> bytes" where
  "subscribe_enc dup packetid fs =
     header_byte \<lparr>h_type = SUBSCRIBE, h_dup = dup, h_qos = 1, h_retain = 0\<rparr> #
     encode_digits (2 + int (length (filters_enc fs))) @ int_bytes (uint packetid) @ filters_enc fs"

text \<open>A packet written at the start of its buffer.\<close>

lemma packet_fits:
  assumes "length e = 1 + length (encode_digits n) + nat n" "0 \<le> n" "n < 268435456"
    "\<not> MQTTPacket_len n > buflen" "buflen \<le> int (length buf)"
  shows "finish_packet (emit e (buf, 0)) = Some (int (length e), e @ drop (length e) buf) \<and>
    int (length e) \<le> buflen \<and> length e \<le> length buf"
  using MQTTPacket_len_bound [OF assms(2,3)] assms by (simp add: finish_packet_emit)

lemma put_list_bind:
  "Option.bind (emit e (buf, 0)) (put_list put as) = emit (e @ es) (buf, 0)"
  if "\<And>s. snd s \<le> length (fst s) \<Longrightarrow> put_list put as s = emit es s"
proof (cases "emit e (buf, 0)")
  case None
  then show ?thesis using emit_bind [of e "(buf, 0)" es] by simp
next
  case (Some t)
  then have "snd t \<le> length (fst t)" by (auto simp: emit_Some split: if_splits)
  with that Some show ?thesis using emit_bind [of e "(buf, 0)" es] by simp
qed

lemma MQTTSerialize_subscribe_eq:
  assumes "\<forall>f \<in> set fs. filter_ok f" "\<not> MQTTPacket_len (2 + int (length (filters_enc fs))) > buflen"
  shows "MQTTSerialize_subscribe buf buflen dup packetid fs = finish_packet (emit (subscribe_enc dup packetid fs) (buf, 0))"
proof -
  have "\<And>s. snd s \<le> length (fst s) \<Longrightarrow> put_list put_filter fs s = emit (filters_enc fs) s"
    using wire_filter.put_list_emit assms(1) by (simp add: filters_enc_def)
  note put = put_list_bind [OF this]
  show ?thesis using assms
    by (simp add: MQTTSerialize_subscribe_def subscribeLength_enc Let_def write_header_emit writeInt_emit
        write_filters_put bind_assoc [symmetric] emit_bind put subscribe_enc_def del: bind_assoc)
qed

lemma MQTTDeserialize_subscribe_enc:
  assumes "\<forall>f \<in> set fs. filter_ok f" "starts buf 0 (subscribe_enc dup packetid fs)"
    and len: "2 + int (length (filters_enc fs)) < 268435456"
    and arrays: "length (s_topics r0) = maxcount" "length (s_qos r0) = maxcount" "length fs \<le> maxcount"
  shows "\<exists>r. MQTTDeserialize_subscribe (int maxcount) r0 buf = Some (1, r) \<and> s_dup r = dup AND 1 \<and>
    s_packetid r = packetid \<and> s_count r = length fs \<and>
    take (length fs) (s_topics r) = map (str_view \<circ> fst) fs \<and> take (length fs) (s_qos r) = map snd fs"
proof -
  let ?n = "2 + int (length (filters_enc fs))"
  let ?h = "\<lparr>h_type = SUBSCRIBE, h_dup = dup, h_qos = 1, h_retain = 0\<rparr>"
  have "starts buf 0 (header_byte ?h # encode_digits ?n @ (int_bytes (uint packetid) @ filters_enc fs))"
    using assms(2) by (simp add: subscribe_enc_def)
  note start = read_start [OF this _ len]
  let ?k = "Suc (length (encode_digits ?n))"
  have st: "starts buf ?k (int_bytes (uint packetid))" "starts buf (?k + 2) (filters_enc fs)"
    using start(4) by (simp_all add: starts_append)
  have pid: "readInt buf ?k = Some (uint packetid, ?k + 2)"
    using st(1) uint_lt2p [of packetid] by (intro readInt_starts) auto
  have pos: "0 < length (encode_digits ?n)" by (subst encode_digits.simps) (simp add: Let_def)
  let ?r = "r0\<lparr>s_dup := dup AND 1, s_packetid := packetid, s_count := 0\<rparr>"
  have "int (?k + 2) + int (length (filters_enc fs)) = int ?k + ?n" by simp
  note loop = subscribe_loop_filters [OF assms(1) st(2), of ?r maxcount, unfolded this]
  have "length (s_topics ?r) = maxcount" "length (s_qos ?r) = maxcount" "s_count ?r + length fs \<le> maxcount"
    using arrays by simp_all
  from loop [OF this] obtain r where r: "subscribe_loop buf (?k + 2) (int ?k + ?n) (int maxcount) ?r = Some (1, r)"
    "s_dup r = dup AND 1" "s_packetid r = packetid" "s_count r = length fs"
    "take (s_count r) (s_topics r) = map (str_view \<circ> fst) fs" "take (s_count r) (s_qos r) = map snd fs"
    by auto
  have "MQTTDeserialize_subscribe (int maxcount) r0 buf = Some (1, r)"
    unfolding MQTTDeserialize_subscribe_def Let_def
    using start(1,3) pid pos r(1) by (simp add: header_of_byte nat_add_distrib)
  with r show ?thesis by auto
qed

text \<open>A subscription serialised for sending fits the announced buffer length and changes nothing behind the packet, and
  the server side reads back every topic filter with its quality of service, in order, the packet
  identifier and the duplicate flag; when the packet does not fit, the buffer is left alone.\<close>

theorem mqtt_subscribe_roundtrip:
  assumes "\<forall>f \<in> set fs. filter_ok f" "2 + int (length (filters_enc fs)) < 268435456" "buflen \<le> int (length buf)"
    and "length (s_topics r0) = maxcount" "length (s_qos r0) = maxcount" "length fs \<le> maxcount"
  shows "if MQTTPacket_len (MQTTSerialize_subscribeLength (map fst fs)) > buflen
    then MQTTSerialize_subscribe buf buflen dup packetid fs = Some (MQTTPACKET_BUFFER_TOO_SHORT, buf)
    else \<exists>k buf' r. MQTTSerialize_subscribe buf buflen dup packetid fs = Some (int k, buf') \<and>
      0 < k \<and> int k \<le> buflen \<and> length buf' = length buf \<and> drop k buf' = drop k buf \<and>
      MQTTDeserialize_subscribe (int maxcount) r0 buf' = Some (1, r) \<and>
      s_dup r = dup AND 1 \<and> s_packetid r = packetid \<and> s_count r = length fs \<and>
      map str_bytes (take (length fs) (s_topics r)) = map (str_bytes \<circ> fst) fs \<and>
      take (length fs) (s_qos r) = map snd fs"
proof (cases "MQTTPacket_len (MQTTSerialize_subscribeLength (map fst fs)) > buflen")
  case True
  then show ?thesis by (simp add: MQTTSerialize_subscribe_def)
next
  case False
  let ?n = "2 + int (length (filters_enc fs))" and ?e = "subscribe_enc dup packetid fs"
  have fit: "\<not> MQTTPacket_len ?n > buflen" using False unfolding subscribeLength_enc [OF assms(1)] .
  have "length ?e = 1 + length (encode_digits ?n) + nat ?n" by (simp add: subscribe_enc_def)
  note ser = packet_fits [OF this _ assms(2) fit assms(3)]
  have eq: "MQTTSerialize_subscribe buf buflen dup packetid fs = Some (int (length ?e), ?e @ drop (length ?e) buf)"
    using MQTTSerialize_subscribe_eq [OF assms(1) fit] ser by simp
  obtain r where "MQTTDeserialize_subscribe (int maxcount) r0 (?e @ drop (length ?e) buf) = Some (1, r)" "s_dup r = dup AND 1"
    "s_packetid r = packetid" "s_count r = length fs" "take (length fs) (s_topics r) = map (str_view \<circ> fst) fs"
    "take (length fs) (s_qos r) = map snd fs"
    using MQTTDeserialize_subscribe_enc [OF assms(1) starts_0(1) assms(2,4,5,6)] by blast
  moreover have "0 < length ?e" by (simp add: subscribe_enc_def)
  ultimately have "\<exists>k buf' r. MQTTSerialize_subscribe buf buflen dup packetid fs = Some (int k, buf') \<and>
      0 < k \<and> int k \<le> buflen \<and> length buf' = length buf \<and> drop k buf' = drop k buf \<and>
      MQTTDeserialize_subscribe (int maxcount) r0 buf' = Some (1, r) \<and>
      s_dup r = dup AND 1 \<and> s_packetid r = packetid \<and> s_count r = length fs \<and>
      map str_bytes (take (length fs) (s_topics r)) = map (str_bytes \<circ> fst) fs \<and>
      take (length fs) (s_qos r) = map snd fs"
    using ser by (intro exI [of _ "length ?e"] exI [of _ "?e @ drop (length ?e) buf"] exI [of _ r]) (simp add: eq)
  with False show ?thesis by simp
qed

theorem mqtt_subscribe_roundtrip_witness:
  "\<exists>k buf' r. MQTTSerialize_subscribe (replicate 30 0) 30 0 9
      [(\<lparr>cstring = Some [97, 47, 35], ls_len = 0, ls_data = None\<rparr>, 1), (\<lparr>cstring = Some [98], ls_len = 0, ls_data = None\<rparr>, 2)] =
        Some (int k, buf') \<and>
    MQTTDeserialize_subscribe 2 \<lparr>s_dup = 0, s_packetid = 0, s_count = 0,
      s_topics = [MQTTString_initializer, MQTTString_initializer], s_qos = [0, 0]\<rparr> buf' = Some (1, r) \<and>
    s_count r = 2 \<and> s_packetid r = 9 \<and> take 2 (s_qos r) = [1, 2]"
proof -
  let ?f = "[(\<lparr>cstring = Some [97, 47, 35], ls_len = 0, ls_data = None\<rparr>, 1), (\<lparr>cstring = Some [98], ls_len = 0, ls_data = None\<rparr>, 2)]
     :: (MQTTString \<times> int) list"
  let ?r = "\<lparr>s_dup = 0, s_packetid = 0, s_count = 0, s_topics = [MQTTString_initializer, MQTTString_initializer], s_qos = [0, 0]\<rparr>"
  have ok: "\<forall>f \<in> set ?f. filter_ok f" by (simp add: filter_ok_def str_ok_def str_wf_def str_bytes_def)
  have len: "MQTTSerialize_subscribeLength (map fst ?f) = 12" by (simp add: MQTTstrlen_def)
  then have "2 + int (length (filters_enc ?f)) = 12" using subscribeLength_enc [OF ok] by simp
  moreover have "\<not> MQTTPacket_len 12 > 30" by (simp add: MQTTPacket_len_def)
  ultimately show ?thesis
    using mqtt_subscribe_roundtrip [OF ok, of 30 "replicate 30 0" ?r 2 0 9] unfolding len by (auto simp: numeral_2_eq_2)
qed

section \<open>Connect\<close>

lemma connect_flags_of_byte:
  "f_cleansession (connect_flags_of (connect_flags_byte f)) = f_cleansession f AND 1"
  "f_will (connect_flags_of (connect_flags_byte f)) = f_will f AND 1"
  "f_willQoS (connect_flags_of (connect_flags_byte f)) = f_willQoS f AND 3"
  "f_willRetain (connect_flags_of (connect_flags_byte f)) = f_willRetain f AND 1"
  "f_password (connect_flags_of (connect_flags_byte f)) = f_password f AND 1"
  "f_username (connect_flags_of (connect_flags_byte f)) = f_username f AND 1"
  by (auto simp: connect_flags_of_def connect_flags_byte_def bit_simps simp del: push_bit_Suc intro!: u8_eqI)

text \<open>Options that can be sent: a known version, well-formed strings, credentials that are not empty and
  no password without a user name.\<close>

definition connect_ok :: "MQTTPacket_connectData \<Rightarrow> bool" where
  "connect_ok d = (MQTTVersion d \<in> {3, 4} \<and> str_ok (clientID d) \<and>
     (willFlag d \<noteq> 0 \<longrightarrow> str_ok (topicName (will d)) \<and> str_ok (will_message (will d))) \<and>
     (has_string (username d) \<longrightarrow> str_ok (username d) \<and> str_bytes (username d) \<noteq> []) \<and>
     (has_string (password d) \<longrightarrow> has_string (username d) \<and> str_ok (password d) \<and> str_bytes (password d) \<noteq> []))"

definition protocol_enc :: "u8 \<Rightarrow> bytes" where
  "protocol_enc v = (if v = 4 then int_bytes 4 @ bytes_of ''MQTT'' @ [4] else int_bytes 6 @ bytes_of ''MQIsdp'' @ [3])"

definition connect_body :: "MQTTPacket_connectData \<Rightarrow> bytes" where
  "connect_body d = protocol_enc (MQTTVersion d) @ [connect_flags_byte (connect_flags d)] @
     int_bytes (uint (keepAliveInterval d)) @ str_enc (clientID d) @
     (if willFlag d \<noteq> 0 then str_enc (topicName (will d)) @ str_enc (will_message (will d)) else []) @
     (if has_string (username d) then str_enc (username d) else []) @
     (if has_string (password d) then str_enc (password d) else [])"

definition connect_enc :: "MQTTPacket_connectData \<Rightarrow> bytes" where
  "connect_enc d = header_byte (zero_header\<lparr>h_type := CONNECT\<rparr>) # encode_digits (int (length (connect_body d))) @ connect_body d"

lemma connectLength_body:
  "connect_ok d \<Longrightarrow> MQTTSerialize_connectLength d = int (length (connect_body d))"
  by (auto simp: connect_ok_def MQTTSerialize_connectLength_def connect_body_def protocol_enc_def str_enc_def
      str_ok_def MQTTstrlen_bytes Let_def)

lemma write_connect_emit:
  assumes "connect_ok d"
  shows "write_connect d (int (length (connect_body d))) (buf, 0) = emit (connect_enc d) (buf, 0)"
proof -
  have wf: "str_wf (clientID d)" "willFlag d \<noteq> 0 \<Longrightarrow> str_wf (topicName (will d))"
    "willFlag d \<noteq> 0 \<Longrightarrow> str_wf (will_message (will d))" "has_string (username d) \<Longrightarrow> str_wf (username d)"
    "has_string (password d) \<Longrightarrow> str_wf (password d)"
    using assms by (auto simp: connect_ok_def str_ok_def)
  have flags: "f_username (connect_flags d) \<noteq> 0 \<longleftrightarrow> has_string (username d)"
    "f_password (connect_flags d) \<noteq> 0 \<longleftrightarrow> has_string (password d)"
    by (simp_all add: connect_flags_def Let_def)
  show ?thesis
    unfolding write_connect_def Let_def flags write_header_emit writeChar_emit writeInt_emit
      writeMQTTString_emit [OF wf(1)]
    using wf
    by (cases "MQTTVersion d = 4"; cases "willFlag d = 0"; cases "has_string (username d)"; cases "has_string (password d)")
      (simp_all add: writeMQTTString_emit writeCString_emit bind_assoc [symmetric] emit_bind connect_enc_def connect_body_def
        protocol_enc_def del: bind_assoc)
qed

definition will_enc :: "MQTTPacket_connectData \<Rightarrow> bytes" where
  "will_enc d = (if willFlag d \<noteq> 0 then str_enc (topicName (will d)) @ str_enc (will_message (will d)) else [])"

definition credentials_enc :: "MQTTPacket_connectData \<Rightarrow> bytes" where
  "credentials_enc d = (if has_string (username d) then str_enc (username d) else []) @
     (if has_string (password d) then str_enc (password d) else [])"

definition will_view :: "MQTTPacket_connectData \<Rightarrow> MQTTPacket_willOptions \<Rightarrow> MQTTPacket_willOptions" where
  "will_view d w = (if willFlag d = 0 then w else
     \<lparr>topicName = str_view (topicName (will d)), will_message = str_view (will_message (will d)),
      will_retained = will_retained (will d) AND 1, will_qos = will_qos (will d) AND 3\<rparr>)"

lemma sent_flags:
  fixes d :: MQTTPacket_connectData
  defines "flags \<equiv> connect_flags_of (connect_flags_byte (connect_flags d))"
  shows "f_cleansession flags = cleansession d AND 1" "f_will flags = (if willFlag d = 0 then 0 else 1)"
    "willFlag d \<noteq> 0 \<Longrightarrow> f_willQoS flags = will_qos (will d) AND 3"
    "willFlag d \<noteq> 0 \<Longrightarrow> f_willRetain flags = will_retained (will d) AND 1"
    "f_username flags = (if has_string (username d) then 1 else 0)"
    "f_password flags = (if has_string (password d) then 1 else 0)"
  unfolding flags_def connect_flags_of_byte by (simp_all add: connect_flags_def Let_def)

lemma read_will_enc:
  assumes "connect_ok d" "starts buf ptr (will_enc d)" "int ptr + int (length (will_enc d)) \<le> enddata"
    "flags = connect_flags_of (connect_flags_byte (connect_flags d))"
  shows "read_will flags r buf ptr enddata =
    Some (True, r\<lparr>will := will_view d (will r)\<rparr>, ptr + length (will_enc d))"
proof (cases "willFlag d = 0")
  case True
  then show ?thesis using assms(4) by (simp add: read_will_def sent_flags will_view_def will_enc_def)
next
  case False
  let ?t = "str_enc (topicName (will d))" and ?m = "str_enc (will_message (will d))"
  have ok: "str_ok (topicName (will d))" "str_ok (will_message (will d))" using assms(1) False by (auto simp: connect_ok_def)
  have st: "starts buf ptr ?t" "starts buf (ptr + length ?t) ?m"
    using assms(2) False by (simp_all add: will_enc_def starts_append)
  have rd: "readMQTTLenString buf old ptr enddata = Some (True, str_view (topicName (will d)), ptr + length ?t)"
    "readMQTTLenString buf old (ptr + length ?t) enddata = Some (True, str_view (will_message (will d)), ptr + length ?t + length ?m)" for old
    using readString_starts [OF ok(1) st(1)] readString_starts [OF ok(2) st(2)] assms(3) False
    by (simp_all add: will_enc_def)
  show ?thesis using False assms(4) rd
    by (simp add: read_will_def sent_flags will_view_def will_enc_def add.assoc)
qed

lemma read_credentials_enc:
  assumes "connect_ok d" "starts buf ptr (credentials_enc d)" "int ptr + int (length (credentials_enc d)) \<le> enddata"
    "flags = connect_flags_of (connect_flags_byte (connect_flags d))"
  shows "read_credentials flags r buf ptr enddata =
    Some (1, r\<lparr>username := (if has_string (username d) then str_view (username d) else username r),
               password := (if has_string (password d) then str_view (password d) else password r)\<rparr>)"
proof (cases "has_string (username d)")
  case False
  then have "\<not> has_string (password d)" using assms(1) by (auto simp: connect_ok_def)
  with False show ?thesis using assms(4)
    by (simp add: read_credentials_def sent_flags)
next
  case True
  let ?u = "str_enc (username d)" and ?p = "str_enc (password d)"
  have u: "str_ok (username d)" "2 < length ?u" using assms(1) True by (auto simp: connect_ok_def str_enc_def)
  have st: "starts buf ptr ?u" using assms(2) True by (simp add: credentials_enc_def starts_append)
  have rd: "readMQTTLenString buf old ptr enddata = Some (True, str_view (username d), ptr + length ?u)" for old
    using readString_starts [OF u(1) st] assms(3) True by (simp add: credentials_enc_def)
  have room: "\<not> enddata - int ptr < 3" using assms(3) True u(2) by (simp add: credentials_enc_def)
  show ?thesis
  proof (cases "has_string (password d)")
    case False
    with True rd room assms(4) show ?thesis
      by (simp add: read_credentials_def sent_flags)
  next
    case pw: True
    have p: "str_ok (password d)" "2 < length ?p" using assms(1) pw by (auto simp: connect_ok_def str_enc_def)
    have st: "starts buf (ptr + length ?u) ?p" using assms(2) True pw by (simp add: credentials_enc_def starts_append)
    have rdp: "readMQTTLenString buf old (ptr + length ?u) enddata = Some (True, str_view (password d), ptr + length ?u + length ?p)" for old
      using readString_starts [OF p(1) st] assms(3) True pw by (simp add: credentials_enc_def)
    have "\<not> enddata - int (ptr + length ?u) < 3" using assms(3) True pw p(2) by (simp add: credentials_enc_def)
    with True pw rd rdp room assms(4) show ?thesis
      by (simp add: read_credentials_def sent_flags)
  qed
qed

lemma protocol_starts:
  assumes "starts buf ptr (protocol_enc v)" "v \<in> {3, 4}" "int ptr + int (length (protocol_enc v)) \<le> enddata"
  shows "\<exists>prot. readMQTTLenString buf old ptr enddata = Some (True, prot, ptr + length (protocol_enc v) - 1) \<and>
    readChar buf (ptr + length (protocol_enc v) - 1) = Some (v, ptr + length (protocol_enc v)) \<and>
    MQTTPacket_checkVersion prot (uint v) = Some True"
proof -
  define name where "name = (if v = 4 then bytes_of ''MQTT'' else bytes_of ''MQIsdp'')"
  let ?s = "\<lparr>cstring = Some name, ls_len = 0, ls_data = None\<rparr>"
  have ok: "str_ok ?s" "str_bytes ?s = name" by (simp_all add: str_ok_def str_wf_def str_bytes_def name_def)
  have enc: "protocol_enc v = str_enc ?s @ [v]"
    using assms(2) by (auto simp: protocol_enc_def str_enc_def str_bytes_def name_def)
  have st: "starts buf ptr (str_enc ?s)" "starts buf (ptr + length (str_enc ?s)) [v]"
    using assms(1) unfolding enc starts_append by simp_all
  have "readMQTTLenString buf old ptr enddata = Some (True, str_view ?s, ptr + length (str_enc ?s))"
    using readString_starts [OF ok(1) st(1)] assms(3) by (simp add: enc)
  moreover have "readChar buf (ptr + length (str_enc ?s)) = Some (v, ptr + length (str_enc ?s) + 1)"
    using readChar_starts [OF st(2)] .
  moreover have "MQTTPacket_checkVersion (str_view ?s) (uint v) = Some True"
    using assms(2) by (auto simp: MQTTPacket_checkVersion_def str_view_def str_bytes_def name_def mem_read_def)
  ultimately show ?thesis by (intro exI [of _ "str_view ?s"]) (simp add: enc)
qed

lemma MQTTDeserialize_connect_enc:
  assumes "connect_ok d" "starts buf 0 (connect_enc d)" "int (length (connect_body d)) < 268435456"
    and "int (length (connect_enc d)) \<le> len"
  shows "MQTTDeserialize_connect r buf len = Some (1, r\<lparr>cleansession := cleansession d AND 1,
     keepAliveInterval := keepAliveInterval d, clientID := str_view (clientID d), willFlag := (if willFlag d = 0 then 0 else 1),
     will := will_view d (will r),
     username := (if has_string (username d) then str_view (username d) else username r),
     password := (if has_string (password d) then str_view (password d) else password r)\<rparr>)"
proof -
  let ?n = "int (length (connect_body d))" and ?h = "zero_header\<lparr>h_type := CONNECT\<rparr>"
  define flags where "flags = connect_flags_of (connect_flags_byte (connect_flags d))"
  let ?f = "[connect_flags_byte (connect_flags d)]" and ?k = "int_bytes (uint (keepAliveInterval d))"
    and ?p = "protocol_enc (MQTTVersion d)" and ?c = "str_enc (clientID d)"
  note start = read_start [OF assms(2) [unfolded connect_enc_def] _ assms(3)]
  define p0 where "p0 = Suc (length (encode_digits ?n))"
  define p1 where "p1 = p0 + length ?p"
  define p2 where "p2 = p1 + 3"
  define p3 where "p3 = p2 + length ?c"
  define p4 where "p4 = p3 + length (will_enc d)"
  have body: "connect_body d = ?p @ ?f @ ?k @ ?c @ will_enc d @ credentials_enc d"
    by (simp add: connect_body_def will_enc_def credentials_enc_def)
  have end_le: "int p4 + int (length (credentials_enc d)) \<le> len"
    using assms(4) by (simp add: p4_def p3_def p2_def p1_def p0_def connect_enc_def body)
  have st: "starts buf p0 ?p" "starts buf p1 ?f" "starts buf (p1 + 1) ?k" "starts buf p2 ?c" "starts buf p3 (will_enc d)"
    "starts buf p4 (credentials_enc d)"
  proof -
    have "starts buf p0 (connect_body d)" using start(4) by (simp add: p0_def)
    then have "starts buf p0 (?p @ ?f @ ?k @ ?c @ will_enc d @ credentials_enc d)" by (simp only: body)
    then have "starts buf p0 ?p \<and> starts buf p1 ?f \<and> starts buf (p1 + 1) ?k \<and> starts buf (p1 + 1 + 2) ?c \<and>
        starts buf (p1 + 1 + 2 + length ?c) (will_enc d) \<and>
        starts buf (p1 + 1 + 2 + length ?c + length (will_enc d)) (credentials_enc d)"
      by (simp only: starts_append p1_def length_int_bytes list.size) simp
    then show "starts buf p0 ?p" "starts buf p1 ?f" "starts buf (p1 + 1) ?k" "starts buf p2 ?c"
      "starts buf p3 (will_enc d)" "starts buf p4 (credentials_enc d)"
      by (simp_all add: p4_def p3_def p2_def numeral_3_eq_3)
  qed
  have v: "MQTTVersion d \<in> {3, 4}" and client: "str_ok (clientID d)" using assms(1) by (auto simp: connect_ok_def)
  have "int p0 + int (length ?p) \<le> len" using end_le by (simp add: p4_def p3_def p2_def p1_def)
  from protocol_starts [OF st(1) v this, of MQTTString_initializer] obtain prot where prot:
    "readMQTTLenString buf MQTTString_initializer p0 len = Some (True, prot, p1 - 1)"
    "readChar buf (p1 - 1) = Some (MQTTVersion d, p1)" "MQTTPacket_checkVersion prot (uint (MQTTVersion d)) = Some True"
    by (auto simp: p1_def)
  have room: "\<not> len - int (p1 - 1) < 0" using end_le by (simp add: p4_def p3_def p2_def)
  have fl: "readChar buf p1 = Some (connect_flags_byte (connect_flags d), p1 + 1)" using readChar_starts [OF st(2)] .
  have ka: "readInt buf (p1 + 1) = Some (uint (keepAliveInterval d), p2)"
    using readInt_starts [OF _ _ st(3)] uint_lt2p [of "keepAliveInterval d"] by (simp add: p2_def)
  have cl: "readMQTTLenString buf old p2 len = Some (True, str_view (clientID d), p3)" for old
    using readString_starts [OF client st(4)] end_le by (simp add: p3_def p4_def)
  have wl: "read_will flags r' buf p3 len = Some (True, r'\<lparr>will := will_view d (will r')\<rparr>, p4)" for r'
    using read_will_enc [OF assms(1) st(5) _ flags_def] end_le by (simp add: p4_def)
  note cr = read_credentials_enc [OF assms(1) st(6) end_le flags_def]
  have f: "f_cleansession flags = cleansession d AND 1" "f_will flags = (if willFlag d = 0 then 0 else 1)"
    by (simp_all add: flags_def sent_flags)
  have "nat (int (length (encode_digits ?n))) = p0 - 1" by (simp add: p0_def)
  show ?thesis
    unfolding MQTTDeserialize_connect_def Let_def
    using start(1,3) prot room fl ka cl wl cr f
    by (simp add: header_of_byte p0_def [symmetric] flags_def [symmetric])
qed

text \<open>C24: The connect packet the client writes fits the announced buffer length, changes nothing behind the packet, and is
  accepted by the server side, which reads back the options sent: clean session, keep-alive interval, client
  identifier, will with quality of service and retain flag, user name and password; when the
  packet does not fit, the buffer is left alone.\<close>

theorem mqtt_connect_roundtrip:
  assumes "connect_ok d" "int (length (connect_body d)) < 268435456" "buflen \<le> int (length buf)"
  shows "if MQTTPacket_len (MQTTSerialize_connectLength d) > buflen
    then MQTTSerialize_connect buf buflen d = Some (MQTTPACKET_BUFFER_TOO_SHORT, buf)
    else \<exists>k buf' r. MQTTSerialize_connect buf buflen d = Some (int k, buf') \<and>
      0 < k \<and> int k \<le> buflen \<and> length buf' = length buf \<and> drop k buf' = drop k buf \<and>
      MQTTDeserialize_connect r0 buf' (int k) = Some (1, r) \<and>
      cleansession r = cleansession d AND 1 \<and> keepAliveInterval r = keepAliveInterval d \<and>
      str_bytes (clientID r) = str_bytes (clientID d) \<and>
      willFlag r = (if willFlag d = 0 then 0 else 1) \<and>
      (willFlag d \<noteq> 0 \<longrightarrow> str_bytes (topicName (will r)) = str_bytes (topicName (will d)) \<and>
         str_bytes (will_message (will r)) = str_bytes (will_message (will d)) \<and>
         will_qos (will r) = will_qos (will d) AND 3 \<and> will_retained (will r) = will_retained (will d) AND 1) \<and>
      (has_string (username d) \<longrightarrow> str_bytes (username r) = str_bytes (username d)) \<and>
      (has_string (password d) \<longrightarrow> str_bytes (password r) = str_bytes (password d))"
proof (cases "MQTTPacket_len (MQTTSerialize_connectLength d) > buflen")
  case True
  then show ?thesis by (simp add: MQTTSerialize_connect_def)
next
  case False
  let ?n = "int (length (connect_body d))" and ?e = "connect_enc d"
  have fit: "\<not> MQTTPacket_len ?n > buflen" using False unfolding connectLength_body [OF assms(1)] .
  have "length ?e = 1 + length (encode_digits ?n) + nat ?n" by (simp add: connect_enc_def)
  note ser = packet_fits [OF this _ assms(2) fit assms(3)]
  have eq: "MQTTSerialize_connect buf buflen d = Some (int (length ?e), ?e @ drop (length ?e) buf)"
    using ser fit by (simp add: MQTTSerialize_connect_def connectLength_body [OF assms(1)] write_connect_emit [OF assms(1)])
  note read = MQTTDeserialize_connect_enc
    [OF assms(1) starts_0(1) [of ?e "drop (length ?e) buf"] assms(2) order_refl, of r0]
  have "0 < length ?e" by (simp add: connect_enc_def)
  with False eq ser read show ?thesis
    by (simp add: will_view_def)
qed

theorem mqtt_connect_roundtrip_witness:
  "\<exists>k buf' r. MQTTSerialize_connect (replicate 40 0) 40
      (MQTTPacket_connectData_initializer\<lparr>clientID := \<lparr>cstring = Some [112, 105], ls_len = 0, ls_data = None\<rparr>,
        username := \<lparr>cstring = Some [117], ls_len = 0, ls_data = None\<rparr>\<rparr>) = Some (int k, buf') \<and>
    MQTTDeserialize_connect MQTTPacket_connectData_initializer buf' (int k) = Some (1, r) \<and> keepAliveInterval r = 60"
proof -
  let ?d = "MQTTPacket_connectData_initializer\<lparr>clientID := \<lparr>cstring = Some [112, 105], ls_len = 0, ls_data = None\<rparr>,
        username := \<lparr>cstring = Some [117], ls_len = 0, ls_data = None\<rparr>\<rparr>"
  note defs = MQTTPacket_connectData_initializer_def MQTTPacket_willOptions_initializer_def MQTTString_initializer_def
  have ok: "connect_ok ?d"
    by (simp add: defs connect_ok_def has_string_def str_ok_def str_wf_def str_bytes_def)
  have len: "MQTTSerialize_connectLength ?d = 17"
    by (simp add: defs MQTTSerialize_connectLength_def MQTTstrlen_def has_string_def)
  then have "int (length (connect_body ?d)) = 17" using connectLength_body [OF ok] by simp
  moreover have "\<not> MQTTPacket_len 17 > 40" by (simp add: MQTTPacket_len_def)
  moreover have "keepAliveInterval ?d = 60" by (simp add: defs)
  ultimately show ?thesis
    using mqtt_connect_roundtrip [OF ok, of 40 "replicate 40 0" MQTTPacket_connectData_initializer] unfolding len by auto
qed

text \<open>Too-short buffers.\<close>
lemma emit_overflow: "length e > length buf \<Longrightarrow> finish_packet (emit e (buf, 0)) = None"
  by (simp add: finish_packet_emit)

definition connack_enc :: "u8 \<Rightarrow> u8 \<Rightarrow> bytes" where
  "connack_enc rc sp = [header_byte (zero_header\<lparr>h_type := CONNACK\<rparr>), 2, sp AND 1, rc]"

lemma MQTTSerialize_connack_eq:
  "\<not> buflen < 2 \<Longrightarrow> MQTTSerialize_connack buf buflen rc sp = finish_packet (emit (connack_enc rc sp) (buf, 0))"
  by (simp add: MQTTSerialize_connack_def write_header_emit writeChar_emit bind_assoc [symmetric] emit_bind connack_enc_def
      encode_digits_small del: bind_assoc)

lemma MQTTSerialize_unsuback_eq:
  "\<not> buflen < 2 \<Longrightarrow> MQTTSerialize_unsuback buf buflen pid = finish_packet (emit
     ([header_byte (zero_header\<lparr>h_type := UNSUBACK\<rparr>), 2] @ int_bytes (uint pid)) (buf, 0))"
  by (simp add: MQTTSerialize_unsuback_def write_header_emit writeInt_emit emit_bind encode_digits_small)

lemma write_chars_emit: "snd s \<le> length (fst s) \<Longrightarrow> write_chars qs s = emit (map of_int qs) s"
proof (induction qs arbitrary: s)
  case Nil
  then show ?case by (cases s) simp
next
  case (Cons q qs)
  show ?case
  proof (cases "emit [of_int q] s")
    case None
    with emit_bind [of "[of_int q]" s "map of_int qs"] show ?thesis by (simp add: writeChar_emit)
  next
    case (Some t)
    then have "snd t \<le> length (fst t)" by (cases s) (auto simp: emit_Some split: if_splits)
    with Cons.IH [of t] Some emit_bind [of "[of_int q]" s "map of_int qs"] show ?thesis by (simp add: writeChar_emit)
  qed
qed

text \<open>The serialisers of the short acknowledgements test the buffer length against a bound that is too small.
  For a connack or unsuback packet, of four bytes, buffers of two and three bytes pass the test and are overrun; for a
  suback packet, of four bytes and one per granted quality of service, those up to two bytes short. Buffers
  that hold the packet are written correctly.\<close>

theorem mqtt_ack_overrun:
  assumes "length qs < 100"
  shows "(MQTTSerialize_connack buf (int (length buf)) rc sp = None \<longleftrightarrow> length buf \<in> {2, 3}) \<and>
    (MQTTSerialize_unsuback buf (int (length buf)) packetid = None \<longleftrightarrow> length buf \<in> {2, 3}) \<and>
    (MQTTSerialize_suback buf (int (length buf)) packetid qs = None \<longleftrightarrow>
       length buf \<in> {2 + length qs, 3 + length qs})"
proof -
  have a: "MQTTSerialize_connack buf (int (length buf)) rc sp = None \<longleftrightarrow> length buf \<in> {2, 3}"
  proof (cases "length buf < 2")
    case True
    then show ?thesis by (simp add: MQTTSerialize_connack_def)
  next
    case False
    then show ?thesis
      by (subst MQTTSerialize_connack_eq) (auto simp: finish_packet_emit connack_enc_def)
  qed
  have b: "MQTTSerialize_unsuback buf (int (length buf)) packetid = None \<longleftrightarrow> length buf \<in> {2, 3}"
  proof (cases "length buf < 2")
    case True
    then show ?thesis by (simp add: MQTTSerialize_unsuback_def)
  next
    case False
    then show ?thesis
      by (subst MQTTSerialize_unsuback_eq) (auto simp: finish_packet_emit)
  qed
  have c: "MQTTSerialize_suback buf (int (length buf)) packetid qs = None \<longleftrightarrow> length buf \<in> {2 + length qs, 3 + length qs}"
  proof (cases "length buf < 2 + length qs")
    case True
    then show ?thesis by (simp add: MQTTSerialize_suback_def)
  next
    case False
    let ?h = "[header_byte (zero_header\<lparr>h_type := SUBACK\<rparr>), of_int (2 + int (length qs))] @ int_bytes (uint packetid)"
    have d: "encode_digits (2 + int (length qs)) = [of_int (2 + int (length qs))]"
      using assms by (intro encode_digits_small) simp_all
    have "MQTTSerialize_suback buf (int (length buf)) packetid qs =
        finish_packet (Option.bind (emit ?h (buf, 0)) (write_chars qs))"
      using False by (simp add: MQTTSerialize_suback_def write_header_emit writeInt_emit d bind_assoc [symmetric] emit_bind
          del: bind_assoc)
    also have "Option.bind (emit ?h (buf, 0)) (write_chars qs) = emit (?h @ map of_int qs) (buf, 0)"
    proof (cases "emit ?h (buf, 0)")
      case None
      with emit_bind [of ?h "(buf, 0)" "map of_int qs"] show ?thesis by simp
    next
      case (Some t)
      then have "snd t \<le> length (fst t)" by (auto simp: emit_Some split: if_splits)
      with Some write_chars_emit [of t qs] emit_bind [of ?h "(buf, 0)" "map of_int qs"] show ?thesis by simp
    qed
    finally have "MQTTSerialize_suback buf (int (length buf)) packetid qs = finish_packet (emit (?h @ map of_int qs) (buf, 0))" .
    then show ?thesis using False by (auto simp: finish_packet_emit)
  qed
  from a b c show ?thesis by blast
qed

theorem mqtt_ack_overrun_witness:
  "MQTTSerialize_connack [0, 0, 0] 3 5 1 = None \<and> MQTTSerialize_suback [0, 0, 0, 0, 0] 5 7 [1, 2] = None"
  using mqtt_ack_overrun [of "[]" "[0, 0, 0]" 5 1 7] mqtt_ack_overrun [of "[1, 2]" "[0, 0, 0, 0, 0]" 5 1 7] by simp

section \<open>Suback\<close>

definition suback_enc :: "u16 \<Rightarrow> int list \<Rightarrow> bytes" where
  "suback_enc packetid qs = header_byte (zero_header\<lparr>h_type := SUBACK\<rparr>) #
     encode_digits (2 + int (length qs)) @ int_bytes (uint packetid) @ map of_int qs"

lemma suback_loop_chars:
  assumes "\<forall>q \<in> set qs. 0 \<le> q \<and> q < 256" "starts buf cur (map of_int qs)" "count \<le> length arr"
  shows "suback_loop buf cur (int cur + int (length qs)) (int (length arr)) count arr =
    (if count + length qs \<le> length arr
     then Some (1, count + length qs, take count arr @ qs @ drop (count + length qs) arr) else None)"
  using assms
proof (induction qs arbitrary: cur count arr)
  case Nil
  then show ?case by (simp add: suback_loop.simps)
next
  case (Cons q qs)
  have c: "readChar buf cur = Some (of_int q, cur + 1)" and st: "starts buf (cur + 1) (map of_int qs)"
    using Cons.prems(2) by (simp_all add: starts_Cons readChar_def)
  have q: "uint (of_int q :: u8) = q" using Cons.prems(1) by (simp add: uint_u8_of_int)
  define E where "E = int (cur + 1) + int (length qs)"
  have e: "int cur + int (length (q # qs)) = E" "int cur < E" by (simp_all add: E_def)
  show ?case
  proof (cases "count < length arr")
    case True
    have step: "suback_loop buf cur E (int (length arr)) count arr =
        suback_loop buf (cur + 1) E (int (length arr)) (count + 1) (arr[count := q])"
      using True c q e(2) by (subst suback_loop.simps) (simp add: mem_set_def)
    have "take (Suc count) (arr[count := q]) = take count arr @ [q]" using True by (simp add: take_update_at)
    with True Cons.IH [OF _ st, of "count + 1" "arr[count := q]"] Cons.prems(1)
    show ?thesis unfolding e(1) step by (auto simp: E_def)
  next
    case False
    with Cons.prems(3) have "count = length arr" by simp
    then show ?thesis using c e(2) unfolding e(1) by (subst suback_loop.simps) (simp add: mem_set_def)
  qed
qed

text \<open>The client reads back the packet identifier and the granted qualities of service of a suback packet
  when they fit the array given by the caller, but if the packet grants even one more, the reader writes
  behind the array: the count is compared with \<^verbatim>\<open>>\<close> instead of \<^verbatim>\<open>>=\<close>.\<close>

theorem mqtt_suback_off_by_one:
  assumes "starts buf 0 (suback_enc packetid qs)" "\<forall>q \<in> set qs. 0 \<le> q \<and> q < 256" "length qs < 268435000"
  shows "MQTTDeserialize_suback pid0 (int (length arr)) c0 arr buf =
    (if length qs \<le> length arr then Some (1, packetid, length qs, qs @ drop (length qs) arr) else None)"
proof -
  let ?n = "2 + int (length qs)"
  have "?n < 268435456" using assms(3) by simp
  note start = read_start [OF assms(1) [unfolded suback_enc_def] _ this]
  let ?k = "Suc (length (encode_digits ?n))"
  have st: "starts buf ?k (int_bytes (uint packetid))" "starts buf (?k + 2) (map of_int qs)"
    using start(4) by (simp_all add: starts_append)
  have pid: "readInt buf ?k = Some (uint packetid, ?k + 2)"
    using st(1) uint_lt2p [of packetid] by (intro readInt_starts) auto
  define r where "r = (if length qs \<le> length arr then Some (1 :: int, length qs, qs @ drop (length qs) arr) else None)"
  have "int (?k + 2) + int (length qs) = int ?k + ?n" by simp
  note loop = suback_loop_chars [OF assms(2) st(2), of 0 arr, unfolded this]
  have "suback_loop buf (?k + 2) (int ?k + ?n) (int (length arr)) 0 arr = r"
    unfolding loop [OF le0] r_def by simp
  then have "MQTTDeserialize_suback pid0 (int (length arr)) c0 arr buf =
      Option.bind r (\<lambda>(rc, c, a). Some (rc, packetid, c, a))"
    unfolding MQTTDeserialize_suback_def Let_def
    using start(1,3) pid by (simp add: header_of_byte zero_header_def)
  then show ?thesis by (simp add: r_def)
qed

theorem mqtt_suback_off_by_one_witness:
  "MQTTDeserialize_suback 0 1 0 [0] (suback_enc 5 [1, 2]) = None \<and>
   MQTTDeserialize_suback 0 2 0 [0, 0] (suback_enc 5 [1, 2]) = Some (1, 5, 2, [1, 2])"
proof -
  have "starts (suback_enc 5 [1, 2]) 0 (suback_enc 5 [1, 2])" using starts_0(1) [of _ "[]"] by simp
  note t = mqtt_suback_off_by_one [OF this]
  show ?thesis using t [of 0 "[0]" 0] t [of 0 "[0, 0]" 0] by simp
qed

end
