(* ===== verification/MQTT_Client_Proofs.thy ===== *)
theory MQTT_Client_Proofs
  imports MQTT_Client MQTT_Serialize_Proofs
begin

text \<open>
  Facts of the MQTT client: the matching of topics against filters, and the table of message handlers as a map.
\<close>

section \<open>Topic filters\<close>

text \<open>A topic name is read as the sequence of its levels, a filter as the sequence of its own.\<close>


fun levels :: "bytes \<Rightarrow> bytes list" where
  "levels [] = [[]]"
| "levels (c # cs) = (if c = slash then [] # levels cs else (case levels cs of l # ls \<Rightarrow> (c # l) # ls | [] \<Rightarrow> [[c]]))"

fun join_levels :: "bytes list \<Rightarrow> bytes" where
  "join_levels [] = []"
| "join_levels [l] = l"
| "join_levels (l # m # ls) = l @ slash # join_levels (m # ls)"

text \<open>A literal level has no separator and no wildcard; a filter has the wildcards as whole levels, \<^verbatim>\<open>#\<close> only as the last.\<close>

definition literal_level :: "bytes \<Rightarrow> bool" where
  "literal_level l = (slash \<notin> set l \<and> plus_sign \<notin> set l \<and> hash_sign \<notin> set l)"

fun filter_wf :: "bytes list \<Rightarrow> bool" where
  "filter_wf [] = False"
| "filter_wf [l] = (literal_level l \<or> l = [plus_sign] \<or> l = [hash_sign])"
| "filter_wf (l # m # ls) = ((literal_level l \<or> l = [plus_sign]) \<and> filter_wf (m # ls))"

fun level_match :: "bytes list \<Rightarrow> bytes list \<Rightarrow> bool" where
  "level_match [] ts = (ts = [])"
| "level_match (f # fs) [] = False"
| "level_match (f # fs) (t # ts) =
     (if f = [hash_sign] then t \<noteq> []
      else if f = [plus_sign] then t \<noteq> [] \<and> level_match fs ts
      else f = t \<and> level_match fs ts)"

lemma wildcards_distinct [simp]: "plus_sign \<noteq> slash" "hash_sign \<noteq> slash" "plus_sign \<noteq> hash_sign" "slash \<noteq> plus_sign" "slash \<noteq> hash_sign" "hash_sign \<noteq> plus_sign"
  by (simp_all add: plus_sign_def slash_def hash_sign_def)

lemma levels_nonempty [simp]: "levels n \<noteq> []"
  by (cases n) (auto split: list.splits)

lemma levels_split:
  "levels n = takeWhile (\<lambda>c. c \<noteq> slash) n #
     (case dropWhile (\<lambda>c. c \<noteq> slash) n of [] \<Rightarrow> [] | _ # rest \<Rightarrow> levels rest)"
  by (induction n) (auto split: list.splits)

lemma topic_loop_literal:
  "literal_level l \<Longrightarrow> topic_loop (l @ fs) n \<longleftrightarrow> (\<exists>n'. n = l @ n' \<and> topic_loop fs n')"
proof (induction l arbitrary: n)
  case (Cons c l)
  then have c: "c \<noteq> slash" "c \<noteq> plus_sign" "c \<noteq> hash_sign" "literal_level l" by (auto simp: literal_level_def)
  show ?case
  proof (cases n)
    case (Cons d ns)
    with c Cons.IH [OF c(4), of ns] show ?thesis by auto
  qed simp
qed simp

lemma topic_loop_slash:
  "topic_loop (slash # fs) n \<longleftrightarrow> (\<exists>n'. n = slash # n' \<and> topic_loop fs n')"
  by (cases n) auto

lemma topic_loop_plus:
  "topic_loop (plus_sign # fs) n \<longleftrightarrow> n \<noteq> [] \<and> takeWhile (\<lambda>c. c \<noteq> slash) n \<noteq> [] \<and> topic_loop fs (dropWhile (\<lambda>c. c \<noteq> slash) n)"
  by (cases n) auto

lemma topic_loop_hash:
  "topic_loop [hash_sign] n \<longleftrightarrow> takeWhile (\<lambda>c. c \<noteq> slash) n \<noteq> []"
  by (cases n) auto

lemma literal_prefix:
  assumes "slash \<notin> set l"
  shows "n = l @ n' \<and> (n' = [] \<or> (\<exists>r. n' = slash # r)) \<longleftrightarrow>
    takeWhile (\<lambda>c. c \<noteq> slash) n = l \<and> dropWhile (\<lambda>c. c \<noteq> slash) n = n'"
proof
  assume n: "n = l @ n' \<and> (n' = [] \<or> (\<exists>r. n' = slash # r))"
  have "\<forall>c \<in> set l. c \<noteq> slash" using assms by auto
  with n show "takeWhile (\<lambda>c. c \<noteq> slash) n = l \<and> dropWhile (\<lambda>c. c \<noteq> slash) n = n'"
    by (auto simp: takeWhile_append2 dropWhile_append2)
next
  assume "takeWhile (\<lambda>c. c \<noteq> slash) n = l \<and> dropWhile (\<lambda>c. c \<noteq> slash) n = n'"
  moreover from this have "n' = [] \<or> hd n' = slash" using hd_dropWhile [of "\<lambda>c. c \<noteq> slash" n] by auto
  ultimately show "n = l @ n' \<and> (n' = [] \<or> (\<exists>r. n' = slash # r))"
    by (metis list.collapse takeWhile_dropWhile_id)
qed

lemma topic_loop_levels:
  "filter_wf fs \<Longrightarrow> topic_loop (join_levels fs) n = level_match fs (levels n)"
proof (induction fs arbitrary: n rule: filter_wf.induct)
  case (2 l)
  let ?t = "takeWhile (\<lambda>c. c \<noteq> slash) n" and ?d = "dropWhile (\<lambda>c. c \<noteq> slash) n"
  consider "literal_level l" | "l = [plus_sign]" | "l = [hash_sign]" using 2 by auto
  then show ?case
  proof cases
    case 1
    then have "l \<noteq> [plus_sign]" "l \<noteq> [hash_sign]" "slash \<notin> set l" by (auto simp: literal_level_def)
    moreover have "topic_loop l n \<longleftrightarrow> n = l" using topic_loop_literal [OF 1, of "[]" n] by auto
    moreover have "level_match [l] (levels n) \<longleftrightarrow> ?t = l \<and> ?d = []"
      using \<open>l \<noteq> [plus_sign]\<close> \<open>l \<noteq> [hash_sign]\<close> by (subst levels_split) (auto split: list.splits simp del: dropWhile_eq_Nil_conv)
    ultimately show ?thesis using literal_prefix [OF \<open>slash \<notin> set l\<close>, of n "[]"] by simp
  next
    case 2
    then show ?thesis
      by (auto simp: topic_loop_plus levels_split [of n] split: list.splits simp del: dropWhile_eq_Nil_conv)
  next
    case 3
    then show ?thesis by (auto simp: topic_loop_hash levels_split [of n])
  qed
next
  case (3 l m ls)
  let ?t = "takeWhile (\<lambda>c. c \<noteq> slash) n" and ?d = "dropWhile (\<lambda>c. c \<noteq> slash) n"
  have IH: "\<And>n. topic_loop (join_levels (m # ls)) n = level_match (m # ls) (levels n)"
    using 3 by simp
  have d: "?d = [] \<or> (\<exists>r. ?d = slash # r)"
    using hd_dropWhile [of "\<lambda>c. c \<noteq> slash" n] by (cases ?d) auto
  have rest: "topic_loop (slash # join_levels (m # ls)) ?d =
      level_match (m # ls) (case ?d of [] \<Rightarrow> [] | _ # rest \<Rightarrow> levels rest)"
    using d IH by (auto simp: topic_loop_slash simp del: dropWhile_eq_Nil_conv)
  consider "literal_level l" | "l = [plus_sign]" using 3 by auto
  then show ?case
  proof cases
    case 1
    then have l: "l \<noteq> [plus_sign]" "l \<noteq> [hash_sign]" "slash \<notin> set l" by (auto simp: literal_level_def)
    have "topic_loop (join_levels (l # m # ls)) n \<longleftrightarrow> ?t = l \<and> topic_loop (slash # join_levels (m # ls)) ?d"
    proof
      assume "topic_loop (join_levels (l # m # ls)) n"
      then obtain n' where n': "n = l @ n'" "topic_loop (slash # join_levels (m # ls)) n'"
        using topic_loop_literal [OF 1] by auto
      then have "\<exists>r. n' = slash # r" using topic_loop_slash by blast
      with n' literal_prefix [OF l(3), of n n'] show "?t = l \<and> topic_loop (slash # join_levels (m # ls)) ?d" by simp
    next
      assume "?t = l \<and> topic_loop (slash # join_levels (m # ls)) ?d"
      moreover from this have "n = l @ ?d" by (metis takeWhile_dropWhile_id)
      ultimately show "topic_loop (join_levels (l # m # ls)) n"
        using topic_loop_literal [OF 1, of "slash # join_levels (m # ls)" n] by auto
    qed
    with rest l show ?thesis by (subst levels_split) auto
  next
    case 2
    with rest show ?thesis by (subst levels_split) (auto simp: topic_loop_plus)
  qed
qed simp

text \<open>C22: \<^verbatim>\<open>isTopicMatched\<close> decides the level-wise matching of a topic name against a well-formed topic filter: levels are
  compared one by one, \<^verbatim>\<open>+\<close> stands for one level and a final \<^verbatim>\<open>#\<close> for all remaining ones. It differs from the
  MQTT standard in that neither wildcard matches an empty level and \<^verbatim>\<open>#\<close> does not match the parent level.\<close>

theorem mqtt_topic_match:
  assumes "filter_wf fs" "ls_data topic = Some name" "ls_len topic = int (length name)"
  shows "isTopicMatched (join_levels fs) topic = Some (level_match fs (levels name))"
  using assms by (simp add: isTopicMatched_def mem_read_def topic_loop_levels)

theorem mqtt_topic_match_witness:
  "isTopicMatched (bytes_of ''a/+/#'') \<lparr>cstring = None, ls_len = 7, ls_data = Some (bytes_of ''a/bc/d/'')\<rparr> = Some True \<and>
   isTopicMatched (bytes_of ''a/#'') \<lparr>cstring = None, ls_len = 1, ls_data = Some (bytes_of ''a'')\<rparr> = Some False"
proof -
  have f: "filter_wf [bytes_of ''a'', [plus_sign], [hash_sign]]" "filter_wf [bytes_of ''a'', [hash_sign]]"
    by (simp_all add: literal_level_def bytes_of_def slash_def plus_sign_def hash_sign_def)
  have j: "join_levels [bytes_of ''a'', [plus_sign], [hash_sign]] = bytes_of ''a/+/#''" "join_levels [bytes_of ''a'', [hash_sign]] = bytes_of ''a/#''"
    by (simp_all add: bytes_of_def slash_def plus_sign_def hash_sign_def)
  have l: "levels (bytes_of ''a/bc/d/'') = [bytes_of ''a'', bytes_of ''bc'', bytes_of ''d'', []]" "levels (bytes_of ''a'') = [bytes_of ''a'']"
    by (simp_all add: bytes_of_def slash_def)
  show ?thesis
    using mqtt_topic_match [OF f(1), of "\<lparr>cstring = None, ls_len = 7, ls_data = Some (bytes_of ''a/bc/d/'')\<rparr>" "bytes_of ''a/bc/d/''"]
      mqtt_topic_match [OF f(2), of "\<lparr>cstring = None, ls_len = 1, ls_data = Some (bytes_of ''a'')\<rparr>" "bytes_of ''a''"]
    by (simp add: j l) (simp add: bytes_of_def slash_def plus_sign_def hash_sign_def)
qed

section \<open>The table of message handlers\<close>
text \<open>The slots in use are a map from topic filters to handlers.\<close>

definition handler_of :: "'h MessageHandlers list \<Rightarrow> bytes \<Rightarrow> 'h option" where
  "handler_of hs tf = (case find (\<lambda>m. topicFilter m = Some tf) hs of Some m \<Rightarrow> fp m | None \<Rightarrow> None)"

definition slots_inv :: "'h MessageHandlers list \<Rightarrow> bool" where
  "slots_inv hs = ((\<forall>i < length hs. topicFilter (hs ! i) \<noteq> None \<longrightarrow> fp (hs ! i) \<noteq> None) \<and>
     (\<forall>i < length hs. \<forall>j < length hs. i \<noteq> j \<longrightarrow> topicFilter (hs ! i) = topicFilter (hs ! j) \<longrightarrow> topicFilter (hs ! i) = None))"

definition free_slots :: "'h MessageHandlers list \<Rightarrow> nat" where
  "free_slots hs = length (filter (\<lambda>m. topicFilter m = None) hs)"

lemma find_slot_less: "find_slot P hs < length hs \<longleftrightarrow> (\<exists>m \<in> set hs. P m)"
  by (induction hs) auto

lemma find_slot_nth: "find_slot P hs < length hs \<Longrightarrow> P (hs ! find_slot P hs)"
  by (induction hs) auto

lemma free_slots_pos: "0 < free_slots hs \<longleftrightarrow> (\<exists>m \<in> set hs. topicFilter m = None)"
  by (auto simp: free_slots_def filter_empty_conv)

lemma handler_of_Some:
  assumes "slots_inv hs"
  shows "handler_of hs tf = Some h \<longleftrightarrow> (\<exists>i < length hs. topicFilter (hs ! i) = Some tf \<and> fp (hs ! i) = Some h)"
proof
  assume "handler_of hs tf = Some h"
  then show "\<exists>i < length hs. topicFilter (hs ! i) = Some tf \<and> fp (hs ! i) = Some h"
    by (auto simp: handler_of_def find_Some_iff split: option.splits)
next
  assume "\<exists>i < length hs. topicFilter (hs ! i) = Some tf \<and> fp (hs ! i) = Some h"
  then obtain i where i: "i < length hs" "topicFilter (hs ! i) = Some tf" "fp (hs ! i) = Some h" by blast
  have "find (\<lambda>m. topicFilter m = Some tf) hs = Some (hs ! i)"
    unfolding find_Some_iff using i assms unfolding slots_inv_def
    by (intro exI [of _ i]) (metis option.distinct(1) order.strict_trans nat_neq_iff)
  with i show "handler_of hs tf = Some h" by (simp add: handler_of_def)
qed

lemma slots_invD:
  assumes "slots_inv hs"
  shows "i < length hs \<Longrightarrow> topicFilter (hs ! i) = Some t \<Longrightarrow> \<exists>h. fp (hs ! i) = Some h"
    "i < length hs \<Longrightarrow> j < length hs \<Longrightarrow> topicFilter (hs ! i) = Some t \<Longrightarrow> topicFilter (hs ! j) = Some t \<Longrightarrow> i = j"
  using assms unfolding slots_inv_def by fastforce+

lemma slots_invI:
  assumes "\<And>i t. i < length hs \<Longrightarrow> topicFilter (hs ! i) = Some t \<Longrightarrow> fp (hs ! i) \<noteq> None"
    "\<And>i j t. i < length hs \<Longrightarrow> j < length hs \<Longrightarrow> topicFilter (hs ! i) = Some t \<Longrightarrow> topicFilter (hs ! j) = Some t \<Longrightarrow> i = j"
  shows "slots_inv hs"
  unfolding slots_inv_def
proof (intro conjI allI impI)
  fix i assume "i < length hs" "topicFilter (hs ! i) \<noteq> None"
  with assms(1) show "fp (hs ! i) \<noteq> None" by blast
next
  fix i j assume h: "i < length hs" "j < length hs" "i \<noteq> j" "topicFilter (hs ! i) = topicFilter (hs ! j)"
  show "topicFilter (hs ! i) = None"
  proof (rule ccontr)
    assume "topicFilter (hs ! i) \<noteq> None"
    then obtain t where "topicFilter (hs ! i) = Some t" by blast
    with h(4) have "topicFilter (hs ! j) = Some t" by metis
    with assms(2) [OF h(1,2) \<open>topicFilter (hs ! i) = Some t\<close>] h(3) show False by blast
  qed
qed

lemma handler_of_dom:
  assumes "slots_inv hs"
  shows "handler_of hs tf \<noteq> None \<longleftrightarrow> (\<exists>m \<in> set hs. topicFilter m = Some tf)"
proof
  assume "handler_of hs tf \<noteq> None"
  then obtain h where "handler_of hs tf = Some h" by blast
  then show "\<exists>m \<in> set hs. topicFilter m = Some tf" using handler_of_Some [OF assms] by auto
next
  assume "\<exists>m \<in> set hs. topicFilter m = Some tf"
  then obtain i where i: "i < length hs" "topicFilter (hs ! i) = Some tf" by (auto simp: in_set_conv_nth)
  with slots_invD(1) [OF assms] obtain h where "fp (hs ! i) = Some h" by blast
  with i have "handler_of hs tf = Some h" using handler_of_Some [OF assms] by blast
  then show "handler_of hs tf \<noteq> None" by simp
qed

text \<open>Writing a slot replaces one entry of the table by another.\<close>

lemma slots_write:
  fixes hs :: "'h MessageHandlers list"
  assumes inv: "slots_inv hs" and i: "i < length hs" and t: "t = None \<or> f \<noteq> None"
    and only: "\<And>j u. j < length hs \<Longrightarrow> topicFilter (hs ! j) = Some u \<Longrightarrow> t = Some u \<Longrightarrow> j = i"
  defines "hs' \<equiv> hs[i := (hs ! i)\<lparr>topicFilter := t, fp := f\<rparr>]"
  shows "slots_inv hs'"
    "handler_of hs' u = (if t = Some u then f else if topicFilter (hs ! i) = Some u then None else handler_of hs u)"
proof -
  have len: "length hs' = length hs" by (simp add: hs'_def)
  have here: "topicFilter (hs' ! i) = t" "fp (hs' ! i) = f" using i by (simp_all add: hs'_def)
  have there: "hs' ! j = hs ! j" if "j \<noteq> i" for j using that by (simp add: hs'_def)
  show inv': "slots_inv hs'"
  proof (rule slots_invI)
    fix k u assume "k < length hs'" "topicFilter (hs' ! k) = Some u"
    then show "fp (hs' ! k) \<noteq> None"
      using here there t slots_invD(1) [OF inv] len by (cases "k = i") auto
  next
    fix k l u assume h: "k < length hs'" "l < length hs'" "topicFilter (hs' ! k) = Some u" "topicFilter (hs' ! l) = Some u"
    show "k = l"
    proof (cases "k = i \<or> l = i")
      case True
      with h here there len only show ?thesis by (metis (no_types, lifting))
    next
      case False
      with h there len slots_invD(2) [OF inv] show ?thesis by (metis (no_types, lifting))
    qed
  qed
  have eq: "handler_of hs' u = Some y \<longleftrightarrow>
      (if t = Some u then f else if topicFilter (hs ! i) = Some u then None else handler_of hs u) = Some y" for y
  proof (cases "t = Some u")
    case True
    have "handler_of hs' u = Some y \<longleftrightarrow> f = Some y"
      using here slots_invD(2) [OF inv', of _ i u] i len True unfolding handler_of_Some [OF inv'] by metis
    with True show ?thesis by simp
  next
    case new: False
    show ?thesis
    proof (cases "topicFilter (hs ! i) = Some u")
      case True
      have "handler_of hs' u \<noteq> Some y"
        using here there slots_invD(2) [OF inv, of _ i u] i len True new unfolding handler_of_Some [OF inv'] by metis
      with True new show ?thesis by simp
    next
      case False
      have "handler_of hs' u = Some y \<longleftrightarrow> handler_of hs u = Some y"
        using here there len False new unfolding handler_of_Some [OF inv'] handler_of_Some [OF inv] by metis
      with False new show ?thesis by simp
    qed
  qed
  show "handler_of hs' u = (if t = Some u then f else if topicFilter (hs ! i) = Some u then None else handler_of hs u)"
    using eq by (metis not_None_eq)
qed

lemma set_handler_slot:
  "MQTTSetMessageHandler c tf handler = (
     let hs = messageHandlers c; i = find_slot (\<lambda>m. topicFilter m = Some tf) hs;
         j = (if i < length hs \<or> handler = None then i else find_slot (\<lambda>m. topicFilter m = None) hs)
     in if j < length hs
        then (SUCCESS, c\<lparr>messageHandlers := hs[j := (hs ! j)\<lparr>topicFilter := map_option (\<lambda>_. tf) handler, fp := handler\<rparr>]\<rparr>)
        else (FAILURE, c))"
  by (cases handler) (simp_all add: MQTTSetMessageHandler_def Let_def)

lemma set_handler_spec:
  fixes c :: "('tm, 'h) MQTTClient"
  assumes "slots_inv (messageHandlers c)"
  shows "\<exists>rc c'. MQTTSetMessageHandler c tf handler = (rc, c') \<and> slots_inv (messageHandlers c') \<and>
    length (messageHandlers c') = length (messageHandlers c) \<and>
    (rc = SUCCESS \<longleftrightarrow> handler_of (messageHandlers c) tf \<noteq> None \<or> handler \<noteq> None \<and> 0 < free_slots (messageHandlers c)) \<and>
    (rc = SUCCESS \<longrightarrow> handler_of (messageHandlers c') = (handler_of (messageHandlers c))(tf := handler)) \<and>
    (rc \<noteq> SUCCESS \<longrightarrow> rc = FAILURE \<and> c' = c)"
proof -
  let ?hs = "messageHandlers c"
  let ?i = "find_slot (\<lambda>m. topicFilter m = Some tf) ?hs"
  define j where "j = (if ?i < length ?hs \<or> handler = None then ?i else find_slot (\<lambda>m. topicFilter m = None) ?hs)"
  define hs' where "hs' = ?hs[j := (?hs ! j)\<lparr>topicFilter := map_option (\<lambda>_. tf) handler, fp := handler\<rparr>]"
  have found: "?i < length ?hs \<longleftrightarrow> handler_of ?hs tf \<noteq> None"
    by (simp only: find_slot_less handler_of_dom [OF assms])
  have room: "j < length ?hs \<longleftrightarrow> handler_of ?hs tf \<noteq> None \<or> handler \<noteq> None \<and> 0 < free_slots ?hs"
    unfolding j_def found [symmetric] by (simp add: free_slots_pos find_slot_less)
  have call: "MQTTSetMessageHandler c tf handler =
      (if j < length ?hs then (SUCCESS, c\<lparr>messageHandlers := hs'\<rparr>) else (FAILURE, c))"
    by (simp add: set_handler_slot Let_def j_def hs'_def)
  show ?thesis
  proof (cases "j < length ?hs")
    case True
    have only: "k = j" if "k < length ?hs" "topicFilter (?hs ! k) = Some tf" for k
    proof -
      from that have i: "?i < length ?hs" by (auto simp: find_slot_less)
      with find_slot_nth [OF i] slots_invD(2) [OF assms that(1) i that(2)] show ?thesis by (simp add: j_def)
    qed
    have old: "topicFilter (?hs ! j) = None \<or> topicFilter (?hs ! j) = Some tf"
      using True find_slot_nth [of _ ?hs] by (auto simp: j_def split: if_splits)
    have inv: "slots_inv hs'" unfolding hs'_def
      by (rule slots_write(1) [OF assms True]) (use only in \<open>cases handler; auto\<close>)+
    have "handler_of hs' u = ((handler_of ?hs)(tf := handler)) u" for u
    proof -
      have "handler_of hs' u = (if map_option (\<lambda>_. tf) handler = Some u then handler
          else if topicFilter (?hs ! j) = Some u then None else handler_of ?hs u)"
        unfolding hs'_def by (rule slots_write(2) [OF assms True]) (use only in \<open>cases handler; auto\<close>)+
      moreover have "topicFilter (?hs ! j) = Some tf" if "handler = None"
        using True find_slot_nth [of _ ?hs] that by (simp add: j_def)
      ultimately show ?thesis using old by (cases "u = tf"; cases handler) auto
    qed
    then have "handler_of hs' = (handler_of ?hs)(tf := handler)" by (rule ext)
    with True room inv show ?thesis
      by (intro exI [of _ SUCCESS] exI [of _ "c\<lparr>messageHandlers := hs'\<rparr>"]) (simp add: call hs'_def)
  next
    case False
    with room assms show ?thesis
      by (intro exI [of _ FAILURE] exI [of _ c]) (simp add: call return_codes)
  qed
qed

text \<open>C21: The table of message handlers is a map from topic filters with room for as many entries as it has slots:
  setting a handler inserts or replaces the entry and fails exactly when the filter is new and no slot is free, removing one
  deletes the entry and fails exactly when there is none; a failing call changes nothing.\<close>

theorem mqtt_handler_table:
  fixes c :: "('tm, 'h) MQTTClient"
  assumes "slots_inv (messageHandlers c)"
  shows "\<exists>rc c'. MQTTSetMessageHandler c tf handler = (rc, c') \<and> slots_inv (messageHandlers c') \<and>
    length (messageHandlers c') = length (messageHandlers c) \<and>
    (rc = SUCCESS \<longleftrightarrow> handler_of (messageHandlers c) tf \<noteq> None \<or> handler \<noteq> None \<and> 0 < free_slots (messageHandlers c)) \<and>
    (rc = SUCCESS \<longrightarrow> handler_of (messageHandlers c') = (handler_of (messageHandlers c))(tf := handler)) \<and>
    (rc \<noteq> SUCCESS \<longrightarrow> rc = FAILURE \<and> c' = c)"
  using assms by (rule set_handler_spec)

definition demo_timer :: "unit Timer" where "demo_timer = \<lparr>xTicksToWait = 0, xTimeOut = ()\<rparr>"

definition demo_client :: "(unit, nat) MQTTClient" where
  "demo_client = \<lparr>next_packetid = 1, command_timeout_ms = 3000, buf = replicate 40 0, readbuf = replicate 40 0,
     c_keepAliveInterval = 60, ping_outstanding = False, isconnected = True, c_cleansession = 1,
     messageHandlers = [\<lparr>topicFilter = Some (bytes_of ''a/+''), fp = Some 1\<rparr>, \<lparr>topicFilter = None, fp = None\<rparr>,
       \<lparr>topicFilter = None, fp = None\<rparr>, \<lparr>topicFilter = None, fp = None\<rparr>, \<lparr>topicFilter = None, fp = None\<rparr>],
     defaultMessageHandler = None, last_sent = demo_timer, last_received = demo_timer\<rparr>"

lemma demo_slots: "slots_inv (messageHandlers demo_client)"
proof (rule slots_invI)
  have used: "i = 0" if "i < length (messageHandlers demo_client)" "topicFilter (messageHandlers demo_client ! i) = Some t" for i t
  proof (rule ccontr)
    assume "i \<noteq> 0"
    with that(1) have "i = 1 \<or> i = 2 \<or> i = 3 \<or> i = 4" by (simp add: demo_client_def) presburger
    with that(2) show False by (elim disjE) (simp_all add: demo_client_def)
  qed
  fix i j t
  show "fp (messageHandlers demo_client ! i) \<noteq> None"
    if "i < length (messageHandlers demo_client)" "topicFilter (messageHandlers demo_client ! i) = Some t"
    using used [OF that] by (simp add: demo_client_def)
  show "i = j" if "i < length (messageHandlers demo_client)" "j < length (messageHandlers demo_client)"
      "topicFilter (messageHandlers demo_client ! i) = Some t" "topicFilter (messageHandlers demo_client ! j) = Some t"
    using used that by blast
qed

theorem mqtt_handler_table_witness:
  "\<exists>rc c'. MQTTSetMessageHandler demo_client (bytes_of ''b'') (Some 2) = (rc, c') \<and> slots_inv (messageHandlers c')"
  using mqtt_handler_table [OF demo_slots, of "bytes_of ''b''" "Some 2"] by (elim exE conjE) (intro exI conjI)
end
