(* ===== verification/MQTT_Client_Invariant.thy ===== *)
theory MQTT_Client_Invariant
  imports MQTT_Client_Proofs
begin

text \<open>
  The invariant of the MQTT client under every operation. The operations are followed with the rules for
  \<open>yields\<close>: what they write keeps the length of the client's buffers, and what they call keeps the invariant.
\<close>

section \<open>The length of the buffer\<close>

abbreviation keeps :: "out option \<Rightarrow> nat \<Rightarrow> bool" where
  "keeps r n \<equiv> yields r (\<lambda>s. length (fst s) = n)"

lemma emit_keeps: "length (fst s) = n \<Longrightarrow> keeps (emit e s) n"
  by (cases s) (auto simp: emit_Some)

lemma mem_cpy_keeps: "length b = n \<Longrightarrow> yields (mem_cpy b i xs) (\<lambda>b'. length b' = n)"
  by (auto intro!: yieldsI dest!: mem_cpy_length)

lemma keeps_bind:
  "keeps r n \<Longrightarrow> (\<And>s. length (fst s) = n \<Longrightarrow> keeps (f s) n) \<Longrightarrow> keeps (Option.bind r f) n"
  by (rule yields_bind)

lemma writeMQTTString_keeps: "length (fst s) = n \<Longrightarrow> keeps (writeMQTTString str s) n"
  unfolding writeMQTTString_def writeCString_emit writeInt_emit
  by (intro yields_if yields_prod yields_bind [OF emit_keeps] yields_bind_any yields_bind [OF mem_cpy_keeps] emit_keeps)
     (auto split: option.splits intro!: emit_keeps yields_bind [OF emit_keeps] yields_bind_any yields_bind [OF mem_cpy_keeps])

lemma writeCString_keeps: "length (fst s) = n \<Longrightarrow> keeps (writeCString str s) n"
  unfolding writeCString_emit by (rule emit_keeps)

lemma write_header_keeps: "length (fst s) = n \<Longrightarrow> keeps (write_header h k s) n"
  unfolding write_header_emit by (rule emit_keeps)

lemma writeChar_keeps: "length (fst s) = n \<Longrightarrow> keeps (writeChar c s) n"
  unfolding writeChar_emit by (rule emit_keeps)

lemma writeInt_keeps: "length (fst s) = n \<Longrightarrow> keeps (writeInt c s) n"
  unfolding writeInt_emit by (rule emit_keeps)

lemma copy_payload_keeps: "length (fst s) = n \<Longrightarrow> keeps (copy_payload p k s) n"
  by (cases s) (auto simp: copy_payload_def yields_def bind_eq_Some_conv dest!: mem_cpy_length)

lemma write_filters_keeps: "length (fst s) = n \<Longrightarrow> keeps (write_filters fs s) n"
  by (induction fs arbitrary: s) (auto intro!: keeps_bind writeMQTTString_keeps writeChar_keeps)

lemma write_topics_keeps: "length (fst s) = n \<Longrightarrow> keeps (write_topics ts s) n"
  by (induction ts arbitrary: s) (auto intro!: keeps_bind writeMQTTString_keeps)

lemmas writes_keep = writeMQTTString_keeps writeCString_keeps write_header_keeps writeChar_keeps writeInt_keeps
  copy_payload_keeps write_filters_keeps write_topics_keeps

lemma write_connect_keeps: "length (fst s) = n \<Longrightarrow> keeps (write_connect options k s) n"
  unfolding write_connect_def Let_def
  by (rule keeps_bind, rule write_header_keeps, assumption, rule keeps_bind,
      auto intro!: keeps_bind writes_keep)+

text \<open>A packet written into the client's buffer leaves its length.\<close>

abbreviation fills :: "(int \<times> bytes) option \<Rightarrow> nat \<Rightarrow> bool" where
  "fills r n \<equiv> yields r (\<lambda>x. length (snd x) = n)"

lemma finish_packet_fills: "keeps r n \<Longrightarrow> fills (finish_packet r) n"
  by (cases r) (auto simp: finish_packet_def)

lemma serialize_fills:
  "length b = n \<Longrightarrow> fills (MQTTSerialize_connect b k options) n"
  "length b = n \<Longrightarrow> fills (MQTTSerialize_pingreq b k) n"
  "length b = n \<Longrightarrow> fills (MQTTSerialize_disconnect b k) n"
  "length b = n \<Longrightarrow> fills (MQTTSerialize_ack b k ty dup pid) n"
  "length b = n \<Longrightarrow> fills (MQTTSerialize_publish b k dup qos ret pid topic payload len) n"
  "length b = n \<Longrightarrow> fills (MQTTSerialize_subscribe b k dup pid fs) n"
  "length b = n \<Longrightarrow> fills (MQTTSerialize_unsubscribe b k dup pid ts) n"
  unfolding MQTTSerialize_connect_def MQTTSerialize_pingreq_def MQTTSerialize_disconnect_def MQTTSerialize_zero_def
    MQTTSerialize_ack_def MQTTSerialize_publish_def MQTTSerialize_subscribe_def MQTTSerialize_unsubscribe_def Let_def
  by (auto intro!: finish_packet_fills keeps_bind writes_keep write_connect_keeps)

section \<open>The invariant of the client\<close>

definition client_inv :: "nat \<Rightarrow> nat \<Rightarrow> ('tm, 'h) MQTTClient \<Rightarrow> bool" where
  "client_inv nb nr c = (length (buf c) = nb \<and> length (readbuf c) = nr \<and>
     next_packetid c \<noteq> 0 \<and> next_packetid c \<le> MAX_PACKET_ID \<and>
     length (messageHandlers c) = MAX_MESSAGE_HANDLERS \<and> slots_inv (messageHandlers c))"

lemma client_inv_update [simp]:
  "client_inv nb nr (c\<lparr>ping_outstanding := x\<rparr>) = client_inv nb nr c"
  "client_inv nb nr (c\<lparr>isconnected := x\<rparr>) = client_inv nb nr c"
  "client_inv nb nr (c\<lparr>last_sent := t\<rparr>) = client_inv nb nr c"
  "client_inv nb nr (c\<lparr>last_received := t\<rparr>) = client_inv nb nr c"
  "client_inv nb nr (c\<lparr>c_keepAliveInterval := k\<rparr>) = client_inv nb nr c"
  "client_inv nb nr (c\<lparr>c_cleansession := i\<rparr>) = client_inv nb nr c"
  by (simp_all add: client_inv_def)

lemma client_inv_buf: "client_inv nb nr c \<Longrightarrow> length b = nb \<Longrightarrow> client_inv nb nr (c\<lparr>buf := b\<rparr>)"
  "client_inv nb nr c \<Longrightarrow> length b = nr \<Longrightarrow> client_inv nb nr (c\<lparr>readbuf := b\<rparr>)"
  "client_inv nb nr c \<Longrightarrow> length (buf c) = nb" "client_inv nb nr c \<Longrightarrow> length (readbuf c) = nr"
  by (simp_all add: client_inv_def)

lemma slots_cleared: "slots_inv (map (\<lambda>m. m\<lparr>topicFilter := None\<rparr>) hs)"
  by (simp add: slots_inv_def)

lemma client_inv_clean: "client_inv nb nr c \<Longrightarrow> client_inv nb nr (MQTTCleanSession c)"
  by (simp add: client_inv_def MQTTCleanSession_def slots_cleared)

lemma client_inv_close: "client_inv nb nr c \<Longrightarrow> client_inv nb nr (MQTTCloseSession c)"
  by (simp add: MQTTCloseSession_def Let_def client_inv_clean)

lemma client_inv_close_on: "client_inv nb nr c \<Longrightarrow> client_inv nb nr (close_on_failure rc c)"
  by (simp add: close_on_failure_def client_inv_close)

lemma client_inv_pid:
  assumes "client_inv nb nr c" "getNextPacketId c = (pid, c')"
  shows "client_inv nb nr c'"
proof -
  have "next_packetid c + 1 \<noteq> 0 \<and> next_packetid c + 1 \<le> MAX_PACKET_ID" if "next_packetid c \<noteq> MAX_PACKET_ID"
  proof -
    have lt: "unat (next_packetid c) < 65535"
      using that assms(1) by (simp add: client_inv_def MAX_PACKET_ID_def word_le_nat_alt word_unat_eq_iff)
    then have "unat (next_packetid c + 1) = unat (next_packetid c) + 1"
      by (simp add: unat_word_ariths)
    with lt show ?thesis by (simp add: MAX_PACKET_ID_def word_le_nat_alt word_unat_eq_iff)
  qed
  then show ?thesis
    using assms by (cases "next_packetid c = MAX_PACKET_ID") (auto simp: client_inv_def getNextPacketId_def Let_def MAX_PACKET_ID_def)
qed

lemma client_inv_handlers:
  assumes "client_inv nb nr c" "MQTTSetMessageHandler c tf handler = (rc, c')"
  shows "client_inv nb nr c'"
proof -
  have "slots_inv (messageHandlers c)" using assms(1) by (simp add: client_inv_def)
  from set_handler_spec [OF this, of tf handler] assms(2)
  have "slots_inv (messageHandlers c') \<and> length (messageHandlers c') = length (messageHandlers c)" by auto
  moreover have "buf c' = buf c \<and> readbuf c' = readbuf c \<and> next_packetid c' = next_packetid c"
    using assms(2) by (auto simp: set_handler_slot Let_def split: if_splits)
  ultimately show ?thesis using assms(1) by (simp add: client_inv_def)
qed

lemmas inv_simps = client_inv_buf client_inv_clean client_inv_close client_inv_close_on

abbreviation inv_of :: "nat \<Rightarrow> nat \<Rightarrow> 'a \<times> ('tm, 'h) MQTTClient \<times> 'b \<Rightarrow> bool" where
  "inv_of nb nr x \<equiv> client_inv nb nr (fst (snd x))"

lemma inv_bind:
  "yields r (inv_of nb nr) \<Longrightarrow> (\<And>a c x. client_inv nb nr c \<Longrightarrow> yields (f (a, c, x)) Q) \<Longrightarrow> yields (Option.bind r f) Q"
  by (auto simp: yields_def bind_eq_Some_conv)

lemma inv_bind_write:
  "(\<And>b'. length b' = length b \<Longrightarrow> yields (f1 b') Q) \<Longrightarrow> yields (Option.bind (mem_cpy b i xs) f1) Q"
  "(\<And>b' i'. length b' = length (fst s) \<Longrightarrow> yields (f2 (b', i')) Q) \<Longrightarrow> yields (Option.bind (MQTTPacket_encode k s) f2) Q"
  "fills r n \<Longrightarrow> (\<And>l b'. length b' = n \<Longrightarrow> yields (f3 (l, b')) Q) \<Longrightarrow> yields (Option.bind r f3) Q"
  by (auto simp: yields_def bind_eq_Some_conv encode_emit dest!: mem_cpy_length yieldsD [OF emit_keeps, OF refl])

lemmas inv_bind_read = yields_bind_any [where r = "mqttread p n t w" for p n t w]
  yields_bind_any [where r = "MQTTDeserialize_suback i m k q b" for i m k q b]
  yields_bind_any [where r = "MQTTDeserialize_unsuback i b" for i b]
  yields_bind_any [where r = "decodePacket p k w" for p k w] yields_bind_any [where r = "mem_get b i" for b i]
  yields_bind_any [where r = "send_loop p b k n t w" for p b k n t w] yields_bind_any [where r = "deliverMessage p c t m w" for p c t m w]
  yields_bind_any [where r = "MQTTDeserialize_publish x b" for x b] yields_bind_any [where r = "MQTTDeserialize_ack x b" for x b]

lemma reply_fills:
  "fills (if q = 1 then MQTTSerialize_ack b k PUBACK 0 i else if q = (2::int) then MQTTSerialize_ack b k PUBREC 0 i else Some (0, b)) (length b)"
  by (simp add: serialize_fills)

lemmas inv_bind_serialize = inv_bind_write(3) [OF reply_fills] serialize_fills [THEN inv_bind_write(3), OF refl]

lemmas inv_calc = yields_if yields_prod inv_bind_write(1,2) inv_bind_serialize inv_bind_read

lemma sendPacket_inv: "client_inv nb nr c \<Longrightarrow> yields (sendPacket p c len timer w) (inv_of nb nr)"
  unfolding sendPacket_def by (intro inv_calc; simp)

lemma readPacket_inv: "client_inv nb nr c \<Longrightarrow> yields (readPacket p c timer w) (inv_of nb nr)"
  unfolding readPacket_def Let_def
  by (intro inv_calc inv_bind [where nb = nb and nr = nr]; simp add: inv_simps)

lemma keepalive_inv:
  assumes inv: "client_inv nb nr c"
  shows "yields (keepalive p c w) (inv_of nb nr)"
proof -
  have ping: "yields (if \<not> e then Some (SUCCESS, c, w)
            else if ping_outstanding c then Some (FAILURE, c, w)
            else (case TimerCountdownMS p 1000 w of (timer, w) \<Rightarrow> do {
              (len, b) \<leftarrow> MQTTSerialize_pingreq (buf c) (int (length (buf c)));
              if len > 0 then do {
                (rc, c, timer, w) \<leftarrow> sendPacket p (c\<lparr>buf := b\<rparr>) len timer w;
                Some (rc, if rc = SUCCESS then c\<lparr>ping_outstanding := True\<rparr> else c, w) }
              else Some (SUCCESS, c\<lparr>buf := b\<rparr>, w) })) (inv_of nb nr)"
    if "client_inv nb nr c" for e c w
    using that by (intro inv_calc inv_bind [where nb = nb and nr = nr] sendPacket_inv; simp add: inv_simps)
  obtain e t w1 where sent: "TimerIsExpired p (last_sent c) w = (e, t, w1)" by (rule prod_cases3)
  obtain e2 c2 w2 where st: "(if e then (True, c\<lparr>last_sent := t\<rparr>, w1)
      else (case TimerIsExpired p (last_received (c\<lparr>last_sent := t\<rparr>)) w1 of (expired, t', w) \<Rightarrow>
        (expired, c\<lparr>last_sent := t, last_received := t'\<rparr>, w))) = (e2, c2, w2)" by (rule prod_cases3)
  have "client_inv nb nr c2" using st inv by (auto split: if_splits prod.splits)
  from ping [OF this, of e2 w2] st sent inv show ?thesis
    unfolding keepalive_def by (auto simp: Let_def simp del: not_None_eq)
qed

text \<open>The two results before the client are paired for the cases of the switch.\<close>

abbreviation inv_of5 :: "nat \<Rightarrow> nat \<Rightarrow> 'a \<times> 'b \<times> ('tm, 'h) MQTTClient \<times> 'c \<Rightarrow> bool" where
  "inv_of5 nb nr x \<equiv> client_inv nb nr (fst (snd (snd x)))"

lemma inv_bind5:
  "yields r (inv_of5 nb nr) \<Longrightarrow> (\<And>a b c x. client_inv nb nr c \<Longrightarrow> yields (f (a, b, c, x)) Q) \<Longrightarrow> yields (Option.bind r f) Q"
  by (auto simp: yields_def bind_eq_Some_conv)

lemma cycle_pubrec_inv: "client_inv nb nr c \<Longrightarrow> yields (cycle_pubrec p ty c timer w) (inv_of5 nb nr)"
  unfolding cycle_pubrec_def Let_def
  by (intro inv_calc inv_bind [where nb = nb and nr = nr] sendPacket_inv; simp add: inv_simps)

lemma cycle_publish_inv: "client_inv nb nr c \<Longrightarrow> yields (cycle_publish p c timer w) (inv_of5 nb nr)"
  unfolding cycle_publish_def Let_def
  by (intro inv_calc inv_bind [where nb = nb and nr = nr] sendPacket_inv; simp add: inv_simps)

lemma cycle_switch_inv: "client_inv nb nr c \<Longrightarrow> yields (cycle_switch p ty c timer w) (inv_of5 nb nr)"
  unfolding cycle_switch_def by (intro inv_calc cycle_publish_inv cycle_pubrec_inv; simp)

lemma cycle_inv: "client_inv nb nr c \<Longrightarrow> yields (cycle p c timer w) (inv_of nb nr)"
  unfolding cycle_def
  by (intro inv_calc inv_bind [where nb = nb and nr = nr] inv_bind5 [where nb = nb and nr = nr]
        readPacket_inv cycle_switch_inv keepalive_inv; simp add: inv_simps)

lemma yield_loop_inv:
  assumes "client_inv nb nr c"
  shows "yields (yield_loop p c timer w) (inv_of nb nr)"
proof (rule yieldsI)
  fix y assume "yield_loop p c timer w = Some y"
  then have "client_inv nb nr c \<longrightarrow> inv_of nb nr y"
  proof (rule yield_loop.raw_induct [rotated, where P = "\<lambda>p c timer w y. client_inv nb nr c \<longrightarrow> inv_of nb nr y"])
    fix yl p c timer w y
    assume IH: "\<And>p c timer w y. yl p c timer w = Some y \<Longrightarrow> client_inv nb nr c \<longrightarrow> inv_of nb nr y"
      and step: "Option.bind (cycle p c timer w) (\<lambda>(rc, c, timer, w).
        if rc < 0 then Some (FAILURE, c, w)
        else (case TimerIsExpired p timer w of (expired, timer, w) \<Rightarrow>
               if expired then Some (SUCCESS, c, w) else yl p c timer w)) = Some y"
    from IH have "client_inv nb nr c \<Longrightarrow> yields (yl p c timer w) (inv_of nb nr)" for p c timer w
      by (auto intro: yieldsI)
    then have "client_inv nb nr c \<Longrightarrow> yields (Some y) (inv_of nb nr)"
      unfolding step [symmetric]
      by (intro inv_calc inv_bind [where nb = nb and nr = nr] cycle_inv; simp)
    then show "client_inv nb nr c \<longrightarrow> inv_of nb nr y" by simp
  qed
  with assms show "inv_of nb nr y" by simp
qed

lemma waitfor_loop_inv:
  assumes "client_inv nb nr c"
  shows "yields (waitfor_loop p ty rc c timer w) (inv_of nb nr)"
proof (rule yieldsI)
  fix y assume "waitfor_loop p ty rc c timer w = Some y"
  then have "client_inv nb nr c \<longrightarrow> inv_of nb nr y"
  proof (rule waitfor_loop.raw_induct [rotated, where P = "\<lambda>p ty rc c timer w y. client_inv nb nr c \<longrightarrow> inv_of nb nr y"])
    fix wl p ty rc c timer w y
    assume IH: "\<And>p ty rc c timer w y. wl p ty rc c timer w = Some y \<Longrightarrow> client_inv nb nr c \<longrightarrow> inv_of nb nr y"
      and step: "(case TimerIsExpired p timer w of (expired, timer, w) \<Rightarrow>
        if expired then Some (rc, c, timer, w)
        else Option.bind (cycle p c timer w) (\<lambda>(rc, c, timer, w).
          if rc \<noteq> ty \<and> 0 \<le> rc then wl p ty rc c timer w else Some (rc, c, timer, w))) = Some y"
    from IH have "client_inv nb nr c \<Longrightarrow> yields (wl p ty rc c timer w) (inv_of nb nr)" for p ty rc c timer w
      by (auto intro: yieldsI)
    then have "client_inv nb nr c \<Longrightarrow> yields (Some y) (inv_of nb nr)"
      unfolding step [symmetric]
      by (intro inv_calc inv_bind [where nb = nb and nr = nr] cycle_inv; simp)
    then show "client_inv nb nr c \<longrightarrow> inv_of nb nr y" by simp
  qed
  with assms show "inv_of nb nr y" by simp
qed

lemma loops_inv:
  "client_inv nb nr c \<Longrightarrow> yields (MQTTYield p c ms w) (inv_of nb nr)"
  "client_inv nb nr c \<Longrightarrow> yields (waitfor p c t timer w) (inv_of nb nr)"
  "client_inv nb nr c \<Longrightarrow> yields (MQTTRun_turn p c w) (\<lambda>x. client_inv nb nr (fst x))"
  unfolding MQTTYield_def waitfor_def MQTTRun_turn_def
  by (intro inv_calc inv_bind [where nb = nb and nr = nr] cycle_inv yield_loop_inv waitfor_loop_inv; simp)+

section \<open>The invariant under every operation\<close>

lemma client_inv_next: "client_inv nb nr c \<Longrightarrow> client_inv nb nr (snd (getNextPacketId c))"
  using client_inv_pid [of nb nr c] by (metis prod.collapse)

lemma inv_bind_code:
  "(\<And>x. yields (f x) Q) \<Longrightarrow> yields (Option.bind (if b then Option.bind (MQTTDeserialize_connack z rb) g else Some y) f) Q"
  "(\<And>x. yields (f' x) Q) \<Longrightarrow> yields (Option.bind (if b then Option.bind (MQTTDeserialize_ack z' rb) g' else Some y') f') Q"
  by (auto simp: yields_def bind_eq_Some_conv)

lemma connect_inv: "client_inv nb nr c \<Longrightarrow> yields (MQTTConnectWithResults p c options data w) (inv_of5 nb nr)"
  unfolding MQTTConnectWithResults_def Let_def
  by (intro inv_bind_code inv_calc inv_bind [where nb = nb and nr = nr] sendPacket_inv loops_inv; simp add: inv_simps)

lemma inv_case_pid:
  "client_inv nb nr c \<Longrightarrow> (\<And>pid c. client_inv nb nr c \<Longrightarrow> yields (f pid c) Q) \<Longrightarrow>
   yields (case getNextPacketId c of (pid, c) \<Rightarrow> f pid c) Q"
  using client_inv_next [of nb nr c] by (simp add: split_beta)

lemma inv_case_set:
  "client_inv nb nr c \<Longrightarrow> (\<And>rc c. client_inv nb nr c \<Longrightarrow> yields (f rc c) Q) \<Longrightarrow>
   yields (case (if b then MQTTSetMessageHandler c tf h else (rc, c)) of (rc, c) \<Rightarrow> f rc c) Q"
  using client_inv_handlers [of nb nr c tf h] by (cases "MQTTSetMessageHandler c tf h") auto

lemma inv_case_stamp:
  "client_inv nb nr c \<Longrightarrow> (\<And>m c. client_inv nb nr c \<Longrightarrow> yields (f m c) Q) \<Longrightarrow>
   yields (case (if b then (case getNextPacketId c of (pid, c) \<Rightarrow> (g pid, c)) else (m, c)) of (m, c) \<Rightarrow> f m c) Q"
  using client_inv_next [of nb nr c] by (simp add: split_beta)

lemmas inv_cases = inv_case_pid inv_case_set inv_case_stamp

lemma client_inv_unset: "client_inv nb nr c \<Longrightarrow> client_inv nb nr (snd (MQTTSetMessageHandler c tf h))"
  using client_inv_handlers [of nb nr c] by (metis prod.collapse)

lemma subscribe_inv: "client_inv nb nr c \<Longrightarrow> yields (MQTTSubscribeWithResults p c tf qos handler granted w) (inv_of5 nb nr)"
  unfolding MQTTSubscribeWithResults_def Let_def
  by (intro inv_cases [where nb = nb and nr = nr] inv_calc inv_bind [where nb = nb and nr = nr] sendPacket_inv loops_inv;
      simp add: inv_simps)

lemma unsubscribe_inv: "client_inv nb nr c \<Longrightarrow> yields (MQTTUnsubscribe p c tf w) (inv_of nb nr)"
  unfolding MQTTUnsubscribe_def Let_def
  by (intro inv_cases [where nb = nb and nr = nr] inv_calc inv_bind [where nb = nb and nr = nr] sendPacket_inv loops_inv;
      simp add: inv_simps client_inv_unset)

lemma publish_inv: "client_inv nb nr c \<Longrightarrow> yields (MQTTPublish p c topic m w) (inv_of5 nb nr)"
  unfolding MQTTPublish_def Let_def
  by (intro inv_cases [where nb = nb and nr = nr] inv_bind_code inv_calc inv_bind [where nb = nb and nr = nr] sendPacket_inv loops_inv;
      simp add: inv_simps)

lemma disconnect_inv: "client_inv nb nr c \<Longrightarrow> yields (MQTTDisconnect p c w) (inv_of nb nr)"
  unfolding MQTTDisconnect_def Let_def
  by (intro inv_calc inv_bind [where nb = nb and nr = nr] sendPacket_inv loops_inv; simp add: inv_simps)

text \<open>The operations of the client and the changes of the world between them.\<close>

inductive client_step ::
  "('w, 'tm, 'h) port \<Rightarrow> ('tm, 'h) MQTTClient \<times> 'w \<Rightarrow> ('tm, 'h) MQTTClient \<times> 'w \<Rightarrow> bool" for p where
  step_connect: "MQTTConnectWithResults p c options data w = Some (rc, data', c', w') \<Longrightarrow> client_step p (c, w) (c', w')"
| step_subscribe: "MQTTSubscribeWithResults p c tf qos h g w = Some (rc, g', c', w') \<Longrightarrow> client_step p (c, w) (c', w')"
| step_unsubscribe: "MQTTUnsubscribe p c tf w = Some (rc, c', w') \<Longrightarrow> client_step p (c, w) (c', w')"
| step_publish: "MQTTPublish p c topic m w = Some (rc, m', c', w') \<Longrightarrow> client_step p (c, w) (c', w')"
| step_disconnect: "MQTTDisconnect p c w = Some (rc, c', w') \<Longrightarrow> client_step p (c, w) (c', w')"
| step_yield: "MQTTYield p c ms w = Some (rc, c', w') \<Longrightarrow> client_step p (c, w) (c', w')"
| step_run: "MQTTRun_turn p c w = Some (c', w') \<Longrightarrow> client_step p (c, w) (c', w')"
| step_handler: "MQTTSetMessageHandler c tf handler = (rc, c') \<Longrightarrow> client_step p (c, w) (c', w)"
| step_world: "client_step p (c, w) (c, w')"

lemma client_step_inv: "client_step p (c, w) (c', w') \<Longrightarrow> client_inv nb nr c \<Longrightarrow> client_inv nb nr c'"
  by (erule client_step.cases)
     (auto dest: connect_inv [THEN yieldsD] subscribe_inv [THEN yieldsD] unsubscribe_inv [THEN yieldsD] publish_inv [THEN yieldsD]
       disconnect_inv [THEN yieldsD] loops_inv [THEN yieldsD] client_inv_handlers)

lemma client_steps_inv:
  "(client_step p)\<^sup>*\<^sup>* s s' \<Longrightarrow> client_inv nb nr (fst s) \<Longrightarrow> client_inv nb nr (fst s')"
  by (induction rule: rtranclp_induct) (auto elim: client_step_inv)

lemma client_inv_init:
  "length (messageHandlers c) = MAX_MESSAGE_HANDLERS \<Longrightarrow> client_inv (length sb) (length rb) (MQTTClientInit ms sb rb c)"
  by (simp add: client_inv_def MQTTClientInit_def slots_cleared MAX_PACKET_ID_def)

lemma packet_id_nonzero:
  assumes "client_inv nb nr c"
  shows "fst (getNextPacketId c) \<noteq> 0"
proof -
  have "next_packetid (snd (getNextPacketId c)) \<noteq> 0" "next_packetid (snd (getNextPacketId c)) \<le> MAX_PACKET_ID"
    using client_inv_next [OF assms] by (simp_all add: client_inv_def)
  moreover have "fst (getNextPacketId c) = ucast (next_packetid (snd (getNextPacketId c)))"
    by (simp add: getNextPacketId_def Let_def)
  ultimately show ?thesis
    by (simp add: MAX_PACKET_ID_def word_le_nat_alt word_unat_eq_iff unat_ucast_u16)
qed

text \<open>C11: Whatever sequence of operations an initialised client goes through, its buffers keep their lengths, its five handler slots
  stay a map from topic filters to handlers, and the next packet identifier it hands out is not 0.\<close>

theorem mqtt_client_invariant:
  assumes "length (messageHandlers c0) = MAX_MESSAGE_HANDLERS"
    "(client_step p)\<^sup>*\<^sup>* (MQTTClientInit ms sb rb c0, w0) (c, w)"
  shows "length (buf c) = length sb \<and> length (readbuf c) = length rb \<and> length (messageHandlers c) = MAX_MESSAGE_HANDLERS \<and>
    slots_inv (messageHandlers c) \<and> fst (getNextPacketId c) \<noteq> 0"
proof -
  have "client_inv (length sb) (length rb) c"
    using client_steps_inv [OF assms(2), of "length sb" "length rb"] client_inv_init [OF assms(1)] by simp
  from this packet_id_nonzero [OF this] show ?thesis by (simp add: client_inv_def)
qed

definition idle_port :: "(unit, unit, nat) port" where
  "idle_port = \<lparr>vTaskSetTimeOutState = (\<lambda>w. ((), w)), xTaskCheckForTimeOut = (\<lambda>t n w. (True, t, 0, w)),
     mqttread = (\<lambda>n ms w. Some (0, [], w)), mqttwrite = (\<lambda>b n ms w. Some (n, w)), call_handler = (\<lambda>h t m w. w)\<rparr>"

theorem mqtt_client_invariant_witness:
  "slots_inv (messageHandlers (snd (MQTTSetMessageHandler (MQTTClientInit 3000 [0, 0, 0, 0] [0, 0] demo_client) (bytes_of ''b'') (Some 2)))) \<and>
   fst (getNextPacketId (snd (MQTTSetMessageHandler (MQTTClientInit 3000 [0, 0, 0, 0] [0, 0] demo_client) (bytes_of ''b'') (Some 2)))) \<noteq> 0"
proof -
  let ?c0 = "MQTTClientInit 3000 [0, 0, 0, 0] [0, 0] demo_client"
  have "(client_step idle_port)\<^sup>*\<^sup>* (?c0, ()) (snd (MQTTSetMessageHandler ?c0 (bytes_of ''b'') (Some 2)), ())"
    by (intro r_into_rtranclp step_handler) (rule prod.collapse [symmetric])
  from mqtt_client_invariant [OF _ this] show ?thesis by (simp add: demo_client_def MAX_MESSAGE_HANDLERS_def)
qed

end
