(* ===== verification/MQTT_Network.thy ===== *)
theory MQTT_Network
  imports MQTT_Client
begin

text \<open>
  The network of the MQTT client, \<^verbatim>\<open>src/paho.mqtt.embedded-c/MQTTClient-C/src/FreeRTOS/MQTTFreeRTOS.cpp\<close>: reading and
  writing a TCP socket within a time limit, and connecting it. The socket calls of lwIP are the record \<open>net\<close>, and
  \<open>FreeRTOS_port\<close> is what the client gets from \<^verbatim>\<open>NetworkInit\<close>.
\<close>

section \<open>Data\<close>

text \<open>
  \<open>lwip_recv\<close> gives a negative error or the bytes it stored, at most as many as wanted. \<open>vTaskDelay\<close> gives the call of
  \<^verbatim>\<open>dns_found_cb\<close> in that time, if there was one, with its address, which is null when the lookup failed.
  \<open>in_progress\<close> is the test of \<^verbatim>\<open>errno\<close>, \<open>lwip_fcntl\<close> reads the flags or sets the given ones, and \<open>so_error\<close> reads the
  pending error of a socket.
\<close>

datatype sockopt = SO_RCVTIMEO int | SO_SNDTIMEO int

record ('w, 'tm) net = "('w, 'tm) kernel" +
  lwip_socket :: "'w \<Rightarrow> int \<times> 'w"
  lwip_setsockopt :: "int \<Rightarrow> sockopt \<Rightarrow> 'w \<Rightarrow> int \<times> 'w"
  lwip_recv :: "int \<Rightarrow> int \<Rightarrow> 'w \<Rightarrow> (int + bytes) \<times> 'w"
  lwip_send :: "int \<Rightarrow> bytes \<Rightarrow> int \<Rightarrow> 'w \<Rightarrow> int \<times> 'w"
  lwip_connect :: "int \<Rightarrow> u32 \<Rightarrow> u16 \<Rightarrow> 'w \<Rightarrow> int \<times> 'w"
  lwip_close :: "int \<Rightarrow> 'w \<Rightarrow> 'w"
  lwip_fcntl :: "int \<Rightarrow> int option \<Rightarrow> 'w \<Rightarrow> int \<times> 'w"
  lwip_select :: "int \<Rightarrow> int \<Rightarrow> int \<Rightarrow> 'w \<Rightarrow> int \<times> 'w"
  so_error :: "int \<Rightarrow> 'w \<Rightarrow> int \<times> 'w"
  O_NONBLOCK :: int
  in_progress :: "'w \<Rightarrow> bool"
  ipaddr_aton :: "bytes \<Rightarrow> u32 option"
  dns_gethostbyname :: "bytes \<Rightarrow> 'w \<Rightarrow> u32 option \<times> 'w"
  vTaskDelay :: "nat \<Rightarrow> 'w \<Rightarrow> u32 option option \<times> 'w"

text \<open>The static variables of the file.\<close>

record dns_state =
  server :: u32
  dnsFound :: bool

section \<open>The code: reading and writing\<close>

text \<open>
  The loop of \<^verbatim>\<open>FreeRTOS_read\<close>: \<^verbatim>\<open>recvLen\<close>, or \<open>None\<close> when it has returned \<open>-1\<close>, and the bytes stored.
\<close>

partial_function (option) sock_read_loop ::
  "('w, 'tm) net \<Rightarrow> int \<Rightarrow> int \<Rightarrow> int \<Rightarrow> int \<Rightarrow> bytes \<Rightarrow> 'tm Timer \<Rightarrow> 'w \<Rightarrow> (int option \<times> bytes \<times> 'tm Timer \<times> 'w) option" where
  "sock_read_loop k sock len timeout_ms recvLen data timer w =
     (if sock < 0 then Some (None, data, timer, w)
      else (case lwip_setsockopt k sock (SO_RCVTIMEO (timeout_ms * 1000)) w of (rc, w) \<Rightarrow>
        if rc < 0 then Some (None, data, timer, w)
        else (case lwip_recv k sock (len - recvLen) w of
            (Inl rc, w) \<Rightarrow> Some (Some rc, data, timer, w)
          | (Inr bs, w) \<Rightarrow>
              (let recvLen = recvLen + int (length bs); data = data @ bs in
               if recvLen < len
               then (case TimerIsExpired k timer w of (expired, timer, w) \<Rightarrow>
                  if expired then Some (Some recvLen, data, timer, w)
                  else sock_read_loop k sock len timeout_ms recvLen data timer w)
               else Some (Some recvLen, data, timer, w)))))"

definition FreeRTOS_read ::
  "('w, 'tm) net \<Rightarrow> int \<Rightarrow> int \<Rightarrow> int \<Rightarrow> 'w \<Rightarrow> (int \<times> bytes \<times> 'w) option" where
  "FreeRTOS_read k sock len timeout_ms w =
     (case TimerCountdownMS k (of_int timeout_ms) w of (timer, w) \<Rightarrow> do {
        (recvLen, data, timer, w) \<leftarrow> sock_read_loop k sock len timeout_ms 0 [] timer w;
        (case recvLen of
           None \<Rightarrow> Some (- 1, data, w)
         | Some recvLen \<Rightarrow>
             (case TimerIsExpired k timer w of (expired, timer, w) \<Rightarrow>
                Some (if expired then 0 else recvLen, data, w))) })"

text \<open>The bytes given to \<open>lwip_send\<close> are those from \<^verbatim>\<open>buffer + sentLen\<close> on.\<close>

partial_function (option) sock_write_loop ::
  "('w, 'tm) net \<Rightarrow> int \<Rightarrow> bytes \<Rightarrow> int \<Rightarrow> int \<Rightarrow> int \<Rightarrow> 'tm Timer \<Rightarrow> 'w \<Rightarrow> (int \<times> 'w) option" where
  "sock_write_loop k sock b len timeout_ms sentLen timer w =
     (if sock < 0 then Some (- 1, w)
      else (case lwip_setsockopt k sock (SO_SNDTIMEO (timeout_ms * 1000)) w of (rc, w) \<Rightarrow>
        if rc < 0 then Some (- 1, w)
        else do {
          data \<leftarrow> mem_read b (nat sentLen) (nat (len - sentLen));
          (case lwip_send k sock data (len - sentLen) w of (rc, w) \<Rightarrow>
            if rc < 0 then Some (rc, w)
            else (let sentLen = sentLen + rc in
              if sentLen < len
              then (case TimerIsExpired k timer w of (expired, timer, w) \<Rightarrow>
                 if expired then Some (sentLen, w) else sock_write_loop k sock b len timeout_ms sentLen timer w)
              else Some (sentLen, w))) }))"

definition FreeRTOS_write ::
  "('w, 'tm) net \<Rightarrow> int \<Rightarrow> bytes \<Rightarrow> int \<Rightarrow> int \<Rightarrow> 'w \<Rightarrow> (int \<times> 'w) option" where
  "FreeRTOS_write k sock b len timeout_ms w =
     (case TimerCountdownMS k (of_int timeout_ms) w of (timer, w) \<Rightarrow> sock_write_loop k sock b len timeout_ms 0 timer w)"

definition FreeRTOS_disconnect :: "('w, 'tm) net \<Rightarrow> int \<Rightarrow> 'w \<Rightarrow> 'w" where
  "FreeRTOS_disconnect k sock w = lwip_close k sock w"

text \<open>What \<^verbatim>\<open>NetworkInit\<close> makes of a socket, with the application's message handlers.\<close>

definition FreeRTOS_port ::
  "('w, 'tm) net \<Rightarrow> int \<Rightarrow> ('h \<Rightarrow> MQTTString \<Rightarrow> MQTTMessage \<Rightarrow> 'w \<Rightarrow> 'w) \<Rightarrow> ('w, 'tm, 'h) port" where
  "FreeRTOS_port k sock handlers =
     \<lparr>vTaskSetTimeOutState = vTaskSetTimeOutState k, xTaskCheckForTimeOut = xTaskCheckForTimeOut k,
      mqttread = FreeRTOS_read k sock, mqttwrite = FreeRTOS_write k sock, call_handler = handlers\<rparr>"

section \<open>The code: connecting\<close>

text \<open>\<^verbatim>\<open>dns_found_cb\<close> reads its address, so a failed lookup is an access through a null pointer.\<close>

definition dns_found_cb :: "u32 option \<Rightarrow> dns_state \<Rightarrow> dns_state option" where
  "dns_found_cb ipaddr st = do { a \<leftarrow> ipaddr; Some (st\<lparr>server := a, dnsFound := True\<rparr>) }"

partial_function (option) wait_dns :: "('w, 'tm) net \<Rightarrow> dns_state \<Rightarrow> 'w \<Rightarrow> (dns_state \<times> 'w) option" where
  "wait_dns k st w =
     (if dnsFound st then Some (st, w)
      else (case vTaskDelay k 1000 w of
          (None, w) \<Rightarrow> wait_dns k st w
        | (Some ipaddr, w) \<Rightarrow> do { st \<leftarrow> dns_found_cb ipaddr st; wait_dns k st w }))"

text \<open>A numeric address is stored in \<^verbatim>\<open>server\<close>, and so is a cached one.\<close>

definition resolve :: "('w, 'tm) net \<Rightarrow> bytes \<Rightarrow> dns_state \<Rightarrow> 'w \<Rightarrow> (dns_state \<times> 'w) option" where
  "resolve k addr st w =
     (case ipaddr_aton k addr of
        Some a \<Rightarrow> Some (st\<lparr>server := a\<rparr>, w)
      | None \<Rightarrow> (case dns_gethostbyname k addr w of (cached, w) \<Rightarrow>
          wait_dns k (case cached of Some a \<Rightarrow> st\<lparr>server := a\<rparr> | None \<Rightarrow> st) w))"

definition htons :: "u16 \<Rightarrow> u16" where
  "htons x = push_bit 8 x OR drop_bit 8 x"

text \<open>The result is the return value and \<^verbatim>\<open>my_socket\<close>.\<close>

definition NetworkConnect ::
  "('w, 'tm) net \<Rightarrow> bytes \<Rightarrow> int \<Rightarrow> dns_state \<Rightarrow> 'w \<Rightarrow> (int \<times> int \<times> dns_state \<times> 'w) option" where
  "NetworkConnect k addr port st w =
     (case lwip_socket k w of (sock, w) \<Rightarrow>
        if sock < 0 then Some (- 1, sock, st, w)
        else do {
          (st, w) \<leftarrow> resolve k addr st w;
          (case lwip_connect k sock (server st) (htons (of_int port)) w of (rc, w) \<Rightarrow>
             if rc < 0 then Some (- 1, sock, st, lwip_close k sock w)
             else Some (0, sock, st, w)) })"

definition NetworkConnectWithTimeout ::
  "('w, 'tm) net \<Rightarrow> bytes \<Rightarrow> int \<Rightarrow> int \<Rightarrow> dns_state \<Rightarrow> 'w \<Rightarrow> (int \<times> int \<times> dns_state \<times> 'w) option" where
  "NetworkConnectWithTimeout k addr port timeout_ms st w =
     (case lwip_socket k w of (sock, w) \<Rightarrow>
        if sock < 0 then Some (- 1, sock, st, w)
        else do {
          (st, w) \<leftarrow> resolve k addr st w;
          let (flags, w) = lwip_fcntl k sock None w;
          let (_, w) = lwip_fcntl k sock (Some (flags OR O_NONBLOCK k)) w;
          let (rc, w) = lwip_connect k sock (server st) (htons (of_int port)) w;
          let (ok, w) =
            (if rc < 0 \<and> in_progress k w
             then (case lwip_select k sock (timeout_ms sdiv 1000) (timeout_ms smod 1000 * 1000) w of (rc, w) \<Rightarrow>
                if rc = 0 then (False, w)
                else if rc > 0 then (case so_error k sock w of (error, w) \<Rightarrow> (error = 0, w))
                else (False, w))
             else (True, w));
          if \<not> ok then Some (- 1, sock, st, lwip_close k sock w)
          else (case lwip_fcntl k sock (Some flags) w of (_, w) \<Rightarrow> Some (0, sock, st, w)) })"

end
