(* ===== verification/MQTT_Network_Proofs.thy ===== *)
theory MQTT_Network_Proofs
  imports MQTT_Network MQTT_Client_Proofs
begin

text \<open>
  The client on its network. The locale \<open>prompt_link\<close> is what the client asks of its port: every transfer is completed in
  time. It is provided by \<^verbatim>\<open>FreeRTOS_read\<close> and \<^verbatim>\<open>FreeRTOS_write\<close> over any socket that works, and
  one round of the client is followed through it on a message of the broker.
\<close>

section \<open>A link in time\<close>

text \<open>What is seen of the world: the bytes the broker has sent, those the client has sent and the calls of handlers.\<close>

record 'h link =
  pending :: bytes
  sent :: bytes
  calls :: "('h \<times> MQTTString \<times> MQTTMessage) list"

text \<open>The handlers a topic name goes to, in the order of the slots, or the default handler.\<close>

definition filter_matches :: "bytes \<Rightarrow> bytes \<Rightarrow> bool" where
  "filter_matches tf name = (tf = name \<or> topic_loop tf name)"

definition handlers_for :: "'h MessageHandlers list \<Rightarrow> bytes \<Rightarrow> 'h list" where
  "handlers_for mhs name = List.map_filter (\<lambda>m. case topicFilter m of
     Some tf \<Rightarrow> if filter_matches tf name then fp m else None | None \<Rightarrow> None) mhs"

definition receivers :: "('tm, 'h) MQTTClient \<Rightarrow> bytes \<Rightarrow> 'h list" where
  "receivers c name = (case handlers_for (messageHandlers c) name of
     [] \<Rightarrow> (case defaultMessageHandler c of Some h \<Rightarrow> [h] | None \<Rightarrow> []) | hs \<Rightarrow> hs)"

lemma receivers_same:
  "messageHandlers c' = messageHandlers c \<Longrightarrow> defaultMessageHandler c' = defaultMessageHandler c \<Longrightarrow> receivers c' = receivers c"
  by (rule ext) (simp add: receivers_def split: list.split)

lemma topic_test:
  "MQTTPacket_equals (str_view t) tf = Some (tf = str_bytes t)"
  "isTopicMatched tf (str_view t) = Some (topic_loop tf (str_bytes t))"
  by (auto simp: MQTTPacket_equals_def str_view_def isTopicMatched_def mem_read_def)

text \<open>The decoder on a source of characters that has the digits of a length.\<close>

lemma decode_loop_source:
  fixes view :: "'w \<Rightarrow> 'h link"
  assumes pop: "\<And>w c cs. pending (view w) = c # cs \<Longrightarrow> \<exists>w'. src w = Some (1, c, w') \<and> view w' = (view w)\<lparr>pending := cs\<rparr>"
    and "0 \<le> n" "pending (view w) = encode_digits n @ rest" "0 \<le> len" "len + int (length (encode_digits n)) \<le> 4"
  shows "\<exists>w'. decode_loop src len m val w = Some (len + int (length (encode_digits n)), val + n * m, w') \<and>
    view w' = (view w)\<lparr>pending := rest\<rparr>"
  using assms(2-)
proof (induction n arbitrary: w len m val rule: encode_digits.induct)
  case (1 n)
  show ?case
  proof (cases "n < 128")
    case True
    with "1.prems" pop [of w "of_int n" rest] digit_bits [of n] show ?thesis
      by (auto simp: encode_digits_small decode_loop.simps [of _ len] MAX_NO_OF_REMAINING_LENGTH_BYTES_def)
  next
    case False
    with "1.prems"(1) have n: "128 \<le> n" by simp
    obtain w1 where w1: "src w = Some (1, of_int (n mod 128) OR 128, w1)" "view w1 = (view w)\<lparr>pending := encode_digits (n div 128) @ rest\<rparr>"
      using pop [of w "of_int (n mod 128) OR 128" "encode_digits (n div 128) @ rest"] "1.prems"(2) n by (auto simp: encode_digits_big)
    have bits: "uint ((of_int (n mod 128) OR 128) AND 127 :: u8) = n mod 128"
      "(of_int (n mod 128) OR 128) AND 128 = (128 :: u8)"
      by (simp_all add: digit_bits)
    have "\<exists>w'. decode_loop src (len + 1) (m * 128) (val + n mod 128 * m) w1 =
        Some (len + 1 + int (length (encode_digits (n div 128))), val + n mod 128 * m + n div 128 * (m * 128), w') \<and>
          view w' = (view w1)\<lparr>pending := rest\<rparr>"
      using "1.IH" [OF refl refl, of w1] "1.prems" n w1(2)
      by (simp add: sdiv_nonneg encode_digits_big [of n] pos_imp_zdiv_pos_iff)
    moreover have "n mod 128 * m + n div 128 * (m * 128) = n * m"
      by (metis (no_types, lifting) distrib_right mod_mult_div_eq mult.assoc mult.commute)
    ultimately show ?thesis using n "1.prems"(3,4) w1 bits
      by (simp add: encode_digits_big decode_loop.simps [of _ len] MAX_NO_OF_REMAINING_LENGTH_BYTES_def add.assoc)
  qed
qed

locale prompt_link =
  fixes p :: "('w, 'tm, 'h) port" and view :: "'w \<Rightarrow> 'h link"
  assumes set_time: "\<exists>t w'. vTaskSetTimeOutState p w = (t, w') \<and> view w' = view w"
    and in_time: "\<exists>t ticks' w'. xTaskCheckForTimeOut p t0 ticks w = (False, t, ticks', w') \<and> view w' = view w"
    and read_link: "0 < n \<Longrightarrow> n \<le> length (pending (view w)) \<Longrightarrow>
      \<exists>w'. mqttread p (int n) ms w = Some (int n, take n (pending (view w)), w') \<and>
        view w' = (view w)\<lparr>pending := drop n (pending (view w))\<rparr>"
    and write_link: "0 < n \<Longrightarrow> n \<le> length b \<Longrightarrow>
      \<exists>w'. mqttwrite p b (int n) ms w = Some (int n, w') \<and> view w' = (view w)\<lparr>sent := sent (view w) @ take n b\<rparr>"
    and call_link: "view (call_handler p h t m w) = (view w)\<lparr>calls := calls (view w) @ [(h, t, m)]\<rparr>"
begin

lemma TimerCountdown_link: "\<exists>t w'. TimerCountdown p n w = (t, w') \<and> view w' = view w"
  using set_time [of w] by (auto simp: TimerCountdown_def TimerCountdownMS_def)

lemma TimerLeftMS_link: "\<exists>n t w'. TimerLeftMS p timer w = (n, t, w') \<and> view w' = view w"
  using in_time [of "xTimeOut timer" "xTicksToWait timer" w] by (auto simp: TimerLeftMS_def check_timer_def)

lemma TimerIsExpired_link: "\<exists>t w'. TimerIsExpired p timer w = (False, t, w') \<and> view w' = view w"
  using in_time [of "xTimeOut timer" "xTicksToWait timer" w] by (auto simp: TimerIsExpired_def check_timer_def)

lemma sendPacket_link:
  assumes "0 < n" "n \<le> length (buf c)"
  shows "\<exists>t timer' w'. sendPacket p c (int n) timer w = Some (SUCCESS, c\<lparr>last_sent := t\<rparr>, timer', w') \<and>
    view w' = (view w)\<lparr>sent := sent (view w) @ take n (buf c)\<rparr>"
proof -
  obtain t1 w1 where 1: "TimerIsExpired p timer w = (False, t1, w1)" "view w1 = view w" using TimerIsExpired_link by blast
  obtain l t2 w2 where 2: "TimerLeftMS p t1 w1 = (l, t2, w2)" "view w2 = view w1" using TimerLeftMS_link by blast
  have "n \<le> length (take n (buf c))" using assms by simp
  from write_link [OF assms(1) this, of l w2] obtain w3 where 3: "mqttwrite p (take n (buf c)) (int n) l w2 = Some (int n, w3)"
    "view w3 = (view w2)\<lparr>sent := sent (view w2) @ take n (buf c)\<rparr>" by auto
  obtain t4 w4 where 4: "TimerCountdown p (c_keepAliveInterval c) w3 = (t4, w4)" "view w4 = view w3" using TimerCountdown_link by blast
  have "send_loop p (buf c) (int n) 0 timer w = Some (int n, t2, w3)"
    using assms 1 2 3 by (subst send_loop.simps) (simp add: mem_read_def send_loop.simps [of p _ "int n" "int n"])
  with 4 1 2 3 show ?thesis by (simp add: sendPacket_def) blast
qed

lemma decode_link:
  assumes "0 \<le> n" "n < 268435456" "pending (view w) = encode_digits n @ rest"
  shows "\<exists>w'. decodePacket p ms w = Some (int (length (encode_digits n)), n, w') \<and> view w' = (view w)\<lparr>pending := rest\<rparr>"
proof -
  have pop: "\<exists>w'. (do { (rc, data, w) \<leftarrow> mqttread p 1 ms w;
       if rc = 1 then (case data of [] \<Rightarrow> None | c # _ \<Rightarrow> Some (rc, c, w)) else Some (rc, 0, w) }) = Some (1, c, w') \<and>
      view w' = (view w)\<lparr>pending := cs\<rparr>" if "pending (view w) = c # cs" for w c cs
    using that read_link [of 1 w ms] by auto
  have "0 + int (length (encode_digits n)) \<le> 4" using length_encode_digits [OF assms(1,2)] by simp
  from decode_loop_source [where src = "\<lambda>w. do { (rc, data, w) \<leftarrow> mqttread p 1 ms w;
       if rc = 1 then (case data of [] \<Rightarrow> None | c # _ \<Rightarrow> Some (rc, c, w)) else Some (rc, 0, w) }" and view = view,
      OF pop assms(1,3) order.refl this, of 1 0]
  show ?thesis by (simp add: decodePacket_def)
qed

text \<open>A packet that fits is read whole and put at the start of the read buffer.\<close>

lemma readPacket_link:
  assumes "pending (view w) = packet @ rest" "packet = b # encode_digits (int (length body)) @ body"
    and "length body < 268435456" "length packet \<le> length (readbuf c)" "length (readbuf c) < 4294967296"
  shows "\<exists>c' t w'. readPacket p c timer w = Some (uint (h_type (header_of b)), c', t, w') \<and>
    view w' = (view w)\<lparr>pending := rest\<rparr> \<and>
    (\<exists>lr. c' = c\<lparr>readbuf := packet @ drop (length packet) (readbuf c), last_received := lr\<rparr>)"
proof -
  let ?n = "int (length body)" and ?e = "encode_digits (int (length body))"
  let ?k = "length (encode_digits (int (length body)))"
  have small: "0 \<le> ?n" "?n < 268435456" using assms(3) by simp_all
  have len: "length packet = 1 + ?k + length body" by (simp add: assms(2))
  obtain l1 t1 w1 where 1: "TimerLeftMS p timer w = (l1, t1, w1)" "view w1 = view w" using TimerLeftMS_link by blast
  have p1: "pending (view w1) = b # ?e @ body @ rest" by (simp add: 1 assms(1,2))
  obtain w2 where 2: "mqttread p 1 l1 w1 = Some (1, [b], w2)" "view w2 = (view w)\<lparr>pending := ?e @ body @ rest\<rparr>"
    using read_link [of 1 w1 l1] p1 1 by auto
  obtain l3 t3 w3 where 3: "TimerLeftMS p t1 w2 = (l3, t3, w3)" "view w3 = view w2" using TimerLeftMS_link by blast
  have "pending (view w3) = ?e @ (body @ rest)" by (simp add: 2 3)
  from decode_link [OF small this] obtain w4 where
    4: "decodePacket p l3 w3 = Some (int ?k, ?n, w4)" "view w4 = (view w)\<lparr>pending := body @ rest\<rparr>" using 2 3 by auto
  define rb where "rb = b # ?e @ drop (1 + ?k) (readbuf c)"
  have rb1: "mem_cpy (readbuf c) 0 [b] = Some (b # drop 1 (readbuf c))" using assms(4) len by (simp add: mem_cpy_def)
  have rb2: "MQTTPacket_encode ?n (b # drop 1 (readbuf c), 1) = Some (rb, 1 + ?k)"
    using assms(4) len by (simp add: encode_emit emit_Some rb_def)
  have lrb: "length rb = length (readbuf c)" using assms(4) len by (simp add: rb_def)
  have fits: "\<not> (of_int ?n :: u32) > of_nat (length rb) - of_nat (1 + ?k)"
  proof -
    have "(of_nat (length rb) - of_nat (1 + ?k) :: u32) = of_nat (length rb - (1 + ?k))"
      using assms(4) len lrb by (simp add: of_nat_diff)
    then have "unat (of_nat (length rb) - of_nat (1 + ?k) :: u32) = length rb - (1 + ?k)"
      using assms(5) lrb by (simp only: unat_of_nat_u32)
    moreover have "unat (of_int ?n :: u32) = length body" using assms(3) by (simp add: unat_of_nat_u32)
    ultimately show ?thesis using assms(4) len lrb by (simp add: word_less_nat_alt)
  qed
  have b0: "mem_get (packet @ drop (length packet) (readbuf c)) 0 = Some b" by (simp add: assms(2))
  have stamp: "\<exists>lr. c\<lparr>readbuf := x\<rparr> = c\<lparr>readbuf := x, last_received := lr\<rparr>" for x
    by (rule exI [of _ "last_received c"]) simp
  note upto = readPacket_def Let_def 1(1) 2(1) 3(1) 4(1) rb1 rb2 fits
  show ?thesis
  proof (cases "body = []")
    case True
    obtain t6 w6 where 6: "TimerCountdown p (c_keepAliveInterval c) w4 = (t6, w6)" "view w6 = view w4" using TimerCountdown_link by blast
    have rb: "rb = packet @ drop (length packet) (readbuf c)" using True by (simp add: rb_def assms(2))
    have "readPacket p c timer w = Some (uint (h_type (header_of b)),
        (if c_keepAliveInterval c > 0 then c\<lparr>readbuf := rb, last_received := t6\<rparr> else c\<lparr>readbuf := rb\<rparr>), t3,
        (if c_keepAliveInterval c > 0 then w6 else w4))"
      using True fits rb2 b0 by (simp add: upto 6 rb)
    then show ?thesis using 4 6 True rb stamp by auto
  next
    case False
    obtain l5 t5 w5 where 5: "TimerLeftMS p t3 w4 = (l5, t5, w5)" "view w5 = view w4" using TimerLeftMS_link by blast
    obtain w6 where 6: "mqttread p ?n l5 w5 = Some (?n, body, w6)" "view w6 = (view w)\<lparr>pending := rest\<rparr>"
      using read_link [of "length body" w5 l5] False 4 5 by auto
    define rb' where "rb' = packet @ drop (length packet) (readbuf c)"
    have cpy: "mem_cpy rb (1 + ?k) body = Some rb'"
      using assms(4) len lrb by (simp add: mem_cpy_def rb_def rb'_def assms(2) add.commute)
    obtain t7 w7 where 7: "TimerCountdown p (c_keepAliveInterval c) w6 = (t7, w7)" "view w7 = view w6" using TimerCountdown_link by blast
    have "readPacket p c timer w = Some (uint (h_type (header_of b)),
        (if c_keepAliveInterval c > 0 then c\<lparr>readbuf := rb', last_received := t7\<rparr> else c\<lparr>readbuf := rb'\<rparr>), t5,
        (if c_keepAliveInterval c > 0 then w7 else w6))"
      using False b0 rb'_def rb2 [unfolded One_nat_def add_Suc add_0] cpy [unfolded One_nat_def add_Suc add_0] fits [simplified]
      by (simp add: readPacket_def Let_def 1(1) 2(1) 3(1) 4(1) rb1 [simplified] 5(1) 6(1) 7(1))
    then show ?thesis using 6 7 stamp by (auto simp: rb'_def)
  qed
qed

lemma deliver_loop_link:
  "\<exists>w'. deliver_loop p mhs (str_view t) m called w = Some (called \<or> handlers_for mhs (str_bytes t) \<noteq> [], w') \<and>
    view w' = (view w)\<lparr>calls := calls (view w) @ map (\<lambda>h. (h, str_view t, m)) (handlers_for mhs (str_bytes t))\<rparr>"
proof (induction mhs arbitrary: called w)
  case Nil
  show ?case by (simp add: handlers_for_def map_filter_def)
next
  case (Cons mh mhs)
  define matched where "matched = (case topicFilter mh of None \<Rightarrow> False | Some tf \<Rightarrow> filter_matches tf (str_bytes t))"
  have match: "(case topicFilter mh of None \<Rightarrow> Some False | Some tf \<Rightarrow> do {
           eq \<leftarrow> MQTTPacket_equals (str_view t) tf;
           if eq then Some True else isTopicMatched tf (str_view t) }) = Some matched"
    by (simp add: matched_def topic_test filter_matches_def split: option.split)
  show ?case
  proof (cases "matched \<and> fp mh \<noteq> None")
    case True
    then obtain h where h: "fp mh = Some h" by auto
    have "handlers_for (mh # mhs) (str_bytes t) = h # handlers_for mhs (str_bytes t)"
      using True h by (auto simp: handlers_for_def map_filter_def matched_def split: option.splits)
    with Cons.IH [of True "call_handler p h (str_view t) m w"] True h match show ?thesis
      by (simp add: call_link)
  next
    case False
    have "handlers_for (mh # mhs) (str_bytes t) = handlers_for mhs (str_bytes t)"
      using False by (auto simp: handlers_for_def map_filter_def matched_def split: option.splits)
    with Cons.IH [of called w] False match show ?thesis by (cases "fp mh") (simp_all split: bool.split)
  qed
qed

lemma deliverMessage_link:
  "\<exists>rc w'. deliverMessage p c (str_view t) m w = Some (rc, w') \<and>
    view w' = (view w)\<lparr>calls := calls (view w) @ map (\<lambda>h. (h, str_view t, m)) (receivers c (str_bytes t))\<rparr>"
proof -
  obtain w1 where 1: "deliver_loop p (messageHandlers c) (str_view t) m False w =
      Some (handlers_for (messageHandlers c) (str_bytes t) \<noteq> [], w1)"
    "view w1 = (view w)\<lparr>calls := calls (view w) @ map (\<lambda>h. (h, str_view t, m)) (handlers_for (messageHandlers c) (str_bytes t))\<rparr>"
    using deliver_loop_link [of "messageHandlers c" t m False w] by auto
  show ?thesis
    by (cases "handlers_for (messageHandlers c) (str_bytes t)"; cases "defaultMessageHandler c")
       (use 1 in \<open>simp_all add: deliverMessage_def receivers_def call_link\<close>)
qed

lemma keepalive_link:
  "\<exists>ls lr w'. keepalive p c w = Some (SUCCESS, c\<lparr>last_sent := ls, last_received := lr\<rparr>, w') \<and> view w' = view w"
proof (cases "c_keepAliveInterval c = 0")
  case True
  then show ?thesis by (intro exI [of _ "last_sent c"] exI [of _ "last_received c"]) (simp add: keepalive_def)
next
  case False
  obtain t1 w1 where 1: "TimerIsExpired p (last_sent c) w = (False, t1, w1)" "view w1 = view w" using TimerIsExpired_link by blast
  obtain t2 w2 where 2: "TimerIsExpired p (last_received c) w1 = (False, t2, w2)" "view w2 = view w1" using TimerIsExpired_link by blast
  from False 1 2 show ?thesis
    by (intro exI [of _ t1] exI [of _ t2] exI [of _ w2]) (simp add: keepalive_def Let_def)
qed

end

text \<open>The packet that answers a message.\<close>

definition reply_to :: "int \<Rightarrow> u16 \<Rightarrow> bytes" where
  "reply_to qos pid = (if qos = 0 then [] else [if qos = 1 then 0x40 else 0x50, 2] @ int_bytes (uint pid))"

lemma ack_bytes:
  assumes "length b \<ge> 4" "ty \<in> {PUBACK, PUBREC, PUBCOMP}"
  shows "MQTTSerialize_ack b (int (length b)) ty 0 pid = Some (4, [push_bit 4 ty, 2] @ int_bytes (uint pid) @ drop 4 b)"
proof -
  have "header_byte \<lparr>h_type = ty, h_dup = 0, h_qos = 0, h_retain = 0\<rparr> = push_bit 4 ty"
    using assms(2) by (auto simp: header_byte_def msg_types)
  moreover have "encode_digits 2 = [2]" by (simp add: encode_digits_small)
  moreover have "ty \<noteq> PUBREL" using assms(2) by (auto simp: msg_types)
  ultimately show ?thesis using assms(1)
    by (simp add: MQTTSerialize_ack_def write_header_emit writeInt_emit emit_bind finish_packet_emit)
qed

text \<open>What a handler is given for a message.\<close>

definition message_of :: "u8 \<Rightarrow> int \<Rightarrow> u8 \<Rightarrow> u16 \<Rightarrow> bytes \<Rightarrow> MQTTMessage \<Rightarrow> bool" where
  "message_of dup qos retained pid payload m = (m_dup m = dup AND 1 \<and> m_qos m = qos \<and> m_retained m = retained AND 1 \<and>
     (qos > 0 \<longrightarrow> m_id m = pid) \<and> unat (m_payloadlen m) = length payload \<and> take (length payload) (m_payload m) = payload)"

context prompt_link
begin

lemma cycle_publish_link:
  assumes "starts (readbuf c) 0 (publish_enc dup qos retained pid topic payload)" "str_ok topic" "qos \<in> {0, 1, 2}"
    and "MQTTSerialize_publishLength qos topic (int (length payload)) < 268435456" "length payload < 4294967296" "4 \<le> length (buf c)"
  shows "\<exists>m bf ls t' w'. cycle_publish p c timer w = Some (SUCCESS, True, c\<lparr>buf := bf, last_sent := ls\<rparr>, t', w') \<and>
    message_of dup qos retained pid payload m \<and>
    view w' = (view w)\<lparr>sent := sent (view w) @ reply_to qos pid,
      calls := calls (view w) @ map (\<lambda>h. (h, str_view topic, m)) (receivers c (str_bytes topic))\<rparr>"
proof -
  let ?r0 = "\<lparr>p_dup = 0, p_qos = 0, p_retained = 0, p_packetid = 0, p_topic = MQTTString_initializer, p_payload = 0, p_payloadlen = 0\<rparr>"
  obtain r where r: "MQTTDeserialize_publish ?r0 (readbuf c) = Some (1, r)" "p_dup r = dup AND 1" "p_qos r = qos"
    "p_retained r = retained AND 1" "qos > 0 \<longrightarrow> p_packetid r = pid" "p_topic r = str_view topic"
    "p_payloadlen r = int (length payload)" "take (length payload) (drop (p_payload r) (readbuf c)) = payload"
    using MQTTDeserialize_publish_enc [OF assms(2,3,1,4), of ?r0] by blast
  define m where "m = \<lparr>m_qos = p_qos r, m_retained = p_retained r, m_dup = p_dup r, m_id = p_packetid r,
      m_payload = drop (p_payload r) (readbuf c), m_payloadlen = of_int (p_payloadlen r)\<rparr>"
  have m: "message_of dup qos retained pid payload m"
    using r assms(5) by (simp add: message_of_def m_def unat_of_nat_u32)
  obtain rc w1 where 1: "deliverMessage p c (str_view topic) m w = Some (rc, w1)"
    "view w1 = (view w)\<lparr>calls := calls (view w) @ map (\<lambda>h. (h, str_view topic, m)) (receivers c (str_bytes topic))\<rparr>"
    using deliverMessage_link by blast
  show ?thesis
  proof (cases "qos = 0")
    case True
    with r(3) have q0: "m_qos m = 0" by (simp add: m_def)
    have "cycle_publish p c timer w = Some (SUCCESS, True, c\<lparr>buf := buf c, last_sent := last_sent c\<rparr>, timer, w1)"
      using q0 by (simp add: cycle_publish_def Let_def r(1,6) m_def [symmetric] 1(1)) (simp add: True r(3))
    with m 1(2) True show ?thesis
      by (intro exI [of _ m] exI [of _ "buf c"] exI [of _ "last_sent c"] exI [of _ timer] exI [of _ w1]) (simp add: reply_to_def)
  next
    case False
    define ty where "ty = (if qos = 1 then PUBACK else PUBREC)"
    define bf where "bf = [push_bit 4 ty, 2] @ int_bytes (uint pid) @ drop 4 (buf c)"
    have ser: "MQTTSerialize_ack (buf c) (int (length (buf c))) ty 0 pid = Some (4, bf)"
      unfolding bf_def by (rule ack_bytes [OF assms(6)]) (simp add: ty_def)
    have "4 \<le> length (buf (c\<lparr>buf := bf\<rparr>))" using assms(6) by (simp add: bf_def)
    from sendPacket_link [of 4 "c\<lparr>buf := bf\<rparr>", OF _ this, of timer w1]
    obtain ls t2 w2 where 2: "sendPacket p (c\<lparr>buf := bf\<rparr>) 4 timer w1 = Some (SUCCESS, c\<lparr>buf := bf, last_sent := ls\<rparr>, t2, w2)"
      "view w2 = (view w1)\<lparr>sent := sent (view w1) @ take 4 bf\<rparr>" by auto
    have reply: "take 4 bf = reply_to qos pid"
      using False by (auto simp: bf_def reply_to_def ty_def msg_types int_bytes_def)
    have q: "m_qos m = qos" "m_id m = pid" using False r(3,5) assms(3) by (auto simp: m_def)
    have "cycle_publish p c timer w = Some (SUCCESS, True, c\<lparr>buf := bf, last_sent := ls\<rparr>, t2, w2)"
      using False assms(3) ser 2(1) r(3)[symmetric] r(5)
      by (auto simp: cycle_publish_def Let_def r(1,6) m_def [symmetric] 1(1) q ty_def return_codes)
    with m 1(2) 2(2) reply show ?thesis
      by (intro exI [of _ m] exI [of _ bf] exI [of _ ls] exI [of _ t2] exI [of _ w2]) simp
  qed
qed

lemma cycle_link:
  assumes "pending (view w) = publish_enc dup qos retained pid topic payload @ rest" "str_ok topic" "qos \<in> {0, 1, 2}"
    and len: "MQTTSerialize_publishLength qos topic (int (length payload)) < 268435456" and "4 \<le> length (buf c)"
    and fits: "length (publish_enc dup qos retained pid topic payload) \<le> length (readbuf c)" "length (readbuf c) < 4294967296"
  shows "\<exists>m c' t' w'. cycle p c timer w = Some (uint PUBLISH, c', t', w') \<and> message_of dup qos retained pid payload m \<and>
    view w' = (view w)\<lparr>pending := rest, sent := sent (view w) @ reply_to qos pid,
      calls := calls (view w) @ map (\<lambda>h. (h, str_view topic, m)) (receivers c (str_bytes topic))\<rparr> \<and>
    messageHandlers c' = messageHandlers c \<and> isconnected c' = isconnected c"
proof -
  define h where "h = \<lparr>h_type = PUBLISH, h_dup = dup, h_qos = of_int qos, h_retain = retained\<rparr>"
  define body where "body = str_enc topic @ (if qos > 0 then int_bytes (uint pid) else []) @ payload"
  have wf: "str_wf topic" using assms(2) by (simp add: str_ok_def)
  have n: "MQTTSerialize_publishLength qos topic (int (length payload)) = int (length body)"
    unfolding body_def by (rule publishLength_enc [OF wf])
  have packet: "publish_enc dup qos retained pid topic payload = header_byte h # encode_digits (int (length body)) @ body"
    unfolding publish_enc_def n h_def body_def ..
  have "length body < 268435456" using len n by simp
  from readPacket_link [OF assms(1) packet this fits, of timer] obtain lr t1 w1 where
    1: "readPacket p c timer w = Some (uint (h_type (header_of (header_byte h))),
      c\<lparr>readbuf := publish_enc dup qos retained pid topic payload @
          drop (length (publish_enc dup qos retained pid topic payload)) (readbuf c), last_received := lr\<rparr>, t1, w1)"
      "view w1 = (view w)\<lparr>pending := rest\<rparr>" by blast
  let ?c1 = "c\<lparr>readbuf := publish_enc dup qos retained pid topic payload @
      drop (length (publish_enc dup qos retained pid topic payload)) (readbuf c), last_received := lr\<rparr>"
  have "length payload < 4294967296" using \<open>length body < 268435456\<close> by (simp add: body_def)
  from cycle_publish_link [of ?c1, OF _ assms(2,3) len this, of dup retained pid t1 w1] assms(5) starts_0(1)
  obtain m bf ls t2 w2 where 2: "cycle_publish p ?c1 t1 w1 = Some (SUCCESS, True, ?c1\<lparr>buf := bf, last_sent := ls\<rparr>, t2, w2)"
    "message_of dup qos retained pid payload m"
    "view w2 = (view w1)\<lparr>sent := sent (view w1) @ reply_to qos pid,
      calls := calls (view w1) @ map (\<lambda>h. (h, str_view topic, m)) (receivers ?c1 (str_bytes topic))\<rparr>"
    by auto
  obtain ls' lr' w3 where 3: "keepalive p (?c1\<lparr>buf := bf, last_sent := ls\<rparr>) w2 =
      Some (SUCCESS, ?c1\<lparr>buf := bf, last_sent := ls', last_received := lr'\<rparr>, w3)" "view w3 = view w2"
    using keepalive_link [of "?c1\<lparr>buf := bf, last_sent := ls\<rparr>" w2] by auto
  have ty: "uint (h_type (header_of (header_byte h))) = uint PUBLISH" by (simp add: header_of_byte h_def)
  have sw: "cycle_switch p (uint PUBLISH) ?c1 t1 w1 = cycle_publish p ?c1 t1 w1"
    by (simp add: cycle_switch_def msg_types)
  have "cycle p c timer w = Some (uint PUBLISH, ?c1\<lparr>buf := bf, last_sent := ls', last_received := lr'\<rparr>, t2, w3)"
    by (simp only: cycle_def 1(1) ty bind.bind_lunit sw 2(1) prod.case if_True) (simp add: 3(1))
  moreover have "receivers ?c1 = receivers c" by (rule receivers_same) simp_all
  ultimately show ?thesis using 1(2) 2(2,3) 3(2)
    by (intro exI [of _ m] exI [of _ "?c1\<lparr>buf := bf, last_sent := ls', last_received := lr'\<rparr>"] exI [of _ t2] exI [of _ w3]) simp
qed

end

section \<open>A link over a socket in time\<close>

text \<open>
  A socket that works: options can be set, receiving gives some of the bytes that have arrived, at least one and no more than
  wanted, sending takes some of the bytes given, and no time limit runs out.
\<close>

definition prompt_socket :: "('w, 'tm) net \<Rightarrow> int \<Rightarrow> ('w \<Rightarrow> 'h link) \<Rightarrow> bool" where
  "prompt_socket k sock view = (0 \<le> sock \<and>
     (\<forall>w. \<exists>t w'. vTaskSetTimeOutState k w = (t, w') \<and> view w' = view w) \<and>
     (\<forall>t0 n w. \<exists>t n' w'. xTaskCheckForTimeOut k t0 n w = (False, t, n', w') \<and> view w' = view w) \<and>
     (\<forall>opt w. \<exists>rc w'. lwip_setsockopt k sock opt w = (rc, w') \<and> 0 \<le> rc \<and> view w' = view w) \<and>
     (\<forall>n w. 0 < n \<longrightarrow> pending (view w) \<noteq> [] \<longrightarrow> (\<exists>m w'. 0 < m \<and> m \<le> n \<and> m \<le> length (pending (view w)) \<and>
        lwip_recv k sock (int n) w = (Inr (take m (pending (view w))), w') \<and>
        view w' = (view w)\<lparr>pending := drop m (pending (view w))\<rparr>)) \<and>
     (\<forall>n b w. 0 < n \<longrightarrow> n \<le> length b \<longrightarrow> (\<exists>m w'. 0 < m \<and> m \<le> n \<and>
        lwip_send k sock b (int n) w = (int m, w') \<and> view w' = (view w)\<lparr>sent := sent (view w) @ take m b\<rparr>)))"

lemma prompt_socketD:
  assumes "prompt_socket k sock view"
  shows "0 \<le> sock"
    "\<exists>t w'. TimerCountdownMS k ms w = (t, w') \<and> view w' = view w"
    "\<exists>t w'. TimerIsExpired k timer w = (False, t, w') \<and> view w' = view w"
    "\<exists>rc w'. lwip_setsockopt k sock opt w = (rc, w') \<and> 0 \<le> rc \<and> view w' = view w"
    "0 < n \<Longrightarrow> pending (view w) \<noteq> [] \<Longrightarrow> \<exists>m w'. 0 < m \<and> m \<le> n \<and> m \<le> length (pending (view w)) \<and>
        lwip_recv k sock (int n) w = (Inr (take m (pending (view w))), w') \<and>
        view w' = (view w)\<lparr>pending := drop m (pending (view w))\<rparr>"
    "0 < n \<Longrightarrow> n \<le> length b \<Longrightarrow> \<exists>m w'. 0 < m \<and> m \<le> n \<and>
        lwip_send k sock b (int n) w = (int m, w') \<and> view w' = (view w)\<lparr>sent := sent (view w) @ take m b\<rparr>"
proof -
  note all = assms [unfolded prompt_socket_def]
  note c2 = all [THEN conjunct2]
  note c3 = c2 [THEN conjunct2]
  note c4 = c3 [THEN conjunct2]
  note c5 = c4 [THEN conjunct2]
  show "0 \<le> sock" by (rule all [THEN conjunct1])
  show "\<exists>t w'. TimerCountdownMS k ms w = (t, w') \<and> view w' = view w"
    using c2 [THEN conjunct1, rule_format, of w] by (auto simp: TimerCountdownMS_def)
  show "\<exists>t w'. TimerIsExpired k timer w = (False, t, w') \<and> view w' = view w"
    using c3 [THEN conjunct1, rule_format, of "xTimeOut timer" "xTicksToWait timer" w]
    by (auto simp: TimerIsExpired_def check_timer_def)
  show "\<exists>rc w'. lwip_setsockopt k sock opt w = (rc, w') \<and> 0 \<le> rc \<and> view w' = view w"
    by (rule c4 [THEN conjunct1, rule_format])
  show "0 < n \<Longrightarrow> pending (view w) \<noteq> [] \<Longrightarrow> \<exists>m w'. 0 < m \<and> m \<le> n \<and> m \<le> length (pending (view w)) \<and>
        lwip_recv k sock (int n) w = (Inr (take m (pending (view w))), w') \<and>
        view w' = (view w)\<lparr>pending := drop m (pending (view w))\<rparr>"
    by (rule c5 [THEN conjunct1, rule_format])
  show "0 < n \<Longrightarrow> n \<le> length b \<Longrightarrow> \<exists>m w'. 0 < m \<and> m \<le> n \<and>
        lwip_send k sock b (int n) w = (int m, w') \<and> view w' = (view w)\<lparr>sent := sent (view w) @ take m b\<rparr>"
    by (rule c5 [THEN conjunct2, rule_format])
qed

lemma read_loop_prompt:
  assumes sk: "prompt_socket k sock view"
  shows "0 < n \<Longrightarrow> n \<le> length (pending (view w)) \<Longrightarrow> recvLen + int n = len \<Longrightarrow>
    \<exists>t w'. sock_read_loop k sock len ms recvLen data timer w = Some (Some len, data @ take n (pending (view w)), t, w') \<and>
      view w' = (view w)\<lparr>pending := drop n (pending (view w))\<rparr>"
proof (induction n arbitrary: recvLen data timer w rule: less_induct)
  case (less n)
  note sock = prompt_socketD [OF sk]
  obtain rc w1 where 1: "lwip_setsockopt k sock (SO_RCVTIMEO (ms * 1000)) w = (rc, w1)" "0 \<le> rc" "view w1 = view w"
    using sock(4) by blast
  have "pending (view w1) \<noteq> []" using less.prems 1 by auto
  from sock(5) [OF less.prems(1) this] obtain m w2 where
    m: "0 < m" "m \<le> n" "m \<le> length (pending (view w1))"
      "lwip_recv k sock (int n) w1 = (Inr (take m (pending (view w1))), w2)"
      "view w2 = (view w1)\<lparr>pending := drop m (pending (view w1))\<rparr>" by blast
  have want: "len - recvLen = int n" using less.prems(3) by simp
  have got: "min (int (length (pending (view w)))) (int m) = int m" using m(3) 1(3) by simp
  have unfold: "sock_read_loop k sock len ms recvLen data timer w =
      (if recvLen + int m < len
       then (case TimerIsExpired k timer w2 of (expired, timer, w) \<Rightarrow>
          if expired then Some (Some (recvLen + int m), data @ take m (pending (view w1)), timer, w)
          else sock_read_loop k sock len ms (recvLen + int m) (data @ take m (pending (view w1))) timer w)
       else Some (Some (recvLen + int m), data @ take m (pending (view w1)), timer, w2))"
    using 1 m sock(1) by (subst sock_read_loop.simps) (simp add: want got Let_def split: prod.split)
  show ?case
  proof (cases "m = n")
    case True
    with unfold less.prems(3) m(5) 1(3) show ?thesis by simp
  next
    case False
    obtain t w3 where 3: "TimerIsExpired k timer w2 = (False, t, w3)" "view w3 = view w2" using sock(3) by blast
    have "n - m < n" "0 < n - m" "recvLen + int m + int (n - m) = len" "n - m \<le> length (pending (view w3))"
      using m False less.prems 1(3) 3(2) by auto
    from less.IH [OF this(1,2,4,3), of "data @ take m (pending (view w1))" t]
    obtain t4 w4 where "sock_read_loop k sock len ms (recvLen + int m) (data @ take m (pending (view w1))) t w3 =
        Some (Some len, (data @ take m (pending (view w1))) @ take (n - m) (pending (view w3)), t4, w4)"
      "view w4 = (view w3)\<lparr>pending := drop (n - m) (pending (view w3))\<rparr>" by blast
    moreover have "recvLen + int m < len" using False m(2) less.prems(3) by linarith
    moreover have "take m (pending (view w)) @ take (n - m) (drop m (pending (view w))) = take n (pending (view w))"
      using m(2) by (metis le_add_diff_inverse take_add)
    ultimately show ?thesis using unfold 3 m(2,5) 1(3) by simp
  qed
qed

lemma write_loop_prompt:
  assumes sk: "prompt_socket k sock view"
  shows "0 < n \<Longrightarrow> sentLen + n = len \<Longrightarrow> len \<le> length b \<Longrightarrow>
    \<exists>w'. sock_write_loop k sock b (int len) ms (int sentLen) timer w = Some (int len, w') \<and>
      view w' = (view w)\<lparr>sent := sent (view w) @ take n (drop sentLen b)\<rparr>"
proof (induction n arbitrary: sentLen timer w rule: less_induct)
  case (less n)
  note sock = prompt_socketD [OF sk]
  define data where "data = take n (drop sentLen b)"
  obtain rc w1 where 1: "lwip_setsockopt k sock (SO_SNDTIMEO (ms * 1000)) w = (rc, w1)" "0 \<le> rc" "view w1 = view w"
    using sock(4) by blast
  have "n \<le> length data" using less.prems by (simp add: data_def)
  from sock(6) [OF less.prems(1) this, of w1] obtain m w2 where
    m: "0 < m" "m \<le> n" "lwip_send k sock data (int n) w1 = (int m, w2)"
      "view w2 = (view w1)\<lparr>sent := sent (view w1) @ take m data\<rparr>" by blast
  have want: "int len - int sentLen = int n" using less.prems(2) by simp
  have rd: "mem_read b sentLen n = Some data" using less.prems by (simp add: mem_read_def data_def)
  have unfold: "sock_write_loop k sock b (int len) ms (int sentLen) timer w =
      (if int (sentLen + m) < int len
       then (case TimerIsExpired k timer w2 of (expired, timer, w) \<Rightarrow>
          if expired then Some (int (sentLen + m), w) else sock_write_loop k sock b (int len) ms (int (sentLen + m)) timer w)
       else Some (int (sentLen + m), w2))"
    using 1 m sock(1) by (subst sock_write_loop.simps) (simp add: want rd Let_def split: prod.split)
  show ?case
  proof (cases "m = n")
    case True
    with unfold less.prems(2) m(4) 1(3) show ?thesis by (simp add: data_def)
  next
    case False
    obtain t w3 where 3: "TimerIsExpired k timer w2 = (False, t, w3)" "view w3 = view w2" using sock(3) by blast
    have "n - m < n" "0 < n - m" "sentLen + m + (n - m) = len" using m False less.prems by auto
    from less.IH [OF this less.prems(3), of t w3] obtain w4 where
      4: "sock_write_loop k sock b (int len) ms (int (sentLen + m)) t w3 = Some (int len, w4)"
      "view w4 = (view w3)\<lparr>sent := sent (view w3) @ take (n - m) (drop (sentLen + m) b)\<rparr>" by blast
    have "sentLen + m < len" using False m(2) less.prems(2) by linarith
    moreover have "take m data @ take (n - m) (drop (sentLen + m) b) = take n (drop sentLen b)"
      using m(2) by (simp add: data_def min_def) (metis add.commute drop_drop le_add_diff_inverse take_add)
    ultimately show ?thesis using unfold 3 4 m(4) 1(3) by simp
  qed
qed

lemma FreeRTOS_read_prompt:
  assumes "prompt_socket k sock view" "0 < n" "n \<le> length (pending (view w))"
  shows "\<exists>w'. FreeRTOS_read k sock (int n) ms w = Some (int n, take n (pending (view w)), w') \<and>
    view w' = (view w)\<lparr>pending := drop n (pending (view w))\<rparr>"
proof -
  note sock = prompt_socketD [OF assms(1)]
  obtain t w1 where 1: "TimerCountdownMS k (of_int ms) w = (t, w1)" "view w1 = view w" using sock(2) by blast
  from read_loop_prompt [OF assms(1,2), of w1 0 "int n" ms "[]" t] assms(3) 1(2) obtain t2 w2 where
    2: "sock_read_loop k sock (int n) ms 0 [] t w1 = Some (Some (int n), take n (pending (view w)), t2, w2)"
      "view w2 = (view w)\<lparr>pending := drop n (pending (view w))\<rparr>" by auto
  obtain t3 w3 where "TimerIsExpired k t2 w2 = (False, t3, w3)" "view w3 = view w2" using sock(3) by blast
  with 1 2 show ?thesis by (simp add: FreeRTOS_read_def)
qed

lemma FreeRTOS_write_prompt:
  assumes "prompt_socket k sock view" "0 < n" "n \<le> length b"
  shows "\<exists>w'. FreeRTOS_write k sock b (int n) ms w = Some (int n, w') \<and>
    view w' = (view w)\<lparr>sent := sent (view w) @ take n b\<rparr>"
proof -
  obtain t w1 where 1: "TimerCountdownMS k (of_int ms) w = (t, w1)" "view w1 = view w"
    using prompt_socketD(2) [OF assms(1)] by blast
  with write_loop_prompt [OF assms(1,2) _ assms(3), of 0 ms t w1] show ?thesis by (simp add: FreeRTOS_write_def)
qed

text \<open>The client's contract is met by the network over such a socket.\<close>

lemma FreeRTOS_link:
  assumes "prompt_socket k sock view" "\<And>h t m w. view (call h t m w) = (view w)\<lparr>calls := calls (view w) @ [(h, t, m)]\<rparr>"
  shows "prompt_link (FreeRTOS_port k sock call) view"
proof
  note all = assms(1) [unfolded prompt_socket_def]
  fix w
  show "\<exists>t w'. vTaskSetTimeOutState (FreeRTOS_port k sock call) w = (t, w') \<and> view w' = view w"
    using all [THEN conjunct2, THEN conjunct1] by (simp add: FreeRTOS_port_def)
  show "\<exists>t ticks' w'. xTaskCheckForTimeOut (FreeRTOS_port k sock call) t0 ticks w = (False, t, ticks', w') \<and> view w' = view w" for t0 ticks
    using all [THEN conjunct2, THEN conjunct2, THEN conjunct1] by (simp add: FreeRTOS_port_def)
  show "\<exists>w'. mqttread (FreeRTOS_port k sock call) (int n) ms w = Some (int n, take n (pending (view w)), w') \<and>
        view w' = (view w)\<lparr>pending := drop n (pending (view w))\<rparr>" if "0 < n" "n \<le> length (pending (view w))" for n ms
    using FreeRTOS_read_prompt [OF assms(1) that] by (simp add: FreeRTOS_port_def)
  show "\<exists>w'. mqttwrite (FreeRTOS_port k sock call) b (int n) ms w = Some (int n, w') \<and>
        view w' = (view w)\<lparr>sent := sent (view w) @ take n b\<rparr>" if "0 < n" "n \<le> length b" for n b ms
    using FreeRTOS_write_prompt [OF assms(1) that] by (simp add: FreeRTOS_port_def)
  show "view (call_handler (FreeRTOS_port k sock call) h t m w) = (view w)\<lparr>calls := calls (view w) @ [(h, t, m)]\<rparr>" for h t m
    by (simp add: FreeRTOS_port_def assms(2))
qed

section \<open>A socket that hands out a byte or two at a time\<close>

definition stutter_net :: "(nat link, unit) net" where
  "stutter_net = \<lparr>vTaskSetTimeOutState = (\<lambda>w. ((), w)), xTaskCheckForTimeOut = (\<lambda>t n w. (False, t, n, w)),
     lwip_socket = (\<lambda>w. (3, w)), lwip_setsockopt = (\<lambda>s opt w. (0, w)),
     lwip_recv = (\<lambda>s n w. (Inr (take (min 2 (nat n)) (pending w)), w\<lparr>pending := drop (min 2 (nat n)) (pending w)\<rparr>)),
     lwip_send = (\<lambda>s b n w. (1, w\<lparr>sent := sent w @ take 1 b\<rparr>)),
     lwip_connect = (\<lambda>s a prt w. (0, w)), lwip_close = (\<lambda>s w. w), lwip_fcntl = (\<lambda>s f w. (0, w)),
     lwip_select = (\<lambda>s sec usec w. (1, w)), so_error = (\<lambda>s w. (0, w)), O_NONBLOCK = 1, in_progress = (\<lambda>w. False),
     ipaddr_aton = (\<lambda>a. None), dns_gethostbyname = (\<lambda>a w. (None, w)), vTaskDelay = (\<lambda>n w. (Some (Some 0), w))\<rparr>"

definition log_call :: "nat \<Rightarrow> MQTTString \<Rightarrow> MQTTMessage \<Rightarrow> nat link \<Rightarrow> nat link" where
  "log_call h t m w = w\<lparr>calls := calls w @ [(h, t, m)]\<rparr>"

lemma stutter_prompt: "prompt_socket stutter_net 3 (\<lambda>w. w)"
proof -
  have "\<exists>m w'. 0 < m \<and> m \<le> n \<and> m \<le> length (pending w) \<and>
        lwip_recv stutter_net 3 (int n) w = (Inr (take m (pending w)), w') \<and> w' = w\<lparr>pending := drop m (pending w)\<rparr>"
    if "0 < n" "pending w \<noteq> []" for n w
    using that
    by (intro exI [of _ "min (min 2 n) (length (pending w))"] exI [of _ "w\<lparr>pending := drop (min 2 n) (pending w)\<rparr>"])
       (auto simp: stutter_net_def min_def)
  moreover have "\<exists>m w'. 0 < m \<and> m \<le> n \<and> lwip_send stutter_net 3 b (int n) w = (int m, w') \<and> w' = w\<lparr>sent := sent w @ take m b\<rparr>"
    if "0 < n" "n \<le> length b" for n b w
    using that by (intro exI [of _ 1] exI [of _ "w\<lparr>sent := sent w @ take 1 b\<rparr>"]) (auto simp: stutter_net_def)
  ultimately show ?thesis
    unfolding prompt_socket_def by (simp add: stutter_net_def)
qed

interpretation stutter: prompt_link "FreeRTOS_port stutter_net 3 log_call" "\<lambda>w. w"
  by (rule FreeRTOS_link [OF stutter_prompt]) (simp add: log_call_def)

text \<open>C20: Over a socket that works and is in time, \<^verbatim>\<open>FreeRTOS_read\<close> and \<^verbatim>\<open>FreeRTOS_write\<close> return, with all the bytes wanted in the
  order of the stream, however the stack cuts them into pieces.\<close>

theorem freertos_transfers_all:
  assumes "prompt_socket k sock view" "0 < n"
  shows "(n \<le> length (pending (view w)) \<longrightarrow>
      (\<exists>w'. FreeRTOS_read k sock (int n) ms w = Some (int n, take n (pending (view w)), w') \<and>
        view w' = (view w)\<lparr>pending := drop n (pending (view w))\<rparr>)) \<and>
    (n \<le> length b \<longrightarrow>
      (\<exists>w'. FreeRTOS_write k sock b (int n) ms w = Some (int n, w') \<and> view w' = (view w)\<lparr>sent := sent (view w) @ take n b\<rparr>))"
  using FreeRTOS_read_prompt [OF assms] FreeRTOS_write_prompt [OF assms] by blast

theorem freertos_transfers_all_witness:
  "\<exists>w'. FreeRTOS_read stutter_net 3 3 100 \<lparr>pending = [1, 2, 3, 4], sent = [], calls = []\<rparr> = Some (3, [1, 2, 3], w') \<and> pending w' = [4]"
  using freertos_transfers_all [OF stutter_prompt, of 3 "\<lparr>pending = [1, 2, 3, 4], sent = [], calls = []\<rparr>" 100] by auto

text \<open>C10: A message published to the client over such a socket is read whole, given to every handler whose filter matches its topic, in
  the order of the slots (or else to the default handler), with its topic and payload, and answered with the
  acknowledgement of its quality of service and its packet identifier; what follows it in the stream is left there.\<close>

theorem mqtt_incoming_publish:
  assumes "prompt_socket k sock view"
    and "\<forall>h t m w. view (call h t m w) = (view w)\<lparr>calls := calls (view w) @ [(h, t, m)]\<rparr>"
    and ser: "MQTTSerialize_publish b (int (length b)) dup qos retained pid topic payload (int (length payload)) = Some (int n, packet)"
    and "str_ok topic" "qos \<in> {0, 1, 2}" "MQTTSerialize_publishLength qos topic (int (length payload)) < 268435456"
    and "pending (view w) = take n packet @ rest" "n \<le> length (readbuf c)" "length (readbuf c) < 4294967296" "4 \<le> length (buf c)"
  shows "\<exists>m c' t' w'. cycle (FreeRTOS_port k sock call) c timer w = Some (uint PUBLISH, c', t', w') \<and>
    message_of dup qos retained pid payload m \<and>
    view w' = (view w)\<lparr>pending := rest, sent := sent (view w) @ reply_to qos pid,
      calls := calls (view w) @ map (\<lambda>h. (h, str_view topic, m)) (receivers c (str_bytes topic))\<rparr> \<and>
    messageHandlers c' = messageHandlers c \<and> isconnected c' = isconnected c"
proof -
  let ?e = "publish_enc dup qos retained pid topic payload"
  have wf: "str_wf topic" using assms(4) by (simp add: str_ok_def)
  have "MQTTPacket_len (MQTTSerialize_publishLength qos topic (int (length payload))) \<le> int (length b)"
  proof (rule ccontr)
    assume "\<not> ?thesis"
    with ser show False by (simp add: MQTTSerialize_publish_def MQTTPACKET_BUFFER_TOO_SHORT_def)
  qed
  from MQTTSerialize_publish_eq [OF wf order.refl this, of b dup retained pid] ser
  have "n = length ?e" "take n packet = ?e" by (auto simp: finish_packet_emit split: if_splits)
  moreover have link: "prompt_link (FreeRTOS_port k sock call) view"
    using FreeRTOS_link [OF assms(1)] assms(2) by blast
  ultimately show ?thesis
    using prompt_link.cycle_link [OF link _ assms(4-6,10), of w dup retained pid rest timer] assms(7-9) by simp
qed

theorem mqtt_incoming_publish_witness:
  "\<exists>m c' t' w'. cycle (FreeRTOS_port stutter_net 3 log_call) demo_client demo_timer
      \<lparr>pending = [0x32, 9, 0, 3, 97, 47, 98, 0, 7, 104, 105, 0xC0], sent = [], calls = []\<rparr> = Some (3, c', t', w') \<and>
    take 2 (m_payload m) = [104, 105] \<and> pending w' = [0xC0] \<and> sent w' = [0x40, 2, 0, 7] \<and>
    calls w' = [(1, \<lparr>cstring = None, ls_len = 3, ls_data = Some [97, 47, 98]\<rparr>, m)]"
proof -
  let ?t = "\<lparr>cstring = Some [97, 47, 98], ls_len = 0, ls_data = None\<rparr> :: MQTTString"
  let ?w = "\<lparr>pending = [0x32, 9, 0, 3, 97, 47, 98, 0, 7, 104, 105, 0xC0], sent = [], calls = []\<rparr> :: nat link"
  have t: "str_ok ?t" "str_bytes ?t = [97, 47, 98]" by (simp_all add: str_ok_def str_wf_def str_bytes_def)
  have len: "MQTTSerialize_publishLength 1 ?t (int (length [104 :: u8, 105])) = 9"
    by (simp add: MQTTSerialize_publishLength_def MQTTstrlen_def)
  have e: "publish_enc 0 1 0 7 ?t [104, 105] = [0x32, 9, 0, 3, 97, 47, 98, 0, 7, 104, 105]"
    using len by (simp add: publish_enc_def encode_digits_small str_enc_def t int_bytes_def header_byte_def msg_types
      signed_divide_int_def signed_modulo_int_def)
  have ser: "MQTTSerialize_publish (replicate 20 0) (int (length (replicate 20 (0 :: u8)))) 0 1 0 7 ?t [104, 105] (int (length [104 :: u8, 105])) =
      Some (int 11, [0x32, 9, 0, 3, 97, 47, 98, 0, 7, 104, 105] @ replicate 9 0)"
    using MQTTSerialize_publish_eq [of ?t 2 "[104, 105]" 1 20 "replicate 20 0" 0 0 7] t(1) len e
    by (simp add: str_ok_def MQTTPacket_len_def finish_packet_emit)
  have rec: "receivers demo_client [97, 47, 98] = [1]"
    by (simp add: receivers_def demo_client_def handlers_for_def map_filter_def filter_matches_def bytes_of_def
      slash_def plus_sign_def hash_sign_def)
  have "pending ?w = take 11 ([0x32, 9, 0, 3, 97, 47, 98, 0, 7, 104, 105] @ replicate 9 0) @ [0xC0]" by simp
  from mqtt_incoming_publish [OF stutter_prompt _ ser t(1) _ _ this, of log_call demo_client demo_timer] len
  obtain m c' t' w' where "cycle (FreeRTOS_port stutter_net 3 log_call) demo_client demo_timer ?w = Some (uint PUBLISH, c', t', w')"
    "message_of 0 1 0 7 [104, 105] m"
    "w' = ?w\<lparr>pending := [0xC0], sent := sent ?w @ reply_to 1 7,
      calls := calls ?w @ map (\<lambda>h. (h, str_view ?t, m)) (receivers demo_client (str_bytes ?t))\<rparr>"
    by (auto simp: log_call_def demo_client_def)
  moreover from this have "take 2 (m_payload m) = [104, 105]" by (simp add: message_of_def numeral_2_eq_2)
  ultimately show ?thesis
    by (intro exI [of _ m] exI [of _ c'] exI [of _ t'] exI [of _ w'])
       (simp add: rec t(2) message_of_def reply_to_def int_bytes_def msg_types str_view_def signed_divide_int_def signed_modulo_int_def)
qed

end
