(* ===== verification/Dhcp_Server.thy ===== *)
theory Dhcp_Server
  imports Prelude
begin

text \<open>
  The DHCP server of the access point mode, \<^verbatim>\<open>src/dhcpserver/dhcpserver.cpp\<close>: one call of
  \<^verbatim>\<open>dhcp_server_process\<close> for a received packet.

  The message structure is its 548 bytes; \<open>opt\<close> is a position in them. The bytes the packet does not fill are the ones the
  stack had, a parameter. \<open>None\<close> is an access outside of the structure.
\<close>

section \<open>Data\<close>

definition DHCPDISCOVER :: u8 where "DHCPDISCOVER = 1"
definition DHCPOFFER :: u8 where "DHCPOFFER = 2"
definition DHCPREQUEST :: u8 where "DHCPREQUEST = 3"
definition DHCPACK :: u8 where "DHCPACK = 5"

definition DHCP_OPT_SUBNET_MASK :: u8 where "DHCP_OPT_SUBNET_MASK = 1"
definition DHCP_OPT_ROUTER :: u8 where "DHCP_OPT_ROUTER = 3"
definition DHCP_OPT_DNS :: u8 where "DHCP_OPT_DNS = 6"
definition DHCP_OPT_DOMAIN_NAME :: u8 where "DHCP_OPT_DOMAIN_NAME = 15"
definition DHCP_OPT_REQUESTED_IP :: u8 where "DHCP_OPT_REQUESTED_IP = 50"
definition DHCP_OPT_IP_LEASE_TIME :: u8 where "DHCP_OPT_IP_LEASE_TIME = 51"
definition DHCP_OPT_MSG_TYPE :: u8 where "DHCP_OPT_MSG_TYPE = 53"
definition DHCP_OPT_SERVER_ID :: u8 where "DHCP_OPT_SERVER_ID = 54"
definition DHCP_OPT_END :: u8 where "DHCP_OPT_END = 255"

definition PORT_DHCP_SERVER :: u16 where "PORT_DHCP_SERVER = 67"
definition PORT_DHCP_CLIENT :: u16 where "PORT_DHCP_CLIENT = 68"
definition DEFAULT_LEASE_TIME_S :: u32 where "DEFAULT_LEASE_TIME_S = 24 * 60 * 60"
definition MAC_LEN :: nat where "MAC_LEN = 6"
definition DHCPS_BASE_IP :: u8 where "DHCPS_BASE_IP = 16"
definition DHCPS_MAX_IP :: nat where "DHCPS_MAX_IP = 8"
definition DHCP_MIN_SIZE :: nat where "DHCP_MIN_SIZE = 240 + 3"

lemmas dhcp_consts = DHCPDISCOVER_def DHCPOFFER_def DHCPREQUEST_def DHCPACK_def DHCP_OPT_SUBNET_MASK_def
  DHCP_OPT_ROUTER_def DHCP_OPT_DNS_def DHCP_OPT_DOMAIN_NAME_def DHCP_OPT_REQUESTED_IP_def DHCP_OPT_IP_LEASE_TIME_def
  DHCP_OPT_MSG_TYPE_def DHCP_OPT_SERVER_ID_def DHCP_OPT_END_def MAC_LEN_def DHCPS_BASE_IP_def DHCPS_MAX_IP_def
  DHCP_MIN_SIZE_def DEFAULT_LEASE_TIME_S_def

record dhcp_lease =
  mac :: bytes
  expiry :: u16

text \<open>\<open>'u\<close> is what \<^verbatim>\<open>udp_new\<close> gives.\<close>

record 'u dhcp_server =
  d_ip :: u32
  d_nm :: u32
  lease :: "dhcp_lease list"
  udp :: "'u option"
  domain_name :: "bytes option"

text \<open>The positions of the fields of \<^verbatim>\<open>dhcp_msg_t\<close> and its size.\<close>

definition msg_yiaddr :: nat where "msg_yiaddr = 16"
definition msg_chaddr :: nat where "msg_chaddr = 28"
definition msg_options :: nat where "msg_options = 236"
definition sizeof_dhcp_msg :: nat where "sizeof_dhcp_msg = 548"

lemmas msg_layout = msg_yiaddr_def msg_chaddr_def msg_options_def sizeof_dhcp_msg_def

text \<open>An address in memory, on the little-endian target.\<close>

definition addr_bytes :: "u32 \<Rightarrow> bytes" where
  "addr_bytes a = [ucast a, ucast (drop_bit 8 a), ucast (drop_bit 16 a), ucast (drop_bit 24 a)]"

definition no_mac :: bytes where "no_mac = replicate MAC_LEN 0"

section \<open>The code: options\<close>

function opt_find_from :: "bytes \<Rightarrow> nat \<Rightarrow> u8 \<Rightarrow> nat \<Rightarrow> nat option option" where
  "opt_find_from m opt cmd i =
     (if i < 308 then do {
        c \<leftarrow> mem_get m (opt + i);
        if c = DHCP_OPT_END then Some None
        else if c = cmd then Some (Some (opt + i))
        else do {
          n \<leftarrow> mem_get m (opt + i + 1);
          opt_find_from m opt cmd (i + 2 + unat n) } }
      else Some None)"
  by pat_completeness auto
termination
  by (relation "measure (\<lambda>(_, _, _, i). 308 - i)") auto

declare opt_find_from.simps [simp del]

definition opt_find :: "bytes \<Rightarrow> nat \<Rightarrow> u8 \<Rightarrow> nat option option" where
  "opt_find m opt cmd = opt_find_from m opt cmd 0"

definition opt_write_n :: "u8 \<Rightarrow> bytes \<Rightarrow> bytes \<times> nat \<Rightarrow> (bytes \<times> nat) option" where
  "opt_write_n cmd data = (\<lambda>(m, opt). do {
     m \<leftarrow> mem_set m opt cmd;
     m \<leftarrow> mem_set m (opt + 1) (of_nat (length data));
     m \<leftarrow> mem_cpy m (opt + 2) data;
     Some (m, opt + 2 + length data) })"

definition opt_write_u8 :: "u8 \<Rightarrow> u8 \<Rightarrow> bytes \<times> nat \<Rightarrow> (bytes \<times> nat) option" where
  "opt_write_u8 cmd val = (\<lambda>(m, opt). do {
     m \<leftarrow> mem_set m opt cmd;
     m \<leftarrow> mem_set m (opt + 1) 1;
     m \<leftarrow> mem_set m (opt + 2) val;
     Some (m, opt + 3) })"

definition opt_write_u32 :: "u8 \<Rightarrow> u32 \<Rightarrow> bytes \<times> nat \<Rightarrow> (bytes \<times> nat) option" where
  "opt_write_u32 cmd val = (\<lambda>(m, opt). do {
     m \<leftarrow> mem_set m opt cmd;
     m \<leftarrow> mem_set m (opt + 1) 4;
     m \<leftarrow> mem_set m (opt + 2) (ucast (drop_bit 24 val));
     m \<leftarrow> mem_set m (opt + 3) (ucast (drop_bit 16 val));
     m \<leftarrow> mem_set m (opt + 4) (ucast (drop_bit 8 val));
     m \<leftarrow> mem_set m (opt + 5) (ucast val);
     Some (m, opt + 6) })"

section \<open>The code: leases\<close>

text \<open>
  The test of an expired lease; its end is kept in units of 65536 ms, and the comparison is that of signed differences.
\<close>

definition lease_expired :: "dhcp_lease \<Rightarrow> u32 \<Rightarrow> bool" where
  "lease_expired l now = (let e = push_bit 16 (ucast (expiry l)) OR 0xffff in sint (e - now :: u32) < 0)"

text \<open>
  The search for an address to offer, from lease \<open>i\<close> on: \<^verbatim>\<open>yi\<close> and the leases. \<open>ticks i\<close> is what
  \<^verbatim>\<open>cyw43_hal_ticks_ms\<close> gives in round \<open>i\<close>.
\<close>

function offer_loop :: "bytes \<Rightarrow> (nat \<Rightarrow> u32) \<Rightarrow> nat \<Rightarrow> nat \<Rightarrow> dhcp_lease list \<Rightarrow> nat \<times> dhcp_lease list" where
  "offer_loop chaddr ticks i yi ls =
     (if i < DHCPS_MAX_IP then
        if mac (ls ! i) = chaddr then (i, ls)
        else if yi = DHCPS_MAX_IP then
          (let yi = (if mac (ls ! i) = no_mac then i else yi) in
           if lease_expired (ls ! i) (ticks i)
           then offer_loop chaddr ticks (i + 1) i (ls[i := (ls ! i)\<lparr>mac := no_mac\<rparr>])
           else offer_loop chaddr ticks (i + 1) yi ls)
        else offer_loop chaddr ticks (i + 1) yi ls
      else (yi, ls))"
  by pat_completeness auto
termination
  by (relation "measure (\<lambda>(_, _, i, _). DHCPS_MAX_IP - i)") auto

declare offer_loop.simps [simp del]

section \<open>The code: packets\<close>

text \<open>
  The cases of the switch. The result is the server, and the message with the position behind its last option unless the
  request is ignored.
\<close>

definition process_discover ::
  "'u dhcp_server \<Rightarrow> bytes \<Rightarrow> (nat \<Rightarrow> u32) \<Rightarrow> nat \<Rightarrow> ('u dhcp_server \<times> (bytes \<times> nat) option) option" where
  "process_discover d m ticks opt = do {
     chaddr \<leftarrow> mem_read m msg_chaddr MAC_LEN;
     let (yi, ls) = offer_loop chaddr ticks 0 DHCPS_MAX_IP (lease d);
     let d = d\<lparr>lease := ls\<rparr>;
     if yi = DHCPS_MAX_IP then Some (d, None)
     else do {
       m \<leftarrow> mem_set m (msg_yiaddr + 3) (DHCPS_BASE_IP + of_nat yi);
       r \<leftarrow> opt_write_u8 DHCP_OPT_MSG_TYPE DHCPOFFER (m, opt);
       Some (d, Some r) } }"

definition process_request ::
  "'u dhcp_server \<Rightarrow> bytes \<Rightarrow> u32 \<Rightarrow> nat \<Rightarrow> ('u dhcp_server \<times> (bytes \<times> nat) option) option" where
  "process_request d m now opt = do {
     found \<leftarrow> opt_find m opt DHCP_OPT_REQUESTED_IP;
     (case found of
        None \<Rightarrow> Some (d, None)
      | Some p \<Rightarrow> do {
          net \<leftarrow> mem_read m (p + 2) 3;
          if net \<noteq> take 3 (addr_bytes (d_ip d)) then Some (d, None)
          else do {
            host \<leftarrow> mem_get m (p + 5);
            let yi = unat (host - DHCPS_BASE_IP);
            if yi \<ge> DHCPS_MAX_IP then Some (d, None)
            else do {
              chaddr \<leftarrow> mem_read m msg_chaddr MAC_LEN;
              let l = lease d ! yi;
              if mac l = chaddr \<or> mac l = no_mac then do {
                let l = l\<lparr>mac := chaddr, expiry := ucast (drop_bit 16 (now + DEFAULT_LEASE_TIME_S * 1000))\<rparr>;
                m \<leftarrow> mem_set m (msg_yiaddr + 3) (DHCPS_BASE_IP + of_nat yi);
                r \<leftarrow> opt_write_u8 DHCP_OPT_MSG_TYPE DHCPACK (m, opt);
                Some (d\<lparr>lease := (lease d)[yi := l]\<rparr>, Some r) }
              else Some (d, None) } } }) }"

text \<open>The options of every reply.\<close>

definition write_options :: "'u dhcp_server \<Rightarrow> bytes \<times> nat \<Rightarrow> (bytes \<times> nat) option" where
  "write_options d s = do {
     s \<leftarrow> opt_write_n DHCP_OPT_SERVER_ID (addr_bytes (d_ip d)) s;
     s \<leftarrow> opt_write_n DHCP_OPT_SUBNET_MASK (addr_bytes (d_nm d)) s;
     s \<leftarrow> opt_write_n DHCP_OPT_ROUTER (addr_bytes (d_ip d)) s;
     s \<leftarrow> opt_write_n DHCP_OPT_DNS (addr_bytes (d_ip d)) s;
     s \<leftarrow> (case domain_name d of Some n \<Rightarrow> opt_write_n DHCP_OPT_DOMAIN_NAME n s | None \<Rightarrow> Some s);
     (m, opt) \<leftarrow> opt_write_u32 DHCP_OPT_IP_LEASE_TIME DEFAULT_LEASE_TIME_S s;
     m \<leftarrow> mem_set m opt DHCP_OPT_END;
     Some (m, opt + 1) }"

text \<open>What goes out: the payload, the address and the port. Without memory for a buffer nothing does.\<close>

definition dhcp_socket_sendto :: "bool \<Rightarrow> bytes \<Rightarrow> nat \<Rightarrow> u32 \<Rightarrow> u16 \<Rightarrow> (bytes \<times> u32 \<times> u16) option option" where
  "dhcp_socket_sendto alloc b len ip port = (
     let len = (if len > 0xffff then 0xffff else len) in
     if \<not> alloc then Some None
     else do { data \<leftarrow> mem_read b 0 len; Some (Some (data, ip, port)) })"

definition dhcp_server_process ::
  "'u dhcp_server \<Rightarrow> bytes \<Rightarrow> bytes \<Rightarrow> (nat \<Rightarrow> u32) \<Rightarrow> bool
    \<Rightarrow> ('u dhcp_server \<times> (bytes \<times> u32 \<times> u16) option) option" where
  "dhcp_server_process d p stack ticks alloc =
     (if length p < DHCP_MIN_SIZE then Some (d, None)
      else do {
        let data = take sizeof_dhcp_msg p;
        m \<leftarrow> mem_cpy stack 0 data;
        if length data < DHCP_MIN_SIZE then Some (d, None)
        else do {
          m \<leftarrow> mem_set m 0 DHCPOFFER;
          m \<leftarrow> mem_cpy m msg_yiaddr (addr_bytes (d_ip d));
          let opt = msg_options + 4;
          ty \<leftarrow> mem_get m (opt + 2);
          (d, r) \<leftarrow> (if ty = DHCPDISCOVER then process_discover d m ticks opt
                    else if ty = DHCPREQUEST then process_request d m (ticks 0) opt
                    else Some (d, None));
          (case r of
             None \<Rightarrow> Some (d, None)
           | Some s \<Rightarrow> do {
               (m, opt) \<leftarrow> write_options d s;
               out \<leftarrow> dhcp_socket_sendto alloc m opt 0xffffffff PORT_DHCP_CLIENT;
               Some (d, out) }) } })"

section \<open>The code: start and end\<close>

text \<open>\<open>udp_new\<close> gives the socket, if there is memory for it. The result says whether it is bound to the server port.\<close>

definition dhcp_server_init ::
  "'u option \<Rightarrow> u32 \<Rightarrow> u32 \<Rightarrow> bytes option \<Rightarrow> 'u dhcp_server \<times> (u32 \<times> u16) option" where
  "dhcp_server_init udp_new ip nm name = (
     let d = \<lparr>d_ip = ip, d_nm = nm, lease = replicate DHCPS_MAX_IP \<lparr>mac = no_mac, expiry = 0\<rparr>, udp = udp_new, domain_name = name\<rparr>
     in (d, if udp_new = None then None else Some (0, PORT_DHCP_SERVER)))"

definition dhcp_server_deinit :: "'u dhcp_server \<Rightarrow> 'u dhcp_server" where
  "dhcp_server_deinit d = d\<lparr>udp := None\<rparr>"

end
