(* ===== verification/Dhcp_Proofs.thy ===== *)
theory Dhcp_Proofs
  imports Dhcp_Server
begin

text \<open>
  Facts of the DHCP server: what its option writers put into a message, how packets change the leases, and
  the exchange in which a client gets an address.
\<close>

section \<open>Options\<close>

definition opt_bytes :: "u8 \<Rightarrow> bytes \<Rightarrow> bytes" where
  "opt_bytes cmd data = cmd # of_nat (length data) # data"

lemma emit_data: "emit xs (m, p) = map_option (\<lambda>m. (m, p + length xs)) (mem_cpy m p xs)"
  by (cases "mem_cpy m p xs") (simp_all add: emit_def)

lemma opt_write_n_emit: "opt_write_n cmd data = emit (opt_bytes cmd data)"
proof
  fix s :: "bytes \<times> nat"
  have "opt_write_n cmd data s =
      Option.bind (emit [cmd] s) (\<lambda>s. Option.bind (emit [of_nat (length data)] s) (emit data))"
    by (cases s) (auto simp: opt_write_n_def emit_one emit_data [of data] bind_map_option comp_def map_option_case
      intro!: Option.bind_cong split: option.split)
  then show "opt_write_n cmd data s = emit (opt_bytes cmd data) s" by (simp add: emit_bind opt_bytes_def)
qed

lemma opt_write_u8_emit: "opt_write_u8 cmd val = emit (opt_bytes cmd [val])"
proof
  fix s :: "bytes \<times> nat"
  have "opt_write_u8 cmd val s = Option.bind (emit [cmd] s) (\<lambda>s. Option.bind (emit [1] s) (emit [val]))"
    by (cases s) (auto simp: opt_write_u8_def emit_one bind_map_option comp_def map_option_case
      intro!: Option.bind_cong split: option.split)
  then show "opt_write_u8 cmd val s = emit (opt_bytes cmd [val]) s" by (simp add: emit_bind opt_bytes_def)
qed

definition be32_bytes :: "u32 \<Rightarrow> bytes" where
  "be32_bytes v = [ucast (drop_bit 24 v), ucast (drop_bit 16 v), ucast (drop_bit 8 v), ucast v]"

lemma opt_write_u32_emit: "opt_write_u32 cmd val = emit (opt_bytes cmd (be32_bytes val))"
proof
  fix s :: "bytes \<times> nat"
  have "opt_write_u32 cmd val s = Option.bind (emit [cmd] s) (\<lambda>s. Option.bind (emit [4] s) (\<lambda>s.
      Option.bind (emit [ucast (drop_bit 24 val)] s) (\<lambda>s. Option.bind (emit [ucast (drop_bit 16 val)] s) (\<lambda>s.
      Option.bind (emit [ucast (drop_bit 8 val)] s) (emit [ucast val])))))"
    by (cases s) (auto simp: opt_write_u32_def emit_one eval_nat_numeral bind_map_option comp_def map_option_case
      intro!: Option.bind_cong split: option.split)
  then show "opt_write_u32 cmd val s = emit (opt_bytes cmd (be32_bytes val)) s"
    by (simp add: emit_bind opt_bytes_def be32_bytes_def)
qed

text \<open>The options of a reply with a message type.\<close>

definition server_options :: "'u dhcp_server \<Rightarrow> bytes" where
  "server_options d = opt_bytes DHCP_OPT_SERVER_ID (addr_bytes (d_ip d)) @ opt_bytes DHCP_OPT_SUBNET_MASK (addr_bytes (d_nm d)) @
     opt_bytes DHCP_OPT_ROUTER (addr_bytes (d_ip d)) @ opt_bytes DHCP_OPT_DNS (addr_bytes (d_ip d)) @
     (case domain_name d of Some n \<Rightarrow> opt_bytes DHCP_OPT_DOMAIN_NAME n | None \<Rightarrow> []) @
     opt_bytes DHCP_OPT_IP_LEASE_TIME [0, 1, 0x51, 0x80] @ [DHCP_OPT_END]"

definition reply_options :: "'u dhcp_server \<Rightarrow> u8 \<Rightarrow> bytes" where
  "reply_options d ty = opt_bytes DHCP_OPT_MSG_TYPE [ty] @ server_options d"

lemma write_options_emit: "write_options d s = emit (server_options d) s"
proof -
  have lt: "be32_bytes DEFAULT_LEASE_TIME_S = [0, 1, 0x51, 0x80]" by (simp add: be32_bytes_def DEFAULT_LEASE_TIME_S_def)
  have fin: "Option.bind r (\<lambda>(m, opt). Option.bind (mem_set m opt DHCP_OPT_END) (\<lambda>m. Some (m, opt + 1))) =
      Option.bind r (emit [DHCP_OPT_END])" for r
    by (cases r) (auto simp: emit_one map_option_case split: option.split)
  show ?thesis
    by (cases "domain_name d")
       (simp_all only: write_options_def server_options_def opt_write_n_emit opt_write_u32_emit lt fin option.case
         emit_bind bind.bind_lunit append_Nil append_assoc)
qed

section \<open>Leases\<close>

lemma offer_loop_leases:
  assumes "offer_loop ch ticks i yi ls = (yi', ls')" "length ls = DHCPS_MAX_IP"
    "yi = DHCPS_MAX_IP \<or> yi < i \<and> yi < DHCPS_MAX_IP \<and> mac (ls ! yi) = no_mac"
  shows "length ls' = length ls" "yi' \<le> DHCPS_MAX_IP"
    "yi' < DHCPS_MAX_IP \<longrightarrow> mac (ls' ! yi') = ch \<or> mac (ls' ! yi') = no_mac"
    "j < DHCPS_MAX_IP \<longrightarrow> ls' ! j = ls ! j \<or> lease_expired (ls ! j) (ticks j) \<and> ls' ! j = (ls ! j)\<lparr>mac := no_mac\<rparr>"
proof -
  have "length ls' = length ls \<and> yi' \<le> DHCPS_MAX_IP \<and>
      (yi' < DHCPS_MAX_IP \<longrightarrow> mac (ls' ! yi') = ch \<or> mac (ls' ! yi') = no_mac) \<and>
      (j < DHCPS_MAX_IP \<longrightarrow> ls' ! j = ls ! j \<or> lease_expired (ls ! j) (ticks j) \<and> ls' ! j = (ls ! j)\<lparr>mac := no_mac\<rparr>)"
    using assms
  proof (induction ch ticks i yi ls rule: offer_loop.induct)
    case (1 ch ticks i yi ls)
    consider "i \<ge> DHCPS_MAX_IP" | "i < DHCPS_MAX_IP" "mac (ls ! i) = ch"
      | "i < DHCPS_MAX_IP" "mac (ls ! i) \<noteq> ch" "yi \<noteq> DHCPS_MAX_IP"
      | "i < DHCPS_MAX_IP" "mac (ls ! i) \<noteq> ch" "yi = DHCPS_MAX_IP" "\<not> lease_expired (ls ! i) (ticks i)"
      | "i < DHCPS_MAX_IP" "mac (ls ! i) \<noteq> ch" "yi = DHCPS_MAX_IP" "lease_expired (ls ! i) (ticks i)"
      by linarith
    then show ?case
    proof cases
      case 1
      with "1.prems" show ?thesis by (auto simp: offer_loop.simps [of _ _ i])
    next
      case 2
      with "1.prems" show ?thesis by (auto simp: offer_loop.simps [of _ _ i])
    next
      case 3
      have "offer_loop ch ticks (i + 1) yi ls = (yi', ls')"
        using "1.prems"(1) 3 by (simp add: offer_loop.simps [of _ _ i])
      with "1.IH"(3) [OF 3] "1.prems"(2,3) 3(3) show ?thesis by auto
    next
      case 4
      let ?yi = "if mac (ls ! i) = no_mac then i else yi"
      have "offer_loop ch ticks (i + 1) ?yi ls = (yi', ls')"
        using "1.prems"(1) 4 by (simp add: offer_loop.simps [of _ _ i] Let_def split: if_splits)
      with "1.IH"(2) [OF 4(1,2,3) refl 4(4)] "1.prems"(2,3) 4 show ?thesis by auto
    next
      case 5
      let ?ls = "ls[i := (ls ! i)\<lparr>mac := no_mac\<rparr>]"
      have "offer_loop ch ticks (i + 1) i ?ls = (yi', ls')"
        using "1.prems"(1) 5 by (simp add: offer_loop.simps [of _ _ i] Let_def)
      with "1.IH"(1) [OF 5(1,2,3) refl 5(4)] "1.prems"(2) 5
      have "length ls' = length ls \<and> yi' \<le> DHCPS_MAX_IP \<and>
        (yi' < DHCPS_MAX_IP \<longrightarrow> mac (ls' ! yi') = ch \<or> mac (ls' ! yi') = no_mac) \<and>
        (j < DHCPS_MAX_IP \<longrightarrow> ls' ! j = ?ls ! j \<or> lease_expired (?ls ! j) (ticks j) \<and> ls' ! j = (?ls ! j)\<lparr>mac := no_mac\<rparr>)"
        by simp
      with 5 "1.prems"(2) show ?thesis by (cases "j = i") (auto simp: lease_expired_def)
    qed
  qed
  then show "length ls' = length ls" "yi' \<le> DHCPS_MAX_IP"
    "yi' < DHCPS_MAX_IP \<longrightarrow> mac (ls' ! yi') = ch \<or> mac (ls' ! yi') = no_mac"
    "j < DHCPS_MAX_IP \<longrightarrow> ls' ! j = ls ! j \<or> lease_expired (ls ! j) (ticks j) \<and> ls' ! j = (ls ! j)\<lparr>mac := no_mac\<rparr>"
    by blast+
qed

lemma process_discover_leases:
  assumes "process_discover d m ticks opt = Some (d', r)" "length (lease d) = DHCPS_MAX_IP" "j < DHCPS_MAX_IP"
  shows "lease d' ! j = lease d ! j \<or>
    lease_expired (lease d ! j) (ticks j) \<and> lease d' ! j = (lease d ! j)\<lparr>mac := no_mac\<rparr>"
proof -
  obtain ch where ch: "mem_read m msg_chaddr MAC_LEN = Some ch"
    using assms(1) by (auto simp: process_discover_def bind_eq_Some_conv)
  obtain yi ls where ol: "offer_loop ch ticks 0 DHCPS_MAX_IP (lease d) = (yi, ls)" by fastforce
  from offer_loop_leases(4) [OF ol assms(2), of j] assms(3)
  have "ls ! j = lease d ! j \<or> lease_expired (lease d ! j) (ticks j) \<and> ls ! j = (lease d ! j)\<lparr>mac := no_mac\<rparr>" by simp
  moreover have "lease d' = ls"
    using assms(1) ol by (auto simp: process_discover_def ch Let_def bind_eq_Some_conv split: if_splits)
  ultimately show ?thesis by simp
qed

lemma process_request_leases:
  assumes "process_request d m now opt = Some (d', r)" "length (lease d) = DHCPS_MAX_IP" "j < DHCPS_MAX_IP"
    "length m = sizeof_dhcp_msg"
  shows "lease d' ! j = lease d ! j \<or>
    (mac (lease d ! j) = no_mac \<or> mac (lease d ! j) = take MAC_LEN (drop msg_chaddr m)) \<and> r \<noteq> None \<and>
    lease d' ! j = \<lparr>mac = take MAC_LEN (drop msg_chaddr m), expiry = ucast (drop_bit 16 (now + DEFAULT_LEASE_TIME_S * 1000))\<rparr>"
proof -
  have ch: "mem_read m msg_chaddr MAC_LEN = Some (take MAC_LEN (drop msg_chaddr m))"
    using assms(4) by (simp add: mem_read_def msg_layout MAC_LEN_def)
  show ?thesis
    using assms(1-3)
    by (auto simp: process_request_def ch Let_def bind_eq_Some_conv nth_list_update split: option.splits if_splits)
qed

section \<open>Packets\<close>

text \<open>The message as the code works on it, and what is sent for it.\<close>

definition request_msg :: "'u dhcp_server \<Rightarrow> bytes \<Rightarrow> bytes \<Rightarrow> bytes" where
  "request_msg d p stack = (let m = take sizeof_dhcp_msg p @ drop (length (take sizeof_dhcp_msg p)) stack in
     take msg_yiaddr (m[0 := DHCPOFFER]) @ addr_bytes (d_ip d) @ drop (msg_yiaddr + 4) m)"

lemma length_addr_bytes [simp]: "length (addr_bytes a) = 4"
  by (simp add: addr_bytes_def)

lemma request_msg_facts:
  assumes "length stack = sizeof_dhcp_msg" "DHCP_MIN_SIZE \<le> length p"
  shows "length (request_msg d p stack) = sizeof_dhcp_msg"
    "msg_yiaddr + 4 \<le> i \<Longrightarrow> i < sizeof_dhcp_msg \<Longrightarrow> i < length p \<Longrightarrow> request_msg d p stack ! i = p ! i"
    "take MAC_LEN (drop msg_chaddr (request_msg d p stack)) = take MAC_LEN (drop msg_chaddr p)"
    "take 4 (drop msg_yiaddr (request_msg d p stack)) = addr_bytes (d_ip d)"
  using assms
  by (auto simp: request_msg_def Let_def msg_layout DHCP_MIN_SIZE_def MAC_LEN_def nth_append min_def drop_take)

lemma process_eq:
  assumes "length stack = sizeof_dhcp_msg" "DHCP_MIN_SIZE \<le> length p"
  shows "dhcp_server_process d p stack ticks alloc = do {
     (d', r) \<leftarrow> (if p ! 242 = DHCPDISCOVER then process_discover d (request_msg d p stack) ticks 240
               else if p ! 242 = DHCPREQUEST then process_request d (request_msg d p stack) (ticks 0) 240
               else Some (d, None));
     (case r of
        None \<Rightarrow> Some (d', None)
      | Some s \<Rightarrow> do {
          (m, opt) \<leftarrow> write_options d' s;
          out \<leftarrow> dhcp_socket_sendto alloc m opt 0xffffffff PORT_DHCP_CLIENT;
          Some (d', out) }) }"
proof -
  let ?data = "take sizeof_dhcp_msg p"
  define m where "m = ?data @ drop (length ?data) stack"
  have lm: "length m = sizeof_dhcp_msg" using assms(1) by (simp add: m_def)
  have cpy: "mem_cpy stack 0 ?data = Some m" using assms(1) by (simp add: mem_cpy_def m_def)
  have dl: "\<not> length ?data < DHCP_MIN_SIZE" using assms(2) by (simp add: DHCP_MIN_SIZE_def sizeof_dhcp_msg_def)
  have set0: "mem_set m 0 DHCPOFFER = Some (m[0 := DHCPOFFER])" using lm by (simp add: mem_set_def sizeof_dhcp_msg_def)
  have yi: "mem_cpy (m[0 := DHCPOFFER]) msg_yiaddr (addr_bytes (d_ip d)) = Some (request_msg d p stack)"
  proof -
    have "request_msg d p stack = take msg_yiaddr (m[0 := DHCPOFFER]) @ addr_bytes (d_ip d) @ drop (msg_yiaddr + 4) m"
      by (simp add: request_msg_def Let_def m_def)
    with lm show ?thesis by (simp add: mem_cpy_def msg_layout)
  qed
  have ty: "mem_get (request_msg d p stack) 242 = Some (p ! 242)"
    using request_msg_facts(1) [OF assms, of d] request_msg_facts(2) [OF assms, of 242 d] assms(2) by (simp add: mem_get_def msg_layout DHCP_MIN_SIZE_def)
  show ?thesis
    using assms(2) dl
    by (simp add: dhcp_server_process_def Let_def cpy set0 yi msg_options_def ty)
qed


section \<open>Replies\<close>

definition name_ok :: "'u dhcp_server \<Rightarrow> bool" where
  "name_ok d = (\<forall>n. domain_name d = Some n \<longrightarrow> length n < 256)"

lemma length_reply: "name_ok d \<Longrightarrow> length (reply_options d ty) \<le> 308"
  by (auto simp: name_ok_def reply_options_def server_options_def opt_bytes_def split: option.split)

lemma reply_sent:
  assumes "length m = sizeof_dhcp_msg" "name_ok d" "opt_write_u8 DHCP_OPT_MSG_TYPE ty (m, 240) = Some s"
  shows "do { (m, opt) \<leftarrow> write_options d s;
          out \<leftarrow> dhcp_socket_sendto True m opt 0xffffffff PORT_DHCP_CLIENT;
          Some (d, out) } = Some (d, Some (take 240 m @ reply_options d ty, 0xffffffff, PORT_DHCP_CLIENT))"
proof -
  have fit: "240 + length (reply_options d ty) \<le> length m"
    using length_reply [OF assms(2), of ty] assms(1) by (simp add: sizeof_dhcp_msg_def)
  let ?m = "take 240 m @ reply_options d ty @ drop (240 + length (reply_options d ty)) m"
  have "write_options d s = emit (reply_options d ty) (m, 240)"
    using assms(3) by (simp add: write_options_emit opt_write_u8_emit reply_options_def flip: emit_bind)
  then have w: "write_options d s = Some (?m, 240 + length (reply_options d ty))"
    using fit by (simp add: emit_Some)
  have "mem_read ?m 0 (240 + length (reply_options d ty)) = Some (take 240 m @ reply_options d ty)"
    using fit by (simp add: mem_read_def)
  moreover have "\<not> 240 + length (reply_options d ty) > 0xffff" using length_reply [OF assms(2), of ty] by simp
  ultimately show ?thesis by (simp add: w dhcp_socket_sendto_def)
qed

lemma type_written: "length m = sizeof_dhcp_msg \<Longrightarrow> \<exists>s. opt_write_u8 DHCP_OPT_MSG_TYPE ty (m, 240) = Some s"
  by (simp add: opt_write_u8_emit emit_Some opt_bytes_def sizeof_dhcp_msg_def)

lemma reply_options_lease [simp]: "reply_options (d\<lparr>lease := ls\<rparr>) ty = reply_options d ty"
  by (simp add: reply_options_def server_options_def)

lemma name_ok_lease [simp]: "name_ok (d\<lparr>lease := ls\<rparr>) = name_ok d"
  by (simp add: name_ok_def)

lemma yiaddr_set:
  assumes "length m = sizeof_dhcp_msg" "take 4 (drop msg_yiaddr m) = addr_bytes a"
  shows "mem_set m (msg_yiaddr + 3) x = Some (m[msg_yiaddr + 3 := x])"
    "take 4 (drop msg_yiaddr (take 240 (m[msg_yiaddr + 3 := x]) @ rest)) = take 3 (addr_bytes a) @ [x]"
proof -
  show "mem_set m (msg_yiaddr + 3) x = Some (m[msg_yiaddr + 3 := x])"
    using assms(1) by (simp add: mem_set_def msg_layout)
  have "take 4 (drop msg_yiaddr (take 240 (m[msg_yiaddr + 3 := x]) @ rest)) = (take 4 (drop msg_yiaddr m))[3 := x]"
    using assms(1) by (simp add: msg_layout drop_take drop_update_swap take_update_swap)
  then show "take 4 (drop msg_yiaddr (take 240 (m[msg_yiaddr + 3 := x]) @ rest)) = take 3 (addr_bytes a) @ [x]"
    by (simp add: assms(2) addr_bytes_def)
qed

lemma discover_reply:
  assumes "dhcp_server_process d p stack ticks True = Some (d', Some out)" "length stack = sizeof_dhcp_msg"
    "DHCP_MIN_SIZE \<le> length p" "p ! 242 = DHCPDISCOVER" "length (lease d) = DHCPS_MAX_IP" "name_ok d"
  shows "\<exists>yi ls b. yi < DHCPS_MAX_IP \<and> d' = d\<lparr>lease := ls\<rparr> \<and> length ls = DHCPS_MAX_IP \<and>
    (mac (ls ! yi) = take MAC_LEN (drop msg_chaddr p) \<or> mac (ls ! yi) = no_mac) \<and>
    out = (b @ reply_options d DHCPOFFER, 0xffffffff, PORT_DHCP_CLIENT) \<and> length b = 240 \<and>
    take 4 (drop msg_yiaddr b) = take 3 (addr_bytes (d_ip d)) @ [DHCPS_BASE_IP + of_nat yi]"
proof -
  define m where "m = request_msg d p stack"
  define ch where "ch = take MAC_LEN (drop msg_chaddr p)"
  note facts = request_msg_facts [OF assms(2,3), where d = d, folded m_def]
  have ch: "mem_read m msg_chaddr MAC_LEN = Some ch"
    using facts(1,3) by (simp add: mem_read_def msg_layout MAC_LEN_def ch_def)
  obtain yi ls where ol: "offer_loop ch ticks 0 DHCPS_MAX_IP (lease d) = (yi, ls)" by fastforce
  note ls = offer_loop_leases [OF ol assms(5)]
  let ?m = "m[msg_yiaddr + 3 := DHCPS_BASE_IP + of_nat yi]"
  have yi: "yi < DHCPS_MAX_IP"
  proof (rule ccontr)
    assume "\<not> yi < DHCPS_MAX_IP"
    with ls(2) have "yi = DHCPS_MAX_IP" by simp
    with assms(1) show False
      unfolding process_eq [OF assms(2,3)] by (simp add: assms(4) m_def [symmetric] process_discover_def ch ol)
  qed
  have "length ?m = sizeof_dhcp_msg" using facts(1) by simp
  from type_written [OF this] obtain s where s: "opt_write_u8 DHCP_OPT_MSG_TYPE DHCPOFFER (?m, 240) = Some s" by blast
  have "process_discover d m ticks 240 = Some (d\<lparr>lease := ls\<rparr>, Some s)"
    using yi by (simp add: process_discover_def ch ol yiaddr_set(1) [OF facts(1,4)] s)
  then have "Some (d', Some out) = Some (d\<lparr>lease := ls\<rparr>, Some (take 240 ?m @ reply_options d DHCPOFFER, 0xffffffff, PORT_DHCP_CLIENT))"
    using reply_sent [OF \<open>length ?m = sizeof_dhcp_msg\<close> _ s, of "d\<lparr>lease := ls\<rparr>"] assms(6)
    unfolding assms(1) [symmetric] process_eq [OF assms(2,3)] by (simp add: assms(4) m_def [symmetric])
  moreover have "take 4 (drop msg_yiaddr (take 240 ?m)) = take 3 (addr_bytes (d_ip d)) @ [DHCPS_BASE_IP + of_nat yi]"
    using yiaddr_set(2) [OF facts(1,4), where rest = "[]"] by simp
  ultimately show ?thesis using yi ls(1,3) assms(5) facts(1)
    by (intro exI [of _ yi] exI [of _ ls] exI [of _ "take 240 ?m"]) (simp add: ch_def sizeof_dhcp_msg_def)
qed

text \<open>A request as clients send it: the header, the message type and the address asked for.\<close>

definition request_packet :: "bytes \<Rightarrow> bytes \<Rightarrow> bytes \<Rightarrow> bytes" where
  "request_packet hdr a rest = hdr @ opt_bytes DHCP_OPT_MSG_TYPE [DHCPREQUEST] @ opt_bytes DHCP_OPT_REQUESTED_IP a @ rest"

lemma request_accepted:
  assumes "length hdr = 240" "length a = 4" "length stack = sizeof_dhcp_msg" "length (lease d) = DHCPS_MAX_IP" "name_ok d"
    and yi: "yi < DHCPS_MAX_IP" "a = take 3 (addr_bytes (d_ip d)) @ [DHCPS_BASE_IP + of_nat yi]"
    and owner: "mac (lease d ! yi) = take MAC_LEN (drop msg_chaddr hdr) \<or> mac (lease d ! yi) = no_mac"
  shows "\<exists>d' b. dhcp_server_process d (request_packet hdr a rest) stack ticks True =
      Some (d', Some (b @ reply_options d DHCPACK, 0xffffffff, PORT_DHCP_CLIENT)) \<and> length b = 240 \<and>
    take 4 (drop msg_yiaddr b) = a \<and>
    lease d' ! yi = \<lparr>mac = take MAC_LEN (drop msg_chaddr hdr), expiry = ucast (drop_bit 16 (ticks 0 + DEFAULT_LEASE_TIME_S * 1000))\<rparr>"
proof -
  let ?p = "request_packet hdr a rest"
  define m where "m = request_msg d ?p stack"
  define ch where "ch = take MAC_LEN (drop msg_chaddr hdr)"
  have lp: "DHCP_MIN_SIZE \<le> length ?p" "249 \<le> length ?p"
    using assms(1,2) by (simp_all add: request_packet_def opt_bytes_def DHCP_MIN_SIZE_def)
  note facts = request_msg_facts [OF assms(3) lp(1), where d = d, folded m_def]
  have nth: "mem_get m i = Some (?p ! i)" if "240 \<le> i" "i < 249" for i
    using facts(1,2) that lp(2) by (simp add: mem_get_def msg_layout)
  have p: "?p ! 240 = 53" "?p ! 241 = 1" "?p ! 242 = 3" "?p ! 243 = 50" "?p ! 248 = a ! 3"
    "take 3 (drop 245 ?p) = take 3 a"
    using assms(1,2) by (simp_all add: request_packet_def opt_bytes_def nth_append dhcp_consts)
  have chp: "take MAC_LEN (drop msg_chaddr ?p) = ch"
    using assms(1) by (simp add: request_packet_def ch_def msg_layout MAC_LEN_def)
  have ch: "mem_read m msg_chaddr MAC_LEN = Some ch"
    using facts(1,3) chp by (simp add: mem_read_def msg_layout MAC_LEN_def)
  have found: "opt_find m 240 DHCP_OPT_REQUESTED_IP = Some (Some 243)"
    using nth [of 240] nth [of 241] nth [of 243] p
    by (simp add: opt_find_def opt_find_from.simps [of _ _ _ 0] opt_find_from.simps [of _ _ _ "Suc (Suc (Suc 0))"] DHCP_OPT_END_def DHCP_OPT_REQUESTED_IP_def)
  have drop245: "take 3 (drop 245 m) = take 3 (drop 245 ?p)"
    using facts(1,2) lp(2) by (intro nth_equalityI) (auto simp: msg_layout)
  have net: "mem_read m 245 3 = Some (take 3 (addr_bytes (d_ip d)))"
    using facts(1) drop245 p(6) yi(2) by (simp add: mem_read_def sizeof_dhcp_msg_def)
  have host: "mem_get m 248 = Some (DHCPS_BASE_IP + of_nat yi)"
    using nth [of 248] p(5) yi(2) by (simp add: nth_append)
  have idx: "unat (DHCPS_BASE_IP + of_nat yi - DHCPS_BASE_IP) = yi"
    using yi(1) by (simp add: DHCPS_MAX_IP_def unsigned_of_nat take_bit_nat_eq_self)
  let ?m = "m[msg_yiaddr + 3 := DHCPS_BASE_IP + of_nat yi]"
  have lm: "length ?m = sizeof_dhcp_msg" using facts(1) by simp
  from type_written [OF lm] obtain s where s: "opt_write_u8 DHCP_OPT_MSG_TYPE DHCPACK (?m, 240) = Some s" by blast
  let ?l = "(lease d ! yi)\<lparr>mac := ch, expiry := ucast (drop_bit 16 (ticks 0 + DEFAULT_LEASE_TIME_S * 1000))\<rparr>"
  let ?d = "d\<lparr>lease := (lease d)[yi := ?l]\<rparr>"
  have "process_request d m (ticks 0) 240 = Some (?d, Some s)"
    using owner yi(1)
    by (simp add: process_request_def found net host idx idx [simplified] ch Let_def yiaddr_set(1) [OF facts(1,4)] s ch_def [symmetric] leD)
  then have "dhcp_server_process d ?p stack ticks True =
      Some (?d, Some (take 240 ?m @ reply_options d DHCPACK, 0xffffffff, PORT_DHCP_CLIENT))"
    using reply_sent [OF lm _ s, of ?d] assms(5)
    unfolding process_eq [OF assms(3) lp(1)] by (simp add: p(3) m_def [symmetric] DHCPREQUEST_def DHCPDISCOVER_def)
  moreover have "take 4 (drop msg_yiaddr (take 240 ?m)) = a"
    using yiaddr_set(2) [OF facts(1,4), where rest = "[]"] yi(2) by simp
  moreover have "lease ?d ! yi = \<lparr>mac = ch, expiry = ucast (drop_bit 16 (ticks 0 + DEFAULT_LEASE_TIME_S * 1000))\<rparr>"
    using yi(1) assms(4) by simp
  ultimately show ?thesis using facts(1)
    by (intro exI [of _ ?d] exI [of _ "take 240 ?m"]) (simp add: ch_def sizeof_dhcp_msg_def)
qed

text \<open>C37: An address that has been offered is given: when the client of a discovery asks for the offered address with its next packet, the
  server acknowledges that address with all its options and records the lease for the client. Both replies are broadcast to
  the client port, and the host part of the address is one of the eight of the server.\<close>

theorem dhcp_offer_acknowledged:
  assumes "dhcp_server_process d p stack ticks True = Some (d1, Some (offer, dest, port))" "p ! 242 = DHCPDISCOVER"
    "DHCP_MIN_SIZE \<le> length p" "length stack = sizeof_dhcp_msg" "length stack' = sizeof_dhcp_msg"
    "length (lease d) = DHCPS_MAX_IP" "name_ok d"
    "length hdr = 240" "take MAC_LEN (drop msg_chaddr hdr) = take MAC_LEN (drop msg_chaddr p)"
  shows "drop 240 offer = reply_options d DHCPOFFER \<and> dest = 0xffffffff \<and> port = PORT_DHCP_CLIENT \<and>
    (\<exists>yi d2 ack. yi < DHCPS_MAX_IP \<and>
      take 4 (drop msg_yiaddr offer) = take 3 (addr_bytes (d_ip d)) @ [DHCPS_BASE_IP + of_nat yi] \<and>
      dhcp_server_process d1 (request_packet hdr (take 4 (drop msg_yiaddr offer)) rest) stack' ticks' True =
        Some (d2, Some (ack, 0xffffffff, PORT_DHCP_CLIENT)) \<and>
      take 4 (drop msg_yiaddr ack) = take 4 (drop msg_yiaddr offer) \<and> drop 240 ack = reply_options d DHCPACK \<and>
      mac (lease d2 ! yi) = take MAC_LEN (drop msg_chaddr p))"
proof -
  from discover_reply [OF assms(1,4,3,2,6,7)] obtain yi ls b where
    yi: "yi < DHCPS_MAX_IP" and d1: "d1 = d\<lparr>lease := ls\<rparr>" "length ls = DHCPS_MAX_IP"
    and own: "mac (ls ! yi) = take MAC_LEN (drop msg_chaddr p) \<or> mac (ls ! yi) = no_mac"
    and out: "(offer, dest, port) = (b @ reply_options d DHCPOFFER, 0xffffffff, PORT_DHCP_CLIENT)" "length b = 240"
    and a: "take 4 (drop msg_yiaddr b) = take 3 (addr_bytes (d_ip d)) @ [DHCPS_BASE_IP + of_nat yi]" by blast
  have offer: "take 4 (drop msg_yiaddr offer) = take 4 (drop msg_yiaddr b)" using out by (simp add: msg_yiaddr_def)
  have la: "length (take 4 (drop msg_yiaddr offer)) = 4" using offer out(2) by (simp add: msg_yiaddr_def)
  from request_accepted [OF assms(8) la assms(5), of d1 yi rest ticks'] d1 assms(7,9) yi own a offer
  obtain d2 b2 where 2: "dhcp_server_process d1 (request_packet hdr (take 4 (drop msg_yiaddr offer)) rest) stack' ticks' True =
      Some (d2, Some (b2 @ reply_options d DHCPACK, 0xffffffff, PORT_DHCP_CLIENT))" "length b2 = 240"
    "take 4 (drop msg_yiaddr b2) = take 4 (drop msg_yiaddr offer)" "mac (lease d2 ! yi) = take MAC_LEN (drop msg_chaddr p)"
    by auto
  have "take 4 (drop msg_yiaddr (b2 @ reply_options d DHCPACK)) = take 4 (drop msg_yiaddr b2)" using 2(2) by (simp add: msg_yiaddr_def)
  with out yi a offer 2 show ?thesis
    by (intro conjI exI [of _ yi] exI [of _ d2] exI [of _ "b2 @ reply_options d DHCPACK"]) simp_all
qed

section \<open>A server and a client\<close>

definition demo_server :: "unit dhcp_server" where
  "demo_server = fst (dhcp_server_init (Some ()) 0x0104A8C0 0x00FFFFFF (Some (bytes_of ''lan'')))"

definition demo_discover :: bytes where
  "demo_discover = replicate 28 1 @ [2, 0, 0, 0, 0, 7] @ replicate 206 0 @ [53, 1, 1, 255]"

lemma demo_server_ok: "length (lease demo_server) = DHCPS_MAX_IP" "name_ok demo_server" "mac (lease demo_server ! 0) = no_mac"
  by (simp_all add: demo_server_def dhcp_server_init_def name_ok_def DHCPS_MAX_IP_def)

lemma demo_discover_ok: "demo_discover ! 242 = DHCPDISCOVER" "DHCP_MIN_SIZE \<le> length demo_discover"
  "take MAC_LEN (drop msg_chaddr demo_discover) = [2, 0, 0, 0, 0, 7]"
  by (simp_all add: demo_discover_def dhcp_consts msg_chaddr_def nth_append)

lemma demo_offer:
  "\<exists>d1 offer. dhcp_server_process demo_server demo_discover (replicate 548 0) (\<lambda>_. 0) True =
    Some (d1, Some (offer, 0xffffffff, PORT_DHCP_CLIENT))"
proof -
  let ?m = "request_msg demo_server demo_discover (replicate 548 0)"
  have stack: "length (replicate 548 (0 :: u8)) = sizeof_dhcp_msg" by (simp add: sizeof_dhcp_msg_def)
  note facts = request_msg_facts [OF stack demo_discover_ok(2), where d = demo_server]
  have ch: "mem_read ?m msg_chaddr MAC_LEN = Some [2, 0, 0, 0, 0, 7]"
    using facts(1,3) by (simp add: mem_read_def msg_layout MAC_LEN_def demo_discover_ok(3) [unfolded msg_chaddr_def MAC_LEN_def])
  have fresh: "lease demo_server = replicate 8 \<lparr>mac = no_mac, expiry = 0\<rparr>"
    by (simp add: demo_server_def dhcp_server_init_def DHCPS_MAX_IP_def)
  have run: "offer_loop [2, 0, 0, 0, 0, 7] (\<lambda>_. 0) i 0 ls = (0, ls)"
    if "i \<le> 8" "length ls = 8" "\<forall>l \<in> set ls. mac l \<noteq> [2, 0, 0, 0, 0, 7]" for i ls
    using that
  proof (induction "8 - i" arbitrary: i)
    case (Suc k)
    then have "i < 8" "offer_loop [2, 0, 0, 0, 0, 7] (\<lambda>_. 0) (i + 1) 0 ls = (0, ls)" by simp_all
    with Suc.prems show ?case by (simp add: offer_loop.simps [of _ _ i] DHCPS_MAX_IP_def)
  qed (simp add: offer_loop.simps DHCPS_MAX_IP_def)
  have "mac (lease demo_server ! 0) \<noteq> [2, 0, 0, 0, 0, 7]" by (simp add: demo_server_ok no_mac_def MAC_LEN_def numeral_eq_Suc)
  moreover have "\<not> lease_expired (lease demo_server ! 0) 0" by (simp add: fresh lease_expired_def)
  ultimately have ol: "offer_loop [2, 0, 0, 0, 0, 7] (\<lambda>_. 0) 0 DHCPS_MAX_IP (lease demo_server) = (0, lease demo_server)"
    using run [of 1 "lease demo_server"]
    by (subst offer_loop.simps) (simp add: DHCPS_MAX_IP_def demo_server_ok(3) fresh no_mac_def MAC_LEN_def numeral_eq_Suc)
  let ?m' = "?m[msg_yiaddr + 3 := DHCPS_BASE_IP + of_nat 0]"
  have lm: "length ?m' = sizeof_dhcp_msg" using facts(1) by simp
  from type_written [OF lm] obtain s where s: "opt_write_u8 DHCP_OPT_MSG_TYPE DHCPOFFER (?m', 240) = Some s" by blast
  have "process_discover demo_server ?m (\<lambda>_. 0) 240 = Some (demo_server, Some s)"
    using s yiaddr_set(1) [OF facts(1,4), of "DHCPS_BASE_IP + of_nat 0"] by (simp add: process_discover_def ch ol [unfolded DHCPS_MAX_IP_def] DHCPS_MAX_IP_def)
  with reply_sent [OF lm demo_server_ok(2) s] show ?thesis
    unfolding process_eq [OF stack demo_discover_ok(2)] by (simp add: demo_discover_ok(1))
qed

theorem dhcp_offer_acknowledged_witness:
  "\<exists>d1 offer d2 ack. dhcp_server_process demo_server demo_discover (replicate 548 0) (\<lambda>_. 0) True =
      Some (d1, Some (offer, 0xffffffff, PORT_DHCP_CLIENT)) \<and>
    dhcp_server_process d1 (request_packet (take 240 demo_discover) (take 4 (drop 16 offer)) []) (replicate 548 0) (\<lambda>_. 9) True =
      Some (d2, Some (ack, 0xffffffff, PORT_DHCP_CLIENT)) \<and> take 4 (drop 16 ack) = take 4 (drop 16 offer)"
proof -
  from demo_offer obtain d1 offer where o: "dhcp_server_process demo_server demo_discover (replicate 548 0) (\<lambda>_. 0) True =
    Some (d1, Some (offer, 0xffffffff, PORT_DHCP_CLIENT))" by blast
  have "take MAC_LEN (drop msg_chaddr (take 240 demo_discover)) = take MAC_LEN (drop msg_chaddr demo_discover)"
    by (simp add: msg_chaddr_def MAC_LEN_def drop_take)
  moreover have "length (take 240 demo_discover) = 240" by (simp add: demo_discover_def)
  ultimately show ?thesis
    using dhcp_offer_acknowledged [OF o demo_discover_ok(1,2) _ _ demo_server_ok(1,2), of "replicate 548 0" "take 240 demo_discover" "[]" "\<lambda>_. 9"] o
    by (fastforce simp: msg_yiaddr_def sizeof_dhcp_msg_def)
qed


end
