(* ===== verification/Dns_Server.thy ===== *)
theory Dns_Server
  imports Prelude
begin

text \<open>
  The DNS server of the access point mode, \<^verbatim>\<open>src/dns/dnsserver.cpp\<close>, with the function of
  \<^verbatim>\<open>src/src/settings.cpp\<close> that splits its domain name: one turn of the loop of \<^verbatim>\<open>dns_server_thread\<close>.

  A name is followed through the packet by positions. A pointer may lead back to itself, so the two loops are partial
  functions: \<open>None\<close> is a loop that does not end, or an access outside of the packet buffer.
\<close>

section \<open>Data\<close>

record DNSServerSettings =
  primary_ip :: u32
  secondary_ip :: u32
  host_name :: bytes
  dns_domain :: "bytes option"
  ignore_network_suffix :: bool

definition sizeof_DNSHeader :: nat where "sizeof_DNSHeader = 12"
definition sizeof_IPResourceRecord :: nat where "sizeof_IPResourceRecord = 14"
definition sizeof_packet :: nat where "sizeof_packet = 1536"

definition dns_server_init :: "u32 \<Rightarrow> u32 \<Rightarrow> bytes \<Rightarrow> bytes option \<Rightarrow> bool \<Rightarrow> DNSServerSettings" where
  "dns_server_init primary secondary host domain ignores =
     \<lparr>primary_ip = primary, secondary_ip = secondary, host_name = host, dns_domain = domain, ignore_network_suffix = ignores\<rparr>"

section \<open>The code: names\<close>

text \<open>The start of the next component, the position behind it and its length, if there is one.\<close>

definition get_next_domain_name_component :: "bytes option \<Rightarrow> nat \<Rightarrow> (nat \<times> nat \<times> nat) option" where
  "get_next_domain_name_component domain_name pos =
     (case domain_name of
        None \<Rightarrow> None
      | Some n \<Rightarrow>
          (case strchr (drop pos n) 0x2E of
             Some i \<Rightarrow> Some (pos, pos + i + 1, i)
           | None \<Rightarrow> if drop pos n \<noteq> [] then Some (pos, length n, length n - pos) else None))"

text \<open>
  The component of the name in a packet from position \<open>i\<close>: where it starts, its length and the position behind it.
\<close>

partial_function (option) encoded_component_loop :: "bytes \<Rightarrow> nat \<Rightarrow> nat \<Rightarrow> (nat \<times> nat \<times> nat) option option" where
  "encoded_component_loop buffer max_input_size i =
     (if i < max_input_size then do {
        c \<leftarrow> mem_get buffer i;
        if c AND 0xC0 \<noteq> 0 then do {
          c' \<leftarrow> mem_get buffer (i + 1);
          encoded_component_loop buffer max_input_size (256 * unat (c AND 0x3F) + unat c') }
        else (let len = unat (c AND 0x3F) in
          if i + len \<ge> max_input_size then Some None
          else if len = 0 then Some None
          else Some (Some (i + 1, len, i + 1 + len))) }
      else Some None)"

definition get_encoded_domain_name_component :: "bytes \<Rightarrow> nat \<Rightarrow> nat \<Rightarrow> (nat \<times> nat \<times> nat) option option" where
  "get_encoded_domain_name_component buffer offset max_input_size = encoded_component_loop buffer max_input_size offset"

text \<open>
  One component: \<^verbatim>\<open>match\<close>, \<^verbatim>\<open>loose_match\<close> and the component of the server's domain to compare next. \<open>first\<close>
  is \<^verbatim>\<open>i == 0\<close>.
\<close>

definition match_component ::
  "DNSServerSettings \<Rightarrow> bytes \<Rightarrow> nat \<Rightarrow> bool \<Rightarrow> bool \<times> bool \<times> (nat \<times> nat \<times> nat) option
    \<Rightarrow> bool \<times> bool \<times> (nat \<times> nat \<times> nat) option" where
  "match_component st text len first = (\<lambda>(match, loose, domain_comp).
     if first \<and> strncaseeq len text (host_name st)
     then (True, loose \<or> ignore_network_suffix st, domain_comp)
     else (case (domain_comp, dns_domain st) of
         (Some (start, off, domain_len), Some n) \<Rightarrow>
           if \<not> first \<and> match \<and> len = domain_len \<and> strncaseeq len text (drop start n)
           then (True, loose, get_next_domain_name_component (Some n) off)
           else (False, loose, domain_comp)
       | _ \<Rightarrow> (False, loose, domain_comp)))"

partial_function (option) address_loop ::
  "DNSServerSettings \<Rightarrow> bytes \<Rightarrow> nat \<Rightarrow> nat \<Rightarrow> bool \<Rightarrow> bool \<times> bool \<times> (nat \<times> nat \<times> nat) option \<Rightarrow> u32 option" where
  "address_loop st buffer buffer_size offset first s = do {
     component \<leftarrow> get_encoded_domain_name_component buffer offset buffer_size;
     (case component of
        None \<Rightarrow> Some (case s of (match, loose, _) \<Rightarrow> if match \<or> loose then primary_ip st else secondary_ip st)
      | Some (pos, len, offset) \<Rightarrow> do {
          text \<leftarrow> mem_read buffer pos len;
          address_loop st buffer buffer_size offset False (match_component st text len first s) }) }"

definition get_address_for_encoded_domain :: "DNSServerSettings \<Rightarrow> bytes \<Rightarrow> nat \<Rightarrow> nat \<Rightarrow> u32 option" where
  "get_address_for_encoded_domain st buffer offset buffer_size =
     address_loop st buffer buffer_size offset True (False, False, get_next_domain_name_component (dns_domain st) 0)"

section \<open>The code: packets\<close>

text \<open>The resource record for an address, in memory.\<close>

definition resource_record :: "u32 \<Rightarrow> bytes" where
  "resource_record ip = [0, 1, 0, 1, 0, 0, 0, 1, 0, 4] @
     [ucast ip, ucast (drop_bit 8 ip), ucast (drop_bit 16 ip), ucast (drop_bit 24 ip)]"

text \<open>The test of the header: the bit fields of its third byte, and its four counters.\<close>

definition is_simple_query :: "bytes \<Rightarrow> bool" where
  "is_simple_query m = ((m ! 2) AND 0x80 = 0 \<and> (m ! 2) AND 0x78 = 0 \<and> m ! 4 = 0 \<and> m ! 5 = 1 \<and>
     m ! 6 = 0 \<and> m ! 7 = 0 \<and> m ! 8 = 0 \<and> m ! 9 = 0 \<and> m ! 10 = 0 \<and> m ! 11 = 0)"

text \<open>
  One turn: \<open>packet\<close> is the static buffer and \<open>received\<close> what \<^verbatim>\<open>recvfrom\<close> gives, \<open>None\<close> for an error. The result
  is the buffer and what is sent back.
\<close>

definition dns_server_turn ::
  "DNSServerSettings \<Rightarrow> bytes \<Rightarrow> bytes option \<Rightarrow> (bytes \<times> bytes option) option" where
  "dns_server_turn st packet received =
     (case received of
        None \<Rightarrow> Some (packet, None)
      | Some data \<Rightarrow> do {
          let data = take sizeof_packet data;
          let n = length data;
          m \<leftarrow> mem_cpy packet 0 data;
          if sizeof_DNSHeader \<le> n \<and> n < sizeof_packet - sizeof_IPResourceRecord - 2 \<and> is_simple_query m then do {
            let m = m[2 := (m ! 2) OR 0x80, 6 := 0, 7 := 1];
            m \<leftarrow> mem_set m n 0xC0;
            m \<leftarrow> mem_set m (n + 1) (of_nat sizeof_DNSHeader);
            ip \<leftarrow> get_address_for_encoded_domain st m sizeof_DNSHeader n;
            m \<leftarrow> mem_cpy m (n + 2) (resource_record ip);
            Some (m, Some (take (n + 2 + sizeof_IPResourceRecord) m)) }
          else Some (m, None) })"

end
