(* ===== verification/Dns_Proofs.thy ===== *)
theory Dns_Proofs
  imports Dns_Server
begin

text \<open>
  Facts of the DNS server: its walk through the name of a query is the matching of a list of labels, the answer it
  builds, and the query that it never answers.
\<close>

section \<open>Names in packets\<close>

definition label_ok :: "bytes \<Rightarrow> bool" where
  "label_ok l = (l \<noteq> [] \<and> length l < 64 \<and> 0 \<notin> set l)"

definition enc_name :: "bytes list \<Rightarrow> bytes" where
  "enc_name ls = concat (map (\<lambda>l. of_nat (length l) # l) ls) @ [0]"

lemma enc_name_simps [simp]: "enc_name [] = [0]" "enc_name (l # ls) = of_nat (length l) # l @ enc_name ls"
  by (simp_all add: enc_name_def)

lemma length_byte:
  assumes "n < 64"
  shows "(of_nat n :: u8) AND 0xC0 = 0" "unat ((of_nat n :: u8) AND 0x3F) = n"
proof -
  have u: "unat (of_nat n :: u8) = n" using assms by (simp add: unsigned_of_nat take_bit_nat_eq_self)
  have "\<not> bit (of_nat n :: u8) k" if "6 \<le> k" for k
    by (rule bit_above_bound [where k = 6]) (use assms u that in simp_all)
  then have b: "\<not> bit (of_nat n :: u8) 6" "\<not> bit (of_nat n :: u8) 7" by simp_all
  have "(of_nat n :: u8) AND 0x3F = of_nat n" using b by (intro u8_eqI) (simp_all add: bit_simps)
  with u show "unat ((of_nat n :: u8) AND 0x3F) = n" by simp
  show "(of_nat n :: u8) AND 0xC0 = 0" using b by (intro u8_eqI) (simp_all add: bit_simps)
qed

lemma component_label:
  assumes "label_ok l" "drop i buf = of_nat (length l) # l @ rest" "i + length l < n"
  shows "get_encoded_domain_name_component buf i n = Some (Some (i + 1, length l, i + 1 + length l))"
    "mem_read buf (i + 1) (length l) = Some l"
proof -
  have i: "i < length buf" using assms(2) by (metis drop_all linorder_not_less list.distinct(1))
  have c: "mem_get buf i = Some (of_nat (length l))"
    using assms(2) i by (metis hd_drop_conv_nth list.sel(1) mem_get_in)
  have "drop (i + 1) buf = l @ rest" using assms(2) by (metis add.commute drop_Suc drop_drop list.sel(3) plus_1_eq_Suc tl_drop)
  moreover have "i + 1 + length l \<le> length buf" using arg_cong [OF assms(2), of length] i by simp
  ultimately show "mem_read buf (i + 1) (length l) = Some l" by (simp add: mem_read_def)
  show "get_encoded_domain_name_component buf i n = Some (Some (i + 1, length l, i + 1 + length l))"
    using assms(1,3) length_byte [of "length l"]
    by (simp add: get_encoded_domain_name_component_def encoded_component_loop.simps [of _ _ i] c label_ok_def Let_def)
qed

lemma component_end:
  assumes "drop i buf = 0 # rest" "i < n"
  shows "get_encoded_domain_name_component buf i n = Some None"
proof -
  have "i < length buf" using assms(1) by (metis drop_all linorder_not_less list.distinct(1))
  then have "mem_get buf i = Some 0" using assms(1) by (metis hd_drop_conv_nth list.sel(1) mem_get_in)
  with assms(2) show ?thesis
    by (simp add: get_encoded_domain_name_component_def encoded_component_loop.simps [of _ _ i])
qed

fun match_run where
  "match_run st first s [] = s"
| "match_run st first s (l # ls) = match_run st False (match_component st l (length l) first s) ls"

lemma address_loop_labels:
  assumes "\<forall>l \<in> set ls. label_ok l" "drop i buf = enc_name ls @ rest" "i + length (enc_name ls) \<le> n"
  shows "address_loop st buf n i first s =
    Some (case match_run st first s ls of (match, loose, _) \<Rightarrow> if match \<or> loose then primary_ip st else secondary_ip st)"
  using assms
proof (induction ls arbitrary: i first s)
  case Nil
  then have "get_encoded_domain_name_component buf i n = Some None"
    by (intro component_end [where rest = rest]) simp_all
  then show ?case by (simp add: address_loop.simps)
next
  case (Cons l ls)
  have d: "drop i buf = of_nat (length l) # l @ enc_name ls @ rest" using Cons.prems(2) by simp
  have "i + length l < n" using Cons.prems(3) by simp
  note c = component_label [OF _ d this]
  have "drop (i + 1 + length l) buf = drop (1 + length l) (drop i buf)" by (simp add: add.commute)
  also have "\<dots> = enc_name ls @ rest" by (simp add: d)
  finally have d': "drop (i + 1 + length l) buf = enc_name ls @ rest" .
  from Cons.IH [OF _ this, of False "match_component st l (length l) first s"] Cons.prems(1,3) c
  show ?case by (subst address_loop.simps) simp
qed

section \<open>What matches\<close>

function components :: "bytes \<Rightarrow> bytes list" where
  "components n = (case strchr n 0x2E of
     Some i \<Rightarrow> take i n # components (drop (i + 1) n) | None \<Rightarrow> if n = [] then [] else [n])"
  by pat_completeness auto
termination
  by (relation "measure length") (auto dest!: strchr_Some)

declare components.simps [simp del]

lemma components_Nil [simp]: "components [] = []"
  by (subst components.simps) simp

lemma next_component:
  "case components (drop pos n) of
     [] \<Rightarrow> get_next_domain_name_component (Some n) pos = None
   | d # ds \<Rightarrow> \<exists>off. get_next_domain_name_component (Some n) pos = Some (pos, off, length d) \<and>
       components (drop off n) = ds \<and> take (length d) (drop pos n) = d"
proof (cases "strchr (drop pos n) 0x2E")
  case None
  then have c: "components (drop pos n) = (if drop pos n = [] then [] else [drop pos n])"
    by (subst components.simps) simp
  have g: "get_next_domain_name_component (Some n) pos =
      (if drop pos n = [] then None else Some (pos, length n, length (drop pos n)))"
    by (simp add: get_next_domain_name_component_def None)
  show ?thesis
  proof (cases "drop pos n = []")
    case True
    then show ?thesis unfolding c g by simp
  next
    case False
    then have "components (drop pos n) = [drop pos n]" "get_next_domain_name_component (Some n) pos = Some (pos, length n, length (drop pos n))"
      using c g by simp_all
    then show ?thesis by (simp only: list.case) (intro exI [of _ "length n"], simp)
  qed
next
  case (Some i)
  have "i < length (drop pos n)" using strchr_Some [OF Some] by (rule conjunct1)
  then have "length (take i (drop pos n)) = i" by simp
  with Some show ?thesis
    by (subst components.simps) (simp add: get_next_domain_name_component_def ac_simps)
qed

fun domain_match :: "bytes list \<Rightarrow> bytes list \<Rightarrow> bool" where
  "domain_match [] ds = True"
| "domain_match (l # ls) [] = False"
| "domain_match (l # ls) (d # ds) = (map tolower l = map tolower d \<and> domain_match ls ds)"

definition name_is_primary :: "DNSServerSettings \<Rightarrow> bytes list \<Rightarrow> bool" where
  "name_is_primary st ls = (case ls of [] \<Rightarrow> False
     | l # ls \<Rightarrow> map tolower l = map tolower (take (length l) (host_name st)) \<and>
         (ignore_network_suffix st \<or> domain_match ls (case dns_domain st of Some n \<Rightarrow> components n | None \<Rightarrow> [])))"

lemma tolower_zero [simp]: "tolower 0 = 0"
  by (simp add: tolower_def)

lemma tolower_0: "tolower c = 0 \<longleftrightarrow> c = 0"
proof -
  have "c + 0x20 \<noteq> 0" if "c \<le> 0x5A"
  proof -
    have "unat c \<le> 0x5A" using that by (simp add: word_le_nat_alt)
    then have "unat (c + 0x20) \<noteq> 0" by (simp add: unat_word_ariths)
    then show ?thesis by (metis unat_0)
  qed
  then show ?thesis by (auto simp: tolower_def)
qed

lemma strncaseeq_prefix:
  "0 \<notin> set l \<Longrightarrow> strncaseeq (length l) l b \<longleftrightarrow> map tolower l = map tolower (take (length l) b)"
proof (induction l arbitrary: b)
  case (Cons c l)
  then show ?case by (cases b) (auto simp: tolower_0)
qed simp

lemma match_run_lost:
  "match_run st False (False, loose, dc) ls = (False, loose, dc)"
  by (induction ls) (auto simp: match_component_def split: option.splits prod.splits)

lemma match_run_domain:
  assumes "\<forall>l \<in> set ls. label_ok l" "dns_domain st = Some n" "dc = get_next_domain_name_component (Some n) pos"
  shows "\<exists>dc'. match_run st False (True, loose, dc) ls = (domain_match ls (components (drop pos n)), loose, dc')"
  using assms
proof (induction ls arbitrary: pos dc)
  case (Cons l ls)
  have l: "0 \<notin> set l" using Cons.prems(1) by (simp add: label_ok_def)
  show ?case
  proof (cases "components (drop pos n)")
    case Nil
    then have "dc = None" using next_component [of n pos] Cons.prems(3) by simp
    then have "match_component st l (length l) False (True, loose, dc) = (False, loose, dc)"
      by (simp add: match_component_def)
    with Nil show ?thesis by (simp add: match_run_lost)
  next
    case d: (Cons d ds)
    then obtain off where off: "dc = Some (pos, off, length d)" "components (drop off n) = ds" "take (length d) (drop pos n) = d"
      using next_component [of n pos] Cons.prems(3) by auto
    have "length l = length d \<and> strncaseeq (length l) l (drop pos n) \<longleftrightarrow> map tolower l = map tolower d"
      using strncaseeq_prefix [OF l, of "drop pos n"] off(3) by (metis length_map)
    then have step: "match_component st l (length l) False (True, loose, dc) =
        (if map tolower l = map tolower d then (True, loose, get_next_domain_name_component (Some n) off) else (False, loose, dc))"
      by (auto simp: match_component_def off(1) Cons.prems(2))
    show ?thesis
    proof (cases "map tolower l = map tolower d")
      case True
      with step Cons.IH [OF _ Cons.prems(2) refl, of off] Cons.prems(1) off(2) d show ?thesis by simp
    next
      case False
      with step d show ?thesis by (simp add: match_run_lost)
    qed
  qed
qed simp

lemma match_run_name:
  assumes "\<forall>l \<in> set ls. label_ok l"
  shows "(case match_run st True (False, False, get_next_domain_name_component (dns_domain st) 0) ls of
     (match, loose, _) \<Rightarrow> match \<or> loose) = name_is_primary st ls"
proof (cases ls)
  case (Cons l ms)
  have l: "0 \<notin> set l" "\<forall>l \<in> set ms. label_ok l" using assms Cons by (simp_all add: label_ok_def)
  let ?dc = "get_next_domain_name_component (dns_domain st) 0"
  show ?thesis
  proof (cases "map tolower l = map tolower (take (length l) (host_name st))")
    case True
    then have step: "match_component st l (length l) True (False, False, ?dc) = (True, ignore_network_suffix st, ?dc)"
      using strncaseeq_prefix [OF l(1)] by (simp add: match_component_def)
    show ?thesis
    proof (cases "dns_domain st")
      case None
      have "match_run st False (True, ignore_network_suffix st, None) ms = (ms = [], ignore_network_suffix st, None)"
        by (cases ms) (simp_all add: match_component_def match_run_lost)
      with step True Cons None show ?thesis
        by (cases ms) (auto simp: name_is_primary_def get_next_domain_name_component_def)
    next
      case (Some n)
      from match_run_domain [OF l(2) Some, of ?dc 0 "ignore_network_suffix st"] Some obtain dc' where
        "match_run st False (True, ignore_network_suffix st, ?dc) ms = (domain_match ms (components n), ignore_network_suffix st, dc')"
        by auto
      with step True Cons Some show ?thesis by (auto simp: name_is_primary_def)
    qed
  next
    case False
    then have "match_component st l (length l) True (False, False, ?dc) = (False, False, ?dc)"
      using strncaseeq_prefix [OF l(1)] by (auto simp: match_component_def split: option.splits)
    with False Cons show ?thesis by (simp add: match_run_lost name_is_primary_def)
  qed
qed (simp add: name_is_primary_def)

section \<open>Queries and answers\<close>

lemma take_two: "length xs = i \<Longrightarrow> length ys = k \<Longrightarrow> take (i + k) (xs @ ys @ zs) = xs @ ys"
  by simp


definition demo_dns :: DNSServerSettings where
  "demo_dns = dns_server_init 0x0104A8C0 0x0204A8C0 (bytes_of ''config'') (Some (bytes_of ''lan.local'')) False"

definition demo_header :: bytes where "demo_header = [0, 7, 1, 0, 0, 1, 0, 0, 0, 0, 0, 0]"

lemma demo_header_ok: "length demo_header = 12" "is_simple_query demo_header"
  by (simp_all add: demo_header_def is_simple_query_def)


text \<open>C40: A query whose name is a pointer to itself keeps the server in the loop over the name for ever: with these two bytes in the packet
  every access stays inside of it, and yet there is no result.\<close>

theorem dns_pointer_never_returns:
  assumes "length hdr = 12" "is_simple_query hdr" "length tail < 1506" "length packet = 1536"
  shows "dns_server_turn st packet (Some (hdr @ [0xC0, 12] @ tail)) = None \<and>
    mem_get (hdr @ [0xC0, 12] @ tail) 12 = Some 0xC0 \<and> mem_get (hdr @ [0xC0, 12] @ tail) 13 = Some 12"
proof -
  have loop: "encoded_component_loop buf k i = Some y \<Longrightarrow> i \<noteq> 12" if "mem_get buf 12 = Some 0xC0" "mem_get buf 13 = Some 12" "12 < k" for buf k i y
  proof -
    have "(buf' = buf \<longrightarrow> k' = k \<longrightarrow> i \<noteq> 12)" if "encoded_component_loop buf' k' i = Some y" for buf' k'
      using that
    proof (rule encoded_component_loop.raw_induct [rotated, where P = "\<lambda>buf' k' i y. buf' = buf \<longrightarrow> k' = k \<longrightarrow> i \<noteq> 12"])
      fix ecl buf' k' i y
      assume IH: "\<And>buf' k' i y. ecl buf' k' i = Some y \<Longrightarrow> buf' = buf \<longrightarrow> k' = k \<longrightarrow> i \<noteq> 12"
        and step: "(if i < k' then do {
          c \<leftarrow> mem_get buf' i;
          if c AND 0xC0 \<noteq> 0 then do { c' \<leftarrow> mem_get buf' (i + 1); ecl buf' k' (256 * unat (c AND 0x3F) + unat c') }
          else (let len = unat (c AND 0x3F) in
            if i + len \<ge> k' then Some None else if len = 0 then Some None else Some (Some (i + 1, len, i + 1 + len))) }
          else Some None) = Some y"
      show "buf' = buf \<longrightarrow> k' = k \<longrightarrow> i \<noteq> 12"
      proof (intro impI notI)
        assume "buf' = buf" "k' = k" "i = 12"
        with step \<open>12 < k\<close> \<open>mem_get buf 12 = Some 0xC0\<close> \<open>mem_get buf 13 = Some 12\<close> have "ecl buf k 12 = Some y" by simp
        with IH show False by blast
      qed
    qed
    then show "encoded_component_loop buf k i = Some y \<Longrightarrow> i \<noteq> 12" by blast
  qed
  let ?q = "hdr @ [0xC0, 12] @ tail"
  have none: "get_address_for_encoded_domain st m 12 k = None"
    if "mem_get m 12 = Some 0xC0" "mem_get m 13 = Some 12" "12 < k" for m k
  proof -
    have "encoded_component_loop m k 12 = None"
      using loop [OF that, of 12] by (cases "encoded_component_loop m k 12") auto
    then show ?thesis
      by (simp add: get_address_for_encoded_domain_def address_loop.simps [of _ _ _ 12] get_encoded_domain_name_component_def)
  qed
  define n where "n = length ?q"
  define m where "m = ?q @ drop n packet"
  have data: "take sizeof_packet ?q = ?q" using assms(1,3) by (simp add: sizeof_packet_def)
  have cpy: "mem_cpy packet 0 ?q = Some m" using assms by (simp add: mem_cpy_def m_def n_def)
  have at: "mem_get (m[2 := a, 6 := b, 7 := c, n := d, n + 1 := e]) 12 = Some 0xC0"
    "mem_get (m[2 := a, 6 := b, 7 := c, n := d, n + 1 := e]) 13 = Some 12" for a b c d e
    using assms(1) by (simp_all add: mem_get_def m_def n_def nth_append nth_list_update)
  have query: "is_simple_query m" using assms(1,2) by (simp add: is_simple_query_def m_def nth_append)
  have sizes: "12 < n" "n < 1520" "length m = 1536" using assms by (simp_all add: n_def m_def)
  have turn: "dns_server_turn st packet (Some q) = None"
    if "length q = n" "take sizeof_packet q = q" "mem_cpy packet 0 q = Some m" "is_simple_query m" "12 < n" "n < 1520" "length m = 1536"
      and at: "\<And>a b c d e. mem_get (m[2 := a, 6 := b, 7 := c, n := d, n + 1 := e]) 12 = Some 0xC0"
      "\<And>a b c d e. mem_get (m[2 := a, 6 := b, 7 := c, n := d, n + 1 := e]) 13 = Some 12" for q
    using that(1-7) none [OF at that(5)]
    by (simp add: dns_server_turn_def Let_def mem_set_def sizeof_DNSHeader_def sizeof_IPResourceRecord_def sizeof_packet_def)
  show ?thesis using turn [OF n_def [symmetric] data cpy query sizes at] assms(1) by (simp add: nth_append)
qed

theorem dns_pointer_never_returns_witness:
  "dns_server_turn demo_dns (replicate 1536 0) (Some (demo_header @ [0xC0, 12] @ [0, 1, 0, 1])) = None"
  using dns_pointer_never_returns [OF demo_header_ok, of "[0, 1, 0, 1]" "replicate 1536 0" demo_dns] by simp

end
