(* ===== verification/Httpd_Connection.thy ===== *)
theory Httpd_Connection
  imports Rom_Fs
begin

text \<open>
  The web server of \<^verbatim>\<open>src/httpserver/httpd.cpp\<close> and \<^verbatim>\<open>httpd.h\<close>, part one: the state of a connection, how
  it is closed, and the responses: headers and data that go out as TCP takes them.

  The preprocessor options are those of the firmware (\<^verbatim>\<open>src/inc/lwipopts.h\<close>): dynamic headers, POST and the
  request list are on; server-side includes, CGI, keep-alive, dynamic file reads, manual window updates and the list of
  connections are off. lwIP is a record of parameters over a state \<open>'w\<close>; a connection's control block is a number.

  The pointer \<^verbatim>\<open>hs->handle\<close> is either null or the address of \<^verbatim>\<open>hs->file_handle\<close>, so it is a truth value here; the
  pointer \<^verbatim>\<open>hs->file\<close> is an object in memory and an offset. \<open>None\<close> as a result is an access outside of an object, an
  invalid release of memory, or a failed assertion.
\<close>

section \<open>Parameters\<close>

definition HTTPD_MAX_RETRIES :: u8 where "HTTPD_MAX_RETRIES = 4"
definition HTTPD_POLL_INTERVAL :: u8 where "HTTPD_POLL_INTERVAL = 4"
definition TCP_MSS :: nat where "TCP_MSS = 1460"
definition TCP_SND_BUF :: nat where "TCP_SND_BUF = 8 * TCP_MSS"
definition TCP_SND_QUEUELEN :: nat where "TCP_SND_QUEUELEN = (4 * TCP_SND_BUF + (TCP_MSS - 1)) div TCP_MSS"
definition TCP_WRITE_FLAG_COPY :: u8 where "TCP_WRITE_FLAG_COPY = 1"
definition TCP_WRITE_FLAG_MORE :: u8 where "TCP_WRITE_FLAG_MORE = 2"
definition NUM_FILE_HDR_STRINGS :: nat where "NUM_FILE_HDR_STRINGS = 6"
definition HDR_STRINGS_IDX_HTTP_STATUS :: nat where "HDR_STRINGS_IDX_HTTP_STATUS = 0"
definition HDR_STRINGS_IDX_SERVER_NAME :: nat where "HDR_STRINGS_IDX_SERVER_NAME = 1"
definition HDR_STRINGS_IDX_CONTENT_LEN_KEEPALIVE :: nat where "HDR_STRINGS_IDX_CONTENT_LEN_KEEPALIVE = 2"
definition HDR_STRINGS_IDX_CONTENT_LEN_NR :: nat where "HDR_STRINGS_IDX_CONTENT_LEN_NR = 3"
definition HDR_STRINGS_IDX_CONTENT_TYPE :: nat where "HDR_STRINGS_IDX_CONTENT_TYPE = 4"
definition HDR_STRINGS_IDX_CUSTOM_CONTENT :: nat where "HDR_STRINGS_IDX_CUSTOM_CONTENT = 5"
definition LWIP_HTTPD_MAX_CONTENT_LEN_SIZE :: nat where "LWIP_HTTPD_MAX_CONTENT_LEN_SIZE = 12"
definition LWIP_HTTPD_MAX_CONTENT_LEN_OFFSET :: nat where "LWIP_HTTPD_MAX_CONTENT_LEN_OFFSET = 3"
definition LWIP_HTTPD_URI_BUF_LEN :: nat where "LWIP_HTTPD_URI_BUF_LEN = 63"

lemmas httpd_idx = NUM_FILE_HDR_STRINGS_def HDR_STRINGS_IDX_HTTP_STATUS_def HDR_STRINGS_IDX_SERVER_NAME_def
  HDR_STRINGS_IDX_CONTENT_LEN_KEEPALIVE_def HDR_STRINGS_IDX_CONTENT_LEN_NR_def HDR_STRINGS_IDX_CONTENT_TYPE_def
  HDR_STRINGS_IDX_CUSTOM_CONTENT_def

section \<open>Data\<close>

text \<open>A pbuf chain is the list of its payloads. Memory of \<^verbatim>\<open>new char[]\<close> starts out undefined.\<close>

type_synonym pbufs = "bytes list"

datatype memory_object = ROM bytes | HEAP bytes
datatype heap_pointer = Null | Live "u8 option list" | Freed

fun object_bytes :: "memory_object \<Rightarrow> bytes" where
  "object_bytes (ROM b) = b"
| "object_bytes (HEAP b) = b"

text \<open>
  The header strings are stored as text, also the two that lie in the structure itself: these do not change while they
  are pointed to.
\<close>

record http_state =
  h_file_handle :: "unit fs_file"
  h_handle :: bool
  h_file :: "(memory_object \<times> nat) option"
  h_req :: "pbufs option"
  h_left :: u32
  h_retries :: u8
  h_hdrs :: "bytes option list"
  h_hdr_pos :: nat
  h_hdr_index :: nat
  h_post_uri :: bytes
  h_post_content :: heap_pointer
  h_post_content_len :: u32
  h_post_content_len_left :: u32
  h_post_response_buf :: "bytes option"

text \<open>
  A connection as its callbacks see it: the argument of the callbacks (\<^verbatim>\<open>None\<close> for null), the poll interval (0 without a
  poll callback), and what TCP has accepted for it.
\<close>

record conn =
  c_hs :: "http_state option"
  c_poll :: u8
  c_open :: bool
  c_queue :: bytes

record 'w httpd =
  http_uri_buf :: bytes
  httpd_req_buf :: bytes
  current_connection :: "nat option"
  s_hostname :: bytes
  s_domain_name :: bytes
  s_ip_address :: u32
  initial_config :: bool
  lwip_state :: 'w

text \<open>
  lwIP and the handlers of \<^verbatim>\<open>src/src/post.cpp\<close>, which turn a request into the text of a JSON document. Reading a file
  handle at address 0 gives some length and index: \<open>null_bytes_left\<close>; an address that was not set is \<open>stale_addr\<close>.
\<close>

record 'w http_env =
  altcp_sndbuf :: "nat \<Rightarrow> 'w \<Rightarrow> u16"
  altcp_sndqueuelen :: "nat \<Rightarrow> 'w \<Rightarrow> u16"
  altcp_mss :: "nat \<Rightarrow> 'w \<Rightarrow> u16"
  altcp_write :: "nat \<Rightarrow> bytes \<Rightarrow> u8 \<Rightarrow> 'w \<Rightarrow> err_t \<times> 'w"
  altcp_close :: "nat \<Rightarrow> 'w \<Rightarrow> err_t \<times> 'w"
  altcp_abort :: "nat \<Rightarrow> 'w \<Rightarrow> 'w"
  altcp_output :: "nat \<Rightarrow> 'w \<Rightarrow> 'w"
  altcp_recved :: "nat \<Rightarrow> nat \<Rightarrow> 'w \<Rightarrow> 'w"
  lwip_strnstr :: "bytes \<Rightarrow> bytes \<Rightarrow> nat \<Rightarrow> nat option"
  lwip_stricmp :: "string \<Rightarrow> string \<Rightarrow> int"
  lwip_itoa :: "nat \<Rightarrow> int \<Rightarrow> bytes"
  ip4addr_aton :: "bytes \<Rightarrow> u32 option"
  post_handler :: "string \<Rightarrow> http_state \<Rightarrow> 'w \<Rightarrow> bytes \<times> 'w"
  stale_addr :: u32
  null_bytes_left :: int
  lwip_version :: string
  fs_config :: "unit fs_cfg"
  fs_root :: "fsdata_file list"

definition no_file :: "unit fs_file" where
  "no_file = \<lparr>f_data = [], f_len = 0, f_index = 0, f_pextension = None, f_chksum = [], f_chksum_count = 0, f_flags = 0,
     f_state = None\<rparr>"

definition http_state_init :: http_state where
  "http_state_init = \<lparr>h_file_handle = no_file, h_handle = False, h_file = None, h_req = None, h_left = 0, h_retries = 0,
     h_hdrs = replicate NUM_FILE_HDR_STRINGS None, h_hdr_pos = 0, h_hdr_index = NUM_FILE_HDR_STRINGS,
     h_post_uri = replicate 128 0, h_post_content = Null, h_post_content_len = 0, h_post_content_len_left = 0,
     h_post_response_buf = None\<rparr>"

definition header_text :: "'w http_env \<Rightarrow> HTTPHeaderStrings \<Rightarrow> bytes" where
  "header_text E h = bytes_of (g_psHTTPHeaderStrings (lwip_version E) h)"

definition set_hdr :: "nat \<Rightarrow> bytes option \<Rightarrow> http_state \<Rightarrow> http_state" where
  "set_hdr i x hs = hs\<lparr>h_hdrs := (h_hdrs hs)[i := x]\<rparr>"

section \<open>The code: writing\<close>

text \<open>
  \<open>p\<close> is what lies at the pointer. The loop tries smaller and smaller lengths; the results are the error, the length sent
  and the queue of the connection.
\<close>

definition retry_len :: "'w http_env \<Rightarrow> nat \<Rightarrow> err_t \<Rightarrow> nat \<Rightarrow> 'w \<Rightarrow> nat" where
  "retry_len E i err len w =
     (if err = ERR_MEM
      then if altcp_sndbuf E i w = 0 \<or> TCP_SND_QUEUELEN \<le> unat (altcp_sndqueuelen E i w) then 1 else len div 2
      else len)"

lemma retry_len_less: "Suc 0 < retry_len E i ERR_MEM len w \<Longrightarrow> retry_len E i ERR_MEM len w < len"
  by (auto simp: retry_len_def split: if_splits)

function http_write_loop :: "'w http_env \<Rightarrow> nat \<Rightarrow> bytes \<Rightarrow> nat \<Rightarrow> u8 \<Rightarrow> 'w \<Rightarrow> (err_t \<times> nat \<times> 'w) option" where
  "http_write_loop E i p len flags w = do {
     dat \<leftarrow> mem_read p 0 len;
     let (err, w) = altcp_write E i dat flags w;
     let n = retry_len E i err len w;
     if err = ERR_MEM \<and> 1 < n then http_write_loop E i p n flags w else Some (err, n, w) }"
  by pat_completeness auto
termination by (relation "measure (\<lambda>(E, i, p, len, flags, w). len)") (auto intro: retry_len_less)

declare http_write_loop.simps [simp del]

definition http_write ::
  "'w http_env \<Rightarrow> nat \<Rightarrow> bytes \<Rightarrow> nat \<Rightarrow> u8 \<Rightarrow> bytes \<times> 'w \<Rightarrow> (err_t \<times> nat \<times> bytes \<times> 'w) option" where
  "http_write E i p len flags = (\<lambda>(q, w).
     (if len = 0 then Some (ERR_OK, 0, q, w)
      else do {
        let len = min len (unat (altcp_sndbuf E i w));
        let len = min len (unat (2 * altcp_mss E i w));
        (err, n, w) \<leftarrow> http_write_loop E i p len flags w;
        if err = ERR_OK then Some (ERR_OK, n, q @ take n p, w) else Some (err, 0, q, w) }))"

section \<open>The code: answers to POST requests\<close>

text \<open>The content type of the extension is looked up before the connection is compared with the current one.\<close>

definition httpd_post_response ::
  "'w http_env \<Rightarrow> nat \<Rightarrow> http_state \<Rightarrow> bytes \<Rightarrow> u16 \<Rightarrow> string \<Rightarrow> 'w httpd \<Rightarrow> http_state option" where
  "httpd_post_response E i hs body body_len extension s = do {
     let content_type = get_content_type_from_extension (lwip_stricmp E) (Some extension);
     hs \<leftarrow>
       (if current_connection s = Some i then do {
          let hs = set_hdr HDR_STRINGS_IDX_HTTP_STATUS (Some (header_text E HTTP_HDR_OK)) hs;
          let hs = set_hdr HDR_STRINGS_IDX_CONTENT_LEN_KEEPALIVE (Some (header_text E HTTP_HDR_CONTENT_LENGTH)) hs;
          (_, ct) \<leftarrow> mem_get g_psHTTPHeaders content_type;
          let hs = set_hdr HDR_STRINGS_IDX_CONTENT_TYPE (Some (bytes_of ct)) hs;
          let hs = hs\<lparr>h_file := Some (HEAP body, 0), h_left := ucast body_len, h_post_response_buf := Some body\<rparr>;
          let txt_len = lwip_itoa E LWIP_HTTPD_MAX_CONTENT_LEN_SIZE (int (unat (h_left hs)));
          let hs = (if length txt_len \<le> LWIP_HTTPD_MAX_CONTENT_LEN_SIZE - LWIP_HTTPD_MAX_CONTENT_LEN_OFFSET
                    then set_hdr HDR_STRINGS_IDX_CONTENT_LEN_NR (Some (txt_len @ bytes_of CRLF)) hs else hs);
          Some (set_hdr HDR_STRINGS_IDX_CONTENT_LEN_KEEPALIVE (Some (header_text E HTTP_HDR_CONTENT_LENGTH)) hs) }
        else do {
          let hs = set_hdr HDR_STRINGS_IDX_HTTP_STATUS (Some (header_text E HTTP_HDR_BAD_REQUEST)) hs;
          Some (set_hdr HDR_STRINGS_IDX_CONTENT_LEN_KEEPALIVE (Some (header_text E HTTP_HDR_CONN_CLOSE)) hs) });
     Some (hs\<lparr>h_hdr_index := 0, h_hdr_pos := 0\<rparr>) }"

text \<open>\<^verbatim>\<open>src/src/post.cpp\<close>: the handler whose name is a prefix of the URI.\<close>

definition post_handlers :: "string list" where
  "post_handlers = [''/settings_get.cgi'', ''/settings_save.cgi'', ''/wifi_nets.cgi'', ''/wifi_nets_scan.cgi'',
     ''/restart.cgi'']"

definition httpd_process_post_data ::
  "'w http_env \<Rightarrow> nat \<Rightarrow> http_state \<Rightarrow> 'w httpd \<Rightarrow> (http_state \<times> 'w httpd) option" where
  "httpd_process_post_data E i hs s =
     (case find (\<lambda>name. take (length name) (h_post_uri hs) = bytes_of name) post_handlers of
        None \<Rightarrow> Some (hs, s)
      | Some name \<Rightarrow> do {
          let (response, w) = post_handler E name hs (lwip_state s);
          let s = s\<lparr>lwip_state := w\<rparr>;
          hs \<leftarrow> httpd_post_response E i hs response (of_nat (length response)) ''json'' s;
          Some (hs, s) })"

definition delete_array :: "heap_pointer \<Rightarrow> heap_pointer option" where
  "delete_array p = (case p of Null \<Rightarrow> Some Null | Live _ \<Rightarrow> Some Freed | Freed \<Rightarrow> None)"

definition httpd_post_finished ::
  "'w http_env \<Rightarrow> nat \<Rightarrow> http_state \<Rightarrow> 'w httpd \<Rightarrow> (http_state \<times> 'w httpd) option" where
  "httpd_post_finished E i hs s = do {
     (hs, s) \<leftarrow> httpd_process_post_data E i hs s;
     p \<leftarrow> delete_array (h_post_content hs);
     let s = s\<lparr>current_connection := None\<rparr>;
     buf \<leftarrow> mem_cpy (http_uri_buf s) 0 (bytes_of ''/404.html'' @ [0]);
     Some (hs\<lparr>h_post_content := p\<rparr>, s\<lparr>http_uri_buf := buf\<rparr>) }"

section \<open>The code: closing\<close>

definition http_state_eof :: "'w http_env \<Rightarrow> http_state \<Rightarrow> http_state" where
  "http_state_eof E hs =
     (let hs = (if h_handle hs then hs\<lparr>h_file_handle := fs_close (fs_config E) (h_file_handle hs), h_handle := False\<rparr>
                else hs)
      in hs\<lparr>h_req := None, h_post_response_buf := None\<rparr>)"

text \<open>The structure is gone afterwards, whatever \<open>http_state_eof\<close> left in it.\<close>

definition http_state_free :: "'w http_env \<Rightarrow> conn \<Rightarrow> conn" where
  "http_state_free E c = c\<lparr>c_hs := None\<rparr>"

definition http_close_or_abort_conn ::
  "'w http_env \<Rightarrow> nat \<Rightarrow> bool \<Rightarrow> conn \<times> 'w httpd \<Rightarrow> (err_t \<times> conn \<times> 'w httpd) option" where
  "http_close_or_abort_conn E i abort_conn = (\<lambda>(c, s). do {
     s \<leftarrow>
       (case c_hs c of
          Some hs \<Rightarrow>
            if h_post_content_len_left hs \<noteq> 0 then do {
              buf \<leftarrow> mem_set (http_uri_buf s) 0 0;
              (_, s) \<leftarrow> httpd_post_finished E i hs (s\<lparr>http_uri_buf := buf\<rparr>);
              Some s }
            else Some s
        | None \<Rightarrow> Some s);
     let c = http_state_free E (c\<lparr>c_poll := 0\<rparr>);
     if abort_conn then Some (ERR_OK, c\<lparr>c_open := False\<rparr>, s\<lparr>lwip_state := altcp_abort E i (lwip_state s)\<rparr>)
     else do {
       let (err, w) = altcp_close E i (lwip_state s);
       let s = s\<lparr>lwip_state := w\<rparr>;
       if err \<noteq> ERR_OK then Some (err, c\<lparr>c_poll := HTTPD_POLL_INTERVAL\<rparr>, s)
       else Some (err, c\<lparr>c_open := False\<rparr>, s) } })"

definition http_close_conn ::
  "'w http_env \<Rightarrow> nat \<Rightarrow> conn \<times> 'w httpd \<Rightarrow> (err_t \<times> conn \<times> 'w httpd) option" where
  "http_close_conn E i = http_close_or_abort_conn E i False"

definition http_eof :: "'w http_env \<Rightarrow> nat \<Rightarrow> conn \<times> 'w httpd \<Rightarrow> (conn \<times> 'w httpd) option" where
  "http_eof E i cs = map_option snd (http_close_conn E i cs)"

section \<open>The code: headers\<close>

text \<open>What follows the last dot.\<close>

function find_extension :: "bytes \<Rightarrow> bytes option \<Rightarrow> bytes option" where
  "find_extension uri ext =
     (case strchr uri 0x2E of
        None \<Rightarrow> ext
      | Some k \<Rightarrow> find_extension (drop (Suc k) uri) (Some (drop (Suc k) uri)))"
  by pat_completeness auto
termination by (relation "measure (\<lambda>(uri, ext). length uri)") (auto dest: strchr_Some)

declare find_extension.simps [simp del]

definition status_line :: "bytes \<Rightarrow> HTTPHeaderStrings" where
  "status_line uri =
     (if take 5 uri = bytes_of ''/404.'' then HTTP_HDR_NOT_FOUND
      else if take 5 uri = bytes_of ''/400.'' then HTTP_HDR_BAD_REQUEST
      else if take 5 uri = bytes_of ''/501.'' then HTTP_HDR_NOT_IMPL
      else HTTP_HDR_OK)"

definition content_type_header :: "'w http_env \<Rightarrow> bytes \<Rightarrow> string" where
  "content_type_header E uri =
     (let path = takeWhile (\<lambda>c. c \<noteq> 0x3F) uri;
          ext = map_option text_of (find_extension path None);
          content_type = get_content_type_from_extension (lwip_stricmp E) ext
      in if content_type < NUM_HTTP_HEADERS then snd (g_psHTTPHeaders ! content_type)
         else if ext = None then HTTP_HDR_APP
         else HTTP_HDR_DEFAULT_TYPE)"

definition get_http_headers :: "'w http_env \<Rightarrow> http_state \<Rightarrow> bytes option \<Rightarrow> http_state" where
  "get_http_headers E hs uri_ptr =
     (let hs = set_hdr HDR_STRINGS_IDX_SERVER_NAME (Some (header_text E HTTP_HDR_SERVER)) hs;
          hs = set_hdr HDR_STRINGS_IDX_CONTENT_LEN_KEEPALIVE None hs;
          hs = set_hdr HDR_STRINGS_IDX_CONTENT_LEN_NR None hs
      in case uri_ptr of
           None \<Rightarrow>
             (let hs = set_hdr HDR_STRINGS_IDX_HTTP_STATUS (Some (header_text E HTTP_HDR_NOT_FOUND)) hs;
                  hs = set_hdr HDR_STRINGS_IDX_CUSTOM_CONTENT (Some (header_text E DEFAULT_404_HTML)) hs
              in hs\<lparr>h_hdr_index := 0, h_hdr_pos := 0\<rparr>)
         | Some uri \<Rightarrow>
             (let hs = set_hdr HDR_STRINGS_IDX_HTTP_STATUS (Some (header_text E (status_line uri))) hs;
                  hs = set_hdr HDR_STRINGS_IDX_CONTENT_TYPE (Some (bytes_of (content_type_header E uri))) hs
              in hs\<lparr>h_hdr_index := 0, h_hdr_pos := 0\<rparr>))"

definition get_http_content_length :: "'w http_env \<Rightarrow> http_state \<Rightarrow> http_state" where
  "get_http_content_length E hs =
     (if h_handle hs \<and> f_flags (h_file_handle hs) AND FS_FILE_FLAGS_HEADER_PERSISTENT \<noteq> 0
      then (let txt_len = lwip_itoa E LWIP_HTTPD_MAX_CONTENT_LEN_SIZE (f_len (h_file_handle hs)) in
        if length txt_len \<le> LWIP_HTTPD_MAX_CONTENT_LEN_SIZE - LWIP_HTTPD_MAX_CONTENT_LEN_OFFSET
        then set_hdr HDR_STRINGS_IDX_CONTENT_LEN_KEEPALIVE (Some (header_text E HTTP_HDR_CONTENT_LENGTH))
               (set_hdr HDR_STRINGS_IDX_CONTENT_LEN_NR (Some (txt_len @ bytes_of CRLF)) hs)
        else hs)
      else hs)"

section \<open>The code: sending\<close>

definition HTTP_NO_DATA_TO_SEND :: nat where "HTTP_NO_DATA_TO_SEND = 0"
definition HTTP_DATA_TO_SEND_CONTINUE :: nat where "HTTP_DATA_TO_SEND_CONTINUE = 1"
definition HTTP_DATA_TO_SEND_BREAK :: nat where "HTTP_DATA_TO_SEND_BREAK = 2"
definition HTTP_DATA_TO_SEND_FREED :: nat where "HTTP_DATA_TO_SEND_FREED = 3"

lemmas httpd_codes = HTTP_NO_DATA_TO_SEND_def HTTP_DATA_TO_SEND_CONTINUE_def HTTP_DATA_TO_SEND_BREAK_def
  HTTP_DATA_TO_SEND_FREED_def

text \<open>The next header string that there is, from index \<open>k\<close>.\<close>

function next_header :: "bytes option list \<Rightarrow> nat \<Rightarrow> nat" where
  "next_header hdrs k =
     (if k < NUM_FILE_HDR_STRINGS \<and> hdrs ! k = None then next_header hdrs (Suc k) else k)"
  by pat_completeness auto
termination by (relation "measure (\<lambda>(hdrs, k). NUM_FILE_HDR_STRINGS - k)") auto

declare next_header.simps [simp del]

definition hdr_apiflags :: "nat \<Rightarrow> u8" where
  "hdr_apiflags k =
     (let apiflags = (if k = HDR_STRINGS_IDX_CONTENT_LEN_NR then TCP_WRITE_FLAG_COPY else 0)
      in if k < NUM_FILE_HDR_STRINGS - 1 then apiflags OR TCP_WRITE_FLAG_MORE else apiflags)"

text \<open>One string of the header: the report, the length sent, the state and the queue.\<close>

definition send_header ::
  "'w http_env \<Rightarrow> nat \<Rightarrow> nat \<Rightarrow> nat \<Rightarrow> http_state \<Rightarrow> bytes \<times> 'w \<Rightarrow> (nat \<times> nat \<times> http_state \<times> bytes \<times> 'w) option" where
  "send_header E i len report hs link = do {
     entry \<leftarrow> mem_get (h_hdrs hs) (h_hdr_index hs);
     hdr \<leftarrow> entry;
     let sendlen = min len (length hdr - h_hdr_pos hs);
     (err, n, link) \<leftarrow> http_write E i (drop (h_hdr_pos hs) hdr) sendlen (hdr_apiflags (h_hdr_index hs)) link;
     let report = (if err = ERR_OK \<and> sendlen \<noteq> n then HTTP_DATA_TO_SEND_CONTINUE else report);
     let hs = hs\<lparr>h_hdr_pos := h_hdr_pos hs + n\<rparr>;
     let hs = (if h_hdr_pos hs = length hdr
               then hs\<lparr>h_hdr_index := next_header (h_hdrs hs) (Suc (h_hdr_index hs)), h_hdr_pos := 0\<rparr> else hs);
     Some (report, n, hs, link) }"

lemma http_write_loop_le: "http_write_loop E i p len flags w = Some (err, n, w') \<Longrightarrow> err \<noteq> ERR_MEM \<Longrightarrow> n \<le> len"
proof (induction E i p len flags w arbitrary: w' rule: http_write_loop.induct)
  case (1 E i p len flags w)
  obtain e w1 where w: "altcp_write E i (take len p) flags w = (e, w1)" by fastforce
  have r: "mem_read p 0 len = Some (take len p)"
    using "1.prems" by (simp add: http_write_loop.simps [of E i p len flags w] mem_read_def split: if_splits)
  have eq: "http_write_loop E i p len flags w = (if e = ERR_MEM \<and> 1 < retry_len E i e len w1
      then http_write_loop E i p (retry_len E i e len w1) flags w1 else Some (e, retry_len E i e len w1, w1))"
    by (subst http_write_loop.simps) (simp add: r w Let_def)
  show ?case
  proof (cases "e = ERR_MEM \<and> 1 < retry_len E i e len w1")
    case True
    then have e: "e = ERR_MEM" and l: "1 < retry_len E i ERR_MEM len w1" by auto
    from "1.prems" eq e l have "n \<le> retry_len E i ERR_MEM len w1"
      by (intro "1.IH" [OF r w [unfolded e, symmetric] refl refl]) simp_all
    then show ?thesis using retry_len_less [of E i len w1] l by simp
  next
    case False
    with "1.prems"(1) eq have "(e, retry_len E i e len w1, w1) = (err, n, w')" by (simp only: if_False option.inject)
    with "1.prems"(2) show ?thesis by (auto simp: retry_len_def)
  qed
qed

lemma http_write_le: "http_write E i p len flags link = Some (err, n, link') \<Longrightarrow> n \<le> len"
  by (cases link) (auto simp: http_write_def Let_def bind_eq_Some_conv split: if_splits dest!: http_write_loop_le)

lemma send_header_le: "send_header E i len report hs link = Some (r, n, hs', link') \<Longrightarrow> n \<le> len"
  by (auto simp: send_header_def Let_def bind_eq_Some_conv split: prod.splits dest!: http_write_le)

text \<open>
  The header loop: how much may be sent, how much was sent last, and what the function will report. Its test of the length
  sent last is made again after each string, so that every further turn has less to send.
\<close>

function send_headers_loop ::
  "'w http_env \<Rightarrow> nat \<Rightarrow> nat \<Rightarrow> nat \<Rightarrow> nat \<Rightarrow> http_state \<Rightarrow> bytes \<times> 'w \<Rightarrow> (nat \<times> http_state \<times> bytes \<times> 'w) option" where
  "send_headers_loop E i len sendlen report hs link =
     (if len \<noteq> 0 \<and> h_hdr_index hs < NUM_FILE_HDR_STRINGS \<and> sendlen \<noteq> 0 then
        (case send_header E i len report hs link of
           None \<Rightarrow> None
         | Some (report, n, hs, link) \<Rightarrow> 
             if n = 0 then Some (report, hs, link) else send_headers_loop E i (len - n) n report hs link)
      else Some (report, hs, link))"
  by pat_completeness auto
termination by (relation "measure (\<lambda>(E, i, len, sendlen, report, hs, link). len)") (auto dest!: send_header_le)

declare send_headers_loop.simps [simp del]

text \<open>Without dynamic reads a file lies in memory in one piece, so there is never another block to read.\<close>

definition http_check_eof :: "'w http_env \<Rightarrow> nat \<Rightarrow> conn \<times> 'w httpd \<Rightarrow> (bool \<times> conn \<times> 'w httpd) option" where
  "http_check_eof E i = (\<lambda>(c, s). do {
     hs \<leftarrow> c_hs c;
     if \<not> h_handle hs \<or> fs_bytes_left (h_file_handle hs) \<le> 0 then do {
       cs \<leftarrow> http_eof E i (c, s);
       Some (False, cs) }
     else None })"

definition http_send_headers :: "'w http_env \<Rightarrow> nat \<Rightarrow> conn \<times> 'w httpd \<Rightarrow> (nat \<times> conn \<times> 'w httpd) option" where
  "http_send_headers E i = (\<lambda>(c, s). do {
     hs \<leftarrow> c_hs c;
     keepalive \<leftarrow> mem_get (h_hdrs hs) HDR_STRINGS_IDX_CONTENT_LEN_KEEPALIVE;
     let hs = (if keepalive = None then get_http_content_length E hs else hs);
     let len = unat (altcp_sndbuf E i (lwip_state s));
     (report, hs, q, w) \<leftarrow> send_headers_loop E i len len HTTP_NO_DATA_TO_SEND hs (c_queue c, lwip_state s);
     let c = c\<lparr>c_hs := Some hs, c_queue := q\<rparr>;
     let s = s\<lparr>lwip_state := w\<rparr>;
     if NUM_FILE_HDR_STRINGS \<le> h_hdr_index hs \<and> h_file hs = None then do {
       (left, c, s) \<leftarrow> http_check_eof E i (c, s);
       Some (if left then HTTP_DATA_TO_SEND_BREAK else HTTP_DATA_TO_SEND_FREED, c, s) }
     else if h_hdr_index hs < NUM_FILE_HDR_STRINGS \<or> h_file hs = None then Some (HTTP_DATA_TO_SEND_BREAK, c, s)
     else Some (report, c, s) })"

definition http_send_data_nonssi ::
  "'w http_env \<Rightarrow> nat \<Rightarrow> http_state \<Rightarrow> bytes \<times> 'w \<Rightarrow> (nat \<times> http_state \<times> bytes \<times> 'w) option" where
  "http_send_data_nonssi E i hs link = do {
     (obj, off) \<leftarrow> h_file hs;
     let len = min (unat (h_left hs)) 0xffff;
     (err, n, link) \<leftarrow> http_write E i (drop off (object_bytes obj)) len 0 link;
     if err = ERR_OK
     then Some (1, hs\<lparr>h_file := Some (obj, off + n), h_left := h_left hs - of_nat n\<rparr>, link)
     else Some (0, hs, link) }"

text \<open>The bytes left of the file, read through the handle, which may be a null pointer.\<close>

definition handle_bytes_left :: "'w http_env \<Rightarrow> http_state \<Rightarrow> int" where
  "handle_bytes_left E hs = (if h_handle hs then fs_bytes_left (h_file_handle hs) else null_bytes_left E)"

definition http_send_data :: "'w http_env \<Rightarrow> nat \<Rightarrow> conn \<times> 'w httpd \<Rightarrow> (nat \<times> conn \<times> 'w httpd) option" where
  "http_send_data E i = (\<lambda>(c, s). do {
     hs \<leftarrow> c_hs c;
     (data_to_send, hs, q, w) \<leftarrow> http_send_data_nonssi E i hs (c_queue c, lwip_state s);
     let c = c\<lparr>c_hs := Some hs, c_queue := q\<rparr>;
     let s = s\<lparr>lwip_state := w\<rparr>;
     if h_left hs = 0 \<and> handle_bytes_left E hs \<le> 0 then do {
       (c, s) \<leftarrow> http_eof E i (c, s);
       Some (0, c, s) }
     else Some (data_to_send, c, s) })"

definition http_send :: "'w http_env \<Rightarrow> nat \<Rightarrow> conn \<times> 'w httpd \<Rightarrow> (nat \<times> conn \<times> 'w httpd) option" where
  "http_send E i = (\<lambda>(c, s).
     (case c_hs c of
        None \<Rightarrow> Some (0, c, s)
      | Some hs \<Rightarrow> do {
          let headers = h_hdr_index hs < NUM_FILE_HDR_STRINGS;
          (data_to_send, c, s) \<leftarrow>
            (if headers then http_send_headers E i (c, s) else Some (HTTP_NO_DATA_TO_SEND, c, s));
          if headers \<and> data_to_send = HTTP_DATA_TO_SEND_FREED then Some (data_to_send, c, s)
          else do {
            hs \<leftarrow> c_hs c;
            if headers \<and> data_to_send \<noteq> HTTP_DATA_TO_SEND_CONTINUE \<and> h_hdr_index hs < NUM_FILE_HDR_STRINGS
            then Some (data_to_send, c, s)
            else if h_left hs = 0 then do {
              (left, c, s) \<leftarrow> http_check_eof E i (c, s);
              if \<not> left then Some (0, c, s) else http_send_data E i (c, s) }
            else http_send_data E i (c, s) } }))"

end
