(* ===== verification/Httpd_Request.thy ===== *)
theory Httpd_Request
  imports Httpd_Connection
begin

text \<open>
  The web server of \<^verbatim>\<open>src/httpserver/httpd.cpp\<close>, part two: requests. The file for a URI, the body of a POST, the host
  name of the captive portal, the parser of requests, and the callbacks that lwIP makes.
\<close>

section \<open>The code: files\<close>

definition httpd_default_filenames :: "string list" where
  "httpd_default_filenames = [''/index.shtml'', ''/index.ssi'', ''/index.shtm'', ''/index.html'', ''/index.htm'']"

definition open_file :: "'w http_env \<Rightarrow> http_state \<Rightarrow> bytes \<Rightarrow> (bool \<times> http_state) option" where
  "open_file E hs name = do {
     (err, f) \<leftarrow> fs_open (fs_config E) (fs_root E) (Some (h_file_handle hs)) (Some name);
     f \<leftarrow> f;
     Some (err = ERR_OK, hs\<lparr>h_file_handle := f\<rparr>) }"

text \<open>Trying names one after the other: the first that exists.\<close>

fun open_first :: "'w http_env \<Rightarrow> http_state \<Rightarrow> bytes list \<Rightarrow> (bytes option \<times> http_state) option" where
  "open_first E hs [] = Some (None, hs)"
| "open_first E hs (name # names) = do {
     (ok, hs) \<leftarrow> open_file E hs name;
     if ok then Some (Some name, hs) else open_first E hs names }"

definition http_get_404_file :: "'w http_env \<Rightarrow> http_state \<Rightarrow> (bytes option \<times> http_state) option" where
  "http_get_404_file E hs =
     open_first E hs [bytes_of ''/404.html'', bytes_of ''/404.htm'', bytes_of ''/404.shtml'']"

text \<open>A default file of a directory: its name is put together in \<^verbatim>\<open>http_uri_buf\<close> when the directory is not the root.\<close>

definition default_name :: "nat \<Rightarrow> bytes \<Rightarrow> bytes \<Rightarrow> (bytes \<times> bytes) option" where
  "default_name copy_len name buf =
     (if copy_len > 0 then do {
        let len_left = LWIP_HTTPD_URI_BUF_LEN + 1 - copy_len - 1;
        buf \<leftarrow>
          (if len_left > 0 then do {
             let name_copy_len = min len_left (length name);
             buf \<leftarrow> mem_cpy buf copy_len (take name_copy_len name);
             mem_set buf (copy_len + name_copy_len) 0 }
           else Some buf);
        file_name \<leftarrow> cstr_at buf 0;
        Some (file_name, buf) }
      else Some (name, buf))"

fun default_loop ::
  "'w http_env \<Rightarrow> nat \<Rightarrow> string list \<Rightarrow> http_state \<Rightarrow> bytes \<Rightarrow> (bytes option \<times> http_state \<times> bytes) option" where
  "default_loop E copy_len [] hs buf = Some (None, hs, buf)"
| "default_loop E copy_len (name # names) hs buf = do {
     (file_name, buf) \<leftarrow> default_name copy_len (bytes_of name) buf;
     (ok, hs) \<leftarrow> open_file E hs file_name;
     if ok then Some (Some file_name, hs, buf) else default_loop E copy_len names hs buf }"

text \<open>\<open>found\<close> says whether the file handle holds an open file, \<open>uri\<close> is null for the built-in error page.\<close>

definition http_init_file :: "'w http_env \<Rightarrow> http_state \<Rightarrow> bool \<Rightarrow> bool \<Rightarrow> bytes option \<Rightarrow> http_state option" where
  "http_init_file E hs found is_09 uri = do {
     let included = (f_flags (h_file_handle hs) AND FS_FILE_FLAGS_HEADER_INCLUDED \<noteq> 0);
     hs \<leftarrow>
       (if found then do {
          let f = h_file_handle hs;
          let hs = hs\<lparr>h_handle := True, h_file := Some (ROM (f_data f), 0)\<rparr>;
          if f_len f < 0 then None
          else do {
            let hs = hs\<lparr>h_left := of_int (f_len f), h_retries := 0\<rparr>;
            Some (if is_09 \<and> included
              then (case lwip_strnstr E (f_data f) (bytes_of (CRLF @ CRLF)) (unat (h_left hs)) of
                      Some k \<Rightarrow> hs\<lparr>h_file := Some (ROM (f_data f), k + 4), h_left := h_left hs - of_nat (k + 4)\<rparr>
                    | None \<Rightarrow> hs)
              else hs) } }
        else Some (hs\<lparr>h_handle := False, h_file := None, h_left := 0, h_retries := 0\<rparr>));
     Some (if \<not> found \<or> \<not> included then get_http_headers E hs uri else hs) }"

text \<open>
  The file for a directory, if there is one. \<open>in_uri_buf\<close>: the URI lies in \<^verbatim>\<open>http_uri_buf\<close> itself.
\<close>

definition open_directory ::
  "'w http_env \<Rightarrow> http_state \<Rightarrow> bytes \<Rightarrow> bool \<Rightarrow> bytes \<Rightarrow> (bytes option \<times> http_state \<times> bytes) option" where
  "open_directory E hs uri in_uri_buf buf =
     (if uri \<noteq> [] \<and> last uri = 0x2F \<and> (\<not> in_uri_buf \<or> length uri = 1) then do {
        let copy_len = min LWIP_HTTPD_URI_BUF_LEN (length uri - 1);
        buf \<leftarrow>
          (if copy_len > 0 then do {
             buf \<leftarrow> mem_cpy buf 0 (take copy_len uri);
             mem_set buf copy_len 0 }
           else Some buf);
        default_loop E copy_len httpd_default_filenames hs buf }
      else Some (None, hs, buf))"

text \<open>The file for the URI without its parameters, or an error page.\<close>

definition open_path :: "'w http_env \<Rightarrow> http_state \<Rightarrow> bytes \<Rightarrow> (bytes option \<times> http_state) option" where
  "open_path E hs uri = do {
     let path = takeWhile (\<lambda>c. c \<noteq> 0x3F) uri;
     (ok, hs) \<leftarrow> open_file E hs path;
     if ok then Some (Some path, hs)
     else do {
       (found, hs) \<leftarrow> http_get_404_file E hs;
       if found = None then http_get_404_file E hs else Some (found, hs) } }"

definition http_find_file ::
  "'w http_env \<Rightarrow> http_state \<Rightarrow> bytes \<Rightarrow> bool \<Rightarrow> bool \<Rightarrow> 'w httpd \<Rightarrow> (err_t \<times> http_state \<times> 'w httpd) option" where
  "http_find_file E hs uri in_uri_buf is_09 s = do {
     (found, hs, buf) \<leftarrow> open_directory E hs uri in_uri_buf (http_uri_buf s);
     (found, hs) \<leftarrow> (case found of Some name \<Rightarrow> Some (Some name, hs) | None \<Rightarrow> open_path E hs uri);
     hs \<leftarrow> http_init_file E hs (found \<noteq> None) is_09 found;
     Some (ERR_OK, hs, s\<lparr>http_uri_buf := buf\<rparr>) }"

section \<open>The code: bodies of POST requests\<close>

definition tot_len :: "pbufs \<Rightarrow> nat" where
  "tot_len p = sum_list (map length p)"

text \<open>The application's part at the end of \<^verbatim>\<open>httpd.cpp\<close>.\<close>

definition httpd_post_begin ::
  "nat \<Rightarrow> http_state \<Rightarrow> bytes \<Rightarrow> int \<Rightarrow> 'w httpd \<Rightarrow> err_t \<times> http_state \<times> 'w httpd" where
  "httpd_post_begin i hs uri content_len s =
     (let s = s\<lparr>current_connection := Some i\<rparr>;
          hs = hs\<lparr>h_post_uri := take 128 (uri @ replicate 128 0)\<rparr>;
          hs = (if content_len > 0
                then hs\<lparr>h_post_content_len := of_int content_len,
                        h_post_content := Live (replicate (nat content_len) None)\<rparr>
                else hs)
      in (ERR_OK, hs, s))"

text \<open>The whole length is copied from the first buffer of the chain.\<close>

definition httpd_post_receive_data :: "http_state \<Rightarrow> pbufs \<Rightarrow> (err_t \<times> http_state) option" where
  "httpd_post_receive_data hs p =
     (let offset = h_post_content_len hs - h_post_content_len_left hs - of_nat (tot_len p) in
      if 0x80000000 \<le> offset \<or> h_post_content_len hs < offset + of_nat (tot_len p) then Some (ERR_VAL, hs)
      else do {
        payload \<leftarrow> mem_get p 0;
        src \<leftarrow> mem_read payload 0 (tot_len p);
        (case h_post_content hs of
           Live m \<Rightarrow> do {
             m \<leftarrow> mem_cpy m (unat offset) (map Some src);
             Some (ERR_OK, hs\<lparr>h_post_content := Live m\<rparr>) }
         | _ \<Rightarrow> if src = [] then Some (ERR_OK, hs) else None) })"

definition http_handle_post_finished ::
  "'w http_env \<Rightarrow> nat \<Rightarrow> http_state \<Rightarrow> 'w httpd \<Rightarrow> (err_t \<times> http_state \<times> 'w httpd) option" where
  "http_handle_post_finished E i hs s = do {
     buf \<leftarrow> mem_set (http_uri_buf s) 0 0;
     _ \<leftarrow> (case h_file hs of None \<Rightarrow> Some () | Some (HEAP _, 0) \<Rightarrow> Some () | _ \<Rightarrow> None);
     (hs, s) \<leftarrow> httpd_post_finished E i hs (s\<lparr>http_uri_buf := buf\<rparr>);
     Some (ERR_OK, hs, s) }"

definition http_post_rxpbuf ::
  "'w http_env \<Rightarrow> nat \<Rightarrow> http_state \<Rightarrow> pbufs \<Rightarrow> 'w httpd \<Rightarrow> (err_t \<times> http_state \<times> 'w httpd) option" where
  "http_post_rxpbuf E i hs p s = do {
     let left = h_post_content_len_left hs;
     let hs = hs\<lparr>h_post_content_len_left := (if left < of_nat (tot_len p) then 0 else left - of_nat (tot_len p))\<rparr>;
     (err, hs) \<leftarrow> httpd_post_receive_data hs p;
     let hs = (if err \<noteq> ERR_OK then hs\<lparr>h_post_content_len_left := 0\<rparr> else hs);
     (hs, s) \<leftarrow>
       (if h_post_content_len_left hs = 0 then map_option snd (http_handle_post_finished E i hs s) else Some (hs, s));
     Some (ERR_OK, hs, s) }"

text \<open>The chain behind the header: whole buffers of the header are skipped, the first one of the body is cut.\<close>

fun skip_header :: "nat \<Rightarrow> pbufs \<Rightarrow> pbufs" where
  "skip_header start_offset [] = []"
| "skip_header start_offset (q # qs) =
     (if length q \<le> start_offset then skip_header (start_offset - length q) qs else drop start_offset q # qs)"

text \<open>\<^verbatim>\<open>atoi\<close> of the C library: white space, a sign, digits.\<close>

definition is_space :: "u8 \<Rightarrow> bool" where
  "is_space c = (c = 0x20 \<or> 9 \<le> c \<and> c \<le> 13)"

fun atoi_digits :: "bytes \<Rightarrow> int \<Rightarrow> int" where
  "atoi_digits [] acc = acc"
| "atoi_digits (c # cs) acc =
     (if 0x30 \<le> c \<and> c \<le> 0x39 then atoi_digits cs (10 * acc + (int (unat c) - 48)) else acc)"

definition c_atoi :: "bytes \<Rightarrow> int" where
  "c_atoi txt =
     (case dropWhile is_space txt of
        [] \<Rightarrow> 0
      | c # cs \<Rightarrow> if c = 0x2D then - atoi_digits cs 0 else if c = 0x2B then atoi_digits cs 0 else atoi_digits (c # cs) 0)"

text \<open>
  The value of the Content-Length field, \<open>None\<close> when the field is missing. \<open>hdr\<close> is what follows the URI, and \<open>k\<close> the
  position of the empty line in it.
\<close>

definition HTTP_HDR_CONTENT_LEN :: string where "HTTP_HDR_CONTENT_LEN = ''Content-Length: ''"
definition HTTP_HDR_CONTENT_LEN_DIGIT_MAX_LEN :: nat where "HTTP_HDR_CONTENT_LEN_DIGIT_MAX_LEN = 10"

definition content_length :: "'w http_env \<Rightarrow> bytes \<Rightarrow> nat \<Rightarrow> int option" where
  "content_length E hdr k = do {
     l \<leftarrow> lwip_strnstr E hdr (bytes_of HTTP_HDR_CONTENT_LEN) k;
     let num = drop (l + length HTTP_HDR_CONTENT_LEN) hdr;
     _ \<leftarrow> lwip_strnstr E num (bytes_of CRLF) HTTP_HDR_CONTENT_LEN_DIGIT_MAX_LEN;
     let n = c_atoi num;
     Some (if n = 0 \<and> \<not> (take 2 num = [0x30, 0x0D]) then - 1 else n) }"

text \<open>\<open>uri_end\<close> is the position behind the URI in \<open>data\<close>.\<close>

definition http_post_request ::
  "'w http_env \<Rightarrow> nat \<Rightarrow> pbufs \<Rightarrow> http_state \<Rightarrow> bytes \<Rightarrow> nat \<Rightarrow> bytes \<Rightarrow> nat \<Rightarrow> 'w httpd
    \<Rightarrow> (err_t \<times> http_state \<times> 'w httpd) option" where
  "http_post_request E i inp hs data data_len uri uri_end s =
     (let hdr = drop (uri_end + 1) data in
      case lwip_strnstr E hdr (bytes_of (CRLF @ CRLF)) (data_len - (uri_end + 1)) of
        None \<Rightarrow> Some (ERR_INPROGRESS, hs, s)
      | Some k \<Rightarrow>
          (case content_length E hdr k of
             None \<Rightarrow> Some (ERR_ARG, hs, s)
           | Some content_len \<Rightarrow>
               if content_len < 0 then Some (ERR_ARG, hs, s)
               else do {
                 let hdr_len = min data_len (uri_end + 1 + k + 4);
                 buf \<leftarrow> mem_set (http_uri_buf s) 0 0;
                 let (err, hs, s) = httpd_post_begin i hs uri content_len (s\<lparr>http_uri_buf := buf\<rparr>);
                 if err = ERR_OK then do {
                   let hs = hs\<lparr>h_post_content_len := of_int content_len, h_post_content_len_left := of_int content_len\<rparr>;
                   (case skip_header hdr_len inp of
                      [] \<Rightarrow> if content_len = 0 then http_post_rxpbuf E i hs [[]] s else Some (ERR_OK, hs, s)
                    | q \<Rightarrow> http_post_rxpbuf E i hs q s) }
                 else do {
                   uri \<leftarrow> cstr_at (http_uri_buf s) 0;
                   http_find_file E hs uri True False s } }))"

section \<open>The code: the captive portal\<close>

text \<open>The address is compared although it was not set when the host is no address.\<close>

definition strcaseeq :: "bytes \<Rightarrow> bytes \<Rightarrow> bool" where
  "strcaseeq a b = (map tolower a = map tolower b)"

definition host_name_matches :: "'w http_env \<Rightarrow> 'w httpd \<Rightarrow> bytes \<Rightarrow> bool" where
  "host_name_matches E s host =
     (if initial_config s then
        (let addr = (case ip4addr_aton E host of Some a \<Rightarrow> a | None \<Rightarrow> stale_addr E);
             len = length (s_hostname s)
         in if s_ip_address s = addr then True
            else if \<not> strncaseeq len host (s_hostname s) then False
            else (case drop len host of
                    [] \<Rightarrow> True
                  | c # cs \<Rightarrow> c = 0x2E \<and> strcaseeq cs (s_domain_name s)))
      else True)"

definition redirect_text :: "'w httpd \<Rightarrow> bytes" where
  "redirect_text s = take 127 (bytes_of (''HTTP/1.0 302 Found'' @ CRLF @ ''Location: http://'') @ s_hostname s @
     bytes_of ''.'' @ s_domain_name s @ bytes_of CRLF)"

definition send_redirect :: "'w http_env \<Rightarrow> http_state \<Rightarrow> 'w httpd \<Rightarrow> http_state" where
  "send_redirect E hs s =
     (let hs = set_hdr HDR_STRINGS_IDX_HTTP_STATUS (Some (redirect_text s)) hs;
          hs = set_hdr HDR_STRINGS_IDX_CONTENT_LEN_KEEPALIVE (Some (header_text E HTTP_HDR_CONN_CLOSE)) hs
      in hs\<lparr>h_hdr_index := 0, h_hdr_pos := 0\<rparr>)"

section \<open>The code: parsing\<close>

definition LWIP_HTTPD_MAX_REQ_LENGTH :: nat where "LWIP_HTTPD_MAX_REQ_LENGTH = 1023"
definition LWIP_HTTPD_REQ_QUEUELEN :: nat where "LWIP_HTTPD_REQ_QUEUELEN = 5"
definition MIN_REQ_LEN :: nat where "MIN_REQ_LEN = 7"

text \<open>The method: the position of the blank behind it, and whether it is POST.\<close>

definition parse_method :: "bytes \<Rightarrow> (nat \<times> bool) option" where
  "parse_method data =
     (if take 4 data = bytes_of ''GET '' then Some (3, False)
      else if take 5 data = bytes_of ''POST '' then Some (4, True)
      else None)"

text \<open>The value of the Host field, cut to fit its buffer.\<close>

definition parse_host :: "'w http_env \<Rightarrow> bytes \<Rightarrow> nat \<Rightarrow> bytes option" where
  "parse_host E data data_len = do {
     h \<leftarrow> lwip_strnstr E data (bytes_of ''Host: '') data_len;
     let host_start = h + 6;
     host_len \<leftarrow> lwip_strnstr E (drop host_start data) (bytes_of CRLF) (data_len - host_start);
     Some (takeWhile (\<lambda>c. c \<noteq> 0) (take (min 31 host_len) (drop host_start data))) }"

text \<open>
  The URI from the blank behind the method, and the rest of the request. The inner option is \<open>None\<close> for a request
  that is not complete. Method and URI are terminated in place in the received data; when a POST turns out to be
  incomplete the blanks are put back, so the data that is kept for later is not changed.
\<close>

definition parse_uri ::
  "'w http_env \<Rightarrow> nat \<Rightarrow> http_state \<Rightarrow> pbufs \<Rightarrow> bytes \<Rightarrow> nat \<Rightarrow> nat \<Rightarrow> bool \<Rightarrow> 'w httpd
    \<Rightarrow> (err_t \<times> http_state \<times> 'w httpd) option option" where
  "parse_uri E i hs req data data_len sp1 is_post s =
     (let rest = drop (sp1 + 1) data;
          left_len = data_len - (sp1 + 1);
          blank = lwip_strnstr E rest (bytes_of '' '') left_len;
          is_09 = (blank = None);
          sp2 = (case blank of Some k \<Rightarrow> Some k | None \<Rightarrow> lwip_strnstr E rest (bytes_of CRLF) left_len)
      in if is_09 \<and> is_post then Some (Some (ERR_ARG, hs, s))
         else (case sp2 of
             None \<Rightarrow> Some None
           | Some uri_len \<Rightarrow>
               if lwip_strnstr E data (bytes_of (CRLF @ CRLF)) data_len = None then Some None
               else do {
                 data \<leftarrow> mem_set data sp1 0;
                 data \<leftarrow> mem_set data (sp1 + 1 + uri_len) 0;
                 uri \<leftarrow> cstr_at data (sp1 + 1);
                 r \<leftarrow> (if is_post then http_post_request E i req hs data data_len uri (sp1 + 1 + uri_len) s
                      else http_find_file E hs uri False is_09 s);
                 Some (Some r) }))"

definition parse_data ::
  "'w http_env \<Rightarrow> nat \<Rightarrow> http_state \<Rightarrow> pbufs \<Rightarrow> bytes \<Rightarrow> nat \<Rightarrow> 'w httpd
    \<Rightarrow> (err_t \<times> http_state \<times> 'w httpd) option option" where
  "parse_data E i hs req data data_len s =
     (if MIN_REQ_LEN \<le> data_len \<and> lwip_strnstr E data (bytes_of CRLF) data_len \<noteq> None then
        (case parse_method data of
           None \<Rightarrow> Some (Some (ERR_ARG, hs, s))
         | Some (sp1, is_post) \<Rightarrow>
             (case parse_host E data data_len of
                None \<Rightarrow> Some (Some (ERR_ARG, hs, s))
              | Some host \<Rightarrow>
                  if \<not> host_name_matches E s host then Some (Some (ERR_OK, send_redirect E hs s, s))
                  else parse_uri E i hs req data data_len sp1 is_post s))
      else Some None)"

definition http_parse_request ::
  "'w http_env \<Rightarrow> nat \<Rightarrow> pbufs \<Rightarrow> http_state \<Rightarrow> 'w httpd \<Rightarrow> (err_t \<times> http_state \<times> 'w httpd) option" where
  "http_parse_request E i p hs s =
     (if h_handle hs \<or> h_file hs \<noteq> None then Some (ERR_USE, hs, s)
      else do {
        let req = (case h_req hs of None \<Rightarrow> p | Some r \<Rightarrow> r @ p);
        let hs = hs\<lparr>h_req := Some req\<rparr>;
        (data, data_len, s) \<leftarrow>
          (if length req > 1 then do {
             let data_len = min (tot_len req) LWIP_HTTPD_MAX_REQ_LENGTH;
             buf \<leftarrow> mem_cpy (httpd_req_buf s) 0 (take data_len (concat req));
             Some (buf, data_len, s\<lparr>httpd_req_buf := buf\<rparr>) }
           else do {
             payload \<leftarrow> mem_get p 0;
             Some (payload, length payload, s) });
        parsed \<leftarrow> parse_data E i hs req data data_len s;
        (case parsed of
           Some r \<Rightarrow> Some r
         | None \<Rightarrow>
             if tot_len req \<le> LWIP_HTTPD_MAX_REQ_LENGTH \<and> length req \<le> LWIP_HTTPD_REQ_QUEUELEN
             then Some (ERR_INPROGRESS, hs, s) else Some (ERR_ARG, hs, s)) })"

section \<open>The code: callbacks\<close>

definition http_err :: "'w http_env \<Rightarrow> conn \<times> 'w httpd \<Rightarrow> conn \<times> 'w httpd" where
  "http_err E = (\<lambda>(c, s). ((http_state_free E c)\<lparr>c_open := False\<rparr>, s))"

definition http_sent :: "'w http_env \<Rightarrow> nat \<Rightarrow> conn \<times> 'w httpd \<Rightarrow> (conn \<times> 'w httpd) option" where
  "http_sent E i = (\<lambda>(c, s).
     (case c_hs c of
        None \<Rightarrow> Some (c, s)
      | Some hs \<Rightarrow> map_option snd (http_send E i (c\<lparr>c_hs := Some (hs\<lparr>h_retries := 0\<rparr>)\<rparr>, s))))"

definition http_poll :: "'w http_env \<Rightarrow> nat \<Rightarrow> conn \<times> 'w httpd \<Rightarrow> (conn \<times> 'w httpd) option" where
  "http_poll E i = (\<lambda>(c, s).
     (case c_hs c of
        None \<Rightarrow> map_option snd (http_close_conn E i (c, s))
      | Some hs \<Rightarrow>
          (let hs = hs\<lparr>h_retries := h_retries hs + 1\<rparr>; c = c\<lparr>c_hs := Some hs\<rparr> in
           if h_retries hs = HTTPD_MAX_RETRIES then map_option snd (http_close_conn E i (c, s))
           else if h_handle hs then do {
             (wrote, c, s) \<leftarrow> http_send E i (c, s);
             Some (c, if wrote \<noteq> 0 then s\<lparr>lwip_state := altcp_output E i (lwip_state s)\<rparr> else s) }
           else Some (c, s))))"

text \<open>\<open>p\<close> is null when the other side has closed the connection.\<close>

definition http_recv ::
  "'w http_env \<Rightarrow> nat \<Rightarrow> pbufs option \<Rightarrow> err_t \<Rightarrow> conn \<times> 'w httpd \<Rightarrow> (conn \<times> 'w httpd) option" where
  "http_recv E i p err = (\<lambda>(c, s).
     (let s = (case p of Some q \<Rightarrow> s\<lparr>lwip_state := altcp_recved E i (tot_len q) (lwip_state s)\<rparr> | None \<Rightarrow> s) in
      case (err, p, c_hs c) of
        (ERR_OK, Some q, Some hs) \<Rightarrow>
          if h_post_content_len_left hs > 0 then do {
            (_, hs, s) \<leftarrow> http_post_rxpbuf E i (hs\<lparr>h_retries := 0\<rparr>) q s;
            let c = c\<lparr>c_hs := Some hs\<rparr>;
            if h_post_content_len_left hs = 0 then map_option snd (http_send E i (c, s)) else Some (c, s) }
          else if \<not> h_handle hs then do {
            (parsed, hs, s) \<leftarrow> http_parse_request E i q hs s;
            let hs = (if parsed \<noteq> ERR_INPROGRESS then hs\<lparr>h_req := None\<rparr> else hs);
            let c = c\<lparr>c_hs := Some hs\<rparr>;
            if parsed = ERR_OK then
              (if h_post_content_len_left hs = 0 then map_option snd (http_send E i (c, s)) else Some (c, s))
            else if parsed = ERR_ARG then map_option snd (http_close_conn E i (c, s))
            else if parsed = ERR_INPROGRESS \<or> parsed = ERR_USE then Some (c, s)
            else None }
          else Some (c, s)
      | _ \<Rightarrow> map_option snd (http_close_conn E i (c, s))))"

text \<open>\<open>allocated\<close>: there was memory for the structure.\<close>

definition http_accept :: "bool \<Rightarrow> err_t \<Rightarrow> bool \<Rightarrow> err_t \<times> conn option" where
  "http_accept allocated err has_pcb =
     (if err \<noteq> ERR_OK \<or> \<not> has_pcb then (ERR_VAL, None)
      else if \<not> allocated then (ERR_MEM, None)
      else (ERR_OK, Some \<lparr>c_hs = Some http_state_init, c_poll = HTTPD_POLL_INTERVAL, c_open = True, c_queue = []\<rparr>))"

definition httpd_init :: "bytes \<Rightarrow> bytes \<Rightarrow> u32 \<Rightarrow> 'w httpd \<Rightarrow> 'w httpd" where
  "httpd_init hostname domain_name ip_address s =
     s\<lparr>s_hostname := hostname, s_domain_name := domain_name, s_ip_address := ip_address\<rparr>"

end
