(* ===== verification/Httpd_Send_Proofs.thy ===== *)
theory Httpd_Send_Proofs
  imports Httpd_Request
begin

text \<open>
  Facts of the web server: whatever TCP accepts, and in whatever order its callbacks come, what is put into the queue of a
  connection is the response in order.
\<close>

section \<open>What is left to be sent\<close>

definition opt_bytes :: "bytes option \<Rightarrow> bytes" where
  "opt_bytes x = (case x of None \<Rightarrow> [] | Some b \<Rightarrow> b)"

lemma opt_bytes_simps [simp]: "opt_bytes None = []" "opt_bytes (Some b) = b"
  by (simp_all add: opt_bytes_def)

definition header_rest :: "http_state \<Rightarrow> bytes" where
  "header_rest hs = drop (h_hdr_pos hs) (concat (map opt_bytes (drop (h_hdr_index hs) (h_hdrs hs))))"

definition data_rest :: "http_state \<Rightarrow> bytes" where
  "data_rest hs = (case h_file hs of None \<Rightarrow> [] | Some (obj, off) \<Rightarrow> take (unat (h_left hs)) (drop off (object_bytes obj)))"

text \<open>The Content-Length field is put in when the first header is sent.\<close>

definition with_length :: "'w http_env \<Rightarrow> http_state \<Rightarrow> http_state" where
  "with_length E hs =
     (if h_hdr_index hs < NUM_FILE_HDR_STRINGS \<and> h_hdrs hs ! HDR_STRINGS_IDX_CONTENT_LEN_KEEPALIVE = None
      then get_http_content_length E hs else hs)"

definition pending :: "'w http_env \<Rightarrow> http_state \<Rightarrow> bytes" where
  "pending E hs = header_rest (with_length E hs) @ data_rest hs"

text \<open>A structure with headers to send stands in a string that is there and has something left.\<close>

definition headers_ok :: "http_state \<Rightarrow> bool" where
  "headers_ok hs = (length (h_hdrs hs) = NUM_FILE_HDR_STRINGS \<and> Some [] \<notin> set (h_hdrs hs) \<and>
     (h_hdr_index hs < NUM_FILE_HDR_STRINGS \<longrightarrow>
       (\<exists>b. h_hdrs hs ! h_hdr_index hs = Some b \<and> h_hdr_pos hs < length b)) \<and>
     (NUM_FILE_HDR_STRINGS \<le> h_hdr_index hs \<longrightarrow> h_hdr_pos hs = 0))"

definition data_ok :: "http_state \<Rightarrow> bool" where
  "data_ok hs = ((case h_file hs of None \<Rightarrow> h_left hs = 0
       | Some (obj, off) \<Rightarrow> off + unat (h_left hs) \<le> length (object_bytes obj)) \<and>
     (h_handle hs \<longrightarrow> fs_bytes_left (h_file_handle hs) \<le> 0))"

lemma http_write_loop_eq:
  assumes "len \<le> length p" "altcp_write E i (take len p) flags w = (e, w1)"
  shows "http_write_loop E i p len flags w = (if e = ERR_MEM \<and> 1 < retry_len E i e len w1
     then http_write_loop E i p (retry_len E i e len w1) flags w1 else Some (e, retry_len E i e len w1, w1))"
  by (subst http_write_loop.simps) (use assms in \<open>simp add: mem_read_def Let_def\<close>)

lemma http_write_loop_some:
  assumes "len \<le> length p"
  obtains err n w' where "http_write_loop E i p len flags w = Some (err, n, w')" "err \<noteq> ERR_MEM \<longrightarrow> n \<le> len"
proof -
  have "\<exists>r. http_write_loop E i p len flags w = Some r" using assms
  proof (induction E i p len flags w rule: http_write_loop.induct)
    case (1 E i p len flags w)
    have r: "mem_read p 0 len = Some (take len p)" using "1.prems" by (simp add: mem_read_def)
    obtain e w1 where w: "altcp_write E i (take len p) flags w = (e, w1)" by fastforce
    show ?case
    proof (cases "e = ERR_MEM \<and> 1 < retry_len E i e len w1")
      case True
      then have l: "Suc 0 < retry_len E i ERR_MEM len w1" by auto
      have "retry_len E i ERR_MEM len w1 \<le> length p" using retry_len_less [OF l] "1.prems" by simp
      with "1.IH" [OF r w [symmetric] refl] True w r show ?thesis
        by (simp add: http_write_loop_eq [OF "1.prems" w])
    next
      case False
      then show ?thesis by (simp only: http_write_loop_eq [OF "1.prems" w] if_not_P) simp
    qed
  qed
  then show thesis using that http_write_loop_le by (metis prod_cases3)
qed

text \<open>TCP with room in its buffer: a write of what it offers succeeds.\<close>

definition room :: "'w http_env \<Rightarrow> nat \<Rightarrow> 'w \<Rightarrow> bool" where
  "room E i w = (altcp_sndbuf E i w \<noteq> 0 \<and> 2 * altcp_mss E i w \<noteq> 0 \<and>
     (\<forall>dat flags. length dat \<le> unat (altcp_sndbuf E i w) \<longrightarrow> fst (altcp_write E i dat flags w) = ERR_OK))"

lemma http_write_spec:
  assumes "len \<le> length p"
  obtains err n w' where "http_write E i p len flags (q, w) = Some (err, n, q @ take n p, w')" "n \<le> len"
    "err \<noteq> ERR_OK \<Longrightarrow> n = 0" "room E i w \<Longrightarrow> len \<noteq> 0 \<Longrightarrow> n \<noteq> 0"
proof (cases "len = 0")
  case True
  then have "http_write E i p len flags (q, w) = Some (ERR_OK, 0, q @ take 0 p, w)" by (simp add: http_write_def)
  with True show thesis using that by blast
next
  case False
  let ?len = "min (min len (unat (altcp_sndbuf E i w))) (unat (2 * altcp_mss E i w))"
  obtain err n w' where l: "http_write_loop E i p ?len flags w = Some (err, n, w')" "err \<noteq> ERR_MEM \<longrightarrow> n \<le> ?len"
  proof -
    have "?len \<le> length p" using assms by simp
    from http_write_loop_some [OF this, of E i flags w] that show ?thesis by metis
  qed
  have n: "n \<le> len" if "err = ERR_OK" using l(2) that by simp
  have r: "err = ERR_OK \<and> n \<noteq> 0" if room: "room E i w"
  proof -
    have "unat (altcp_sndbuf E i w) \<noteq> 0" "unat (2 * altcp_mss E i w) \<noteq> 0"
      using room by (simp_all only: room_def unat_eq_zero not_False_eq_True)
    then have "?len \<noteq> 0" using False by (simp only: min_def) simp
    obtain e w1 where w: "altcp_write E i (take ?len p) flags w = (e, w1)" by fastforce
    moreover have "length (take ?len p) \<le> unat (altcp_sndbuf E i w)" by simp
    ultimately have "e = ERR_OK" using room unfolding room_def by (metis fst_conv)
    moreover have "?len \<le> length p" using assms by simp
    ultimately show ?thesis using l(1) http_write_loop_eq [of ?len p E i flags w, OF _ w] \<open>?len \<noteq> 0\<close>
      by (simp add: retry_len_def)
  qed
  show thesis
  proof (cases "err = ERR_OK")
    case True
    with l False have "http_write E i p len flags (q, w) = Some (ERR_OK, n, q @ take n p, w')"
      by (simp add: http_write_def Let_def)
    with n [OF True] r True show thesis using that by blast
  next
    case F: False
    with l False have "http_write E i p len flags (q, w) = Some (err, 0, q @ take 0 p, w')"
      by (simp add: http_write_def Let_def)
    with F r show thesis using that by blast
  qed
qed

lemma next_header_spec:
  assumes "length hdrs = NUM_FILE_HDR_STRINGS" "k \<le> NUM_FILE_HDR_STRINGS"
  shows "k \<le> next_header hdrs k \<and> next_header hdrs k \<le> NUM_FILE_HDR_STRINGS \<and>
    (next_header hdrs k < NUM_FILE_HDR_STRINGS \<longrightarrow> hdrs ! next_header hdrs k \<noteq> None) \<and>
    concat (map opt_bytes (drop k hdrs)) = concat (map opt_bytes (drop (next_header hdrs k) hdrs))"
  using assms
proof (induction hdrs k rule: next_header.induct)
  case (1 hdrs k)
  show ?case
  proof (cases "k < NUM_FILE_HDR_STRINGS \<and> hdrs ! k = None")
    case True
    with "1.prems" have d: "drop k hdrs = None # drop (Suc k) hdrs" by (metis Cons_nth_drop_Suc)
    have n: "next_header hdrs k = next_header hdrs (Suc k)" using True by (subst next_header.simps) simp
    have "concat (map opt_bytes (drop k hdrs)) = concat (map opt_bytes (drop (Suc k) hdrs))" by (simp add: d)
    with "1.IH" [OF True] "1.prems" True show ?thesis unfolding n by simp
  next
    case False
    have n: "next_header hdrs k = k" by (subst next_header.simps, rule if_not_P, rule False)
    from False "1.prems" show ?thesis unfolding n by auto
  qed
qed

lemma header_rest_at:
  assumes "h_hdrs hs ! h_hdr_index hs = Some b" "h_hdr_index hs < length (h_hdrs hs)" "h_hdr_pos hs \<le> length b"
  shows "header_rest hs = drop (h_hdr_pos hs) b @ concat (map opt_bytes (drop (Suc (h_hdr_index hs)) (h_hdrs hs)))"
proof -
  have "drop (h_hdr_index hs) (h_hdrs hs) = Some b # drop (Suc (h_hdr_index hs)) (h_hdrs hs)"
    using assms(1,2) by (metis Cons_nth_drop_Suc)
  with assms(3) show ?thesis by (simp add: header_rest_def)
qed

lemma send_header_spec:
  assumes "headers_ok hs" "h_hdr_index hs < NUM_FILE_HDR_STRINGS"
  obtains r n k p w' where "r \<in> {report, HTTP_DATA_TO_SEND_CONTINUE}"
    "send_header E i len report hs (q, w) =
       Some (r, n, hs\<lparr>h_hdr_index := k, h_hdr_pos := p\<rparr>, q @ take n (header_rest hs), w')"
    "n \<le> len" "headers_ok (hs\<lparr>h_hdr_index := k, h_hdr_pos := p\<rparr>)"
    "header_rest (hs\<lparr>h_hdr_index := k, h_hdr_pos := p\<rparr>) = drop n (header_rest hs)"
    "room E i w \<Longrightarrow> len \<noteq> 0 \<Longrightarrow> n \<noteq> 0"
proof -
  define idx pos hdrs where "idx = h_hdr_index hs" "pos = h_hdr_pos hs" "hdrs = h_hdrs hs"
  note d = idx_pos_hdrs_def
  have ok: "length hdrs = NUM_FILE_HDR_STRINGS" "Some [] \<notin> set hdrs" "idx < NUM_FILE_HDR_STRINGS"
    using assms by (simp_all add: headers_ok_def d)
  obtain b where b: "hdrs ! idx = Some b" "pos < length b" using assms by (auto simp: headers_ok_def d)
  define rest where "rest = concat (map opt_bytes (drop (Suc idx) hdrs))"
  have hr: "header_rest hs = drop pos b @ rest"
    using header_rest_at [of hs b] b ok by (simp add: d rest_def)
  let ?len = "min len (length b - pos)"
  obtain err n w' where w: "http_write E i (drop pos b) ?len (hdr_apiflags idx) (q, w) = Some (err, n, q @ take n (drop pos b), w')"
    and n: "n \<le> ?len" and r: "room E i w \<Longrightarrow> ?len \<noteq> 0 \<Longrightarrow> n \<noteq> 0"
    using http_write_spec [of ?len "drop pos b" E i "hdr_apiflags idx" q w] by (metis length_drop min.cobounded2)
  define k where "k = (if pos + n = length b then next_header hdrs (Suc idx) else idx)"
  define p where "p = (if pos + n = length b then 0 else pos + n)"
  let ?hs = "hs\<lparr>h_hdr_index := k, h_hdr_pos := p\<rparr>"
  have tk: "take n (drop pos b) = take n (header_rest hs)" using n by (simp add: hr)
  have s: "\<exists>r. r \<in> {report, HTTP_DATA_TO_SEND_CONTINUE} \<and> send_header E i len report hs (q, w) = Some (r, n, ?hs, q @ take n (header_rest hs), w')"
    using b(1) ok w by (auto simp: send_header_def d [symmetric] Let_def k_def p_def tk)
  have nh: "Suc idx \<le> next_header hdrs (Suc idx)" "next_header hdrs (Suc idx) \<le> NUM_FILE_HDR_STRINGS"
    "next_header hdrs (Suc idx) < NUM_FILE_HDR_STRINGS \<Longrightarrow> hdrs ! next_header hdrs (Suc idx) \<noteq> None"
    "rest = concat (map opt_bytes (drop (next_header hdrs (Suc idx)) hdrs))"
    using next_header_spec [of hdrs "Suc idx"] ok by (simp_all add: rest_def)
  have "header_rest ?hs = drop n (header_rest hs) \<and> headers_ok ?hs"
  proof (cases "pos + n = length b")
    case True
    have "\<exists>b. hdrs ! next_header hdrs (Suc idx) = Some b \<and> b \<noteq> []" if l: "next_header hdrs (Suc idx) < NUM_FILE_HDR_STRINGS"
      using nh(3) [OF l] ok(1,2) l nth_mem [of "next_header hdrs (Suc idx)" hdrs] by fastforce
    with True nh ok hr show ?thesis by (auto simp: header_rest_def headers_ok_def k_def p_def d [symmetric])
  next
    case False
    from n have "n \<le> length b - pos" by simp
    with False b(2) have l: "pos + n < length b" by arith
    have "header_rest ?hs = drop (pos + n) b @ rest"
      using header_rest_at [of ?hs b] False b ok l by (simp add: k_def p_def d [symmetric] rest_def)
    with False b ok l n show ?thesis by (simp add: hr k_def p_def d [symmetric] headers_ok_def add.commute)
  qed
  moreover have "n \<noteq> 0" if "room E i w" "len \<noteq> 0" using r [OF that(1)] that(2) b(2) by (simp add: min_def)
  ultimately show thesis using s n that [of _ n p k w'] by auto
qed

lemma send_headers_loop_spec:
  assumes "headers_ok hs"
  obtains r n k p w' where "r \<in> {report, HTTP_DATA_TO_SEND_CONTINUE}"
    "send_headers_loop E i len sendlen report hs (q, w) =
       Some (r, hs\<lparr>h_hdr_index := k, h_hdr_pos := p\<rparr>, q @ take n (header_rest hs), w')"
    "headers_ok (hs\<lparr>h_hdr_index := k, h_hdr_pos := p\<rparr>)"
    "header_rest (hs\<lparr>h_hdr_index := k, h_hdr_pos := p\<rparr>) = drop n (header_rest hs)"
    "room E i w \<Longrightarrow> len \<noteq> 0 \<Longrightarrow> sendlen \<noteq> 0 \<Longrightarrow> h_hdr_index hs < NUM_FILE_HDR_STRINGS \<Longrightarrow> n \<noteq> 0"
proof -
  have "\<exists>r n k p w'. r \<in> {report, HTTP_DATA_TO_SEND_CONTINUE} \<and>
    send_headers_loop E i len sendlen report hs (q, w) =
       Some (r, hs\<lparr>h_hdr_index := k, h_hdr_pos := p\<rparr>, q @ take n (header_rest hs), w') \<and>
    headers_ok (hs\<lparr>h_hdr_index := k, h_hdr_pos := p\<rparr>) \<and>
    header_rest (hs\<lparr>h_hdr_index := k, h_hdr_pos := p\<rparr>) = drop n (header_rest hs) \<and>
    (room E i w \<longrightarrow> len \<noteq> 0 \<longrightarrow> sendlen \<noteq> 0 \<longrightarrow> h_hdr_index hs < NUM_FILE_HDR_STRINGS \<longrightarrow> n \<noteq> 0)"
    using assms
  proof (induction len arbitrary: sendlen report hs q w rule: less_induct)
    case (less len)
    show ?case
    proof (cases "len \<noteq> 0 \<and> h_hdr_index hs < NUM_FILE_HDR_STRINGS \<and> sendlen \<noteq> 0")
      case False
      then have e: "send_headers_loop E i len sendlen report hs (q, w) = Some (report, hs, q, w)"
        by (subst send_headers_loop.simps, simp only: if_not_P)
      show ?thesis
        by (rule exI [of _ report], rule exI [of _ 0], rule exI [of _ "h_hdr_index hs"],
            rule exI [of _ "h_hdr_pos hs"], rule exI [of _ w])
          (use less.prems False e in auto)
    next
      case True
      then obtain r n k p w1 where h: "r \<in> {report, HTTP_DATA_TO_SEND_CONTINUE}"
          "send_header E i len report hs (q, w) =
            Some (r, n, hs\<lparr>h_hdr_index := k, h_hdr_pos := p\<rparr>, q @ take n (header_rest hs), w1)"
          "n \<le> len" "headers_ok (hs\<lparr>h_hdr_index := k, h_hdr_pos := p\<rparr>)"
          "header_rest (hs\<lparr>h_hdr_index := k, h_hdr_pos := p\<rparr>) = drop n (header_rest hs)"
          "room E i w \<Longrightarrow> len \<noteq> 0 \<Longrightarrow> n \<noteq> 0"
        using send_header_spec [OF less.prems] by metis
      let ?hs = "hs\<lparr>h_hdr_index := k, h_hdr_pos := p\<rparr>"
      have eq: "send_headers_loop E i len sendlen report hs (q, w) =
          (if n = 0 then Some (r, ?hs, q @ take n (header_rest hs), w1)
           else send_headers_loop E i (len - n) n r ?hs (q @ take n (header_rest hs), w1))"
        by (subst send_headers_loop.simps, subst if_P [OF True]) (simp add: h(2))
      show ?thesis
      proof (cases "n = 0")
        case True
        show ?thesis
          by (rule exI [of _ r], rule exI [of _ n], rule exI [of _ k], rule exI [of _ p], rule exI [of _ w1])
            (use eq h True in auto)
      next
        case F: False
        with True have "len - n < len" by simp
        from less.IH [OF this h(4), of r n "q @ take n (header_rest hs)" w1]
        obtain r2 n2 k2 p2 w2 where h2: "r2 \<in> {r, HTTP_DATA_TO_SEND_CONTINUE}"
          "send_headers_loop E i (len - n) n r ?hs (q @ take n (header_rest hs), w1) =
            Some (r2, ?hs\<lparr>h_hdr_index := k2, h_hdr_pos := p2\<rparr>,
              (q @ take n (header_rest hs)) @ take n2 (drop n (header_rest hs)), w2)"
          "headers_ok (?hs\<lparr>h_hdr_index := k2, h_hdr_pos := p2\<rparr>)"
          "header_rest (?hs\<lparr>h_hdr_index := k2, h_hdr_pos := p2\<rparr>) = drop n2 (drop n (header_rest hs))"
          unfolding h(5) by blast
        have "(q @ take n (header_rest hs)) @ take n2 (drop n (header_rest hs)) = q @ take (n + n2) (header_rest hs)"
          by (simp add: take_add)
        show ?thesis
        proof (rule exI [of _ r2], rule exI [of _ "n + n2"], rule exI [of _ k2], rule exI [of _ p2], rule exI [of _ w2], intro conjI)
          show "r2 \<in> {report, HTTP_DATA_TO_SEND_CONTINUE}" using h(1) h2(1) by auto
          show "send_headers_loop E i len sendlen report hs (q, w) =
              Some (r2, hs\<lparr>h_hdr_index := k2, h_hdr_pos := p2\<rparr>, q @ take (n + n2) (header_rest hs), w2)"
            using F eq h2(2) by (simp add: take_add)
        qed (use F h2(3,4) in \<open>simp_all add: add.commute\<close>)
      qed
    qed
  qed
  with that show thesis by blast
qed

section \<open>A turn of sending\<close>

definition responding :: "'w http_env \<Rightarrow> http_state \<Rightarrow> bool" where
  "responding E hs = (headers_ok hs \<and> data_ok hs \<and> (h_hdr_index hs = 0 \<or> with_length E hs = hs) \<and>
     h_post_content_len_left hs = 0)"

lemma set_hdr_simps [simp]:
  "h_hdrs (set_hdr i x hs) = (h_hdrs hs)[i := x]" "h_hdr_index (set_hdr i x hs) = h_hdr_index hs"
  "h_hdr_pos (set_hdr i x hs) = h_hdr_pos hs" "h_file (set_hdr i x hs) = h_file hs" "h_left (set_hdr i x hs) = h_left hs"
  "h_handle (set_hdr i x hs) = h_handle hs" "h_file_handle (set_hdr i x hs) = h_file_handle hs"
  "h_post_content_len_left (set_hdr i x hs) = h_post_content_len_left hs" "h_req (set_hdr i x hs) = h_req hs"
  "h_post_content (set_hdr i x hs) = h_post_content hs" "h_post_uri (set_hdr i x hs) = h_post_uri hs"
  "h_post_content_len (set_hdr i x hs) = h_post_content_len hs" "h_retries (set_hdr i x hs) = h_retries hs"
  by (simp_all add: set_hdr_def)

lemma content_length_keeps [simp]:
  "h_hdr_index (get_http_content_length E hs) = h_hdr_index hs" "h_hdr_pos (get_http_content_length E hs) = h_hdr_pos hs"
  "h_file (get_http_content_length E hs) = h_file hs" "h_left (get_http_content_length E hs) = h_left hs"
  "h_handle (get_http_content_length E hs) = h_handle hs" "h_file_handle (get_http_content_length E hs) = h_file_handle hs"
  "h_post_content_len_left (get_http_content_length E hs) = h_post_content_len_left hs"
  "length (h_hdrs (get_http_content_length E hs)) = length (h_hdrs hs)"
  by (simp_all add: get_http_content_length_def Let_def)

lemma with_length_keeps [simp]:
  "h_hdr_index (with_length E hs) = h_hdr_index hs" "h_hdr_pos (with_length E hs) = h_hdr_pos hs"
  "h_file (with_length E hs) = h_file hs" "h_left (with_length E hs) = h_left hs"
  "h_handle (with_length E hs) = h_handle hs" "h_file_handle (with_length E hs) = h_file_handle hs"
  "h_post_content_len_left (with_length E hs) = h_post_content_len_left hs"
  by (simp_all add: with_length_def)

lemma header_strings_nonempty: "g_psHTTPHeaderStrings ver h \<noteq> []"
  by (cases h) (simp_all add: CRLF_def)

lemma header_text_nonempty [simp]: "header_text E h \<noteq> []" "[] \<noteq> header_text E h"
  using header_strings_nonempty [of "lwip_version E" h] by (auto simp: header_text_def bytes_of_def)

lemma content_length_texts:
  assumes "Some [] \<notin> set (h_hdrs hs)"
  shows "Some [] \<notin> set (h_hdrs (get_http_content_length E hs))"
  using assms by (auto simp: get_http_content_length_def Let_def bytes_of_def CRLF_def
      dest!: set_update_subset_insert [THEN subsetD])

lemma with_length_ok:
  assumes "headers_ok hs" "h_hdr_index hs = 0 \<or> with_length E hs = hs"
  shows "headers_ok (with_length E hs)"
proof (cases "with_length E hs = hs")
  case False
  with assms have i: "h_hdr_index hs = 0" and l: "length (h_hdrs hs) = NUM_FILE_HDR_STRINGS" by (auto simp: headers_ok_def)
  have w: "with_length E hs = get_http_content_length E hs" using False by (auto simp: with_length_def)
  have "h_hdrs (get_http_content_length E hs) ! 0 = h_hdrs hs ! 0"
    by (simp add: get_http_content_length_def Let_def httpd_idx)
  with assms(1) i l show ?thesis by (simp add: w headers_ok_def content_length_texts)
qed (use assms in simp)

lemma with_length_fixed:
  assumes "h_hdr_index hs < NUM_FILE_HDR_STRINGS" "length (h_hdrs hs) = NUM_FILE_HDR_STRINGS"
  shows "with_length E ((with_length E hs)\<lparr>h_hdr_index := k, h_hdr_pos := p\<rparr>) = (with_length E hs)\<lparr>h_hdr_index := k, h_hdr_pos := p\<rparr>"
  using assms by (auto simp: with_length_def get_http_content_length_def Let_def set_hdr_def httpd_idx)

lemma http_eof_spec:
  assumes "c_hs c = Some hs" "h_post_content_len_left hs = 0"
  shows "\<exists>c' s'. http_eof E i (c, s) = Some (c', s') \<and> c_hs c' = None \<and> c_queue c' = c_queue c"
proof -
  obtain e w where w: "altcp_close E i (lwip_state s) = (e, w)" by fastforce
  then show ?thesis
    by (simp add: http_eof_def http_close_conn_def http_close_or_abort_conn_def assms http_state_free_def Let_def)
qed

lemma check_eof_spec:
  assumes "c_hs c = Some hs" "h_post_content_len_left hs = 0" "data_ok hs"
  shows "\<exists>c' s'. http_check_eof E i (c, s) = Some (False, c', s') \<and> c_hs c' = None \<and> c_queue c' = c_queue c"
proof -
  have "\<not> h_handle hs \<or> fs_bytes_left (h_file_handle hs) \<le> 0" using assms(3) by (auto simp: data_ok_def)
  with http_eof_spec [OF assms(1,2), of E i s] assms(1) show ?thesis by (auto simp: http_check_eof_def)
qed

text \<open>
  The outcome of an attempt to send: either more of what was pending is in the queue and the rest is pending, or all of it
  is in the queue and the connection is closed.
\<close>

definition sends_on :: "'w http_env \<Rightarrow> bool \<Rightarrow> conn \<Rightarrow> http_state \<Rightarrow> conn \<Rightarrow> bool" where
  "sends_on E moves c hs c' = (\<exists>n. c_queue c' = c_queue c @ take n (pending E hs) \<and>
     (case c_hs c' of
        None \<Rightarrow> drop n (pending E hs) = []
      | Some hs' \<Rightarrow> responding E hs' \<and> pending E hs' = drop n (pending E hs) \<and> h_handle hs' = h_handle hs \<and>
          (h_file hs' = None \<longleftrightarrow> h_file hs = None) \<and> (moves \<longrightarrow> n \<noteq> 0 \<and> pending E hs \<noteq> [])))"

lemma send_data_spec:
  assumes "c_hs c = Some hs" "responding E hs" "NUM_FILE_HDR_STRINGS \<le> h_hdr_index hs" "h_left hs \<noteq> 0"
  obtains r c' s' where "http_send_data E i (c, s) = Some (r, c', s')" "sends_on E (room E i (lwip_state s)) c hs c'"
proof -
  from assms(2,4) obtain obj off where f: "h_file hs = Some (obj, off)" "off + unat (h_left hs) \<le> length (object_bytes obj)"
    by (auto simp: responding_def data_ok_def split: option.splits)
  let ?p = "drop off (object_bytes obj)" and ?l = "min (unat (h_left hs)) 0xffff"
  obtain err n w' where w: "http_write E i ?p ?l 0 (c_queue c, lwip_state s) = Some (err, n, c_queue c @ take n ?p, w')"
    and n: "n \<le> ?l" "err \<noteq> ERR_OK \<Longrightarrow> n = 0" and r: "room E i (lwip_state s) \<Longrightarrow> ?l \<noteq> 0 \<Longrightarrow> n \<noteq> 0"
  proof -
    have "?l \<le> length ?p" using f(2) by simp
    then show ?thesis by (rule http_write_spec [of _ _ E i 0 "c_queue c" "lwip_state s"]) (rule that)
  qed
  define hs' where "hs' = hs\<lparr>h_file := Some (obj, off + n), h_left := h_left hs - of_nat n\<rparr>"
  have data: "http_send_data_nonssi E i hs (c_queue c, lwip_state s) =
      Some (if err = ERR_OK then 1 else 0, hs', c_queue c @ take n ?p, w')"
    using w n f(1) by (auto simp: http_send_data_nonssi_def hs'_def)
  have u: "unat (h_left hs') = unat (h_left hs) - n"
  proof -
    have "n < 4294967296" using n(1) by (simp add: min_def split: if_splits)
    then have "unat (of_nat n :: u32) = n" by (rule unat_of_nat_u32)
    moreover have "n \<le> unat (h_left hs)" using n(1) by simp
    ultimately show ?thesis by (simp add: hs'_def unat_sub word_le_nat_alt)
  qed
  have wl: "with_length E hs = hs" "with_length E hs' = hs'" using assms(3) by (simp_all add: with_length_def hs'_def)
  have hr: "header_rest hs = []" "header_rest hs' = []"
    using assms(2,3) by (auto simp: header_rest_def responding_def headers_ok_def hs'_def)
  have pend: "pending E hs = take (unat (h_left hs)) ?p" by (simp add: pending_def wl hr data_rest_def f)
  have pend': "pending E hs' = drop n (pending E hs)"
  proof -
    have "h_file hs' = Some (obj, off + n)" by (simp add: hs'_def)
    then show ?thesis unfolding pend by (simp add: pending_def wl hr data_rest_def u drop_take add.commute)
  qed
  have tk: "take n ?p = take n (pending E hs)" using n(1) by (simp add: pend)
  have ok: "responding E hs'"
    using assms(2,3) f(2) u n(1) by (auto simp: responding_def headers_ok_def data_ok_def hs'_def with_length_def)
  show thesis
  proof (cases "h_left hs' = 0 \<and> handle_bytes_left E hs' \<le> 0")
    case True
    let ?c = "c\<lparr>c_hs := Some hs', c_queue := c_queue c @ take n ?p\<rparr>"
    have "h_post_content_len_left hs' = 0" using ok by (simp add: responding_def)
    then obtain c2 s2 where e: "http_eof E i (?c, s\<lparr>lwip_state := w'\<rparr>) = Some (c2, s2)" "c_hs c2 = None"
      "c_queue c2 = c_queue ?c"
      using http_eof_spec [of ?c hs' E i "s\<lparr>lwip_state := w'\<rparr>"] by auto
    have "pending E hs' = []" using True by (simp add: pending_def wl hr data_rest_def split: option.splits)
    with e tk pend' have c: "sends_on E (room E i (lwip_state s)) c hs c2" by (auto simp: sends_on_def intro!: exI [of _ n])
    have "http_send_data E i (c, s) = Some (0, c2, s2)" using data True e(1) by (simp add: http_send_data_def assms(1) Let_def)
    from this c show thesis by (rule that)
  next
    case False
    let ?c = "c\<lparr>c_hs := Some hs', c_queue := c_queue c @ take n ?p\<rparr>"
    have "h_handle hs' = h_handle hs" "h_file hs' \<noteq> None" by (simp_all add: hs'_def)
    moreover have "n \<noteq> 0 \<and> pending E hs \<noteq> []" if "room E i (lwip_state s)"
    proof -
      have "unat (h_left hs) \<noteq> 0" using assms(4) by (simp add: unat_eq_zero)
      then show ?thesis using r [OF that] n(1) f(2) by (auto simp: pend min_def split: if_splits)
    qed
    ultimately have c: "sends_on E (room E i (lwip_state s)) c hs ?c" using f tk pend' ok by (auto simp: sends_on_def intro!: exI [of _ n])
    have "http_send_data E i (c, s) = Some (if err = ERR_OK then 1 else 0, ?c, s\<lparr>lwip_state := w'\<rparr>)"
      using data by (simp only: http_send_data_def assms(1) bind.bind_lunit prod.case Let_def False if_False)
    from this c show thesis by (rule that)
  qed
qed

lemma send_headers_spec:
  assumes "c_hs c = Some hs" "responding E hs" "h_hdr_index hs < NUM_FILE_HDR_STRINGS"
  obtains r c' s' where "http_send_headers E i (c, s) = Some (r, c', s')" "sends_on E (room E i (lwip_state s)) c hs c'"
    "c_hs c' = None \<Longrightarrow> r = HTTP_DATA_TO_SEND_FREED"
    "\<And>hs'. c_hs c' = Some hs' \<Longrightarrow> r \<noteq> HTTP_DATA_TO_SEND_FREED \<and>
      (h_hdr_index hs' < NUM_FILE_HDR_STRINGS \<longrightarrow> r = HTTP_DATA_TO_SEND_BREAK)"
proof -
  let ?hs = "with_length E hs" and ?len = "unat (altcp_sndbuf E i (lwip_state s))"
  have ok: "headers_ok hs" "data_ok hs" "headers_ok ?hs" "h_post_content_len_left hs = 0"
    using assms(2) with_length_ok by (auto simp: responding_def)
  then have len: "length (h_hdrs hs) = NUM_FILE_HDR_STRINGS" by (simp add: headers_ok_def)
  obtain r n k p w' where l: "r \<in> {HTTP_NO_DATA_TO_SEND, HTTP_DATA_TO_SEND_CONTINUE}"
    "send_headers_loop E i ?len ?len HTTP_NO_DATA_TO_SEND ?hs (c_queue c, lwip_state s) =
       Some (r, ?hs\<lparr>h_hdr_index := k, h_hdr_pos := p\<rparr>, c_queue c @ take n (header_rest ?hs), w')"
    "headers_ok (?hs\<lparr>h_hdr_index := k, h_hdr_pos := p\<rparr>)"
    "header_rest (?hs\<lparr>h_hdr_index := k, h_hdr_pos := p\<rparr>) = drop n (header_rest ?hs)"
    "room E i (lwip_state s) \<Longrightarrow> ?len \<noteq> 0 \<Longrightarrow> n \<noteq> 0"
    using send_headers_loop_spec [OF ok(3), where E = E and i = i and len = ?len and sendlen = ?len and
        report = HTTP_NO_DATA_TO_SEND and q = "c_queue c" and w = "lwip_state s"] assms(3)
    by (metis with_length_keeps(1))
  define m where "m = min n (length (header_rest ?hs))"
  have n: "take n (header_rest ?hs) = take m (header_rest ?hs)" "drop n (header_rest ?hs) = drop m (header_rest ?hs)"
    "m \<le> length (header_rest ?hs)" by (auto simp: m_def min_def)
  define hs' where "hs' = ?hs\<lparr>h_hdr_index := k, h_hdr_pos := p\<rparr>"
  let ?c = "c\<lparr>c_hs := Some hs', c_queue := c_queue c @ take m (pending E hs)\<rparr>" and ?s = "s\<lparr>lwip_state := w'\<rparr>"
  have wl: "with_length E hs' = hs'" using with_length_fixed assms(3) len by (simp add: hs'_def)
  have same: "h_handle hs' = h_handle hs" "h_file hs' = h_file hs" "h_left hs' = h_left hs" by (simp_all add: hs'_def)
  have dr: "data_rest hs' = data_rest hs" by (simp only: data_rest_def same)
  have pend: "pending E hs' = drop m (pending E hs)" "take m (header_rest ?hs) = take m (pending E hs)"
    using l(4) n by (simp_all add: pending_def wl dr hs'_def [symmetric])
  have "data_ok hs'" using ok(2) unfolding data_ok_def same by (simp add: hs'_def)
  moreover have "h_post_content_len_left hs' = 0" using ok(4) by (simp add: hs'_def)
  ultimately have resp: "responding E hs'" using l(3) wl by (simp add: responding_def hs'_def [symmetric])
  have moves: "m \<noteq> 0 \<and> pending E hs \<noteq> []" if room: "room E i (lwip_state s)"
  proof -
    have "?len \<noteq> 0" using room by (auto simp: room_def unat_eq_zero)
    with l(5) room have "n \<noteq> 0" by blast
    moreover obtain b where "h_hdrs ?hs ! h_hdr_index ?hs = Some b" "h_hdr_pos ?hs < length b" "h_hdr_index ?hs < length (h_hdrs ?hs)"
      using ok(3) assms(3) by (auto simp: headers_ok_def)
    then have "header_rest ?hs \<noteq> []" using header_rest_at [of ?hs b] by simp
    ultimately show ?thesis by (simp add: m_def pending_def)
  qed
  have loop: "http_send_headers E i (c, s) =
      (if NUM_FILE_HDR_STRINGS \<le> h_hdr_index hs' \<and> h_file hs' = None then do {
         (left, c, s) \<leftarrow> http_check_eof E i (?c, ?s);
         Some (if left then HTTP_DATA_TO_SEND_BREAK else HTTP_DATA_TO_SEND_FREED, c, s) }
       else if h_hdr_index hs' < NUM_FILE_HDR_STRINGS \<or> h_file hs' = None then Some (HTTP_DATA_TO_SEND_BREAK, ?c, ?s)
       else Some (r, ?c, ?s))"
  proof -
    have "(if h_hdrs hs ! HDR_STRINGS_IDX_CONTENT_LEN_KEEPALIVE = None then get_http_content_length E hs else hs) = ?hs"
      using assms(3) by (simp add: with_length_def)
    moreover have "HDR_STRINGS_IDX_CONTENT_LEN_KEEPALIVE < length (h_hdrs hs)" by (simp add: len httpd_idx)
    ultimately show ?thesis using l(2) n pend
      by (simp add: http_send_headers_def assms(1) hs'_def [symmetric] Let_def)
  qed
  show thesis
  proof (cases "NUM_FILE_HDR_STRINGS \<le> h_hdr_index hs' \<and> h_file hs' = None")
    case True
    obtain c2 s2 where e: "http_check_eof E i (?c, ?s) = Some (False, c2, s2)" "c_hs c2 = None" "c_queue c2 = c_queue ?c"
      using check_eof_spec [of ?c hs' E i ?s] resp by (auto simp: responding_def)
    have "drop m (pending E hs) = []" using True resp pend(1)
      by (auto simp: pending_def wl data_rest_def responding_def headers_ok_def header_rest_def)
    with e True show thesis
      by (intro that [of HTTP_DATA_TO_SEND_FREED c2 s2]) (auto simp: loop sends_on_def intro!: exI [of _ m])
  next
    case False
    have c: "sends_on E (room E i (lwip_state s)) c hs ?c" using resp pend(1) same moves by (auto simp: sends_on_def intro!: exI [of _ m])
    let ?r = "if h_hdr_index hs' < NUM_FILE_HDR_STRINGS \<or> h_file hs' = None then HTTP_DATA_TO_SEND_BREAK else r"
    have "http_send_headers E i (c, s) = Some (?r, ?c, ?s)" using False loop by auto
    with c l(1) show thesis by (intro that [of ?r ?c ?s]) (auto simp: httpd_codes)
  qed
qed

lemma sends_on_trans:
  assumes "sends_on E m c hs c1" "c_hs c1 = Some hs1" "sends_on E m' c1 hs1 c2"
  shows "sends_on E m c hs c2"
proof -
  from assms(1,2) obtain n where 1: "c_queue c1 = c_queue c @ take n (pending E hs)" "pending E hs1 = drop n (pending E hs)"
    "h_handle hs1 = h_handle hs" "h_file hs1 = None \<longleftrightarrow> h_file hs = None" "m \<longrightarrow> n \<noteq> 0 \<and> pending E hs \<noteq> []"
    by (auto simp: sends_on_def)
  from assms(3) obtain k where 2: "c_queue c2 = c_queue c1 @ take k (pending E hs1)"
    "case c_hs c2 of None \<Rightarrow> drop k (pending E hs1) = []
      | Some hs' \<Rightarrow> responding E hs' \<and> pending E hs' = drop k (pending E hs1) \<and> h_handle hs' = h_handle hs1 \<and>
          (h_file hs' = None \<longleftrightarrow> h_file hs1 = None) \<and> (m' \<longrightarrow> k \<noteq> 0 \<and> pending E hs1 \<noteq> [])"
    by (auto simp: sends_on_def)
  have "c_queue c2 = c_queue c @ take (n + k) (pending E hs)" by (simp add: 1 2 take_add)
  moreover have "drop k (pending E hs1) = drop (n + k) (pending E hs)" by (simp add: 1 add.commute)
  moreover have "case c_hs c2 of None \<Rightarrow> drop (n + k) (pending E hs) = []
      | Some hs' \<Rightarrow> responding E hs' \<and> pending E hs' = drop (n + k) (pending E hs) \<and> h_handle hs' = h_handle hs \<and>
          (h_file hs' = None \<longleftrightarrow> h_file hs = None) \<and> (m \<longrightarrow> n + k \<noteq> 0 \<and> pending E hs \<noteq> [])"
  proof (cases "c_hs c2")
    case None
    with 2(2) show ?thesis by (simp add: 1(2) add.commute)
  next
    case (Some hs2)
    with 2(2) have "responding E hs2" "pending E hs2 = drop (n + k) (pending E hs)" "h_handle hs2 = h_handle hs1"
      "h_file hs2 = None \<longleftrightarrow> h_file hs1 = None" by (simp_all add: 1(2) add.commute)
    with Some 1(3-5) show ?thesis by simp
  qed
  ultimately show ?thesis unfolding sends_on_def by blast
qed

lemma http_send_spec:
  assumes "c_hs c = Some hs" "responding E hs"
  obtains r c' s' where "http_send E i (c, s) = Some (r, c', s')" "sends_on E (room E i (lwip_state s)) c hs c'"
proof (cases "h_hdr_index hs < NUM_FILE_HDR_STRINGS")
  case True
  obtain r c1 s1 where h: "http_send_headers E i (c, s) = Some (r, c1, s1)" "sends_on E (room E i (lwip_state s)) c hs c1"
    "c_hs c1 = None \<Longrightarrow> r = HTTP_DATA_TO_SEND_FREED"
    "\<And>hs'. c_hs c1 = Some hs' \<Longrightarrow> r \<noteq> HTTP_DATA_TO_SEND_FREED \<and>
      (h_hdr_index hs' < NUM_FILE_HDR_STRINGS \<longrightarrow> r = HTTP_DATA_TO_SEND_BREAK)"
    by (rule send_headers_spec [OF assms True, where i = i and s = s]) (rule that)
  show thesis
  proof (cases "c_hs c1")
    case None
    then have "http_send E i (c, s) = Some (r, c1, s1)" using h True by (simp add: http_send_def assms(1) Let_def)
    from this h(2) show thesis by (rule that)
  next
    case (Some hs1)
    note r = h(4) [OF Some]
    have ok: "responding E hs1" using h(2) Some by (auto simp: sends_on_def)
    show thesis
    proof (cases "h_hdr_index hs1 < NUM_FILE_HDR_STRINGS")
      case i: True
      then have "http_send E i (c, s) = Some (r, c1, s1)"
        using h(1) True Some r by (simp add: http_send_def assms(1) Let_def httpd_codes)
      from this h(2) show thesis by (rule that)
    next
      case i: False
      show thesis
      proof (cases "h_left hs1 = 0")
        case l: True
        have e: "pending E hs1 = []" using ok i l
          by (auto simp: pending_def with_length_def header_rest_def data_rest_def responding_def headers_ok_def split: option.splits)
        obtain c2 s2 where c: "http_check_eof E i (c1, s1) = Some (False, c2, s2)" "c_hs c2 = None" "c_queue c2 = c_queue c1"
          using check_eof_spec [OF Some, of E i s1] ok by (auto simp: responding_def)
        then have s2: "sends_on E False c1 hs1 c2" by (simp add: sends_on_def e)
        have "http_send E i (c, s) = Some (0, c2, s2)"
          using h(1) True Some r i l c by (simp add: http_send_def assms(1) Let_def)
        from this sends_on_trans [OF h(2) Some s2] show thesis by (rule that)
      next
        case l: False
        obtain r2 c2 s2 where d: "http_send_data E i (c1, s1) = Some (r2, c2, s2)" "sends_on E (room E i (lwip_state s1)) c1 hs1 c2"
          using send_data_spec [OF Some ok _ l, of i s1] i by (metis not_less)
        have "http_send E i (c, s) = Some (r2, c2, s2)"
          using h(1) True Some r i l d by (simp add: http_send_def assms(1) Let_def)
        from this sends_on_trans [OF h(2) Some d(2)] show thesis by (rule that)
      qed
    qed
  qed
next
  case False
  show thesis
  proof (cases "h_left hs = 0")
    case l: True
    have e: "pending E hs = []" using assms(2) False l
      by (auto simp: pending_def with_length_def header_rest_def data_rest_def responding_def headers_ok_def split: option.splits)
    obtain c2 s2 where c: "http_check_eof E i (c, s) = Some (False, c2, s2)" "c_hs c2 = None" "c_queue c2 = c_queue c"
      using check_eof_spec [OF assms(1), of E i s] assms(2) by (auto simp: responding_def)
    then have s2: "sends_on E (room E i (lwip_state s)) c hs c2" by (simp add: sends_on_def e)
    have "http_send E i (c, s) = Some (0, c2, s2)"
      using False l c by (simp add: http_send_def assms(1) Let_def)
    from this s2 show thesis by (rule that)
  next
    case l: False
    obtain r2 c2 s2 where d: "http_send_data E i (c, s) = Some (r2, c2, s2)" "sends_on E (room E i (lwip_state s)) c hs c2"
      using send_data_spec [OF assms _ l, of i s] False by (metis not_less)
    have "http_send E i (c, s) = Some (r2, c2, s2)" using False l d by (simp add: http_send_def assms(1) Let_def)
    from this d(2) show thesis by (rule that)
  qed
qed

section \<open>Callbacks after a request\<close>

text \<open>
  The callbacks that TCP makes on a connection. Each comes with the state lwIP is in by then, which is arbitrary.
\<close>

datatype http_event = Received "pbufs option" err_t | Acknowledged | Polled | Failed

fun http_step :: "'w http_env \<Rightarrow> nat \<Rightarrow> http_event \<times> 'w \<Rightarrow> conn \<times> 'w httpd \<Rightarrow> (conn \<times> 'w httpd) option" where
  "http_step E i (Received p err, w) (c, s) = http_recv E i p err (c, s\<lparr>lwip_state := w\<rparr>)"
| "http_step E i (Acknowledged, w) (c, s) = http_sent E i (c, s\<lparr>lwip_state := w\<rparr>)"
| "http_step E i (Polled, w) (c, s) = http_poll E i (c, s\<lparr>lwip_state := w\<rparr>)"
| "http_step E i (Failed, w) (c, s) = Some (http_err E (c, s\<lparr>lwip_state := w\<rparr>))"

fun http_run :: "'w http_env \<Rightarrow> nat \<Rightarrow> (http_event \<times> 'w) list \<Rightarrow> conn \<times> 'w httpd \<Rightarrow> (conn \<times> 'w httpd) option" where
  "http_run E i [] cs = Some cs"
| "http_run E i (ev # evs) cs = do { cs \<leftarrow> http_step E i ev cs; http_run E i evs cs }"

text \<open>
  A response is under way: \<open>bs\<close> is still to come, or the connection is closed. A busy connection does not look at further
  requests.
\<close>

definition busy :: "http_state \<Rightarrow> bool" where
  "busy hs = (h_handle hs \<or> h_file hs \<noteq> None)"

definition streams :: "'w http_env \<Rightarrow> conn \<Rightarrow> bool \<Rightarrow> bytes \<Rightarrow> bool" where
  "streams E c b bs = (case c_hs c of None \<Rightarrow> True
     | Some hs \<Rightarrow> responding E hs \<and> busy hs = b \<and> pending E hs = bs)"

lemma sends_on_streams:
  assumes "sends_on E m c hs c'"
  shows "\<exists>n. c_queue c' = c_queue c @ take n (pending E hs) \<and> streams E c' (busy hs) (drop n (pending E hs)) \<and>
    (m \<longrightarrow> c_hs c' \<noteq> None \<longrightarrow> n \<noteq> 0 \<and> pending E hs \<noteq> []) \<and> (c_hs c' = None \<longrightarrow> drop n (pending E hs) = [])"
proof -
  from assms obtain n where n: "c_queue c' = c_queue c @ take n (pending E hs)"
    "case c_hs c' of None \<Rightarrow> drop n (pending E hs) = []
      | Some hs' \<Rightarrow> responding E hs' \<and> pending E hs' = drop n (pending E hs) \<and> h_handle hs' = h_handle hs \<and>
          (h_file hs' = None \<longleftrightarrow> h_file hs = None) \<and> (m \<longrightarrow> n \<noteq> 0 \<and> pending E hs \<noteq> [])"
    by (auto simp: sends_on_def)
  then show ?thesis by (intro exI [of _ n]) (auto simp: streams_def busy_def split: option.splits)
qed

lemma data_same [simp]:
  "data_rest (hs\<lparr>h_retries := r\<rparr>) = data_rest hs" "data_ok (hs\<lparr>h_retries := r\<rparr>) = data_ok hs"
  "data_rest (hs\<lparr>h_req := q\<rparr>) = data_rest hs" "data_ok (hs\<lparr>h_req := q\<rparr>) = data_ok hs"
  by (simp_all add: data_rest_def data_ok_def cong: option.case_cong prod.case_cong)

lemma with_length_retries: "with_length E (hs\<lparr>h_retries := r\<rparr>) = (with_length E hs)\<lparr>h_retries := r\<rparr>"
  by (simp add: with_length_def get_http_content_length_def set_hdr_def Let_def)

lemma pending_retries [simp]: "pending E (hs\<lparr>h_retries := r\<rparr>) = pending E hs"
  by (simp add: pending_def with_length_retries header_rest_def)

lemma responding_retries: "responding E hs \<Longrightarrow> responding E (hs\<lparr>h_retries := r\<rparr>)"
  by (auto simp: responding_def headers_ok_def with_length_retries)

lemma with_length_req: "with_length E (hs\<lparr>h_req := r\<rparr>) = (with_length E hs)\<lparr>h_req := r\<rparr>"
  by (simp add: with_length_def get_http_content_length_def set_hdr_def Let_def)

lemma pending_req [simp]: "pending E (hs\<lparr>h_req := r\<rparr>) = pending E hs"
  by (simp add: pending_def with_length_req header_rest_def)

lemma responding_req: "responding E hs \<Longrightarrow> responding E (hs\<lparr>h_req := r\<rparr>)"
  by (auto simp: responding_def headers_ok_def with_length_req)

lemma close_conn_spec:
  assumes "c_hs c = Some hs" "h_post_content_len_left hs = 0"
  obtains e c' s' where "http_close_conn E i (c, s) = Some (e, c', s')" "c_queue c' = c_queue c" "c_hs c' = None"
  using http_eof_spec [OF assms, of E i s] by (auto simp: http_eof_def)

lemma step_streams:
  assumes "c_hs c = Some hs" "responding E hs" "busy hs \<or> (\<forall>p err. fst ev \<noteq> Received p err)"
  shows "\<exists>c' s' n. http_step E i ev (c, s) = Some (c', s') \<and> c_queue c' = c_queue c @ take n (pending E hs) \<and>
    streams E c' (busy hs) (drop n (pending E hs)) \<and>
    (fst ev = Acknowledged \<longrightarrow> (c_hs c' = None \<longrightarrow> drop n (pending E hs) = []) \<and>
      (room E i (snd ev) \<longrightarrow> c_hs c' \<noteq> None \<longrightarrow> n \<noteq> 0 \<and> pending E hs \<noteq> []))"
proof -
  obtain e w where ev: "ev = (e, w)" by fastforce
  let ?s = "s\<lparr>lwip_state := w\<rparr>"
  have left: "h_post_content_len_left hs = 0" using assms(2) by (simp add: responding_def)
  show ?thesis
  proof (cases e)
    case (Received p err)
    show ?thesis
    proof (cases "err = ERR_OK \<and> p \<noteq> None")
      case True
      then obtain q where q: "p = Some q" "err = ERR_OK" by auto
      have parse: "http_parse_request E i q hs s1 = Some (ERR_USE, hs, s1)" if "\<not> h_handle hs" for s1
        using that assms(3) by (auto simp: http_parse_request_def busy_def ev Received)
      have "streams E (c\<lparr>c_hs := Some (hs\<lparr>h_req := None\<rparr>)\<rparr>) (busy hs) (pending E hs)" "streams E c (busy hs) (pending E hs)"
        using assms responding_req by (auto simp: streams_def busy_def)
      then show ?thesis using assms(1) left
        by (cases "h_handle hs") (auto simp: ev Received q http_recv_def parse Let_def intro!: exI [of _ 0])
    next
      case False
      obtain e2 c2 s2 where "http_close_conn E i (c, (case p of
          Some q \<Rightarrow> ?s\<lparr>lwip_state := altcp_recved E i (tot_len q) (lwip_state ?s)\<rparr> | None \<Rightarrow> ?s)) = Some (e2, c2, s2)"
        "c_queue c2 = c_queue c" "c_hs c2 = None" by (rule close_conn_spec [OF assms(1) left])
      with False show ?thesis
        by (intro exI [of _ c2] exI [of _ s2])
          (auto simp: ev Received http_recv_def Let_def streams_def split: err_t.splits option.splits intro!: exI [of _ 0])
    qed
  next
    case Acknowledged
    let ?hs = "hs\<lparr>h_retries := 0\<rparr>"
    let ?c = "c\<lparr>c_hs := Some ?hs\<rparr>"
    have ok: "c_hs ?c = Some ?hs" "responding E ?hs" using responding_retries [OF assms(2)] by simp_all
    obtain r c' s' where h: "http_send E i (?c, ?s) = Some (r, c', s')" "sends_on E (room E i (lwip_state ?s)) ?c ?hs c'"
      by (rule http_send_spec [OF ok])
    have "busy ?hs = busy hs" by (simp add: busy_def)
    with sends_on_streams [OF h(2)] assms h(1) show ?thesis by (auto simp: ev Acknowledged http_sent_def)
  next
    case Polled
    let ?hs = "hs\<lparr>h_retries := h_retries hs + 1\<rparr>"
    let ?c = "c\<lparr>c_hs := Some ?hs\<rparr>"
    have ok: "c_hs ?c = Some ?hs" "responding E ?hs" "h_post_content_len_left ?hs = 0"
      using responding_retries [OF assms(2)] left by simp_all
    obtain e2 c2 s2 where cl: "http_close_conn E i (?c, ?s) = Some (e2, c2, s2)" "c_queue c2 = c_queue ?c" "c_hs c2 = None"
      by (rule close_conn_spec [OF ok(1,3)])
    obtain r c' s' where h: "http_send E i (?c, ?s) = Some (r, c', s')" "sends_on E (room E i (lwip_state ?s)) ?c ?hs c'"
      by (rule http_send_spec [OF ok(1,2)])
    have b: "busy ?hs = busy hs" by (simp add: busy_def)
    then have "streams E ?c (busy hs) (pending E hs)" using ok by (simp add: streams_def)
    moreover from sends_on_streams [OF h(2), unfolded b] obtain n where
      "c_queue c' = c_queue c @ take n (pending E hs)" "streams E c' (busy hs) (drop n (pending E hs))" by auto
    ultimately show ?thesis using assms(1) h(1) cl
      by (auto simp: ev Polled http_poll_def Let_def streams_def intro: exI [of _ 0])
  next
    case Failed
    then show ?thesis by (intro exI [of _ "(http_state_free E c)\<lparr>c_open := False\<rparr>"] exI [of _ ?s] exI [of _ 0])
      (auto simp: ev http_err_def http_state_free_def streams_def)
  qed
qed

lemma closed_step:
  assumes "c_hs c = None"
  shows "\<exists>c' s'. http_step E i ev (c, s) = Some (c', s') \<and> c_queue c' = c_queue c \<and> c_hs c' = None"
proof -
  obtain e w where ev: "ev = (e, w)" by fastforce
  have close: "\<exists>c' s'. map_option snd (http_close_conn E i (c, s1)) = Some (c', s') \<and> c_queue c' = c_queue c \<and> c_hs c' = None" for s1
  proof -
    obtain e w where w: "altcp_close E i (lwip_state s1) = (e, w)" by fastforce
    then show ?thesis
      by (simp add: http_close_conn_def http_close_or_abort_conn_def assms http_state_free_def Let_def)
  qed
  show ?thesis
  proof (cases e)
    case (Received p err)
    with close assms show ?thesis by (simp add: ev http_recv_def Let_def split: err_t.split option.split)
  next
    case Polled
    with close assms show ?thesis by (simp add: ev http_poll_def)
  qed (use assms in \<open>simp_all add: ev http_sent_def http_err_def http_state_free_def\<close>)
qed

lemma closed_run:
  assumes "c_hs c = None"
  shows "\<exists>c' s'. http_run E i evs (c, s) = Some (c', s') \<and> c_queue c' = c_queue c \<and> c_hs c' = None"
  using assms
proof (induction evs arbitrary: c s)
  case (Cons ev evs)
  from closed_step [OF Cons.prems, of E i ev s] obtain c1 s1 where
    "http_step E i ev (c, s) = Some (c1, s1)" "c_queue c1 = c_queue c" "c_hs c1 = None" by blast
  with Cons.IH [of c1 s1] show ?case by simp
qed simp

lemma run_streams:
  assumes "c_hs c = Some hs" "responding E hs" "busy hs \<or> (\<forall>ev \<in> set evs. \<forall>p err. fst ev \<noteq> Received p err)"
  shows "\<exists>c' s' n. http_run E i evs (c, s) = Some (c', s') \<and> c_queue c' = c_queue c @ take n (pending E hs) \<and>
    streams E c' (busy hs) (drop n (pending E hs)) \<and>
    ((\<forall>ev \<in> set evs. fst ev = Acknowledged \<and> room E i (snd ev)) \<longrightarrow> length (pending E hs) < length evs \<longrightarrow>
      c_hs c' = None \<and> length (pending E hs) \<le> n)"
  using assms
proof (induction evs arbitrary: c s hs)
  case Nil
  then show ?case by (intro exI [of _ c] exI [of _ s] exI [of _ 0]) (simp add: streams_def)
next
  case (Cons ev evs)
  let ?p = "pending E hs"
  have b: "busy hs \<or> (\<forall>p err. fst ev \<noteq> Received p err)" using Cons.prems(3) by auto
  from step_streams [OF Cons.prems(1,2) b, of i s] obtain c1 s1 n where
    1: "http_step E i ev (c, s) = Some (c1, s1)" "c_queue c1 = c_queue c @ take n ?p" "streams E c1 (busy hs) (drop n ?p)"
      "fst ev = Acknowledged \<longrightarrow> (c_hs c1 = None \<longrightarrow> drop n ?p = []) \<and>
        (room E i (snd ev) \<longrightarrow> c_hs c1 \<noteq> None \<longrightarrow> n \<noteq> 0 \<and> ?p \<noteq> [])"
    by (elim exE conjE) (rule that)
  show ?case
  proof (cases "c_hs c1")
    case None
    from closed_run [OF None, of E i evs s1] obtain c2 s2 where
      2: "http_run E i evs (c1, s1) = Some (c2, s2)" "c_queue c2 = c_queue c1" "c_hs c2 = None" by blast
    with 1 None show ?thesis
      by (intro exI [of _ c2] exI [of _ s2] exI [of _ n]) (auto simp: streams_def)
  next
    case (Some hs1)
    with 1(3) have h: "responding E hs1" "busy hs1 = busy hs" "pending E hs1 = drop n ?p"
      by (simp_all add: streams_def)
    have "busy hs1 \<or> (\<forall>ev \<in> set evs. \<forall>p err. fst ev \<noteq> Received p err)" using Cons.prems(3) h(2) by auto
    from Cons.IH [OF Some h(1) this, of s1, unfolded h(2,3)] obtain c2 s2 k where
      2: "http_run E i evs (c1, s1) = Some (c2, s2)" "c_queue c2 = c_queue c1 @ take k (drop n ?p)"
        "streams E c2 (busy hs) (drop k (drop n ?p))"
        "(\<forall>ev \<in> set evs. fst ev = Acknowledged \<and> room E i (snd ev)) \<longrightarrow> length (drop n ?p) < length evs \<longrightarrow>
          c_hs c2 = None \<and> length (drop n ?p) \<le> k" by (elim exE conjE) (rule that)
    have q: "c_queue c2 = c_queue c @ take (n + k) ?p" by (simp add: 2 1 take_add)
    have "c_hs c2 = None \<and> length ?p \<le> n + k"
      if a: "\<forall>ev \<in> set (ev # evs). fst ev = Acknowledged \<and> room E i (snd ev)" and l: "length ?p < length (ev # evs)"
    proof -
      from 1(4) a Some have "n \<noteq> 0" "?p \<noteq> []" by auto
      then have "length (drop n ?p) < length evs" using l by (cases ?p) auto
      with 2(4) a show ?thesis by auto
    qed
    with 1(1) 2(1,3) q show ?thesis
      by (intro exI [of _ c2] exI [of _ s2] exI [of _ "n + k"]) (simp add: add.commute)
  qed
qed

text \<open>The part \<open>r\<close> of which \<open>n\<close> bytes are in the queue arrives there whole.\<close>

lemma streams_complete:
  assumes "c_queue c = take n r" "streams E c b (drop n r)" "c_hs c = None \<longrightarrow> drop n r = []"
    "\<forall>ev \<in> set evs. fst ev = Acknowledged \<and> room E i (snd ev)" "length r < length evs"
  shows "\<exists>c' s'. http_run E i evs (c, s) = Some (c', s') \<and> c_hs c' = None \<and> c_queue c' = r"
proof (cases "c_hs c")
  case None
  from closed_run [OF None, of E i evs s] assms(1,3) None show ?thesis by auto
next
  case (Some hs)
  with assms(2) have h: "responding E hs" "pending E hs = drop n r" by (simp_all add: streams_def)
  have "busy hs \<or> (\<forall>ev \<in> set evs. \<forall>p err. fst ev \<noteq> Received p err)" using assms(4) by auto
  from run_streams [OF Some h(1) this, of i s, unfolded h(2)] obtain c2 s2 k where
    "http_run E i evs (c, s) = Some (c2, s2)" "c_queue c2 = c_queue c @ take k (drop n r)"
    "(\<forall>ev \<in> set evs. fst ev = Acknowledged \<and> room E i (snd ev)) \<longrightarrow> length (drop n r) < length evs \<longrightarrow>
      c_hs c2 = None \<and> length (drop n r) \<le> k" by (elim exE conjE) (rule that)
  with assms(1,4,5) show ?thesis by auto
qed

end
