(* ===== verification/Httpd_Request_Proofs.thy ===== *)
theory Httpd_Request_Proofs
  imports Httpd_Send_Proofs
begin

text \<open>
  GET requests: which file a URI stands for, what the response is, and that it is sent completely, in a bounded number of
  acknowledgements, or a prefix of it whatever happens.
\<close>

section \<open>The file for a URI\<close>

definition site_ok :: "'w http_env \<Rightarrow> bool" where
  "site_ok E = (\<not> LWIP_HTTPD_CUSTOM_FILES (fs_config E) \<and>
     (\<forall>f \<in> set (fs_root E). rom_file_ok f \<and> length (fd_data f) < 2 ^ 31))"

definition site_file :: "'w http_env \<Rightarrow> bytes \<Rightarrow> fsdata_file option" where
  "site_file E name = find (\<lambda>f. rom_name f = name) (fs_root E)"

definition opened :: "'w http_env \<Rightarrow> bytes option \<Rightarrow> http_state \<Rightarrow> http_state \<Rightarrow> bool" where
  "opened E found hs hs' = (\<exists>fh. hs' = hs\<lparr>h_file_handle := fh\<rparr> \<and>
     (case found of None \<Rightarrow> True
      | Some name \<Rightarrow> \<exists>f. site_file E name = Some f \<and> f_data fh = fd_data f \<and> f_len fh = fd_len f \<and>
          f_flags fh = fd_flags f \<and> fs_bytes_left fh = 0))"

lemma opened_none [simp]: "opened E None hs hs"
  by (auto simp: opened_def intro: exI [of _ "h_file_handle hs"])

lemma opened_trans: "opened E None hs hs1 \<Longrightarrow> opened E found hs1 hs2 \<Longrightarrow> opened E found hs hs2"
  by (auto simp: opened_def)

lemma open_file_site:
  assumes "site_ok E" "0 \<notin> set name"
  obtains hs' where "open_file E hs name = Some (site_file E name \<noteq> None, hs')"
    "opened E (if site_file E name = None then None else Some name) hs hs'"
proof -
  have nul: "\<forall>f \<in> set (fs_root E). 0 \<in> set (fd_name f)" using assms(1) by (auto simp: site_ok_def rom_file_ok_def)
  have "\<not> LWIP_HTTPD_CUSTOM_FILES (fs_config E)" using assms(1) by (simp add: site_ok_def)
  then have o: "fs_open (fs_config E) (fs_root E) (Some h) (Some name) = (case site_file E name of
      None \<Rightarrow> Some (ERR_VAL, Some h) | Some f \<Rightarrow> Some (ERR_OK, Some (open_entry (fs_config E) h name f)))" for h
    by (simp add: fs_open_def site_file_def open_loop_find [OF nul assms(2)] split: option.split)
  show thesis
  proof (cases "site_file E name")
    case None
    with o have "open_file E hs name = Some (site_file E name \<noteq> None, hs)" by (simp add: open_file_def)
    with None show thesis using that by simp
  next
    case (Some f)
    let ?fh = "open_entry (fs_config E) (h_file_handle hs) name f"
    from o Some have "open_file E hs name = Some (site_file E name \<noteq> None, hs\<lparr>h_file_handle := ?fh\<rparr>)"
      by (simp add: open_file_def)
    moreover have "opened E (Some name) hs (hs\<lparr>h_file_handle := ?fh\<rparr>)"
      using Some by (auto simp: opened_def fs_bytes_left_def)
    ultimately show thesis using that Some by simp
  qed
qed

abbreviation (input) exists_in :: "'w http_env \<Rightarrow> bytes \<Rightarrow> bool" where
  "exists_in E name \<equiv> site_file E name \<noteq> None"

lemma open_first_site:
  assumes "site_ok E" "\<forall>n \<in> set names. 0 \<notin> set n"
  shows "\<exists>hs'. open_first E hs names = Some (find (exists_in E) names, hs') \<and> opened E (find (exists_in E) names) hs hs'"
  using assms(2)
proof (induction names arbitrary: hs)
  case Nil
  show ?case by simp
next
  case (Cons n names)
  obtain hs1 where o: "open_file E hs n = Some (site_file E n \<noteq> None, hs1)"
    "opened E (if site_file E n = None then None else Some n) hs hs1"
    using open_file_site [OF assms(1), of n hs] Cons.prems by auto
  show ?case
  proof (cases "site_file E n = None")
    case True
    with Cons.IH [of hs1] Cons.prems o show ?thesis by (auto intro: opened_trans)
  next
    case False
    with o show ?thesis by auto
  qed
qed

text \<open>The names a directory stands for, cut to the length of their buffer.\<close>

definition directory_names :: "bytes \<Rightarrow> bytes list" where
  "directory_names uri = map (\<lambda>n. take LWIP_HTTPD_URI_BUF_LEN (butlast uri @ bytes_of n)) httpd_default_filenames"

definition buf_ok :: "bytes \<Rightarrow> bytes \<Rightarrow> bool" where
  "buf_ok dir buf = (length buf = 64 \<and> take (length dir) buf = dir \<and> length dir \<le> 63 \<and> (length dir = 63 \<longrightarrow> buf ! 63 = 0))"

lemma default_names_ok: "n \<in> set httpd_default_filenames \<Longrightarrow> 0 \<notin> set (bytes_of n) \<and> length n \<le> 12 \<and> n \<noteq> []"
  by (auto simp: httpd_default_filenames_def bytes_of_def)

lemma default_name_spec:
  assumes "buf_ok dir buf" "0 \<notin> set dir" "0 \<notin> set name" "dir = [] \<longrightarrow> length name \<le> 63"
  shows "\<exists>buf'. default_name (length dir) name buf = Some (take 63 (dir @ name), buf') \<and> buf_ok dir buf'"
proof (cases "dir = []")
  case True
  with assms show ?thesis by (simp add: default_name_def)
next
  case d: False
  have len: "length buf = 64" "take (length dir) buf = dir" "length dir \<le> 63" using assms(1) by (simp_all add: buf_ok_def)
  show ?thesis
  proof (cases "length dir = 63")
    case True
    then have "buf ! 63 = 0" using assms(1) by (simp add: buf_ok_def)
    moreover have "drop 63 buf = buf ! 63 # drop (Suc 63) buf" by (rule Cons_nth_drop_Suc [symmetric]) (simp add: len)
    ultimately have "drop 63 buf = [0]" using len by simp
    then have "buf = dir @ 0 # []" using len(2) True append_take_drop_id [of 63 buf] by simp
    then have "cstr_at buf 0 = Some dir" using cstr_at_append [OF assms(2), of "[]"] by simp
    then show ?thesis using True assms(1) d by (simp add: default_name_def LWIP_HTTPD_URI_BUF_LEN_def)
  next
    case False
    let ?k = "min (64 - length dir - 1) (length name)"
    let ?buf = "dir @ take ?k name @ drop (length dir + ?k) buf"
    let ?buf' = "dir @ take ?k name @ 0 # drop (length dir + ?k + 1) buf"
    have k: "length dir + ?k < 64" using len False by auto
    have c: "mem_cpy buf (length dir) (take ?k name) = Some ?buf" using k len by (simp add: mem_cpy_def)
    have "drop (length dir + ?k) buf = buf ! (length dir + ?k) # drop (Suc (length dir + ?k)) buf"
      using k len by (simp add: Cons_nth_drop_Suc)
    then have s: "mem_set ?buf (length dir + ?k) 0 = Some ?buf'" using k len
      by (simp add: mem_set_def list_update_append)
    have n: "take ?k name = take (63 - length dir) name" using len False by (simp add: min_def)
    have "0 \<notin> set (dir @ take ?k name)" using assms(2,3) by (auto dest: in_set_takeD)
    from cstr_at_append [OF this, of "drop (length dir + ?k + 1) buf"]
    have t: "cstr_at ?buf' 0 = Some (dir @ take ?k name)" by simp
    have t63: "take 63 (dir @ name) = dir @ take ?k name" using n len by simp
    have "default_name (length dir) name buf = Some (take 63 (dir @ name), ?buf')"
      using d False len c s t unfolding t63 by (simp add: default_name_def LWIP_HTTPD_URI_BUF_LEN_def Let_def)
    moreover have "buf_ok dir ?buf'" using len k False by (simp add: buf_ok_def)
    ultimately show ?thesis by blast
  qed
qed

lemma default_loop_site:
  assumes "site_ok E" "0 \<notin> set dir" "\<forall>n \<in> set names. 0 \<notin> set (bytes_of n) \<and> length n \<le> 63" "buf_ok dir buf"
  shows "\<exists>hs' buf'. default_loop E (length dir) names hs buf =
      Some (find (exists_in E) (map (\<lambda>n. take 63 (dir @ bytes_of n)) names), hs', buf') \<and> length buf' = 64 \<and>
    opened E (find (exists_in E) (map (\<lambda>n. take 63 (dir @ bytes_of n)) names)) hs hs'"
  using assms(3,4)
proof (induction names arbitrary: hs buf)
  case Nil
  then show ?case by (simp add: buf_ok_def)
next
  case (Cons n names)
  let ?n = "take 63 (dir @ bytes_of n)"
  obtain buf1 where d: "default_name (length dir) (bytes_of n) buf = Some (?n, buf1)" "buf_ok dir buf1"
    using default_name_spec [OF Cons.prems(2) assms(2), of "bytes_of n"] Cons.prems(1) by auto
  have "0 \<notin> set ?n" using assms(2) Cons.prems(1) by (auto dest!: in_set_takeD)
  then obtain hs1 where o: "open_file E hs ?n = Some (site_file E ?n \<noteq> None, hs1)"
    "opened E (if site_file E ?n = None then None else Some ?n) hs hs1"
    using open_file_site [OF assms(1), of ?n hs] by auto
  show ?case
  proof (cases "site_file E ?n = None")
    case True
    have p: "\<forall>n \<in> set names. 0 \<notin> set (bytes_of n) \<and> length n \<le> 63" using Cons.prems by simp
    from Cons.IH [OF p d(2), of hs1] d(1) o True show ?thesis by (auto intro: opened_trans simp del: take_append)
  next
    case False
    with o d show ?thesis by (auto simp: buf_ok_def simp del: take_append)
  qed
qed

text \<open>The names that are tried for a URI, in order, and the one that is served.\<close>

definition candidates :: "bytes \<Rightarrow> bytes list" where
  "candidates uri = (if uri \<noteq> [] \<and> last uri = 0x2F then directory_names uri else []) @
     [takeWhile (\<lambda>c. c \<noteq> 0x3F) uri, bytes_of ''/404.html'', bytes_of ''/404.htm'', bytes_of ''/404.shtml'']"

definition served :: "'w http_env \<Rightarrow> bytes \<Rightarrow> bytes option" where
  "served E uri = find (exists_in E) (candidates uri)"

lemma find_append: "find P (xs @ ys) = (case find P xs of None \<Rightarrow> find P ys | Some x \<Rightarrow> Some x)"
  by (induction xs) auto

lemma bind_Some_map: "Option.bind x (\<lambda>a. Some (f a)) = map_option f x"
  by (cases x) simp_all

lemma find_file_site:
  assumes "site_ok E" "0 \<notin> set uri" "length (http_uri_buf s) = 64"
  shows "\<exists>hs1 s'. http_find_file E hs uri False is_09 s =
      map_option (\<lambda>hs'. (ERR_OK, hs', s')) (http_init_file E hs1 (served E uri \<noteq> None) is_09 (served E uri)) \<and>
    opened E (served E uri) hs hs1 \<and> (\<exists>buf. s' = s\<lparr>http_uri_buf := buf\<rparr> \<and> length buf = 64)"
proof -
  let ?dir = "uri \<noteq> [] \<and> last uri = 0x2F" and ?names = "if uri \<noteq> [] \<and> last uri = 0x2F then directory_names uri else []"
  let ?path = "takeWhile (\<lambda>c. c \<noteq> 0x3F) uri"
  let ?errs = "[bytes_of ''/404.html'', bytes_of ''/404.htm'', bytes_of ''/404.shtml'']"
  define c where "c = min 63 (length uri - 1)"
  have first: "\<exists>hs1 buf1. open_directory E hs uri False (http_uri_buf s) = Some (find (exists_in E) ?names, hs1, buf1) \<and>
      length buf1 = 64 \<and> opened E (find (exists_in E) ?names) hs hs1"
  proof (cases ?dir)
    case False
    then show ?thesis using assms(3) by (auto simp: open_directory_def)
  next
    case True
    let ?d = "take c uri"
    have d: "?d = take 63 (butlast uri)" "length ?d = c" "c \<le> 63" using True
      by (cases uri; auto simp: c_def butlast_conv_take min_def)+
    have nul: "0 \<notin> set ?d" using assms(2) by (auto dest: in_set_takeD)
    let ?buf = "?d @ 0 # drop (Suc c) (http_uri_buf s)"
    have b1: "mem_cpy (http_uri_buf s) 0 ?d = Some (?d @ drop c (http_uri_buf s))"
      using d(2,3) assms(3) by (simp add: mem_cpy_def)
    have "drop c (http_uri_buf s) = http_uri_buf s ! c # drop (Suc c) (http_uri_buf s)"
      using d(3) assms(3) by (simp add: Cons_nth_drop_Suc)
    then have b2: "mem_set (?d @ drop c (http_uri_buf s)) c 0 = Some ?buf"
      using d(2) by (simp add: mem_set_def list_update_append)
    have ok: "buf_ok ?d (if 0 < c then ?buf else http_uri_buf s)"
      using d(2,3) assms(3) by (simp add: buf_ok_def nth_append)
    have names: "map (\<lambda>n. take 63 (?d @ bytes_of n)) httpd_default_filenames = directory_names uri"
      unfolding d(1) directory_names_def LWIP_HTTPD_URI_BUF_LEN_def by (simp add: min_def)
    have "\<forall>n \<in> set httpd_default_filenames. 0 \<notin> set (bytes_of n) \<and> length n \<le> 63"
      using default_names_ok by fastforce
    note l = default_loop_site [OF assms(1) nul this ok, of hs, unfolded names d(2)]
    show ?thesis
    proof (cases "0 < c")
      case c: True
      with l True b1 b2 show ?thesis unfolding open_directory_def Let_def LWIP_HTTPD_URI_BUF_LEN_def c_def [symmetric] by simp
    next
      case c: False
      with l True show ?thesis unfolding open_directory_def Let_def LWIP_HTTPD_URI_BUF_LEN_def c_def [symmetric] by simp
    qed
  qed
  then obtain hs1 buf1 where f1: "open_directory E hs uri False (http_uri_buf s) = Some (find (exists_in E) ?names, hs1, buf1)"
      "length buf1 = 64" "opened E (find (exists_in E) ?names) hs hs1" by blast
  let ?s = "s\<lparr>http_uri_buf := buf1\<rparr>"
  note start = http_find_file_def [of E hs uri False is_09 s, unfolded f1(1)]
  show ?thesis
  proof (cases "find (exists_in E) ?names")
    case (Some name)
    then have "served E uri = Some name" by (simp add: served_def candidates_def find_append)
    with start Some f1 show ?thesis
      by (intro exI [of _ hs1] exI [of _ ?s]) (auto simp: open_path_def bind_Some_map Let_def split: option.split)
  next
    case None
    have "0 \<notin> set ?path" using assms(2) by (auto dest: set_takeWhileD)
    then obtain hs2 where p: "open_file E hs1 ?path = Some (site_file E ?path \<noteq> None, hs2)"
      "opened E (if site_file E ?path = None then None else Some ?path) hs1 hs2"
      using open_file_site [OF assms(1), of ?path hs1] by auto
    have h2: "opened E (if site_file E ?path = None then None else Some ?path) hs hs2"
      using opened_trans [OF _ p(2)] f1(3) None by simp
    have errs: "\<exists>hs'. http_get_404_file E hs = Some (find (exists_in E) ?errs, hs') \<and> opened E (find (exists_in E) ?errs) hs hs'" for hs
      unfolding http_get_404_file_def by (rule open_first_site [OF assms(1)]) (simp add: bytes_of_def)
    show ?thesis
    proof (cases "site_file E ?path = None")
      case False
      then have "served E uri = Some ?path" using None by (simp add: served_def candidates_def find_append)
      with start None p(1) False h2 f1(2) show ?thesis
        by (intro exI [of _ hs2] exI [of _ ?s]) (auto simp: open_path_def bind_Some_map Let_def split: option.split)
    next
      case True
      have sv: "served E uri = find (exists_in E) ?errs" using None True by (simp add: served_def candidates_def find_append)
      obtain hs3 where 3: "http_get_404_file E hs2 = Some (served E uri, hs3)" "opened E (served E uri) hs2 hs3"
        using errs [of hs2] unfolding sv by blast
      obtain hs4 where 4: "http_get_404_file E hs3 = Some (served E uri, hs4)" "opened E (served E uri) hs3 hs4"
        using errs [of hs3] unfolding sv by blast
      have o3: "opened E (served E uri) hs hs3" using opened_trans [OF _ 3(2)] h2 True by simp
      show ?thesis
      proof (cases "served E uri")
        case n: None
        have "opened E None hs hs4" using opened_trans [of E hs hs3] o3 4(2) n by simp
        with start None p(1) True 3(1) 4(1) f1(2) n show ?thesis
          by (intro exI [of _ hs4] exI [of _ ?s]) (auto simp: open_path_def bind_Some_map Let_def split: option.split)
      next
        case (Some name)
        with start None p(1) True 3(1) f1(2) o3 show ?thesis
          by (intro exI [of _ hs3] exI [of _ ?s]) (auto simp: open_path_def bind_Some_map Let_def split: option.split)
      qed
    qed
  qed
qed

section \<open>The response\<close>

definition content_length_field :: "'w http_env \<Rightarrow> fsdata_file \<Rightarrow> bytes" where
  "content_length_field E f =
     (let digits = lwip_itoa E LWIP_HTTPD_MAX_CONTENT_LEN_SIZE (fd_len f) in
      if fd_flags f AND FS_FILE_FLAGS_HEADER_PERSISTENT \<noteq> 0 \<and> length digits \<le> 9
      then header_text E HTTP_HDR_CONTENT_LENGTH @ digits @ bytes_of CRLF else [])"

text \<open>What is sent for the file found, or for none.\<close>

definition response :: "'w http_env \<Rightarrow> bytes option \<Rightarrow> bytes" where
  "response E found =
     (case found of
        None \<Rightarrow> header_text E HTTP_HDR_NOT_FOUND @ header_text E HTTP_HDR_SERVER @ header_text E DEFAULT_404_HTML
      | Some name \<Rightarrow>
          (case site_file E name of
             None \<Rightarrow> []
           | Some f \<Rightarrow>
               (if fd_flags f AND FS_FILE_FLAGS_HEADER_INCLUDED \<noteq> 0 then []
                else header_text E (status_line name) @ header_text E HTTP_HDR_SERVER @ content_length_field E f @
                  bytes_of (content_type_header E name)) @ fd_data f))"

lemma content_type_nonempty [simp]: "bytes_of (content_type_header E uri) \<noteq> []" "[] \<noteq> bytes_of (content_type_header E uri)"
proof -
  have "snd (g_psHTTPHeaders ! n) \<noteq> []" if "n < NUM_HTTP_HEADERS" for n
  proof -
    obtain ext ct where p: "g_psHTTPHeaders ! n = (ext, ct)" by fastforce
    then have "(ext, ct) \<in> set g_psHTTPHeaders" using nth_mem [of n g_psHTTPHeaders] that by (simp add: NUM_HTTP_HEADERS_def)
    with content_types_end obtain str where "ct = str @ CRLF @ CRLF" by blast
    with p show ?thesis by (simp add: CRLF_def)
  qed
  then have "content_type_header E uri \<noteq> []"
    by (auto simp: content_type_header_def Let_def HTTP_HDR_APP_def HTTP_HDR_DEFAULT_TYPE_def HTTP_CONTENT_TYPE_def)
  then show "bytes_of (content_type_header E uri) \<noteq> []" "[] \<noteq> bytes_of (content_type_header E uri)"
    by (auto simp: bytes_of_def)
qed

lemma six_none: "replicate NUM_FILE_HDR_STRINGS None = [None, None, None, None, None, None]"
  by (simp add: NUM_FILE_HDR_STRINGS_def eval_nat_numeral)

lemma get_http_headers_fresh:
  assumes "h_hdrs hs = replicate NUM_FILE_HDR_STRINGS None"
  shows "get_http_headers E hs (Some uri) = hs\<lparr>h_hdrs := [Some (header_text E (status_line uri)),
      Some (header_text E HTTP_HDR_SERVER), None, None, Some (bytes_of (content_type_header E uri)), None],
      h_hdr_index := 0, h_hdr_pos := 0\<rparr>"
    "get_http_headers E hs None = hs\<lparr>h_hdrs := [Some (header_text E HTTP_HDR_NOT_FOUND),
      Some (header_text E HTTP_HDR_SERVER), None, None, None, Some (header_text E DEFAULT_404_HTML)],
      h_hdr_index := 0, h_hdr_pos := 0\<rparr>"
proof -
  have h: "h_hdrs hs = [None, None, None, None, None, None]" using assms by (simp only: six_none)
  then show "get_http_headers E hs (Some uri) = hs\<lparr>h_hdrs := [Some (header_text E (status_line uri)),
      Some (header_text E HTTP_HDR_SERVER), None, None, Some (bytes_of (content_type_header E uri)), None],
      h_hdr_index := 0, h_hdr_pos := 0\<rparr>"
    by (simp add: get_http_headers_def set_hdr_def Let_def httpd_idx eval_nat_numeral)
  from h show "get_http_headers E hs None = hs\<lparr>h_hdrs := [Some (header_text E HTTP_HDR_NOT_FOUND),
      Some (header_text E HTTP_HDR_SERVER), None, None, None, Some (header_text E DEFAULT_404_HTML)],
      h_hdr_index := 0, h_hdr_pos := 0\<rparr>"
    by (simp add: get_http_headers_def set_hdr_def Let_def httpd_idx eval_nat_numeral)
qed

lemma content_length_headers:
  assumes "h_hdrs hs = [a, b, None, None, x, y]" "h_hdr_index hs = 0" "h_hdr_pos hs = 0" "h_handle hs"
    "f_flags (h_file_handle hs) = fd_flags f" "f_len (h_file_handle hs) = fd_len f"
  shows "header_rest (with_length E hs) = opt_bytes a @ opt_bytes b @ content_length_field E f @ opt_bytes x @ opt_bytes y"
  using assms by (simp add: with_length_def get_http_content_length_def Let_def set_hdr_def header_rest_def httpd_idx
      content_length_field_def LWIP_HTTPD_MAX_CONTENT_LEN_SIZE_def LWIP_HTTPD_MAX_CONTENT_LEN_OFFSET_def)

lemma init_file_response:
  assumes "site_ok E" "opened E found hs0 hs" "h_hdrs hs0 = replicate NUM_FILE_HDR_STRINGS None"
    "h_post_content_len_left hs0 = 0" "h_hdr_index hs0 = NUM_FILE_HDR_STRINGS" "h_hdr_pos hs0 = 0"
  shows "\<exists>hs'. http_init_file E hs (found \<noteq> None) False found = Some hs' \<and> responding E hs' \<and>
    pending E hs' = response E found \<and> busy hs' = (found \<noteq> None) \<and> h_post_content_len_left hs' = 0"
proof (cases found)
  case None
  from assms(2) obtain fh where hs: "hs = hs0\<lparr>h_file_handle := fh\<rparr>" by (auto simp: opened_def)
  define hs' where "hs' = get_http_headers E (hs\<lparr>h_handle := False, h_file := None, h_left := 0, h_retries := 0\<rparr>) None"
  have h: "h_hdrs hs' = [Some (header_text E HTTP_HDR_NOT_FOUND), Some (header_text E HTTP_HDR_SERVER), None, None, None,
      Some (header_text E DEFAULT_404_HTML)]" "h_hdr_index hs' = 0" "h_hdr_pos hs' = 0" "\<not> h_handle hs'"
    "h_file hs' = None" "h_left hs' = 0" "h_post_content_len_left hs' = 0"
    using assms(3,4) hs by (simp_all add: hs'_def get_http_headers_fresh)
  have wl: "with_length E hs' = hs'" using h(4) by (simp add: with_length_def get_http_content_length_def)
  have "http_init_file E hs (found \<noteq> None) False found = Some hs'" by (simp add: http_init_file_def None hs'_def)
  moreover have "pending E hs' = response E found"
    by (simp add: pending_def wl header_rest_def data_rest_def h response_def None)
  moreover have "responding E hs'" by (simp add: responding_def headers_ok_def data_ok_def h httpd_idx)
  ultimately show ?thesis using h by (simp add: busy_def None)
next
  case (Some name)
  from assms(2) Some obtain fh f where hs: "hs = hs0\<lparr>h_file_handle := fh\<rparr>" and f: "site_file E name = Some f"
    "f_data fh = fd_data f" "f_len fh = fd_len f" "f_flags fh = fd_flags f" "fs_bytes_left fh = 0"
    by (auto simp: opened_def)
  have "f \<in> set (fs_root E)" using f(1) by (auto simp: site_file_def find_Some_iff)
  then have len: "fd_len f = int (length (fd_data f))" "length (fd_data f) < 2 ^ 31"
    using assms(1) by (auto simp: site_ok_def rom_file_ok_def)
  then have u: "unat (word_of_nat (length (fd_data f)) :: u32) = length (fd_data f)" by (intro unat_of_nat_u32) simp
  show ?thesis
  proof (cases "fd_flags f AND FS_FILE_FLAGS_HEADER_INCLUDED = 0")
    case False
    define hs' where "hs' = hs\<lparr>h_handle := True, h_file := Some (ROM (fd_data f), 0), h_left := of_int (fd_len f),
      h_retries := 0\<rparr>"
    have h: "h_hdrs hs' = replicate NUM_FILE_HDR_STRINGS None" "h_hdr_index hs' = NUM_FILE_HDR_STRINGS" "h_hdr_pos hs' = 0"
      "h_handle hs'" "h_file_handle hs' = fh" "h_file hs' = Some (ROM (fd_data f), 0)"
      "unat (h_left hs') = length (fd_data f)" "h_post_content_len_left hs' = 0"
      using assms(3-6) hs len(1) u by (simp_all add: hs'_def)
    have wl: "with_length E hs' = hs'" by (simp add: with_length_def h)
    have "http_init_file E hs (found \<noteq> None) False found = Some hs'"
      using False f len by (simp add: http_init_file_def Some hs hs'_def Let_def)
    moreover have "pending E hs' = response E found"
      using False f(1) by (simp add: pending_def wl header_rest_def data_rest_def h response_def Some)
    moreover have "responding E hs'" using f(5) by (simp add: responding_def headers_ok_def data_ok_def h wl)
    ultimately show ?thesis using h(4,8) by (simp add: busy_def Some)
  next
    case True
    define hs' where "hs' = get_http_headers E (hs\<lparr>h_handle := True, h_file := Some (ROM (fd_data f), 0),
      h_left := of_int (fd_len f), h_retries := 0\<rparr>) (Some name)"
    have h: "h_hdrs hs' = [Some (header_text E (status_line name)), Some (header_text E HTTP_HDR_SERVER), None, None,
        Some (bytes_of (content_type_header E name)), None]" "h_hdr_index hs' = 0" "h_hdr_pos hs' = 0" "h_handle hs'"
      "h_file_handle hs' = fh" "h_file hs' = Some (ROM (fd_data f), 0)" "unat (h_left hs') = length (fd_data f)"
      "h_post_content_len_left hs' = 0"
      using assms(3,4) hs len(1) u by (simp_all add: hs'_def get_http_headers_fresh)
    have init: "http_init_file E hs (found \<noteq> None) False found = Some hs'"
      using True f len by (simp add: http_init_file_def Some hs hs'_def Let_def)
    have "header_rest (with_length E hs') = header_text E (status_line name) @ header_text E HTTP_HDR_SERVER @
        content_length_field E f @ bytes_of (content_type_header E name)"
      using content_length_headers [OF h(1-4), where E = E and f = f] h(5) f(3,4) by simp
    moreover have "data_rest hs' = fd_data f" by (simp add: data_rest_def h)
    ultimately have "pending E hs' = response E found" using True f(1) by (simp add: pending_def response_def Some)
    moreover have "responding E hs'" using f(5) by (simp add: responding_def headers_ok_def data_ok_def h httpd_idx)
    ultimately show ?thesis using init h(4,8) by (simp add: busy_def Some)
  qed
qed

section \<open>Requests\<close>

text \<open>
  What \<^verbatim>\<open>lwip_strnstr\<close> does: the first occurrence of a non-empty string within the first \<open>n\<close> bytes, and before the first NUL.
\<close>

fun first_match :: "bytes \<Rightarrow> bytes \<Rightarrow> nat \<Rightarrow> nat option" where
  "first_match [] t n = None"
| "first_match (x # xs) t n =
     (if x = 0 \<or> n < length t then None
      else if take (length t) (x # xs) = t then Some 0
      else map_option Suc (first_match xs t (n - 1)))"

definition strnstr_ok :: "'w http_env \<Rightarrow> bool" where
  "strnstr_ok E = (\<forall>b t n. t \<noteq> [] \<longrightarrow> lwip_strnstr E b t n = first_match b t n)"

lemma first_match_append: "n \<le> length b \<Longrightarrow> t \<noteq> [] \<Longrightarrow> first_match (b @ c) t n = first_match b t n"
proof (induction b arbitrary: n)
  case Nil
  then show ?case by (cases c) auto
next
  case (Cons x b)
  show ?case
  proof (cases "x = 0 \<or> n < length t")
    case False
    then have "length t \<le> length (x # b)" using Cons.prems by simp
    then have "take (length t) ((x # b) @ c) = take (length t) (x # b)" by (simp only: take_append) simp
    with False Cons.IH [of "n - 1"] Cons.prems show ?thesis by auto
  qed auto
qed

lemma first_match_char:
  assumes "c \<notin> set xs" "0 \<notin> set xs" "c \<noteq> 0" "length xs < n"
  shows "first_match (xs @ c # ys) [c] n = Some (length xs)"
  using assms
proof (induction xs arbitrary: n)
  case (Cons x xs)
  then show ?case by (cases n) auto
qed auto

lemma first_match_shorter:
  assumes "first_match b (t @ t') n = Some k" "t \<noteq> []"
  shows "first_match b t n \<noteq> None"
  using assms
proof (induction b arbitrary: n k)
  case (Cons x b)
  show ?case
  proof (cases "take (length (t @ t')) (x # b) = t @ t'")
    case True
    have "take (length t) (x # b) = take (length t) (take (length (t @ t')) (x # b))" by (simp only: take_take) simp
    also have "\<dots> = t" by (simp only: True) simp
    finally have "take (length t) (x # b) = t" .
    with Cons.prems show ?thesis by (auto split: if_splits)
  next
    case False
    with Cons.prems obtain k' where "first_match b (t @ t') (n - 1) = Some k'" by (auto split: if_splits)
    with Cons.IH Cons.prems show ?thesis by (auto split: if_splits)
  qed
qed simp

lemma first_match_length: "first_match b t n = Some k \<Longrightarrow> k + length t \<le> n"
proof (induction b arbitrary: n k)
  case (Cons x b)
  show ?case
  proof (cases "take (length t) (x # b) = t")
    case True
    with Cons.prems show ?thesis by (auto split: if_splits)
  next
    case False
    with Cons.prems obtain k' where k: "first_match b t (n - 1) = Some k'" "k = Suc k'" "\<not> n < length t"
      by (auto split: if_splits)
    have "t \<noteq> []" using False by auto
    with Cons.IH [OF k(1)] k show ?thesis by (cases n) auto
  qed
qed simp

definition CRLFCRLF :: bytes where "CRLFCRLF = bytes_of (CRLF @ CRLF)"

lemma parse_host_append:
  assumes "strnstr_ok E"
  shows "parse_host E (b @ c) (length b) = parse_host E b (length b)"
proof -
  have n: "bytes_of ''Host: '' \<noteq> []" "bytes_of CRLF \<noteq> []" by (simp_all add: bytes_of_def CRLF_def)
  note m = assms [unfolded strnstr_ok_def, rule_format]
  show ?thesis
  proof (cases "first_match b (bytes_of ''Host: '') (length b)")
    case None
    then show ?thesis by (simp add: parse_host_def m [OF n(1)] first_match_append [OF order_refl n(1)])
  next
    case (Some h)
    then have h: "h + 6 \<le> length b" using first_match_length [OF Some] by (simp add: bytes_of_def)
    then have d: "drop (h + 6) (b @ c) = drop (h + 6) b @ c" by simp
    have f: "first_match (drop (h + 6) b @ c) (bytes_of CRLF) (length b - (h + 6)) =
        first_match (drop (h + 6) b) (bytes_of CRLF) (length b - (h + 6))"
      by (rule first_match_append [OF _ n(2)]) simp
    show ?thesis
    proof (cases "first_match (drop (h + 6) b) (bytes_of CRLF) (length b - (h + 6))")
      case None
      then show ?thesis using Some
        by (simp add: parse_host_def m [OF n(1)] m [OF n(2)] first_match_append [OF order_refl n(1)] d f del: drop_append)
    next
      case k: (Some k)
      then have "k + 2 \<le> length b - (h + 6)" using first_match_length [OF k] by simp
      then have "min 31 k \<le> length (drop (h + 6) b)" by simp
      then have "take (min 31 k) (drop (h + 6) b @ c) = take (min 31 k) (drop (h + 6) b)" by simp
      then show ?thesis using Some k
        by (simp add: parse_host_def m [OF n(1)] m [OF n(2)] first_match_append [OF order_refl n(1)] d f Let_def
            del: drop_append take_append)
    qed
  qed
qed

definition get_request :: "bytes \<Rightarrow> bytes \<Rightarrow> bytes" where
  "get_request uri rest = bytes_of ''GET '' @ uri @ 0x20 # rest"

lemma get_request_facts:
  "take 4 (get_request uri rest @ c) = bytes_of ''GET ''" "drop 4 (get_request uri rest @ c) = uri @ 0x20 # rest @ c"
  "length (get_request uri rest) = length uri + length rest + 5"
  by (simp_all add: get_request_def bytes_of_def)

lemma parse_get:
  assumes "strnstr_ok E" "0 \<notin> set uri" "0x20 \<notin> set uri"
    "first_match (get_request uri rest) CRLFCRLF (length (get_request uri rest)) \<noteq> None"
    "parse_host E (get_request uri rest) (length (get_request uri rest)) = Some host" "host_name_matches E s host"
  shows "parse_data E i hs chain (get_request uri rest @ c) (length (get_request uri rest)) s =
    map_option Some (http_find_file E hs uri False False s)"
proof -
  let ?r = "get_request uri rest" and ?d = "get_request uri rest @ c" and ?n = "length (get_request uri rest)"
  note m = assms(1) [unfolded strnstr_ok_def, rule_format]
  have ne: "bytes_of CRLF \<noteq> []" "bytes_of (CRLF @ CRLF) \<noteq> []" "bytes_of '' '' \<noteq> []" by (simp_all add: bytes_of_def CRLF_def)
  have ff: "first_match ?d (bytes_of (CRLF @ CRLF)) ?n \<noteq> None"
    using assms(4) by (simp add: first_match_append [OF order_refl ne(2)] CRLFCRLF_def del: bytes_of_append)
  then have f: "first_match ?d (bytes_of CRLF) ?n \<noteq> None"
    using first_match_shorter [of ?d "bytes_of CRLF" "bytes_of CRLF" ?n] ne(1) by auto
  have n: "MIN_REQ_LEN \<le> ?n"
  proof -
    obtain h l where "first_match ?r (bytes_of ''Host: '') ?n = Some h"
      "first_match (drop (h + 6) ?r) (bytes_of CRLF) (?n - (h + 6)) = Some l"
      using assms(5) m ne(1) by (auto simp: parse_host_def bind_eq_Some_conv bytes_of_def Let_def)
    then have "h + 6 \<le> ?n" "l + 2 \<le> ?n - (h + 6)"
      using first_match_length [of ?r] first_match_length [of "drop (h + 6) ?r"] by fastforce+
    then show ?thesis by (simp add: MIN_REQ_LEN_def)
  qed
  have meth: "parse_method ?d = Some (3, False)" using get_request_facts(1) [of uri rest "[]"]
    by (simp add: parse_method_def get_request_facts)
  have host: "parse_host E ?d ?n = Some host" using parse_host_append [OF assms(1)] assms(5) by simp
  have blank: "first_match (drop 4 ?d) (bytes_of '' '') (?n - 4) = Some (length uri)"
    unfolding get_request_facts using first_match_char [of "0x20" uri "?n - 4" "rest @ c"] assms(2,3)
    by (simp add: get_request_facts bytes_of_def)
  let ?d1 = "?d[3 := 0]" and ?d2 = "(?d[3 := 0])[4 + length uri := 0]"
  have d: "?d = bytes_of ''GET '' @ uri @ 0x20 # rest @ c" by (simp add: get_request_def)
  have "?d2 = bytes_of ''GET'' @ 0 # uri @ 0 # rest @ c"
    unfolding d by (simp add: bytes_of_def list_update_append eval_nat_numeral)
  then have cs: "cstr_at ?d2 4 = Some uri"
    using assms(2) by (simp add: cstr_at_def bytes_of_def takeWhile_nul)
  have set: "mem_set ?d 3 0 = Some ?d1" "mem_set ?d1 (4 + length uri) 0 = Some ?d2"
    by (simp_all add: mem_set_def get_request_facts)
  obtain k where k: "first_match ?d (bytes_of (CRLF @ CRLF)) ?n = Some k" using ff by blast
  have "parse_uri E i hs chain ?d ?n 3 False s = map_option Some (http_find_file E hs uri False False s)"
    using blank k set cs m ne
    by (simp add: parse_uri_def Let_def bind_Some_map del: bytes_of_append drop_append)
  then show ?thesis using f n meth host assms(6) m [OF ne(1)] by (simp add: parse_data_def)
qed

text \<open>A connection that was just accepted.\<close>

definition new_conn :: conn where
  "new_conn = \<lparr>c_hs = Some http_state_init, c_poll = HTTPD_POLL_INTERVAL, c_open = True, c_queue = []\<rparr>"

lemma new_state [simp]: "\<not> h_handle http_state_init" "h_file http_state_init = None" "h_req http_state_init = None"
  "h_post_content_len_left http_state_init = 0"
  by (simp_all add: http_state_init_def)

text \<open>A connection with the beginning of a request, or none.\<close>

definition waiting_conn :: "pbufs option \<Rightarrow> conn" where
  "waiting_conn r = new_conn\<lparr>c_hs := Some (http_state_init\<lparr>h_req := r\<rparr>)\<rparr>"

lemma waiting_none: "waiting_conn None = new_conn"
  by (simp add: waiting_conn_def new_conn_def http_state_init_def)

definition chain :: "pbufs option \<Rightarrow> pbufs \<Rightarrow> pbufs" where
  "chain r p = (case r of None \<Rightarrow> p | Some q \<Rightarrow> q @ p)"

lemma recv_get:
  assumes "site_ok E" "strnstr_ok E" "length (http_uri_buf s) = 64" "length (httpd_req_buf s) = 1024"
    "0 \<notin> set uri" "0x20 \<notin> set uri" "concat q = get_request uri rest" "length q = 1 \<or> length (concat q) \<le> 1023"
    "first_match (concat q) CRLFCRLF (length (concat q)) \<noteq> None"
    "parse_host E (concat q) (length (concat q)) = Some host" "host_name_matches E s host"
    "q = chain r p" "r = None \<or> 1 < length q"
  shows "\<exists>hs s2. http_recv E i (Some p) ERR_OK (waiting_conn r, s) = map_option snd (http_send E i (new_conn\<lparr>c_hs := Some hs\<rparr>, s2)) \<and>
    responding E hs \<and> pending E hs = response E (served E uri) \<and> busy hs = (served E uri \<noteq> None)"
proof -
  let ?r = "get_request uri rest" and ?n = "length (get_request uri rest)"
  let ?s = "s\<lparr>lwip_state := altcp_recved E i (tot_len p) (lwip_state s)\<rparr>" and ?hs = "http_state_init\<lparr>h_req := Some q\<rparr>"
  let ?old = "http_state_init\<lparr>h_req := r\<rparr>"
  have q: "q \<noteq> []" using assms(7) by (auto simp: get_request_def bytes_of_def)
  have tot: "tot_len q = ?n" using assms(7) by (metis tot_len_def length_concat)
  have get: "parse_data E i ?hs q (?r @ c) ?n s1 = map_option Some (http_find_file E ?hs uri False False s1)"
    if "host_name_matches E s1 host" for c s1
    by (rule parse_get [OF assms(2,5,6) assms(9,10) [unfolded assms(7)] that])
  have hm: "host_name_matches E s1 host" if "s_hostname s1 = s_hostname s" "s_domain_name s1 = s_domain_name s"
    "s_ip_address s1 = s_ip_address s" "initial_config s1 = initial_config s" for s1
    using assms(11) unfolding host_name_matches_def that .
  have found: "\<exists>hs2 s2. http_find_file E ?hs uri False False s1 = Some (ERR_OK, hs2, s2) \<and> responding E hs2 \<and>
      pending E hs2 = response E (served E uri) \<and> busy hs2 = (served E uri \<noteq> None) \<and> h_post_content_len_left hs2 = 0"
    if l: "length (http_uri_buf s1) = 64" for s1
  proof -
    obtain hs1 s2 where 1: "http_find_file E ?hs uri False False s1 =
        map_option (\<lambda>hs'. (ERR_OK, hs', s2)) (http_init_file E hs1 (served E uri \<noteq> None) False (served E uri))"
      "opened E (served E uri) ?hs hs1"
      using find_file_site [OF assms(1,5) l] by blast
    have "h_hdrs ?hs = replicate NUM_FILE_HDR_STRINGS None" "h_post_content_len_left ?hs = 0"
      "h_hdr_index ?hs = NUM_FILE_HDR_STRINGS" "h_hdr_pos ?hs = 0" by (simp_all add: http_state_init_def)
    from init_file_response [OF assms(1) 1(2) this] 1(1) show ?thesis by auto
  qed
  have idle: "\<not> h_handle ?old" "h_file ?old = None" "h_req ?old = r"
    "(case r of None \<Rightarrow> p | Some q \<Rightarrow> q @ p) = q" using assms(12) by (simp_all add: chain_def)
  have parsed: "\<exists>hs2 s2. http_parse_request E i p ?old ?s = Some (ERR_OK, hs2, s2) \<and> responding E hs2 \<and>
      pending E hs2 = response E (served E uri) \<and> busy hs2 = (served E uri \<noteq> None) \<and> h_post_content_len_left hs2 = 0"
  proof (cases "length q > 1")
    case True
    with assms(7,8) have n: "?n \<le> 1023" by simp
    have c: "mem_cpy (httpd_req_buf ?s) 0 ?r = Some (?r @ drop ?n (httpd_req_buf s))"
      using n assms(4) by (simp add: mem_cpy_def)
    let ?s1 = "?s\<lparr>httpd_req_buf := ?r @ drop ?n (httpd_req_buf s)\<rparr>"
    obtain hs2 s2 where f: "http_find_file E ?hs uri False False ?s1 = Some (ERR_OK, hs2, s2)" "responding E hs2"
      "pending E hs2 = response E (served E uri)" "busy hs2 = (served E uri \<noteq> None)" "h_post_content_len_left hs2 = 0"
      using found [of ?s1] assms(3) by auto
    have "parse_data E i ?hs q (?r @ drop ?n (httpd_req_buf s)) ?n ?s1 = Some (Some (ERR_OK, hs2, s2))"
      using get [OF hm [of ?s1]] f(1) by simp
    moreover have "min (tot_len q) LWIP_HTTPD_MAX_REQ_LENGTH = ?n" using n tot by (simp add: LWIP_HTTPD_MAX_REQ_LENGTH_def)
    ultimately have "http_parse_request E i p ?old ?s = Some (ERR_OK, hs2, s2)"
      using True c assms(7) idle(4) by (simp add: http_parse_request_def Let_def)
    with f show ?thesis by blast
  next
    case False
    with q obtain d where d: "q = [d]" by (cases q) auto
    with assms(13) have r: "r = None" by simp
    with d assms(12) have p: "p = [d]" by (simp add: chain_def)
    with assms(7) d have "d = ?r" by simp
    obtain hs2 s2 where f: "http_find_file E ?hs uri False False ?s = Some (ERR_OK, hs2, s2)" "responding E hs2"
      "pending E hs2 = response E (served E uri)" "busy hs2 = (served E uri \<noteq> None)" "h_post_content_len_left hs2 = 0"
      using found [of ?s] assms(3) by auto
    have "parse_data E i ?hs q ?r ?n ?s = Some (Some (ERR_OK, hs2, s2))"
      using get [OF hm [of ?s], of "[]"] f(1) by simp
    with f d p r \<open>d = ?r\<close> show ?thesis by (simp add: http_parse_request_def Let_def)
  qed
  then obtain hs2 s2 where p: "http_parse_request E i p ?old ?s = Some (ERR_OK, hs2, s2)" "responding E hs2"
      "pending E hs2 = response E (served E uri)" "busy hs2 = (served E uri \<noteq> None)" "h_post_content_len_left hs2 = 0" by blast
  let ?hs2 = "hs2\<lparr>h_req := None\<rparr>"
  have "http_recv E i (Some p) ERR_OK (waiting_conn r, s) = map_option snd (http_send E i (new_conn\<lparr>c_hs := Some ?hs2\<rparr>, s2))"
    using p(1,5) by (simp add: http_recv_def waiting_conn_def new_conn_def Let_def)
  then show ?thesis using p responding_req by (intro exI [of _ ?hs2] exI [of _ s2]) (simp add: busy_def)
qed

section \<open>GET requests\<close>

text \<open>
  A chain of buffers with a whole GET request for \<open>uri\<close> that names an accepted host. A request in more than one buffer has
  to fit the request buffer.
\<close>

definition get_accepted :: "'w http_env \<Rightarrow> 'w httpd \<Rightarrow> pbufs \<Rightarrow> bytes \<Rightarrow> bool" where
  "get_accepted E s q uri = (0 \<notin> set uri \<and> 0x20 \<notin> set uri \<and> (length q = 1 \<or> length (concat q) \<le> 1023) \<and>
     concat q = get_request uri (drop (length uri + 5) (concat q)) \<and>
     first_match (concat q) CRLFCRLF (length (concat q)) \<noteq> None \<and>
     (case parse_host E (concat q) (length (concat q)) of None \<Rightarrow> False | Some host \<Rightarrow> host_name_matches E s host))"

text \<open>The environment and the buffers of the server.\<close>

definition server_ok :: "'w http_env \<Rightarrow> 'w httpd \<Rightarrow> bool" where
  "server_ok E s = (site_ok E \<and> strnstr_ok E \<and> length (http_uri_buf s) = 64 \<and> length (httpd_req_buf s) = 1024)"

lemma host_name_matches_lwip [simp]: "host_name_matches E (s\<lparr>lwip_state := w\<rparr>) host = host_name_matches E s host"
  by (simp add: host_name_matches_def cong: if_cong option.case_cong list.case_cong)

lemma step_get:
  assumes "server_ok E s" "get_accepted E s q uri" "q = chain r p" "r = None \<or> 1 < length q"
  shows "\<exists>c' s' n. http_step E i (Received (Some p) ERR_OK, w) (waiting_conn r, s) = Some (c', s') \<and>
    c_queue c' = take n (response E (served E uri)) \<and>
    streams E c' (served E uri \<noteq> None) (drop n (response E (served E uri))) \<and>
    (c_hs c' = None \<longrightarrow> drop n (response E (served E uri)) = [])"
proof -
  let ?s = "s\<lparr>lwip_state := w\<rparr>"
  from assms(2) obtain host where h: "parse_host E (concat q) (length (concat q)) = Some host" "host_name_matches E s host"
    by (auto simp: get_accepted_def split: option.splits)
  from h(2) have hm: "host_name_matches E ?s host" by simp
  have ok: "site_ok E" "strnstr_ok E" "length (http_uri_buf ?s) = 64" "length (httpd_req_buf ?s) = 1024"
    using assms(1) by (simp_all add: server_ok_def)
  have g: "0 \<notin> set uri" "0x20 \<notin> set uri" "concat q = get_request uri (drop (length uri + 5) (concat q))"
      "length q = 1 \<or> length (concat q) \<le> 1023" "first_match (concat q) CRLFCRLF (length (concat q)) \<noteq> None"
    using assms(2) by (simp_all add: get_accepted_def)
  from recv_get [OF ok g h(1) hm assms(3,4), of i] obtain hs s2 where
    r: "http_recv E i (Some p) ERR_OK (waiting_conn r, ?s) = map_option snd (http_send E i (new_conn\<lparr>c_hs := Some hs\<rparr>, s2))"
      "responding E hs" "pending E hs = response E (served E uri)" "busy hs = (served E uri \<noteq> None)"
    by (elim exE conjE) (rule that)
  let ?c = "new_conn\<lparr>c_hs := Some hs\<rparr>"
  have c: "c_hs ?c = Some hs" by simp
  obtain k c' s' where 1: "http_send E i (?c, s2) = Some (k, c', s')" "sends_on E (room E i (lwip_state s2)) ?c hs c'"
    by (rule http_send_spec [OF c r(2)])
  from sends_on_streams [OF 1(2)] 1(1) r show ?thesis by (auto simp: new_conn_def)
qed

lemma run_get_from:
  assumes "server_ok E s" "get_accepted E s q uri" "q = chain r p" "r = None \<or> 1 < length q"
    "served E uri = None \<longrightarrow> (\<forall>ev \<in> set evs. \<forall>p err. fst ev \<noteq> Received p err)"
  shows "\<exists>c' s' n. http_run E i ((Received (Some p) ERR_OK, w) # evs) (waiting_conn r, s) = Some (c', s') \<and>
    c_queue c' = take n (response E (served E uri)) \<and>
    ((\<forall>ev \<in> set evs. fst ev = Acknowledged \<and> room E i (snd ev)) \<longrightarrow> length (response E (served E uri)) < length evs \<longrightarrow>
      c_hs c' = None \<and> length (response E (served E uri)) \<le> n)"
proof -
  let ?r = "response E (served E uri)"
  from step_get [OF assms(1-4), of i w] obtain c1 s1 n where
    1: "http_step E i (Received (Some p) ERR_OK, w) (waiting_conn r, s) = Some (c1, s1)" "c_queue c1 = take n ?r"
      "streams E c1 (served E uri \<noteq> None) (drop n ?r)" "c_hs c1 = None \<longrightarrow> drop n ?r = []" by (elim exE conjE) (rule that)
  show ?thesis
  proof (cases "c_hs c1")
    case None
    from closed_run [OF None, of E i evs s1] obtain c2 s2 where
      "http_run E i evs (c1, s1) = Some (c2, s2)" "c_queue c2 = c_queue c1" "c_hs c2 = None" by blast
    with 1 None show ?thesis by (intro exI [of _ c2] exI [of _ s2] exI [of _ n]) auto
  next
    case (Some hs)
    with 1(3) have h: "responding E hs" "busy hs = (served E uri \<noteq> None)" "pending E hs = drop n ?r"
      by (simp_all add: streams_def)
    have "busy hs \<or> (\<forall>ev \<in> set evs. \<forall>p err. fst ev \<noteq> Received p err)" using assms(5) h(2) by auto
    from run_streams [OF Some h(1) this, of i s1, unfolded h(3)] obtain c2 s2 k where
      2: "http_run E i evs (c1, s1) = Some (c2, s2)" "c_queue c2 = c_queue c1 @ take k (drop n ?r)"
        "(\<forall>ev \<in> set evs. fst ev = Acknowledged \<and> room E i (snd ev)) \<longrightarrow> length (drop n ?r) < length evs \<longrightarrow>
          c_hs c2 = None \<and> length (drop n ?r) \<le> k" by (elim exE conjE) (rule that)
    with 1 show ?thesis by (intro exI [of _ c2] exI [of _ s2] exI [of _ "n + k"]) (auto simp: take_add)
  qed
qed

lemma run_get:
  assumes "server_ok E s" "get_accepted E s q uri"
    "served E uri = None \<longrightarrow> (\<forall>ev \<in> set evs. \<forall>p err. fst ev \<noteq> Received p err)"
  shows "\<exists>c' s' n. http_run E i ((Received (Some q) ERR_OK, w) # evs) (new_conn, s) = Some (c', s') \<and>
    c_queue c' = take n (response E (served E uri)) \<and>
    ((\<forall>ev \<in> set evs. fst ev = Acknowledged \<and> room E i (snd ev)) \<longrightarrow> length (response E (served E uri)) < length evs \<longrightarrow>
      c_hs c' = None \<and> length (response E (served E uri)) \<le> n)"
  using run_get_from [OF assms(1,2) _ _ assms(3), of None q i w] by (simp add: chain_def waiting_none)

section \<open>An example\<close>

text \<open>A site with one file, a TCP that always has room, and a request for the file.\<close>

definition example_file :: fsdata_file where
  "example_file = \<lparr>fd_name = bytes_of ''/a.txt'' @ [0, 0], fd_data = bytes_of ''hello'', fd_len = 5, fd_flags = 0,
     fd_chksum_count = 0, fd_chksum = []\<rparr>"

definition example_fs :: "unit fs_cfg" where
  "example_fs = \<lparr>LWIP_HTTPD_CUSTOM_FILES = False, LWIP_HTTPD_FILE_EXTENSION = False, LWIP_HTTPD_FILE_STATE = False,
     HTTPD_PRECALCULATED_CHECKSUM = False, fs_open_custom = (\<lambda>h _. (False, h)), fs_close_custom = (\<lambda>h. h),
     fs_read_custom = (\<lambda>_ _ _. None), fs_canread_custom = (\<lambda>_. True), fs_wait_read_custom = (\<lambda>_. False),
     fs_state_init = (\<lambda>_ _. None), fs_state_free = (\<lambda>h _. h)\<rparr>"

definition example_env :: "unit http_env" where
  "example_env = \<lparr>altcp_sndbuf = (\<lambda>_ _. 11680), altcp_sndqueuelen = (\<lambda>_ _. 0), altcp_mss = (\<lambda>_ _. 1460),
     altcp_write = (\<lambda>_ _ _ w. (ERR_OK, w)), altcp_close = (\<lambda>_ w. (ERR_OK, w)), altcp_abort = (\<lambda>_ w. w),
     altcp_output = (\<lambda>_ w. w), altcp_recved = (\<lambda>_ _ w. w), lwip_strnstr = first_match,
     lwip_stricmp = (\<lambda>a b. if a = b then 0 else 1), lwip_itoa = (\<lambda>_ _. bytes_of ''5''), ip4addr_aton = (\<lambda>_. None),
     post_handler = (\<lambda>_ _ w. (bytes_of ''{}'', w)), stale_addr = 0, null_bytes_left = 0, lwip_version = ''2.2.1d'',
     fs_config = example_fs, fs_root = [example_file]\<rparr>"

definition example_server :: "unit httpd" where
  "example_server = \<lparr>http_uri_buf = replicate 64 0, httpd_req_buf = replicate 1024 0, current_connection = None,
     s_hostname = bytes_of ''picow'', s_domain_name = bytes_of ''home'', s_ip_address = 1, initial_config = True,
     lwip_state = ()\<rparr>"

text \<open>A request in two buffers, its host name in capitals.\<close>

definition example_get :: pbufs where
  "example_get = [bytes_of (''GET /a.txt HTTP/1.1'' @ CRLF @ ''Ho''), bytes_of (''st: PicoW.Home'' @ CRLF @ CRLF)]"

lemma example_ok: "server_ok example_env example_server"
  by (simp add: server_ok_def site_ok_def strnstr_ok_def example_env_def example_server_def example_fs_def example_file_def
      rom_file_ok_def bytes_of_def)

lemma example_accepted: "get_accepted example_env example_server example_get (bytes_of ''/a.txt'')"
  by code_simp

lemma example_served: "served example_env (bytes_of ''/a.txt'') = Some (bytes_of ''/a.txt'')"
  by code_simp

lemma example_response: "response example_env (Some (bytes_of ''/a.txt'')) =
  bytes_of (''HTTP/1.0 200 OK'' @ CRLF @ ''Server: lwIP/2.2.1d (http://savannah.nongnu.org/projects/lwip)'' @ CRLF @
    ''Content-Type: text/plain'' @ CRLF @ CRLF @ ''hello'')"
  by code_simp

lemma example_room: "room example_env i w"
  by (simp add: room_def example_env_def)

lemma response_length: "length (response example_env (Some (bytes_of ''/a.txt''))) < 200"
  by (simp add: example_response CRLF_def)

section \<open>The properties\<close>



text \<open>C8: Whatever happens on the connection after a GET request was accepted, further data, errors, time-outs, refused
  writes, lost connections, in any order, with TCP in any state: no access leaves its object, and what was handed to TCP is a
  prefix of the response, with nothing lost, repeated or mixed in. For the built-in error page the client must not send more
  (the server would restart its answer).\<close>

theorem http_get_never_corrupt:
  assumes "server_ok E s" "get_accepted E s q uri"
    "served E uri = None \<longrightarrow> (\<forall>ev \<in> set evs. \<forall>p err. fst ev \<noteq> Received p err)"
  shows "\<exists>c' s' n. http_run E i ((Received (Some q) ERR_OK, w) # evs) (new_conn, s) = Some (c', s') \<and>
    c_queue c' = take n (response E (served E uri))"
  using run_get [OF assms, of i w] by blast


theorem http_get_never_corrupt_witness:
  "\<exists>c' s' n. http_run example_env 0 [(Received (Some example_get) ERR_OK, ()), (Received (Some [[1]]) ERR_OK, ()),
        (Polled, ()), (Failed, ())] (new_conn, example_server) = Some (c', s') \<and>
    c_queue c' = take n (response example_env (Some (bytes_of ''/a.txt'')))"
  using http_get_never_corrupt [OF example_ok example_accepted,
      of "[(Received (Some [[1]]) ERR_OK, ()), (Polled, ()), (Failed, ())]" 0 "()"]
  by (simp add: example_served)

end
