(* ===== verification/Httpd_Post_Proofs.thy ===== *)
theory Httpd_Post_Proofs
  imports Httpd_Request_Proofs
begin

text \<open>
  POST requests: the body is put together from the pieces it arrives in, the handler gets it whole, and what the handler
  returns is sent.
\<close>

section \<open>The response\<close>

definition stricmp_ok :: "'w http_env \<Rightarrow> bool" where
  "stricmp_ok E = (\<forall>a b. (lwip_stricmp E a b = 0) = strcaseeq (bytes_of a) (bytes_of b))"

definition http_json :: string where "http_json = HTTP_CONTENT_TYPE ''application/json''"

lemma json_type:
  assumes "stricmp_ok E"
  shows "mem_get g_psHTTPHeaders (get_content_type_from_extension (lwip_stricmp E) (Some ''json'')) = Some (''json'', http_json)"
proof -
  have "get_content_type_from_extension (lwip_stricmp E) (Some ''json'') = 19"
    using assms by (simp add: get_content_type_from_extension_def stricmp_ok_def g_psHTTPHeaders_def strcaseeq_def bytes_of_def
        tolower_def)
  then show ?thesis by (simp add: g_psHTTPHeaders_def http_json_def)
qed

text \<open>The JSON document \<open>body\<close> as it is sent; its length is kept in 16 bits.\<close>

definition json_response :: "'w http_env \<Rightarrow> bytes \<Rightarrow> bytes" where
  "json_response E body =
     (let n = length body mod 2 ^ 16; digits = lwip_itoa E LWIP_HTTPD_MAX_CONTENT_LEN_SIZE (int n) in
      header_text E HTTP_HDR_OK @ header_text E HTTP_HDR_CONTENT_LENGTH @
      (if length digits \<le> 9 then digits @ bytes_of CRLF else []) @ bytes_of http_json @ take n body)"

text \<open>A structure that has not yet been given a response.\<close>

definition fresh :: "http_state \<Rightarrow> bool" where
  "fresh hs = (h_hdrs hs = replicate NUM_FILE_HDR_STRINGS None \<and> \<not> h_handle hs \<and> h_file hs = None \<and> h_left hs = 0 \<and>
     h_hdr_index hs = NUM_FILE_HDR_STRINGS \<and> h_hdr_pos hs = 0)"

lemma u16_length: "unat (ucast (of_nat n :: u16) :: u32) = n mod 2 ^ 16"
  by (simp add: unsigned_ucast_eq unsigned_of_nat take_bit_eq_mod)

lemma list_update_numeral: "(x # xs)[numeral k := y] = x # xs[pred_numeral k := y]"
  by (simp add: numeral_eq_Suc)

lemma post_response_spec:
  assumes "stricmp_ok E" "fresh hs" "current_connection s = Some i" "h_post_content_len_left hs = 0"
  shows "\<exists>hs'. httpd_post_response E i hs body (of_nat (length body)) ''json'' s = Some hs' \<and> responding E hs' \<and>
    pending E hs' = json_response E body \<and> busy hs' \<and> h_post_content hs' = h_post_content hs \<and> h_file hs' \<noteq> None \<and>
    h_post_content_len_left hs' = 0"
proof -
  let ?n = "length body mod 2 ^ 16"
  let ?l = "ucast (of_nat (length body) :: u16) :: u32"
  let ?d = "lwip_itoa E LWIP_HTTPD_MAX_CONTENT_LEN_SIZE (int ?n)"
  let ?len = "if length ?d \<le> 9 then Some (?d @ bytes_of CRLF) else None"
  define hs' where "hs' = hs\<lparr>h_file := Some (HEAP body, 0), h_left := ?l, h_post_response_buf := Some body,
    h_hdrs := [Some (header_text E HTTP_HDR_OK), None, Some (header_text E HTTP_HDR_CONTENT_LENGTH), ?len,
      Some (bytes_of http_json), None], h_hdr_index := 0, h_hdr_pos := 0\<rparr>"
  have h: "h_hdrs hs = [None, None, None, None, None, None]" using assms(2) by (simp only: fresh_def six_none)
  have l: "unat ?l = ?n" by (rule u16_length)
  then have ul: "uint ?l = int ?n" by (metis uint_nat)
  have r: "httpd_post_response E i hs body (of_nat (length body)) ''json'' s = Some hs'"
    using json_type [OF assms(1)] assms(3) h
    by (simp add: httpd_post_response_def Let_def set_hdr_def httpd_idx hs'_def ul LWIP_HTTPD_MAX_CONTENT_LEN_OFFSET_def
        LWIP_HTTPD_MAX_CONTENT_LEN_SIZE_def list_update_numeral)
  have ne: "bytes_of http_json \<noteq> []" by (simp add: http_json_def HTTP_CONTENT_TYPE_def bytes_of_def)
  have w: "with_length E hs' = hs'" by (simp add: with_length_def hs'_def httpd_idx)
  have "responding E hs'"
    using ne assms(2,4) l by (simp add: responding_def headers_ok_def data_ok_def w fresh_def) (simp add: hs'_def httpd_idx bytes_of_def CRLF_def)
  moreover have "pending E hs' = json_response E body"
    unfolding pending_def w by (simp add: header_rest_def data_rest_def json_response_def hs'_def Let_def l)
  ultimately show ?thesis using r assms(4) by (simp add: busy_def hs'_def)
qed


section \<open>The body\<close>

text \<open>\<open>m\<close> bytes of the body have been stored.\<close>

definition stored :: "bytes \<Rightarrow> nat \<Rightarrow> heap_pointer" where
  "stored body m = Live (map Some (take m body) @ replicate (length body - m) None)"

definition receiving :: "http_state \<Rightarrow> bytes \<Rightarrow> bytes \<Rightarrow> nat \<Rightarrow> bool" where
  "receiving hs uri body m = (fresh hs \<and> m \<le> length body \<and> length body < 2 ^ 31 \<and>
     h_post_uri hs = take 128 (uri @ replicate 128 0) \<and> h_post_content hs = stored body m \<and>
     h_post_content_len hs = of_nat (length body) \<and> h_post_content_len_left hs = of_nat (length body - m))"

lemma stored_next:
  assumes "m + length d \<le> length body" "d = take (length d) (drop m body)"
  shows "mem_cpy (map Some (take m body) @ replicate (length body - m) None) m (map Some d) =
    Some (map Some (take (m + length d) body) @ replicate (length body - (m + length d)) None)"
proof -
  have "take (m + length d) body = take m body @ d" using assms(2) by (simp add: take_add)
  with assms(1) show ?thesis by (subst mem_cpy_append) auto
qed

lemma receive_piece:
  assumes "receiving hs uri body m" "m + length d \<le> length body" "d = take (length d) (drop m body)"
  shows "httpd_post_receive_data (hs\<lparr>h_post_content_len_left := of_nat (length body - (m + length d))\<rparr>) [d] =
    Some (ERR_OK, hs\<lparr>h_post_content_len_left := of_nat (length body - (m + length d)),
      h_post_content := stored body (m + length d)\<rparr>)"
proof -
  let ?l = "length body" and ?t = "length d"
  have l: "?l < 2 ^ 31" "m \<le> ?l" "h_post_content_len hs = of_nat ?l" "h_post_content hs = stored body m"
    using assms(1) by (simp_all add: receiving_def)
  have "?l = ?l - (m + ?t) + m + ?t" using assms(2) by simp
  then have "(of_nat ?l :: u32) = of_nat (?l - (m + ?t)) + of_nat m + of_nat ?t" by (metis of_nat_add)
  then have o: "(of_nat ?l :: u32) - of_nat (?l - (m + ?t)) - of_nat ?t = of_nat m" by simp
  have u: "unat (of_nat m :: u32) = m" "unat (of_nat ?l :: u32) = ?l" "unat (of_nat (m + ?t) :: u32) = m + ?t"
    using l assms(2) by (intro unat_of_nat_u32; simp)+
  have s: "(of_nat m :: u32) + of_nat ?t = of_nat (m + ?t)" by simp
  have b: "\<not> (0x80000000 \<le> (of_nat m :: u32))" "\<not> ((of_nat ?l :: u32) < of_nat m + of_nat ?t)"
    unfolding s word_less_nat_alt word_le_nat_alt u using l assms(2) by simp_all
  from stored_next [OF assms(2,3)] b u(1) show ?thesis
    by (simp add: httpd_post_receive_data_def l(3,4) o tot_len_def mem_read_def stored_def Let_def)
qed

lemma rxpbuf_piece:
  assumes "receiving hs uri body m" "m + length d \<le> length body" "d = take (length d) (drop m body)"
  defines "hs' \<equiv> hs\<lparr>h_post_content_len_left := of_nat (length body - (m + length d)), h_post_content := stored body (m + length d)\<rparr>"
  shows "http_post_rxpbuf E i hs [d] s = (if m + length d < length body then Some (ERR_OK, hs', s)
      else map_option (\<lambda>x. (ERR_OK, snd x)) (http_handle_post_finished E i hs' s))"
    "receiving hs' uri body (m + length d)" "h_post_content_len_left hs' = 0 \<longleftrightarrow> m + length d = length body"
proof -
  let ?l = "length body" and ?t = "length d"
  have l: "?l < 2 ^ 31" "m \<le> ?l" "h_post_content_len_left hs = of_nat (?l - m)"
    using assms(1) by (simp_all add: receiving_def)
  have u: "unat (of_nat (?l - m) :: u32) = ?l - m" "unat (of_nat ?t :: u32) = ?t"
    "unat (of_nat (?l - (m + ?t)) :: u32) = ?l - (m + ?t)"
    using l assms(2) by (intro unat_of_nat_u32; simp)+
  have b: "\<not> ((of_nat (?l - m) :: u32) < of_nat ?t)"
    unfolding word_less_nat_alt u using assms(2) by simp
  have "?l - m = ?l - (m + ?t) + ?t" using assms(2) by simp
  then have "(of_nat (?l - m) :: u32) = of_nat (?l - (m + ?t)) + of_nat ?t" by (metis of_nat_add)
  then have d: "(of_nat (?l - m) :: u32) - of_nat ?t = of_nat (?l - (m + ?t))" by simp
  have z: "(of_nat (?l - (m + ?t)) :: u32) = 0 \<longleftrightarrow> m + ?t = ?l"
    unfolding unat_eq_zero [symmetric] u using assms(2) by auto
  then show "h_post_content_len_left hs' = 0 \<longleftrightarrow> m + length d = length body" by (simp add: hs'_def)
  have t: "tot_len [d] = ?t" by (simp add: tot_len_def)
  show "http_post_rxpbuf E i hs [d] s = (if m + length d < length body then Some (ERR_OK, hs', s)
      else map_option (\<lambda>x. (ERR_OK, snd x)) (http_handle_post_finished E i hs' s))"
  proof (cases "m + ?t = ?l")
    case True
    then have "h_post_content_len_left hs' = 0" using z by (simp add: hs'_def)
    with True show ?thesis
      unfolding http_post_rxpbuf_def Let_def l(3) t if_not_P [OF b] d receive_piece [OF assms(1-3)] hs'_def [symmetric]
      by (cases "http_handle_post_finished E i hs' s") (simp_all add: split_def)
  next
    case False
    then have "h_post_content_len_left hs' \<noteq> 0" using z by (simp add: hs'_def)
    with False assms(2) show ?thesis
      unfolding http_post_rxpbuf_def Let_def l(3) t if_not_P [OF b] d receive_piece [OF assms(1-3)] hs'_def [symmetric]
      by simp
  qed
  show "receiving hs' uri body (m + length d)"
    using assms(1,2) by (auto simp: receiving_def hs'_def fresh_def)
qed

definition post_target :: "bytes \<Rightarrow> string option" where
  "post_target uri = find (\<lambda>name. take (length name) (take 128 (uri @ replicate 128 0)) = bytes_of name) post_handlers"

text \<open>What the handler is given, and how the connection then stands.\<close>

definition handed :: "http_state \<Rightarrow> bytes \<Rightarrow> bytes \<Rightarrow> bool" where
  "handed hs uri body = (h_post_uri hs = take 128 (uri @ replicate 128 0) \<and> h_post_content hs = Live (map Some body) \<and>
     h_post_content_len hs = of_nat (length body))"

lemma content_same [simp]:
  "data_rest (hs\<lparr>h_post_content := p\<rparr>) = data_rest hs" "data_ok (hs\<lparr>h_post_content := p\<rparr>) = data_ok hs"
  by (simp_all add: data_rest_def data_ok_def cong: option.case_cong prod.case_cong)

lemma with_length_content: "with_length E (hs\<lparr>h_post_content := p\<rparr>) = (with_length E hs)\<lparr>h_post_content := p\<rparr>"
  by (simp add: with_length_def get_http_content_length_def set_hdr_def Let_def)

lemma pending_content [simp]: "pending E (hs\<lparr>h_post_content := p\<rparr>) = pending E hs"
  by (simp add: pending_def with_length_content header_rest_def)

lemma responding_content: "responding E hs \<Longrightarrow> responding E (hs\<lparr>h_post_content := p\<rparr>)"
  by (auto simp: responding_def headers_ok_def with_length_content)

lemma post_finished_spec:
  assumes "stricmp_ok E" "receiving hs uri body (length body)" "post_target uri = Some name" "current_connection s = Some i"
    "length (http_uri_buf s) = 64"
  shows "\<exists>hs' s' w. http_handle_post_finished E i hs s = Some (ERR_OK, hs', s') \<and> handed hs uri body \<and> responding E hs' \<and>
    busy hs' \<and> pending E hs' = json_response E (fst (post_handler E name hs w)) \<and> h_post_content_len_left hs' = 0"
proof -
  have hs: "fresh hs" "h_post_uri hs = take 128 (uri @ replicate 128 0)" "h_post_content hs = Live (map Some body)"
    "h_post_content_len hs = of_nat (length body)" "h_post_content_len_left hs = 0"
    using assms(2) by (simp_all add: receiving_def stored_def)
  have f: "find (\<lambda>name. take (length name) (h_post_uri hs) = bytes_of name) post_handlers = Some name"
    using assms(3) by (simp only: hs post_target_def)
  obtain resp w1 where p: "post_handler E name hs (lwip_state s) = (resp, w1)" by fastforce
  let ?s = "s\<lparr>http_uri_buf := (http_uri_buf s)[0 := 0], lwip_state := w1\<rparr>"
  have "current_connection ?s = Some i" using assms(4) by simp
  from post_response_spec [OF assms(1) hs(1) this hs(5), of resp] obtain hs1 where
    1: "httpd_post_response E i hs resp (of_nat (length resp)) ''json'' ?s = Some hs1" "responding E hs1"
      "pending E hs1 = json_response E resp" "busy hs1" "h_post_content hs1 = Live (map Some body)" "h_file hs1 \<noteq> None"
      "h_post_content_len_left hs1 = 0" using hs(3) by auto
  let ?hs = "hs1\<lparr>h_post_content := Freed\<rparr>"
  have b: "mem_set (http_uri_buf s) 0 0 = Some ((http_uri_buf s)[0 := 0])" using assms(5) by (simp add: mem_set_def)
  obtain buf where buf: "mem_cpy ((http_uri_buf s)[0 := 0]) 0 (bytes_of ''/404.html'' @ [0]) = Some buf"
    using assms(5) by (simp add: mem_cpy_def)
  have d: "delete_array (h_post_content hs1) = Some Freed" using 1(5) by (simp add: delete_array_def)
  have n: "h_file hs = None" using hs(1) by (simp add: fresh_def)
  have post: "httpd_process_post_data E i hs (s\<lparr>http_uri_buf := (http_uri_buf s)[0 := 0]\<rparr>) = Some (hs1, ?s)"
    using f p 1(1) by (simp add: httpd_process_post_data_def)
  have "\<exists>s'. http_handle_post_finished E i hs s = Some (ERR_OK, ?hs, s')"
    using buf by (simp add: http_handle_post_finished_def httpd_post_finished_def b n post d)
  moreover have "responding E ?hs" "pending E ?hs = pending E hs1" "busy ?hs"
    using 1(2,4) responding_content by (simp_all add: busy_def)
  moreover have "handed hs uri body" using hs by (simp only: handed_def)
  moreover have "json_response E resp = json_response E (fst (post_handler E name hs (lwip_state s)))" by (simp add: p)
  ultimately show ?thesis using 1(3,7) by (intro exI [of _ ?hs]) auto
qed


section \<open>The connection\<close>

definition post_waits :: "nat \<Rightarrow> bytes \<Rightarrow> bytes \<Rightarrow> nat \<Rightarrow> conn \<times> 'w httpd \<Rightarrow> bool" where
  "post_waits i uri body m = (\<lambda>(c, s). (case c_hs c of None \<Rightarrow> False | Some hs \<Rightarrow> receiving hs uri body m) \<and>
     m < length body \<and> current_connection s = Some i \<and> length (http_uri_buf s) = 64)"

text \<open>The handler was given the body, and its answer is on its way.\<close>

definition answered :: "'w http_env \<Rightarrow> string \<Rightarrow> bytes \<Rightarrow> bytes \<Rightarrow> bytes \<Rightarrow> conn \<Rightarrow> bool" where
  "answered E name uri body q c = (\<exists>hs w n. handed hs uri body \<and>
     c_queue c = q @ take n (json_response E (fst (post_handler E name hs w))) \<and>
     streams E c True (drop n (json_response E (fst (post_handler E name hs w)))) \<and>
     (c_hs c = None \<longrightarrow> drop n (json_response E (fst (post_handler E name hs w))) = []))"

lemma send_answer:
  assumes "handed hs0 uri body" "responding E hs" "busy hs" "pending E hs = json_response E (fst (post_handler E name hs0 w))"
  shows "\<exists>c' s'. map_option snd (http_send E i (c\<lparr>c_hs := Some hs\<rparr>, s)) = Some (c', s') \<and> answered E name uri body (c_queue c) c'"
proof -
  let ?c = "c\<lparr>c_hs := Some hs\<rparr>"
  have c: "c_hs ?c = Some hs" by simp
  obtain k c' s' where 1: "http_send E i (?c, s) = Some (k, c', s')" "sends_on E (room E i (lwip_state s)) ?c hs c'"
    by (rule http_send_spec [OF c assms(2)])
  from sends_on_streams [OF 1(2)] assms obtain n where
    "c_queue c' = c_queue c @ take n (pending E hs)" "streams E c' True (drop n (pending E hs))"
    "c_hs c' = None \<longrightarrow> drop n (pending E hs) = []" by auto
  with assms(1,4) have "answered E name uri body (c_queue c) c'"
    unfolding answered_def by (intro exI [of _ hs0] exI [of _ w] exI [of _ n]) auto
  with 1(1) show ?thesis by auto
qed

lemma receiving_retries [simp]: "receiving (hs\<lparr>h_retries := r\<rparr>) = receiving hs"
  by (intro ext) (simp add: receiving_def fresh_def)

lemma left_positive:
  assumes "receiving hs uri body m" "m < length body"
  shows "h_post_content_len_left hs \<noteq> 0"
proof -
  have "unat (of_nat (length body - m) :: u32) = length body - m"
    using assms by (intro unat_of_nat_u32) (auto simp: receiving_def)
  then show ?thesis using assms by (auto simp: receiving_def simp flip: unat_eq_zero)
qed

lemma step_body:
  assumes "stricmp_ok E" "post_target uri = Some name" "post_waits i uri body m (c, s)" "m + length d \<le> length body"
    "d = take (length d) (drop m body)"
  shows "\<exists>c' s'. http_step E i (Received (Some [d]) ERR_OK, w) (c, s) = Some (c', s') \<and>
    (if m + length d < length body then post_waits i uri body (m + length d) (c', s') \<and> c_queue c' = c_queue c
     else answered E name uri body (c_queue c) c')"
proof -
  from assms(3) obtain hs where hs: "c_hs c = Some hs" "receiving hs uri body m" "m < length body"
    "current_connection s = Some i" "length (http_uri_buf s) = 64"
    by (auto simp: post_waits_def split: option.splits)
  let ?hs = "hs\<lparr>h_retries := 0\<rparr>" and ?m = "m + length d"
  let ?s = "s\<lparr>lwip_state := altcp_recved E i (tot_len [d]) w\<rparr>"
  define hs1 where "hs1 = ?hs\<lparr>h_post_content_len_left := of_nat (length body - ?m), h_post_content := stored body ?m\<rparr>"
  have r: "receiving ?hs uri body m" using hs(2) by simp
  have left: "h_post_content_len_left hs > 0" using left_positive [OF hs(2,3)] by (simp add: word_gt_0)
  note p = rxpbuf_piece [OF r assms(4,5), folded hs1_def]
  have start: "http_step E i (Received (Some [d]) ERR_OK, w) (c, s) = (do {
      (_, hs, s) \<leftarrow> http_post_rxpbuf E i ?hs [d] ?s;
      let c = c\<lparr>c_hs := Some hs\<rparr>;
      if h_post_content_len_left hs = 0 then map_option snd (http_send E i (c, s)) else Some (c, s) })"
    using left by (simp add: http_recv_def hs(1) Let_def)
  show ?thesis
  proof (cases "?m < length body")
    case True
    then have "h_post_content_len_left hs1 \<noteq> 0" using p(3) by simp
    with True p(1) [of E i ?s] have "http_step E i (Received (Some [d]) ERR_OK, w) (c, s) = Some (c\<lparr>c_hs := Some hs1\<rparr>, ?s)"
      unfolding start by simp
    with True p(2) hs show ?thesis by (simp add: post_waits_def)
  next
    case False
    then have m: "?m = length body" using assms(4) by simp
    from post_finished_spec [OF assms(1) p(2) [unfolded m] assms(2), of ?s i] hs obtain hs2 s2 w2 where
      2: "http_handle_post_finished E i hs1 ?s = Some (ERR_OK, hs2, s2)" "handed hs1 uri body" "responding E hs2" "busy hs2"
        "pending E hs2 = json_response E (fst (post_handler E name hs1 w2))" "h_post_content_len_left hs2 = 0" by auto
    have "http_step E i (Received (Some [d]) ERR_OK, w) (c, s) = map_option snd (http_send E i (c\<lparr>c_hs := Some hs2\<rparr>, s2))"
      using p(1) [of E i ?s] False 2(1,6) unfolding start by simp
    with send_answer [OF 2(2-5), of i c s2] False show ?thesis by simp
  qed
qed

lemma run_body:
  assumes "stricmp_ok E" "post_target uri = Some name"
    "post_waits i uri body m (c, s)" "concat (map fst ds) = drop m body" "\<forall>d \<in> set ds. fst d \<noteq> []"
  shows "\<exists>c' s'. http_run E i (map (\<lambda>(d, w). (Received (Some [d]) ERR_OK, w)) ds) (c, s) = Some (c', s') \<and>
    answered E name uri body (c_queue c) c'"
  using assms(3-)
proof (induction ds arbitrary: m c s)
  case Nil
  then show ?case by (simp add: post_waits_def)
next
  case (Cons dw ds)
  obtain d w where dw: "dw = (d, w)" by fastforce
  have b: "drop m body = d @ concat (map fst ds)" using Cons.prems(2) dw by simp
  then have "d = take (length d) (drop m body)" by simp
  moreover have "length body - m = length d + length (concat (map fst ds))" using arg_cong [OF b, of length] by simp
  moreover have "m < length body" using Cons.prems(1) by (simp add: post_waits_def)
  ultimately have l: "m + length d \<le> length body" "d = take (length d) (drop m body)" by linarith+
  have r: "concat (map fst ds) = drop (m + length d) body"
    using arg_cong [OF b, of "drop (length d)"] by (simp add: add.commute)
  from step_body [OF assms(1,2) Cons.prems(1) l, of w] obtain c1 s1 where
    1: "http_step E i (Received (Some [d]) ERR_OK, w) (c, s) = Some (c1, s1)"
      "if m + length d < length body then post_waits i uri body (m + length d) (c1, s1) \<and> c_queue c1 = c_queue c
       else answered E name uri body (c_queue c) c1" by (elim exE conjE) (rule that)
  show ?case
  proof (cases "m + length d < length body")
    case True
    with 1(2) have p: "post_waits i uri body (m + length d) (c1, s1)" "c_queue c1 = c_queue c" by simp_all
    from Cons.IH [OF p(1) r] Cons.prems(3) p(2) 1(1) show ?thesis by (simp add: dw)
  next
    case False
    then have "concat (map fst ds) = []" using r by simp
    with Cons.prems(3) have "ds = []" by (cases ds) auto
    with 1 False show ?thesis by (simp add: dw)
  qed
qed


section \<open>The request\<close>

text \<open>A buffer with a POST request for \<open>uri\<close>: the header up to its empty line, and the beginning \<open>part\<close> of the body.\<close>

definition post_request :: "bytes \<Rightarrow> bytes \<Rightarrow> bytes" where
  "post_request uri hdr = bytes_of ''POST '' @ uri @ 0x20 # hdr"

definition post_accepted :: "'w http_env \<Rightarrow> 'w httpd \<Rightarrow> bytes \<Rightarrow> bytes \<Rightarrow> bytes \<Rightarrow> nat \<Rightarrow> bool" where
  "post_accepted E s uri hdr part n = (0 \<notin> set uri \<and> 0x20 \<notin> set uri \<and> n < 2 ^ 31 \<and> 4 \<le> length hdr \<and>
     first_match (hdr @ part) CRLFCRLF (length (hdr @ part)) = Some (length hdr - 4) \<and>
     content_length E (hdr @ part) (length hdr - 4) = Some (int n) \<and>
     first_match (post_request uri (hdr @ part)) CRLFCRLF (length (post_request uri (hdr @ part))) \<noteq> None \<and>
     (case parse_host E (post_request uri (hdr @ part)) (length (post_request uri (hdr @ part))) of
        None \<Rightarrow> False | Some host \<Rightarrow> host_name_matches E s host))"

lemma post_request_facts:
  "take 5 (post_request uri hdr) = bytes_of ''POST ''" "drop 5 (post_request uri hdr) = uri @ 0x20 # hdr"
  "take 4 (post_request uri hdr) \<noteq> bytes_of ''GET ''" "length (post_request uri hdr) = length uri + length hdr + 6"
  by (simp_all add: post_request_def bytes_of_def)

lemma post_request_header [simp]: "drop (6 + length uri) (post_request uri hdr) = hdr"
proof -
  have "post_request uri hdr = (bytes_of ''POST '' @ uri @ [0x20]) @ hdr" by (simp add: post_request_def)
  moreover have "length (bytes_of ''POST '' @ uri @ [0x20]) = 6 + length uri" by (simp add: bytes_of_def)
  ultimately show ?thesis by (metis append_eq_conv_conj)
qed

lemma parse_post:
  assumes "strnstr_ok E" "post_accepted E s uri hdr part n"
  shows "\<exists>data. parse_data E i hs q (post_request uri (hdr @ part)) (length (post_request uri (hdr @ part))) s =
      map_option Some (http_post_request E i q hs data (length data) uri (5 + length uri) s) \<and>
    length data = length (post_request uri (hdr @ part)) \<and> drop (6 + length uri) data = hdr @ part"
proof -
  let ?r = "post_request uri (hdr @ part)" and ?n = "length (post_request uri (hdr @ part))"
  note m = assms(1) [unfolded strnstr_ok_def, rule_format]
  have ne: "bytes_of CRLF \<noteq> []" "bytes_of (CRLF @ CRLF) \<noteq> []" "bytes_of '' '' \<noteq> []" by (simp_all add: bytes_of_def CRLF_def)
  have a: "0 \<notin> set uri" "0x20 \<notin> set uri" using assms(2) by (simp_all add: post_accepted_def)
  have ff: "first_match ?r (bytes_of (CRLF @ CRLF)) ?n \<noteq> None"
    using assms(2) by (simp add: post_accepted_def CRLFCRLF_def del: bytes_of_append)
  then have f: "first_match ?r (bytes_of CRLF) ?n \<noteq> None"
    using first_match_shorter [of ?r "bytes_of CRLF" "bytes_of CRLF" ?n] ne(1) by auto
  obtain host where host: "parse_host E ?r ?n = Some host" "host_name_matches E s host"
    using assms(2) by (auto simp: post_accepted_def split: option.splits)
  have n: "MIN_REQ_LEN \<le> ?n"
    using assms(2) by (simp add: MIN_REQ_LEN_def post_request_facts post_accepted_def)
  have meth: "parse_method ?r = Some (4, True)" by (simp add: parse_method_def post_request_facts)
  have blank: "first_match (drop 5 ?r) (bytes_of '' '') (?n - 5) = Some (length uri)"
    unfolding post_request_facts using first_match_char [of "0x20" uri "?n - 5" "hdr @ part"] a
    by (simp add: post_request_facts bytes_of_def)
  let ?d1 = "?r[4 := 0]" and ?d2 = "(?r[4 := 0])[5 + length uri := 0]"
  have "?d2 = bytes_of ''POST'' @ 0 # uri @ 0 # hdr @ part"
    by (simp add: post_request_def bytes_of_def list_update_append list_update_numeral eval_nat_numeral)
  then have cs: "cstr_at ?d2 5 = Some uri"
    using a(1) by (simp add: cstr_at_def bytes_of_def takeWhile_nul)
  have set: "mem_set ?r 4 0 = Some ?d1" "mem_set ?d1 (5 + length uri) 0 = Some ?d2"
    by (simp_all add: mem_set_def post_request_facts)
  have dr: "drop (6 + length uri) ?d2 = hdr @ part" by (simp add: post_request_facts)
  obtain k where k: "first_match ?r (bytes_of (CRLF @ CRLF)) ?n = Some k" using ff by blast
  have "parse_uri E i hs q ?r ?n 4 True s = map_option Some (http_post_request E i q hs ?d2 ?n uri (5 + length uri) s)"
    using blank k set cs m ne
    by (simp add: parse_uri_def Let_def bind_Some_map del: bytes_of_append drop_append)
  then have "parse_data E i hs q ?r ?n s = map_option Some (http_post_request E i q hs ?d2 (length ?d2) uri (5 + length uri) s)"
    using f n meth host m [OF ne(1)] by (simp add: parse_data_def)
  with dr show ?thesis by (intro exI [of _ ?d2]) simp
qed


lemma post_request_starts:
  assumes "strnstr_ok E" "post_accepted E s0 uri hdr part (length body)" "fresh hs" "part = take (length part) body" "body \<noteq> []"
    "length (http_uri_buf s) = 64" "drop (6 + length uri) data = hdr @ part" "length data = length (post_request uri (hdr @ part))"
  shows "\<exists>hs1 s1. receiving hs1 uri body 0 \<and> current_connection s1 = Some i \<and> length (http_uri_buf s1) = 64 \<and>
    http_post_request E i [post_request uri (hdr @ part)] hs data (length data) uri (5 + length uri) s =
      (if part = [] then Some (ERR_OK, hs1, s1) else http_post_rxpbuf E i hs1 [part] s1)"
proof -
  let ?r = "post_request uri (hdr @ part)" and ?n = "6 + length uri"
  note m = assms(1) [unfolded strnstr_ok_def, rule_format]
  have a: "length body < 2 ^ 31" "4 \<le> length hdr"
    "first_match (hdr @ part) CRLFCRLF (length (hdr @ part)) = Some (length hdr - 4)"
    "content_length E (hdr @ part) (length hdr - 4) = Some (int (length body))"
    using assms(2) by (simp_all add: post_accepted_def)
  have ne: "CRLFCRLF \<noteq> []" by (simp add: CRLFCRLF_def bytes_of_def CRLF_def)
  have len: "length data - ?n = length (hdr @ part)" using assms(8) by (simp add: post_request_facts)
  have skip: "skip_header (?n + length hdr) [?r] = (if part = [] then [] else [part])"
  proof -
    have "drop (?n + length hdr) ?r = drop (length hdr) (drop ?n ?r)" by (simp add: add.commute del: post_request_header)
    then have "drop (?n + length hdr) ?r = part" by simp
    then show ?thesis by (auto simp: post_request_facts)
  qed
  have hl: "min (length data) (5 + length uri + 1 + (length hdr - 4) + 4) = ?n + length hdr"
    using assms(8) a(2) by (simp add: post_request_facts)
  let ?s = "s\<lparr>http_uri_buf := (http_uri_buf s)[0 := 0], current_connection := Some i\<rparr>"
  define hs1 where "hs1 = hs\<lparr>h_post_uri := take 128 (uri @ replicate 128 0), h_post_content := Live (replicate (length body) None),
    h_post_content_len := of_nat (length body), h_post_content_len_left := of_nat (length body)\<rparr>"
  have r: "receiving hs1 uri body 0" using assms(3) a(1) by (simp add: receiving_def hs1_def stored_def fresh_def)
  have b: "mem_set (http_uri_buf s) 0 0 = Some ((http_uri_buf s)[0 := 0])" using assms(6) by (simp add: mem_set_def)
  have "5 + length uri + 1 = ?n" by simp
  then have "http_post_request E i [?r] hs data (length data) uri (5 + length uri) s =
      (if part = [] then Some (ERR_OK, hs1, ?s) else http_post_rxpbuf E i hs1 [part] ?s)"
    unfolding http_post_request_def assms(7) \<open>5 + length uri + 1 = ?n\<close> Let_def CRLFCRLF_def [symmetric] m [OF ne] len a(3)
      option.case a(4) hl [unfolded \<open>5 + length uri + 1 = ?n\<close>] skip b
    using assms(5) by (simp add: httpd_post_begin_def hs1_def)
  with r assms(6) show ?thesis by (intro exI [of _ hs1] exI [of _ ?s]) simp
qed

lemma fresh_init: "fresh http_state_init"
  by (simp add: fresh_def http_state_init_def)

lemma step_post:
  assumes "stricmp_ok E" "server_ok E s" "post_accepted E s uri hdr part (length body)" "part = take (length part) body"
    "body \<noteq> []" "post_target uri = Some name"
  shows "\<exists>c' s'. http_step E i (Received (Some [post_request uri (hdr @ part)]) ERR_OK, w) (new_conn, s) = Some (c', s') \<and>
    (if length part < length body then post_waits i uri body (length part) (c', s') \<and> c_queue c' = []
     else answered E name uri body [] c')"
proof -
  let ?r = "post_request uri (hdr @ part)" and ?hs = "http_state_init\<lparr>h_req := Some [post_request uri (hdr @ part)]\<rparr>"
  let ?s = "s\<lparr>lwip_state := altcp_recved E i (tot_len [post_request uri (hdr @ part)]) w\<rparr>"
  have ok: "strnstr_ok E" "length (http_uri_buf ?s) = 64" using assms(2) by (simp_all add: server_ok_def)
  have acc: "post_accepted E ?s uri hdr part (length body)" using assms(3) by (simp add: post_accepted_def cong: option.case_cong)
  have fr: "fresh ?hs" using fresh_init by (simp add: fresh_def)
  obtain data where d: "parse_data E i ?hs [?r] ?r (length ?r) ?s =
      map_option Some (http_post_request E i [?r] ?hs data (length data) uri (5 + length uri) ?s)"
    "length data = length ?r" "drop (6 + length uri) data = hdr @ part"
    using parse_post [OF ok(1) acc, of i ?hs "[?r]"] by blast
  obtain hs1 s1 where 1: "receiving hs1 uri body 0" "current_connection s1 = Some i" "length (http_uri_buf s1) = 64"
    "http_post_request E i [?r] ?hs data (length data) uri (5 + length uri) ?s =
      (if part = [] then Some (ERR_OK, hs1, s1) else http_post_rxpbuf E i hs1 [part] s1)"
    using post_request_starts [OF ok(1) acc fr assms(4,5) ok(2) d(3,2), of i] by blast
  have part: "0 + length part \<le> length body" "part = take (length part) (drop 0 body)"
    using assms(4) by (metis add_0 length_take min.cobounded1, simp)
  have parse: "http_parse_request E i [?r] http_state_init ?s =
      http_post_request E i [?r] ?hs data (length data) uri (5 + length uri) ?s"
    using d(1) by (cases "http_post_request E i [?r] ?hs data (length data) uri (5 + length uri) ?s")
      (simp_all add: http_parse_request_def Let_def)
  have start: "http_step E i (Received (Some [?r]) ERR_OK, w) (new_conn, s) = (do {
      (parsed, hs, s) \<leftarrow> http_parse_request E i [?r] http_state_init ?s;
      let hs = (if parsed \<noteq> ERR_INPROGRESS then hs\<lparr>h_req := None\<rparr> else hs);
      let c = new_conn\<lparr>c_hs := Some hs\<rparr>;
      if parsed = ERR_OK then
        (if h_post_content_len_left hs = 0 then map_option snd (http_send E i (c, s)) else Some (c, s))
      else if parsed = ERR_ARG then map_option snd (http_close_conn E i (c, s))
      else if parsed = ERR_INPROGRESS \<or> parsed = ERR_USE then Some (c, s)
      else None })"
    by (simp add: http_recv_def new_conn_def Let_def)
  have waits: "post_waits i uri body (length part) (new_conn\<lparr>c_hs := Some (hs\<lparr>h_req := None\<rparr>)\<rparr>, s1)"
    if "receiving hs uri body (length part)" "length part < length body" for hs
    using that 1(2,3) by (simp add: post_waits_def receiving_def fresh_def)
  define hs2 where "hs2 = hs1\<lparr>h_post_content_len_left := of_nat (length body - length part), h_post_content := stored body (length part)\<rparr>"
  note p = rxpbuf_piece [OF 1(1) part, unfolded add_0_left, folded hs2_def]
  show ?thesis
  proof (cases "length part < length body")
    case True
    define hs3 where "hs3 = (if part = [] then hs1 else hs2)"
    have r: "receiving hs3 uri body (length part)" using p(2) 1(1) by (simp add: hs3_def)
    have "http_parse_request E i [?r] http_state_init ?s = Some (ERR_OK, hs3, s1)"
      using p(1) [of E i s1] True unfolding parse 1(4) by (simp add: hs3_def)
    then have "http_step E i (Received (Some [?r]) ERR_OK, w) (new_conn, s) = Some (new_conn\<lparr>c_hs := Some (hs3\<lparr>h_req := None\<rparr>)\<rparr>, s1)"
      unfolding start using left_positive [OF r True] by simp
    with waits [OF r True] True show ?thesis by (simp add: new_conn_def)
  next
    case False
    then have m: "length part = length body" using part(1) by simp
    with assms(5) have ne: "part \<noteq> []" by auto
    obtain hs3 s3 w3 where
      3: "http_handle_post_finished E i hs2 s1 = Some (ERR_OK, hs3, s3)" "handed hs2 uri body" "responding E hs3" "busy hs3"
        "pending E hs3 = json_response E (fst (post_handler E name hs2 w3))" "h_post_content_len_left hs3 = 0"
      using post_finished_spec [OF assms(1) p(2) [unfolded m] assms(6) 1(2,3)] by blast
    let ?hs3 = "hs3\<lparr>h_req := None\<rparr>"
    have k: "responding E ?hs3" "busy ?hs3" "pending E ?hs3 = json_response E (fst (post_handler E name hs2 w3))"
      using 3(3,4,5) responding_req by (simp_all add: busy_def)
    have "http_parse_request E i [?r] http_state_init ?s = Some (ERR_OK, hs3, s3)"
      using p(1) [of E i s1] False ne 3(1) unfolding parse 1(4) by simp
    then have "http_step E i (Received (Some [?r]) ERR_OK, w) (new_conn, s) =
        map_option snd (http_send E i (new_conn\<lparr>c_hs := Some ?hs3\<rparr>, s3))"
      unfolding start using 3(6) by simp
    with send_answer [OF 3(2) k, of i new_conn s3] False show ?thesis by (simp add: new_conn_def)
  qed
qed

lemma answered_completes:
  assumes "answered E name uri body [] c"
  shows "\<exists>hs w. handed hs uri body \<and>
    (\<forall>evs. (\<forall>ev \<in> set evs. fst ev = Acknowledged \<and> room E i (snd ev)) \<longrightarrow>
       length (json_response E (fst (post_handler E name hs w))) < length evs \<longrightarrow>
       (\<exists>c' s'. http_run E i evs (c, s) = Some (c', s') \<and> c_hs c' = None \<and>
          c_queue c' = json_response E (fst (post_handler E name hs w))))"
proof -
  from assms obtain hs w n where a: "handed hs uri body" "c_queue c = take n (json_response E (fst (post_handler E name hs w)))"
    "streams E c True (drop n (json_response E (fst (post_handler E name hs w))))"
    "c_hs c = None \<longrightarrow> drop n (json_response E (fst (post_handler E name hs w))) = []"
    by (auto simp: answered_def)
  let ?r = "json_response E (fst (post_handler E name hs w))"
  show ?thesis using a(1) streams_complete [OF a(2-4), of _ i s] by blast
qed


lemma http_run_append:
  "http_run E i (evs @ evs') cs = (case http_run E i evs cs of None \<Rightarrow> None | Some cs' \<Rightarrow> http_run E i evs' cs')"
  by (induction evs arbitrary: cs) (auto simp: bind_eq_Some_conv split: option.splits bind_splits)

lemma run_post:
  assumes "stricmp_ok E" "server_ok E s" "post_accepted E s uri hdr part (length body)" "body \<noteq> []"
    "body = part @ concat (map fst ds)" "\<forall>d \<in> set ds. fst d \<noteq> []" "post_target uri = Some name"
  shows "\<exists>c' s'. http_run E i ((Received (Some [post_request uri (hdr @ part)]) ERR_OK, w) #
      map (\<lambda>(d, w). (Received (Some [d]) ERR_OK, w)) ds) (new_conn, s) = Some (c', s') \<and> answered E name uri body [] c'"
proof -
  have part: "part = take (length part) body" "concat (map fst ds) = drop (length part) body" using assms(5) by simp_all
  from step_post [OF assms(1-3) part(1) assms(4,7), of i w] obtain c1 s1 where
    1: "http_step E i (Received (Some [post_request uri (hdr @ part)]) ERR_OK, w) (new_conn, s) = Some (c1, s1)"
      "if length part < length body then post_waits i uri body (length part) (c1, s1) \<and> c_queue c1 = []
       else answered E name uri body [] c1" by (elim exE conjE) (rule that)
  show ?thesis
  proof (cases "length part < length body")
    case True
    with 1(2) have p: "post_waits i uri body (length part) (c1, s1)" "c_queue c1 = []" by simp_all
    from run_body [OF assms(1,7) p(1) part(2) assms(6)] p(2) 1(1) show ?thesis by simp
  next
    case False
    then have "concat (map fst ds) = []" using assms(5) by simp
    with assms(6) have "ds = []" by (cases ds) auto
    with 1 False show ?thesis by simp
  qed
qed

text \<open>C9: A POST request that arrives on a new connection, its header in the first buffer and its body in as many further
  pieces as TCP makes of it, reaches the handler that its URI names with exactly the bytes of the body, their number and the
  URI, whatever the pieces; and the handler's JSON document is then sent in full, with its header, after which the
  connection is closed.\<close>

theorem http_post_complete:
  assumes "stricmp_ok E" "server_ok E s" "post_accepted E s uri hdr part (length body)" "body \<noteq> []"
    "body = part @ concat (map fst ds)" "\<forall>d \<in> set ds. fst d \<noteq> []" "post_target uri = Some name"
  shows "\<exists>hs w'. handed hs uri body \<and>
    (\<forall>evs. (\<forall>ev \<in> set evs. fst ev = Acknowledged \<and> room E i (snd ev)) \<longrightarrow>
       length (json_response E (fst (post_handler E name hs w'))) < length evs \<longrightarrow>
       (\<exists>c' s'. http_run E i ((Received (Some [post_request uri (hdr @ part)]) ERR_OK, w) #
            map (\<lambda>(d, w). (Received (Some [d]) ERR_OK, w)) ds @ evs) (new_conn, s) = Some (c', s') \<and>
          c_hs c' = None \<and> c_queue c' = json_response E (fst (post_handler E name hs w'))))"
proof -
  obtain c1 s1 where 1: "http_run E i ((Received (Some [post_request uri (hdr @ part)]) ERR_OK, w) #
      map (\<lambda>(d, w). (Received (Some [d]) ERR_OK, w)) ds) (new_conn, s) = Some (c1, s1)" "answered E name uri body [] c1"
    using run_post [OF assms, of i w] by blast
  have run: "http_run E i ((Received (Some [post_request uri (hdr @ part)]) ERR_OK, w) #
      map (\<lambda>(d, w). (Received (Some [d]) ERR_OK, w)) ds @ evs) (new_conn, s) = http_run E i evs (c1, s1)" for evs
    unfolding append_Cons [symmetric] http_run_append 1(1) option.case ..
  show ?thesis unfolding run by (rule answered_completes [OF 1(2)])
qed

text \<open>A request whose body comes in two further pieces.\<close>

definition example_header :: bytes where
  "example_header = bytes_of (''HTTP/1.1'' @ CRLF @ ''Host: picow'' @ CRLF @ ''Content-Length: 6'' @ CRLF @ CRLF)"

definition example_post_env :: "unit http_env" where
  "example_post_env = example_env\<lparr>lwip_stricmp := \<lambda>a b. if strcaseeq (bytes_of a) (bytes_of b) then 0 else 1\<rparr>"

lemma example_post_ok: "server_ok example_post_env example_server" "stricmp_ok example_post_env" "room example_post_env i w"
  using example_ok by (simp_all add: server_ok_def site_ok_def strnstr_ok_def example_post_env_def stricmp_ok_def
      room_def example_env_def)

lemma example_post_accepted: "post_accepted example_post_env example_server (bytes_of ''/settings_save.cgi'') example_header (bytes_of ''{'') 6"
proof -
  have "0 \<notin> set (bytes_of ''/settings_save.cgi'')" "0x20 \<notin> set (bytes_of ''/settings_save.cgi'')" by (simp_all add: bytes_of_def)
  moreover have "first_match (example_header @ bytes_of ''{'') CRLFCRLF (length (example_header @ bytes_of ''{'')) =
      Some (length example_header - 4)" by code_simp
  moreover have "content_length example_post_env (example_header @ bytes_of ''{'') (length example_header - 4) = Some (int 6)"
    by code_simp
  moreover have "first_match (post_request (bytes_of ''/settings_save.cgi'') (example_header @ bytes_of ''{'')) CRLFCRLF
      (length (post_request (bytes_of ''/settings_save.cgi'') (example_header @ bytes_of ''{''))) \<noteq> None" by code_simp
  moreover have "case parse_host example_post_env (post_request (bytes_of ''/settings_save.cgi'') (example_header @ bytes_of ''{''))
      (length (post_request (bytes_of ''/settings_save.cgi'') (example_header @ bytes_of ''{''))) of
      None \<Rightarrow> False | Some host \<Rightarrow> host_name_matches example_post_env example_server host" by code_simp
  moreover have "4 \<le> length example_header" by code_simp
  ultimately show ?thesis by (simp add: post_accepted_def del: append_assoc)
qed

lemma example_post_target: "post_target (bytes_of ''/settings_save.cgi'') = Some ''/settings_save.cgi''"
  by code_simp

lemma example_json: "fst (post_handler example_post_env name hs w) = bytes_of ''{}''"
  by (simp add: example_post_env_def example_env_def)

lemma example_json_response: "length (json_response example_post_env (bytes_of ''{}'')) < 100"
  by (simp add: json_response_def example_post_env_def example_env_def header_text_def CRLF_def http_json_def HTTP_CONTENT_TYPE_def)

theorem http_post_complete_witness:
  "\<exists>c' s'. http_run example_post_env 0 ((Received (Some [post_request (bytes_of ''/settings_save.cgi'') (example_header @ bytes_of ''{'')])
      ERR_OK, ()) # map (\<lambda>(d, w). (Received (Some [d]) ERR_OK, w)) [(bytes_of ''1:2'', ()), (bytes_of ''3}'', ())] @
      replicate 100 (Acknowledged, ())) (new_conn, example_server) = Some (c', s') \<and> c_hs c' = None \<and>
    c_queue c' = json_response example_post_env (bytes_of ''{}'')"
proof -
  have b: "bytes_of ''{1:23}'' \<noteq> []" "length (bytes_of ''{1:23}'') = 6" by (simp_all add: bytes_of_def)
  have p: "bytes_of ''{1:23}'' = bytes_of ''{'' @ concat (map fst [(bytes_of ''1:2'', ()), (bytes_of ''3}'', ())])"
    "\<forall>d \<in> set [(bytes_of ''1:2'', ()), (bytes_of ''3}'', ())]. fst d \<noteq> []" by (simp_all add: bytes_of_def)
  from http_post_complete [OF example_post_ok(2,1) example_post_accepted [folded b(2)] b(1) p example_post_target, of 0 "()"]
  have "\<forall>evs. (\<forall>ev \<in> set evs. fst ev = Acknowledged \<and> room example_post_env 0 (snd ev)) \<longrightarrow>
      length (json_response example_post_env (bytes_of ''{}'')) < length evs \<longrightarrow>
      (\<exists>c' s'. http_run example_post_env 0 ((Received (Some [post_request (bytes_of ''/settings_save.cgi'')
            (example_header @ bytes_of ''{'')]) ERR_OK, ()) #
          map (\<lambda>(d, w). (Received (Some [d]) ERR_OK, w)) [(bytes_of ''1:2'', ()), (bytes_of ''3}'', ())] @ evs)
          (new_conn, example_server) = Some (c', s') \<and> c_hs c' = None \<and>
        c_queue c' = json_response example_post_env (bytes_of ''{}''))"
    unfolding example_json by blast
  from this [rule_format, of "replicate 100 (Acknowledged, ())"] example_json_response example_post_ok(3)
  show ?thesis by simp
qed

end
