(* ===== verification/Httpd_Type_Proofs.thy ===== *)
theory Httpd_Type_Proofs
  imports Httpd_Request_Proofs
begin

text \<open>
  What every callback keeps, whatever arrives: the shape of the structure of a connection and the sizes of the buffers of the server.
\<close>

section \<open>The invariant\<close>

definition bufs_ok :: "'w httpd \<Rightarrow> bool" where
  "bufs_ok s = (length (http_uri_buf s) = 64 \<and> length (httpd_req_buf s) = 1024)"

definition hs_ok :: "http_state \<Rightarrow> bool" where
  "hs_ok hs = (length (h_hdrs hs) = NUM_FILE_HDR_STRINGS \<and> h_hdr_index hs \<le> NUM_FILE_HDR_STRINGS \<and>
     length (h_post_uri hs) = 128)"

definition conn_ok :: "conn \<Rightarrow> bool" where
  "conn_ok c = (case c_hs c of None \<Rightarrow> True | Some hs \<Rightarrow> hs_ok hs)"

named_theorems http_ok

lemma set_hdr_ok [http_ok]: "hs_ok (set_hdr i x hs) = hs_ok hs"
  by (simp add: hs_ok_def)

lemma updates_ok [http_ok]:
  "hs_ok (hs\<lparr>h_file := f\<rparr>) = hs_ok hs" "hs_ok (hs\<lparr>h_left := l\<rparr>) = hs_ok hs" "hs_ok (hs\<lparr>h_retries := k\<rparr>) = hs_ok hs"
  "hs_ok (hs\<lparr>h_req := r\<rparr>) = hs_ok hs" "hs_ok (hs\<lparr>h_handle := h\<rparr>) = hs_ok hs" "hs_ok (hs\<lparr>h_file_handle := g\<rparr>) = hs_ok hs"
  "hs_ok (hs\<lparr>h_hdr_pos := n\<rparr>) = hs_ok hs" "hs_ok (hs\<lparr>h_post_content := p\<rparr>) = hs_ok hs"
  "hs_ok (hs\<lparr>h_post_content_len := l\<rparr>) = hs_ok hs" "hs_ok (hs\<lparr>h_post_content_len_left := l\<rparr>) = hs_ok hs"
  "hs_ok (hs\<lparr>h_post_response_buf := b\<rparr>) = hs_ok hs" "hs_ok hs \<Longrightarrow> hs_ok (hs\<lparr>h_hdr_index := 0\<rparr>)"
  by (simp_all add: hs_ok_def)

definition keeps :: "http_state \<Rightarrow> http_state \<Rightarrow> bool" where
  "keeps hs hs' = (hs_ok hs \<longrightarrow> hs_ok hs')"

lemma keeps_refl [http_ok]: "keeps hs hs" by (simp add: keeps_def)

lemma keeps_trans: "keeps hs hs1 \<Longrightarrow> keeps hs1 hs2 \<Longrightarrow> keeps hs hs2" by (auto simp: keeps_def)

lemma keeps_set_hdr [http_ok]: "keeps hs0 (set_hdr i x hs) = keeps hs0 hs"
  by (simp add: keeps_def set_hdr_ok)

lemma keeps_updates [http_ok]:
  "keeps hs0 (hs\<lparr>h_file := f\<rparr>) = keeps hs0 hs" "keeps hs0 (hs\<lparr>h_left := l\<rparr>) = keeps hs0 hs"
  "keeps hs0 (hs\<lparr>h_req := r\<rparr>) = keeps hs0 hs" "keeps hs0 (hs\<lparr>h_retries := k\<rparr>) = keeps hs0 hs" "keeps hs0 (hs\<lparr>h_handle := h\<rparr>) = keeps hs0 hs"
  "keeps hs0 (hs\<lparr>h_file_handle := g\<rparr>) = keeps hs0 hs" "keeps hs0 (hs\<lparr>h_hdr_pos := n\<rparr>) = keeps hs0 hs"
  "keeps hs0 (hs\<lparr>h_post_content := p\<rparr>) = keeps hs0 hs" "keeps hs0 (hs\<lparr>h_post_content_len := l\<rparr>) = keeps hs0 hs"
  "keeps hs0 (hs\<lparr>h_post_content_len_left := l\<rparr>) = keeps hs0 hs" "keeps hs0 (hs\<lparr>h_post_response_buf := b\<rparr>) = keeps hs0 hs"
  "keeps hs0 hs \<Longrightarrow> keeps hs0 (hs\<lparr>h_hdr_index := 0\<rparr>)"
  by (simp_all add: keeps_def updates_ok)

section \<open>Sending\<close>

lemma next_header_le: "k \<le> NUM_FILE_HDR_STRINGS \<Longrightarrow> next_header hdrs k \<le> NUM_FILE_HDR_STRINGS"
proof (induction hdrs k rule: next_header.induct)
  case (1 hdrs k)
  then show ?case by (subst next_header.simps) auto
qed

lemma content_length_ok: "keeps hs (get_http_content_length E hs)"
  by (simp add: get_http_content_length_def Let_def http_ok)

lemma send_header_ok:
  assumes "send_header E i len report hs link = Some (r, n, hs', link')" "h_hdr_index hs < NUM_FILE_HDR_STRINGS"
  shows "keeps hs hs'"
proof -
  have "keeps hs (hs\<lparr>h_hdr_index := next_header x (Suc (h_hdr_index hs))\<rparr>)" for x
    using assms(2) by (simp add: keeps_def hs_ok_def next_header_le)
  with assms(1) show ?thesis
    by (auto simp: send_header_def Let_def bind_eq_Some_conv http_ok split: if_splits)
qed

lemma send_headers_loop_ok:
  "send_headers_loop E i len sendlen report hs link = Some (r, hs', link') \<Longrightarrow> keeps hs hs'"
proof (induction E i len sendlen report hs link rule: send_headers_loop.induct)
  case (1 E i len sendlen report hs link)
  show ?case
  proof (cases "len \<noteq> 0 \<and> h_hdr_index hs < NUM_FILE_HDR_STRINGS \<and> sendlen \<noteq> 0")
    case True
    from "1.prems" have "\<exists>r1 n hs1 link1. send_header E i len report hs link = Some (r1, n, hs1, link1)"
      by (subst (asm) send_headers_loop.simps) (use True in \<open>auto split: option.splits\<close>)
    then obtain r1 n hs1 link1 where h: "send_header E i len report hs link = Some (r1, n, hs1, link1)" by blast
    have k: "keeps hs hs1" using send_header_ok [OF h] True by simp
    show ?thesis
    proof (cases "n = 0")
      case z: True
      with "1.prems" h True have "hs' = hs1" by (subst (asm) send_headers_loop.simps) simp
      with k show ?thesis by simp
    next
      case z: False
      with "1.prems" h True have l: "send_headers_loop E i (len - n) n r1 hs1 link1 = Some (r, hs', link')"
        by (subst (asm) send_headers_loop.simps) simp
      have "keeps hs1 hs'" using "1.IH" [OF True h refl refl refl z] l by simp
      with k show ?thesis by (rule keeps_trans)
    qed
  next
    case False
    with "1.prems" have "hs' = hs" by (subst (asm) send_headers_loop.simps) auto
    then show ?thesis by (simp add: http_ok)
  qed
qed

lemma send_data_nonssi_ok: "http_send_data_nonssi E i hs link = Some (r, hs', link') \<Longrightarrow> keeps hs hs'"
  by (auto simp: http_send_data_nonssi_def Let_def bind_eq_Some_conv http_ok split: if_splits)

section \<open>Answers to POST requests\<close>

lemma post_response_ok: "httpd_post_response E i hs body n ext s = Some hs' \<Longrightarrow> keeps hs hs'"
  by (auto simp: httpd_post_response_def Let_def bind_eq_Some_conv http_ok split: if_splits)

lemma process_post_ok: "httpd_process_post_data E i hs s = Some (hs', s') \<Longrightarrow>
    keeps hs hs' \<and> http_uri_buf s' = http_uri_buf s \<and> httpd_req_buf s' = httpd_req_buf s"
  by (auto simp: httpd_process_post_data_def Let_def bind_eq_Some_conv http_ok split: option.splits prod.splits
      dest!: post_response_ok)

lemma post_finished_ok:
  assumes "httpd_post_finished E i hs s = Some (hs', s')"
  shows "keeps hs hs' \<and> (bufs_ok s \<longrightarrow> bufs_ok s')"
proof -
  from assms obtain hs1 s1 p buf where 1: "httpd_process_post_data E i hs s = Some (hs1, s1)"
    "mem_cpy (http_uri_buf s1) 0 (bytes_of ''/404.html'' @ [0]) = Some buf"
    "hs' = hs1\<lparr>h_post_content := p\<rparr>" "s' = s1\<lparr>current_connection := None, http_uri_buf := buf\<rparr>"
    by (auto simp: httpd_post_finished_def Let_def bind_eq_Some_conv)
  with process_post_ok [OF 1(1)] mem_cpy_length [OF 1(2)] show ?thesis by (simp add: http_ok bufs_ok_def)
qed

lemma close_ok:
  assumes "http_close_or_abort_conn E i abort (c, s) = Some (e, c', s')"
  shows "conn_ok c' \<and> (bufs_ok s \<longrightarrow> bufs_ok s')"
proof -
  from assms have "c_hs c' = None"
    by (auto simp: http_close_or_abort_conn_def Let_def bind_eq_Some_conv http_state_free_def split: option.splits if_splits prod.splits)
  moreover have "bufs_ok s \<longrightarrow> bufs_ok s'"
    using assms
    by (auto simp: http_close_or_abort_conn_def Let_def bind_eq_Some_conv http_state_free_def bufs_ok_def
        split: option.splits if_splits prod.splits dest!: post_finished_ok mem_set_length)
  ultimately show ?thesis by (simp add: conn_ok_def)
qed

lemma close_conn_ok: "http_close_conn E i (c, s) = Some (e, c', s') \<Longrightarrow> conn_ok c' \<and> (bufs_ok s \<longrightarrow> bufs_ok s')"
  by (simp add: http_close_conn_def close_ok)

lemma eof_ok: "http_eof E i (c, s) = Some (c', s') \<Longrightarrow> conn_ok c' \<and> (bufs_ok s \<longrightarrow> bufs_ok s')"
  by (auto simp: http_eof_def dest!: close_conn_ok)

lemma check_eof_ok: "http_check_eof E i (c, s) = Some (b, c', s') \<Longrightarrow> \<not> b \<and> conn_ok c' \<and> (bufs_ok s \<longrightarrow> bufs_ok s')"
  by (auto simp: http_check_eof_def bind_eq_Some_conv split: if_splits dest!: eof_ok)


text \<open>A result that keeps the invariants of the connection and of the server.\<close>

definition good :: "conn \<times> 'w httpd \<Rightarrow> conn \<times> 'w httpd \<Rightarrow> bool" where
  "good cs cs' = (conn_ok (fst cs) \<longrightarrow> conn_ok (fst cs') \<and> (bufs_ok (snd cs) \<longrightarrow> bufs_ok (snd cs')))"

lemma bufs_lwip [http_ok]: "bufs_ok (s\<lparr>lwip_state := w\<rparr>) = bufs_ok s" by (simp add: bufs_ok_def)

lemma keeps_conn:
  assumes "keeps hs hs'" "c_hs c = Some hs"
  shows "conn_ok c \<longrightarrow> conn_ok (c\<lparr>c_hs := Some hs', c_queue := q\<rparr>)"
  using assms by (simp add: conn_ok_def keeps_def)

lemma send_data_ok:
  assumes "http_send_data E i (c, s) = Some (r, c', s')"
  shows "good (c, s) (c', s')"
proof -
  from assms obtain hs d hs1 q w where 1: "c_hs c = Some hs" "http_send_data_nonssi E i hs (c_queue c, lwip_state s) = Some (d, hs1, q, w)"
    by (auto simp: http_send_data_def bind_eq_Some_conv)
  have k: "conn_ok c \<longrightarrow> conn_ok (c\<lparr>c_hs := Some hs1, c_queue := q\<rparr>)" by (rule keeps_conn [OF send_data_nonssi_ok [OF 1(2)] 1(1)])
  from assms 1 k show ?thesis
    by (auto simp: http_send_data_def good_def bind_eq_Some_conv bufs_lwip Let_def split: if_splits dest!: eof_ok)
qed

lemma send_headers_ok:
  assumes "http_send_headers E i (c, s) = Some (r, c', s')"
  shows "good (c, s) (c', s')"
proof -
  from assms obtain hs where c: "c_hs c = Some hs" by (auto simp: http_send_headers_def bind_eq_Some_conv)
  define hs0 where "hs0 = (if h_hdrs hs ! HDR_STRINGS_IDX_CONTENT_LEN_KEEPALIVE = None then get_http_content_length E hs else hs)"
  from assms c obtain r1 hs1 q w where
    1: "send_headers_loop E i (unat (altcp_sndbuf E i (lwip_state s))) (unat (altcp_sndbuf E i (lwip_state s))) HTTP_NO_DATA_TO_SEND
        hs0 (c_queue c, lwip_state s) = Some (r1, hs1, q, w)"
    "(let c = c\<lparr>c_hs := Some hs1, c_queue := q\<rparr>; s = s\<lparr>lwip_state := w\<rparr> in
      if NUM_FILE_HDR_STRINGS \<le> h_hdr_index hs1 \<and> h_file hs1 = None then do {
        (left, c, s) \<leftarrow> http_check_eof E i (c, s);
        Some (if left then HTTP_DATA_TO_SEND_BREAK else HTTP_DATA_TO_SEND_FREED, c, s) }
      else if h_hdr_index hs1 < NUM_FILE_HDR_STRINGS \<or> h_file hs1 = None then Some (HTTP_DATA_TO_SEND_BREAK, c, s)
      else Some (r1, c, s)) = Some (r, c', s')"
    by (auto simp: http_send_headers_def bind_eq_Some_conv Let_def mem_get_Some hs0_def)
  have "keeps hs hs0" by (simp add: hs0_def content_length_ok keeps_refl)
  then have "keeps hs hs1" using send_headers_loop_ok [OF 1(1)] by (rule keeps_trans)
  then have k: "conn_ok c \<longrightarrow> conn_ok (c\<lparr>c_hs := Some hs1, c_queue := q\<rparr>)" by (rule keeps_conn [OF _ c])
  with 1(2) show ?thesis
    by (auto simp: good_def bind_eq_Some_conv bufs_lwip Let_def split: if_splits dest!: check_eof_ok)
qed

lemma check_eof_good: "http_check_eof E i (c, s) = Some (b, c', s') \<Longrightarrow> good (c, s) (c', s')"
  by (auto simp: good_def dest: check_eof_ok)

lemma good_trans: "good cs cs1 \<Longrightarrow> good cs1 cs2 \<Longrightarrow> good cs cs2" by (auto simp: good_def)

lemma good_refl [http_ok]: "good cs cs" by (simp add: good_def)

lemma send_ok:
  assumes "http_send E i (c, s) = Some (r, c', s')"
  shows "good (c, s) (c', s')"
proof (cases "c_hs c")
  case None
  with assms show ?thesis by (simp add: http_send_def good_refl)
next
  case (Some hs)
  let ?h = "h_hdr_index hs < NUM_FILE_HDR_STRINGS"
  from assms Some obtain d c1 s1 where
    1: "(if ?h then http_send_headers E i (c, s) else Some (HTTP_NO_DATA_TO_SEND, c, s)) = Some (d, c1, s1)"
    by (auto simp: http_send_def bind_eq_Some_conv Let_def)
  have g: "good (c, s) (c1, s1)" using 1 by (auto simp: good_refl send_headers_ok split: if_splits)
  have "good (c1, s1) (c', s')" using assms Some 1
    by (auto simp: http_send_def bind_eq_Some_conv Let_def good_refl split: if_splits option.splits
        intro: send_data_ok check_eof_good dest: check_eof_ok)
  with g show ?thesis by (rule good_trans)
qed

section \<open>Requests\<close>

lemma open_file_ok: "open_file E hs name = Some (ok, hs') \<Longrightarrow> keeps hs hs'"
  by (auto simp: open_file_def bind_eq_Some_conv http_ok)

lemma open_first_ok: "open_first E hs names = Some (r, hs') \<Longrightarrow> keeps hs hs'"
proof (induction names arbitrary: hs)
  case Nil
  then show ?case by (simp add: http_ok)
next
  case (Cons n names)
  then obtain ok hs1 where o: "open_file E hs n = Some (ok, hs1)" by (auto simp: bind_eq_Some_conv)
  show ?case
  proof (cases ok)
    case True
    with Cons.prems o show ?thesis by (auto dest: open_file_ok)
  next
    case False
    with Cons.prems o have "open_first E hs1 names = Some (r, hs')" by simp
    then have "keeps hs1 hs'" by (rule Cons.IH)
    with open_file_ok [OF o] show ?thesis by (rule keeps_trans)
  qed
qed

lemma get_404_ok: "http_get_404_file E hs = Some (r, hs') \<Longrightarrow> keeps hs hs'"
  unfolding http_get_404_file_def by (rule open_first_ok)

lemma open_path_ok: "open_path E hs uri = Some (r, hs') \<Longrightarrow> keeps hs hs'"
  by (auto simp: open_path_def Let_def bind_eq_Some_conv split: if_splits
      dest!: open_file_ok get_404_ok intro: keeps_trans)

lemma default_name_length: "default_name n name buf = Some (f, buf') \<Longrightarrow> length buf' = length buf"
  by (auto simp: default_name_def Let_def bind_eq_Some_conv split: if_splits dest!: mem_cpy_length mem_set_length)

lemma default_loop_ok: "default_loop E n names hs buf = Some (r, hs', buf') \<Longrightarrow> keeps hs hs' \<and> length buf' = length buf"
proof (induction names arbitrary: hs buf)
  case Nil
  then show ?case by (simp add: http_ok)
next
  case (Cons name names)
  then obtain f buf1 ok hs1 where 1: "default_name n (bytes_of name) buf = Some (f, buf1)" "open_file E hs f = Some (ok, hs1)"
    by (auto simp: bind_eq_Some_conv)
  note l = default_name_length [OF 1(1)] open_file_ok [OF 1(2)]
  show ?case
  proof (cases ok)
    case True
    with Cons.prems 1 l show ?thesis by auto
  next
    case False
    with Cons.prems 1 have "default_loop E n names hs1 buf1 = Some (r, hs', buf')" by simp
    from Cons.IH [OF this] l show ?thesis using keeps_trans by auto
  qed
qed

lemma open_directory_ok:
  "open_directory E hs uri b buf = Some (r, hs', buf') \<Longrightarrow> keeps hs hs' \<and> length buf' = length buf"
  by (auto simp: open_directory_def Let_def bind_eq_Some_conv http_ok split: if_splits
      dest!: default_loop_ok mem_cpy_length mem_set_length)

lemma get_http_headers_ok: "keeps hs0 hs \<Longrightarrow> keeps hs0 (get_http_headers E hs uri)"
  by (auto simp: get_http_headers_def Let_def http_ok split: option.split)

lemma init_file_ok: "http_init_file E hs found is_09 uri = Some hs' \<Longrightarrow> keeps hs hs'"
  by (auto simp: http_init_file_def Let_def bind_eq_Some_conv http_ok split: if_splits option.splits
      intro!: get_http_headers_ok)

lemma find_file_ok:
  assumes "http_find_file E hs uri b is_09 s = Some (e, hs', s')"
  shows "keeps hs hs' \<and> (bufs_ok s \<longrightarrow> bufs_ok s')"
proof -
  from assms obtain found hs1 buf found2 hs2 where 1: "open_directory E hs uri b (http_uri_buf s) = Some (found, hs1, buf)"
    "(case found of Some name \<Rightarrow> Some (Some name, hs1) | None \<Rightarrow> open_path E hs1 uri) = Some (found2, hs2)"
    "http_init_file E hs2 (found2 \<noteq> None) is_09 found2 = Some hs'" "s' = s\<lparr>http_uri_buf := buf\<rparr>"
    by (auto simp: http_find_file_def bind_eq_Some_conv)
  have "keeps hs1 hs2" using 1(2) by (auto simp: http_ok split: option.splits dest: open_path_ok)
  with open_directory_ok [OF 1(1)] init_file_ok [OF 1(3)] have "keeps hs hs'" using keeps_trans by blast
  with open_directory_ok [OF 1(1)] 1(4) show ?thesis by (simp add: bufs_ok_def)
qed


lemma post_begin_ok:
  assumes "httpd_post_begin i hs uri n s = (e, hs', s')"
  shows "keeps hs hs' \<and> (bufs_ok s \<longrightarrow> bufs_ok s')"
proof -
  have "keeps hs (hs\<lparr>h_post_uri := take 128 (uri @ replicate 128 0)\<rparr>)" by (auto simp: keeps_def hs_ok_def)
  with assms show ?thesis by (auto simp: httpd_post_begin_def Let_def http_ok bufs_ok_def)
qed

lemma receive_data_ok: "httpd_post_receive_data hs p = Some (e, hs') \<Longrightarrow> keeps hs hs'"
  by (auto simp: httpd_post_receive_data_def Let_def bind_eq_Some_conv http_ok split: if_splits heap_pointer.splits)

lemma handle_finished_ok:
  assumes "http_handle_post_finished E i hs s = Some (e, hs', s')"
  shows "keeps hs hs' \<and> (bufs_ok s \<longrightarrow> bufs_ok s')"
proof -
  from assms obtain buf where "mem_set (http_uri_buf s) 0 0 = Some buf"
    "httpd_post_finished E i hs (s\<lparr>http_uri_buf := buf\<rparr>) = Some (hs', s')"
    by (auto simp: http_handle_post_finished_def bind_eq_Some_conv)
  with post_finished_ok [of E i hs "s\<lparr>http_uri_buf := buf\<rparr>"] mem_set_length [of "http_uri_buf s"] show ?thesis
    by (simp add: bufs_ok_def)
qed

lemma rxpbuf_ok:
  assumes "http_post_rxpbuf E i hs p s = Some (e, hs', s')"
  shows "keeps hs hs' \<and> (bufs_ok s \<longrightarrow> bufs_ok s')"
proof -
  define l where "l = (if h_post_content_len_left hs < of_nat (tot_len p) then 0 else h_post_content_len_left hs - of_nat (tot_len p))"
  from assms obtain e1 hs1 where 1: "httpd_post_receive_data (hs\<lparr>h_post_content_len_left := l\<rparr>) p = Some (e1, hs1)"
    by (auto simp: http_post_rxpbuf_def Let_def bind_eq_Some_conv l_def)
  define hs2 where "hs2 = (if e1 \<noteq> ERR_OK then hs1\<lparr>h_post_content_len_left := 0\<rparr> else hs1)"
  have "keeps (hs\<lparr>h_post_content_len_left := l\<rparr>) hs1" by (rule receive_data_ok [OF 1])
  then have k: "keeps hs hs2" by (simp add: hs2_def keeps_def updates_ok)
  from assms 1 have "(if h_post_content_len_left hs2 = 0 then map_option snd (http_handle_post_finished E i hs2 s)
      else Some (hs2, s)) = Some (hs', s')"
    by (auto simp: http_post_rxpbuf_def Let_def bind_eq_Some_conv l_def hs2_def split: if_splits)
  with k show ?thesis by (auto split: if_splits dest!: handle_finished_ok intro: keeps_trans)
qed

lemma post_request_ok:
  assumes "http_post_request E i q hs data n uri k s = Some (e, hs', s')"
  shows "keeps hs hs' \<and> (bufs_ok s \<longrightarrow> bufs_ok s')"
proof (cases "lwip_strnstr E (drop (k + 1) data) (bytes_of (CRLF @ CRLF)) (n - (k + 1))")
  case None
  with assms show ?thesis by (auto simp: http_post_request_def Let_def keeps_refl)
next
  case c: (Some c)
  show ?thesis
  proof (cases "content_length E (drop (k + 1) data) c")
    case None
    with assms c show ?thesis by (auto simp: http_post_request_def Let_def keeps_refl)
  next
    case (Some len)
    show ?thesis
    proof (cases "len < 0")
      case True
      with assms c Some show ?thesis by (auto simp: http_post_request_def Let_def keeps_refl)
    next
      case False
      from assms c Some False obtain buf where b: "mem_set (http_uri_buf s) 0 0 = Some buf"
        by (auto simp: http_post_request_def Let_def bind_eq_Some_conv)
      obtain hs1 s1 where 1: "httpd_post_begin i hs uri len (s\<lparr>http_uri_buf := buf\<rparr>) = (ERR_OK, hs1, s1)"
        by (simp add: httpd_post_begin_def Let_def)
      have "bufs_ok s \<longrightarrow> bufs_ok (s\<lparr>http_uri_buf := buf\<rparr>)" using mem_set_length [OF b] by (simp add: bufs_ok_def)
      with post_begin_ok [OF 1] have k: "keeps hs hs1" "bufs_ok s \<longrightarrow> bufs_ok s1" by auto
      define hs2 where "hs2 = hs1\<lparr>h_post_content_len := of_int len, h_post_content_len_left := of_int len\<rparr>"
      define pos where "pos = min n (k + 1 + c + 4)"
      from assms c Some False b 1 have "(case skip_header pos q of
          [] \<Rightarrow> if len = 0 then http_post_rxpbuf E i hs2 [[]] s1 else Some (ERR_OK, hs2, s1)
        | q \<Rightarrow> http_post_rxpbuf E i hs2 q s1) = Some (e, hs', s')"
        unfolding hs2_def pos_def by (simp add: http_post_request_def Let_def)
      then have "keeps hs2 hs' \<and> (bufs_ok s1 \<longrightarrow> bufs_ok s')"
        by (auto simp: keeps_refl split: list.splits if_splits dest: rxpbuf_ok)
      moreover have "keeps hs hs2" using k(1) by (simp add: hs2_def http_ok)
      ultimately show ?thesis using k(2) keeps_trans by blast
    qed
  qed
qed

lemma parse_uri_ok:
  assumes "parse_uri E i hs q data n sp1 is_post s = Some (Some (e, hs', s'))"
  shows "keeps hs hs' \<and> (bufs_ok s \<longrightarrow> bufs_ok s')"
  using assms by (auto simp: parse_uri_def Let_def bind_eq_Some_conv keeps_refl split: if_splits option.splits
      dest: post_request_ok find_file_ok)

lemma parse_data_ok:
  assumes "parse_data E i hs q data n s = Some (Some (e, hs', s'))"
  shows "keeps hs hs' \<and> (bufs_ok s \<longrightarrow> bufs_ok s')"
proof -
  have "keeps hs (send_redirect E hs s)" by (simp add: send_redirect_def Let_def http_ok)
  with assms show ?thesis
    by (auto simp: parse_data_def keeps_refl split: if_splits option.splits dest: parse_uri_ok)
qed

lemma parse_request_ok:
  assumes "http_parse_request E i p hs s = Some (e, hs', s')"
  shows "keeps hs hs' \<and> (bufs_ok s \<longrightarrow> bufs_ok s')"
proof (cases "h_handle hs \<or> h_file hs \<noteq> None")
  case True
  with assms show ?thesis by (simp add: http_parse_request_def keeps_refl)
next
  case False
  define req where "req = (case h_req hs of None \<Rightarrow> p | Some r \<Rightarrow> r @ p)"
  define hs1 where "hs1 = hs\<lparr>h_req := Some req\<rparr>"
  from assms False obtain data n s1 parsed where
    1: "(if length req > 1 then do {
             let data_len = min (tot_len req) LWIP_HTTPD_MAX_REQ_LENGTH;
             buf \<leftarrow> mem_cpy (httpd_req_buf s) 0 (take data_len (concat req));
             Some (buf, data_len, s\<lparr>httpd_req_buf := buf\<rparr>) }
           else do {
             payload \<leftarrow> mem_get p 0;
             Some (payload, length payload, s) }) = Some (data, n, s1)"
    and 2: "parse_data E i hs1 req data n s1 = Some parsed"
    and 3: "(case parsed of Some r \<Rightarrow> Some r | None \<Rightarrow>
             if tot_len req \<le> LWIP_HTTPD_MAX_REQ_LENGTH \<and> length req \<le> LWIP_HTTPD_REQ_QUEUELEN
             then Some (ERR_INPROGRESS, hs1, s1) else Some (ERR_ARG, hs1, s1)) = Some (e, hs', s')"
    unfolding http_parse_request_def if_not_P [OF False] Let_def req_def [symmetric] hs1_def [symmetric]
    by (auto simp: bind_eq_Some_conv)
  have b: "bufs_ok s \<longrightarrow> bufs_ok s1" using 1
    by (auto simp: Let_def bind_eq_Some_conv bufs_ok_def split: if_splits dest: mem_cpy_length)
  have k: "keeps hs hs1" by (simp add: hs1_def http_ok)
  have "keeps hs1 hs' \<and> (bufs_ok s1 \<longrightarrow> bufs_ok s')"
  proof (cases parsed)
    case None
    with 3 show ?thesis by (auto simp: keeps_refl split: if_splits)
  next
    case (Some r)
    with 2 3 show ?thesis by (auto dest: parse_data_ok)
  qed
  with k b show ?thesis using keeps_trans by blast
qed

section \<open>Callbacks\<close>

lemma recv_ok:
  assumes "http_recv E i p err (c, s) = Some (c', s')"
  shows "good (c, s) (c', s')"
proof -
  define s0 where "s0 = (case p of Some q \<Rightarrow> s\<lparr>lwip_state := altcp_recved E i (tot_len q) (lwip_state s)\<rparr> | None \<Rightarrow> s)"
  have b: "bufs_ok s0 = bufs_ok s" by (simp add: s0_def bufs_lwip split: option.split)
  have closed: "good (c, s) (c', s')" if "http_close_conn E i (c1, s1) = Some (r, c', s')" "bufs_ok s \<longrightarrow> bufs_ok s1" for c1 s1 r
    using that by (auto simp: good_def dest!: close_conn_ok)
  have after: "good (c, s) (c', s')" if "http_send E i (c1, s1) = Some (r, c', s')" "good (c, s) (c1, s1)" for c1 s1 r
    using that by (auto dest: send_ok intro: good_trans)
  show ?thesis
  proof (cases "err = ERR_OK \<and> p \<noteq> None \<and> c_hs c \<noteq> None")
    case False
    then have "map_option snd (http_close_conn E i (c, s0)) = Some (c', s')"
      using assms by (cases err; cases p; cases "c_hs c") (simp_all add: http_recv_def s0_def)
    then obtain r where "http_close_conn E i (c, s0) = Some (r, c', s')" by auto
    then show ?thesis by (rule closed) (simp add: b)
  next
    case True
    then obtain q hs where q: "err = ERR_OK" "p = Some q" "c_hs c = Some hs" by auto
    have g: "good (c, s) (c\<lparr>c_hs := Some hs1\<rparr>, s1)" if "keeps hs hs1" "bufs_ok s0 \<longrightarrow> bufs_ok s1" for hs1 s1
      using that b by (auto simp: good_def conn_ok_def q keeps_def)
    show ?thesis
    proof (cases "h_post_content_len_left hs > 0")
      case left: True
      with assms q obtain e hs1 s1 where 1: "http_post_rxpbuf E i (hs\<lparr>h_retries := 0\<rparr>) q s0 = Some (e, hs1, s1)"
        "(if h_post_content_len_left hs1 = 0 then map_option snd (http_send E i (c\<lparr>c_hs := Some hs1\<rparr>, s1))
          else Some (c\<lparr>c_hs := Some hs1\<rparr>, s1)) = Some (c', s')"
        by (auto simp: http_recv_def s0_def bind_eq_Some_conv Let_def)
      have "keeps (hs\<lparr>h_retries := 0\<rparr>) hs1 \<and> (bufs_ok s0 \<longrightarrow> bufs_ok s1)" by (rule rxpbuf_ok [OF 1(1)])
      then have "good (c, s) (c\<lparr>c_hs := Some hs1\<rparr>, s1)" by (intro g) (simp_all add: keeps_def updates_ok)
      with 1(2) show ?thesis by (auto split: if_splits intro: after)
    next
      case left: False
      show ?thesis
      proof (cases "h_handle hs")
        case True
        with left assms q b show ?thesis by (auto simp: http_recv_def Let_def good_def bufs_lwip)
      next
        case False
        with left assms q obtain e hs1 s1 where 1: "http_parse_request E i q hs s0 = Some (e, hs1, s1)"
          by (auto simp: http_recv_def s0_def bind_eq_Some_conv Let_def)
        define c1 where "c1 = c\<lparr>c_hs := Some (if e \<noteq> ERR_INPROGRESS then hs1\<lparr>h_req := None\<rparr> else hs1)\<rparr>"
        have "keeps hs (if e \<noteq> ERR_INPROGRESS then hs1\<lparr>h_req := None\<rparr> else hs1)" "bufs_ok s0 \<longrightarrow> bufs_ok s1"
          using parse_request_ok [OF 1] by (simp_all add: http_ok)
        then have g1: "good (c, s) (c1, s1)" unfolding c1_def by (rule g)
        have b1: "bufs_ok s \<longrightarrow> bufs_ok s1" using parse_request_ok [OF 1] b by simp
        have "(if e = ERR_OK then
              (if h_post_content_len_left (if e \<noteq> ERR_INPROGRESS then hs1\<lparr>h_req := None\<rparr> else hs1) = 0
               then map_option snd (http_send E i (c1, s1)) else Some (c1, s1))
            else if e = ERR_ARG then map_option snd (http_close_conn E i (c1, s1))
            else if e = ERR_INPROGRESS \<or> e = ERR_USE then Some (c1, s1)
            else None) = Some (c', s')"
          using assms q left False 1 by (cases e) (simp_all add: http_recv_def s0_def Let_def c1_def split: if_splits)
        with g1 b1 show ?thesis by (auto split: if_splits intro: after closed)
      qed
    qed
  qed
qed

lemma step_ok:
  assumes "http_step E i ev (c, s) = Some (c', s')"
  shows "good (c, s) (c', s')"
proof -
  obtain e w where ev: "ev = (e, w)" by fastforce
  let ?s = "s\<lparr>lwip_state := w\<rparr>"
  have start: "good (c, s) (c', s')" if "good (c1, ?s) (c', s')" "conn_ok c \<longrightarrow> conn_ok c1" for c1
    using that by (auto simp: good_def bufs_lwip)
  have upd: "conn_ok c \<longrightarrow> conn_ok (c\<lparr>c_hs := Some (hs\<lparr>h_retries := k\<rparr>)\<rparr>)" if "c_hs c = Some hs" for hs k
    using that by (simp add: conn_ok_def updates_ok)
  show ?thesis
  proof (cases e)
    case (Received p err)
    with assms ev have "http_recv E i p err (c, ?s) = Some (c', s')" by simp
    then show ?thesis using recv_ok start by blast
  next
    case Acknowledged
    show ?thesis
    proof (cases "c_hs c")
      case None
      with assms ev Acknowledged show ?thesis by (auto simp: http_sent_def good_def bufs_lwip)
    next
      case (Some hs)
      with assms ev Acknowledged obtain r where "http_send E i (c\<lparr>c_hs := Some (hs\<lparr>h_retries := 0\<rparr>)\<rparr>, ?s) = Some (r, c', s')"
        by (auto simp: http_sent_def)
      then show ?thesis using send_ok start upd [OF Some] by blast
    qed
  next
    case Polled
    have closed: "good (c1, ?s) (c', s')" if "map_option snd (http_close_conn E i (c1, ?s)) = Some (c', s')" for c1
      using that by (auto simp: good_def dest!: close_conn_ok)
    show ?thesis
    proof (cases "c_hs c")
      case None
      with assms ev Polled have "map_option snd (http_close_conn E i (c, ?s)) = Some (c', s')" by (simp add: http_poll_def)
      then show ?thesis using closed start by blast
    next
      case (Some hs)
      let ?c = "c\<lparr>c_hs := Some (hs\<lparr>h_retries := h_retries hs + 1\<rparr>)\<rparr>"
      have "good (?c, ?s) (c', s')" using assms ev Polled Some
        by (auto simp: http_poll_def Let_def bind_eq_Some_conv good_refl split: if_splits intro: closed
            dest!: send_ok) (auto simp: good_def bufs_lwip)
      then show ?thesis using start upd [OF Some] by blast
    qed
  next
    case Failed
    with assms ev show ?thesis by (auto simp: http_err_def http_state_free_def good_def conn_ok_def bufs_lwip)
  qed
qed




end
