(* ===== verification/Httpd_Access_Proofs.thy ===== *)
theory Httpd_Access_Proofs
  imports Httpd_Request_Proofs
begin

text \<open>
  Requests that arrive in pieces, the host names that are accepted, and the redirection of the captive portal.
\<close>

section \<open>Searching in a beginning\<close>

lemma first_match_more:
  assumes "first_match b t n = Some k" "n \<le> length b" "n \<le> m"
  shows "first_match (b @ c) t m = Some k"
  using assms
proof (induction b arbitrary: n m k)
  case (Cons x b)
  show ?case
  proof (cases "take (length t) (x # b) = t")
    case True
    then have "length t \<le> length (x # b)" by (metis length_take min.cobounded1)
    then have "take (length t) ((x # b) @ c) = take (length t) (x # b)" by (simp only: take_append) simp
    with True Cons.prems show ?thesis by (auto split: if_splits)
  next
    case False
    with Cons.prems obtain k' where k: "first_match b t (n - 1) = Some k'" "k = Suc k'" "x \<noteq> 0" "\<not> n < length t"
      by (auto split: if_splits)
    have "length t \<le> length (x # b)" using Cons.prems k(4) by simp
    then have "take (length t) ((x # b) @ c) = take (length t) (x # b)" by (simp only: take_append) simp
    moreover have "first_match (b @ c) t (m - 1) = Some k'" by (rule Cons.IH [OF k(1)]) (use Cons.prems in auto)
    ultimately show ?thesis using k(2-) False Cons.prems(3) by auto
  qed
qed simp

lemma parse_host_more:
  assumes "strnstr_ok E" "parse_host E b (length b) = Some host"
  shows "parse_host E (b @ c) (length (b @ c)) = Some host"
proof -
  have n: "bytes_of ''Host: '' \<noteq> []" "bytes_of CRLF \<noteq> []" by (simp_all add: bytes_of_def CRLF_def)
  note m = assms(1) [unfolded strnstr_ok_def, rule_format]
  from assms(2) obtain h l where
    h: "first_match b (bytes_of ''Host: '') (length b) = Some h"
    and l: "first_match (drop (h + 6) b) (bytes_of CRLF) (length b - (h + 6)) = Some l"
    and host: "host = takeWhile (\<lambda>c. c \<noteq> 0) (take (min 31 l) (drop (h + 6) b))"
    by (auto simp: parse_host_def m [OF n(1)] m [OF n(2)] Let_def bind_eq_Some_conv)
  have hl: "h + 6 \<le> length b" using first_match_length [OF h] by (simp add: bytes_of_def)
  then have d: "drop (h + 6) (b @ c) = drop (h + 6) b @ c" by simp
  have "first_match (b @ c) (bytes_of ''Host: '') (length (b @ c)) = Some h"
    by (rule first_match_more [OF h]) simp_all
  moreover have "first_match (drop (h + 6) b @ c) (bytes_of CRLF) (length (b @ c) - (h + 6)) = Some l"
    by (rule first_match_more [OF l]) simp_all
  moreover have "take (min 31 l) (drop (h + 6) b @ c) = take (min 31 l) (drop (h + 6) b)"
    using first_match_length [OF l] hl by simp
  ultimately show ?thesis
    by (simp add: parse_host_def m [OF n(1)] m [OF n(2)] d host Let_def del: drop_append take_append length_append)
qed

section \<open>A first piece\<close>

text \<open>There is no line yet, so that nothing is parsed.\<close>

definition no_line :: "bytes \<Rightarrow> bool" where
  "no_line b = (length b < 7 \<or> first_match b (bytes_of CRLF) (length b) = None)"

lemma parse_data_first:
  assumes "strnstr_ok E" "take 4 b = bytes_of ''GET '' \<or> length b < 7" "first_match b CRLFCRLF (length b) = None"
    "\<And>host. parse_host E b (length b) = Some host \<Longrightarrow> host_name_matches E s host"
  shows "parse_data E i hs q (b @ c) (length b) s =
    (if no_line b \<or> parse_host E b (length b) \<noteq> None then Some None else Some (Some (ERR_ARG, hs, s)))"
proof -
  note m = assms(1) [unfolded strnstr_ok_def, rule_format]
  have ne: "bytes_of CRLF \<noteq> []" "bytes_of (CRLF @ CRLF) \<noteq> []" "CRLFCRLF \<noteq> []" by (simp_all add: CRLFCRLF_def bytes_of_def CRLF_def)
  show ?thesis
  proof (cases "no_line b")
    case True
    then show ?thesis by (auto simp: parse_data_def no_line_def m [OF ne(1)] first_match_append [OF order_refl ne(1)] MIN_REQ_LEN_def)
  next
    case False
    then have l: "MIN_REQ_LEN \<le> length b" "lwip_strnstr E (b @ c) (bytes_of CRLF) (length b) \<noteq> None"
      by (auto simp: no_line_def m [OF ne(1)] first_match_append [OF order_refl ne(1)] MIN_REQ_LEN_def)
    then have "take 4 (b @ c) = bytes_of ''GET ''" using assms(2) by (auto simp: MIN_REQ_LEN_def)
    then have meth: "parse_method (b @ c) = Some (3, False)" by (simp add: parse_method_def)
    show ?thesis
    proof (cases "parse_host E b (length b)")
      case None
      then show ?thesis using l meth False parse_host_append [OF assms(1), of b c] by (simp add: parse_data_def)
    next
      case (Some host)
      have "lwip_strnstr E (b @ c) (bytes_of (CRLF @ CRLF)) (length b) = None"
        using assms(3) by (simp only: m [OF ne(2)] CRLFCRLF_def first_match_append [OF order_refl ne(2)])
      then have "parse_uri E i hs q (b @ c) (length b) 3 False s = Some None"
        by (simp add: parse_uri_def Let_def del: bytes_of_append split: option.split)
      then show ?thesis using l meth parse_host_append [OF assms(1), of b c] Some assms(4) by (simp add: parse_data_def)
    qed
  qed
qed

text \<open>Blocks of TCP data that hold the beginning of a request for a while.\<close>

lemma recv_first:
  assumes "server_ok E s" "take 4 (concat p) = bytes_of ''GET '' \<or> length (concat p) < 7"
    "first_match (concat p) CRLFCRLF (length (concat p)) = None"
    "\<forall>host. parse_host E (concat p) (length (concat p)) = Some host \<longrightarrow> host_name_matches E s host"
    "p \<noteq> []" "length p \<le> 5" "length (concat p) \<le> 1023"
  shows "\<exists>c' s'. http_step E i (Received (Some p) ERR_OK, w) (new_conn, s) = Some (c', s') \<and> c_queue c' = [] \<and>
    (if no_line (concat p) \<or> parse_host E (concat p) (length (concat p)) \<noteq> None
     then c' = waiting_conn (Some p) \<and> (\<exists>w' buf. s' = s\<lparr>lwip_state := w', httpd_req_buf := buf\<rparr> \<and> length buf = 1024)
     else c_hs c' = None)"
proof -
  let ?b = "concat p" and ?hs = "http_state_init\<lparr>h_req := Some p\<rparr>"
  let ?s = "s\<lparr>lwip_state := altcp_recved E i (tot_len p) w\<rparr>"
  let ?go = "no_line ?b \<or> parse_host E ?b (length ?b) \<noteq> None"
  have ok: "strnstr_ok E" "length (httpd_req_buf s) = 1024" using assms(1) by (simp_all add: server_ok_def)
  have tot: "tot_len p = length ?b" by (simp add: tot_len_def length_concat)
  define s1 where "s1 = (if length p > 1 then ?s\<lparr>httpd_req_buf := ?b @ drop (length ?b) (httpd_req_buf s)\<rparr> else ?s)"
  have hm: "host_name_matches E s1 host" if "parse_host E ?b (length ?b) = Some host" for host
    using assms(4) that by (simp add: s1_def host_name_matches_def cong: if_cong option.case_cong list.case_cong)
  have parse: "parse_data E i ?hs p (?b @ c) (length ?b) s1 = (if ?go then Some None else Some (Some (ERR_ARG, ?hs, s1)))" for c
    by (rule parse_data_first [OF ok(1) assms(2,3) hm])
  have p: "http_parse_request E i p http_state_init ?s = Some (if ?go then ERR_INPROGRESS else ERR_ARG, ?hs, s1)"
  proof (cases "length p > 1")
    case True
    have "min (tot_len p) LWIP_HTTPD_MAX_REQ_LENGTH = length ?b" using assms(7) tot by (simp add: LWIP_HTTPD_MAX_REQ_LENGTH_def)
    moreover have "mem_cpy (httpd_req_buf ?s) 0 ?b = Some (?b @ drop (length ?b) (httpd_req_buf s))"
      using assms(7) ok(2) by (simp add: mem_cpy_def)
    moreover have "tot_len p \<le> LWIP_HTTPD_MAX_REQ_LENGTH" "length p \<le> LWIP_HTTPD_REQ_QUEUELEN"
      using assms(6,7) tot by (simp_all add: LWIP_HTTPD_MAX_REQ_LENGTH_def LWIP_HTTPD_REQ_QUEUELEN_def)
    ultimately show ?thesis using True parse [of "drop (length ?b) (httpd_req_buf s)"]
      by (simp add: http_parse_request_def Let_def s1_def)
  next
    case False
    with assms(5) obtain d where d: "p = [d]" by (cases p) auto
    have "tot_len p \<le> LWIP_HTTPD_MAX_REQ_LENGTH" "length p \<le> LWIP_HTTPD_REQ_QUEUELEN"
      using assms(6,7) tot by (simp_all add: LWIP_HTTPD_MAX_REQ_LENGTH_def LWIP_HTTPD_REQ_QUEUELEN_def)
    with d False parse [of "[]"] show ?thesis by (simp add: http_parse_request_def Let_def s1_def)
  qed
  show ?thesis
  proof (cases ?go)
    case True
    then have "http_step E i (Received (Some p) ERR_OK, w) (new_conn, s) = Some (waiting_conn (Some p), s1)"
      using p by (simp add: http_recv_def new_conn_def waiting_conn_def Let_def)
    moreover have "s1 = s\<lparr>lwip_state := altcp_recved E i (tot_len p) w, httpd_req_buf := httpd_req_buf s1\<rparr>"
      "length (httpd_req_buf s1) = 1024" using ok(2) assms(7) by (simp_all add: s1_def)
    ultimately show ?thesis using True
      by (intro exI [of _ "waiting_conn (Some p)"] exI [of _ s1]) (auto simp: waiting_conn_def new_conn_def)
  next
    case False
    let ?c = "new_conn\<lparr>c_hs := Some http_state_init\<rparr>"
    have c: "c_hs ?c = Some http_state_init" "h_post_content_len_left http_state_init = 0" by simp_all
    obtain e c' s' where cl: "http_close_conn E i (?c, s1) = Some (e, c', s')" "c_queue c' = c_queue ?c" "c_hs c' = None"
      by (rule close_conn_spec [OF c])
    have e: "http_state_init\<lparr>h_req := None\<rparr> = http_state_init" by (simp add: http_state_init_def)
    have "http_step E i (Received (Some p) ERR_OK, w) (new_conn, s) = Some (c', s')"
      using p False cl(1) by (simp add: http_recv_def new_conn_def Let_def e)
    with cl False show ?thesis by (simp add: new_conn_def)
  qed
qed


section \<open>Host names\<close>

lemma tolower_eq_iff:
  assumes "k < 0x41"
  shows "tolower y = tolower k \<longleftrightarrow> y = k"
proof -
  have "tolower k = k" using assms by (auto simp: tolower_def word_le_nat_alt word_less_nat_alt)
  moreover have "y + 0x20 \<noteq> k" if "0x41 \<le> y" "y \<le> 0x5A"
  proof -
    have "unat (y + 0x20) = unat y + 0x20" using that by (simp add: unat_plus_if' word_le_nat_alt)
    then show ?thesis using that assms by (auto simp: word_le_nat_alt word_less_nat_alt)
  qed
  moreover have "y \<noteq> k" if "0x41 \<le> y" using that assms by auto
  ultimately show ?thesis by (auto simp: tolower_def)
qed

lemma strncaseeq_take:
  assumes "0 \<notin> set a" "0 \<notin> set b"
  shows "strncaseeq (length b) a b = strcaseeq (take (length b) a) b"
  using assms
proof (induction b arbitrary: a)
  case Nil
  then show ?case by (simp add: strcaseeq_def)
next
  case (Cons y b)
  show ?case
  proof (cases a)
    case Nil
    have "tolower y \<noteq> tolower 0" using Cons.prems(2) tolower_eq_iff [where k = 0 and y = y] by simp
    with Nil show ?thesis by (auto simp: strcaseeq_def)
  next
    case (Cons x xs)
    with Cons.IH [of xs] Cons.prems show ?thesis by (simp add: strcaseeq_def)
  qed
qed


text \<open>C26: While the device is being set up it accepts exactly these hosts, in upper or lower case: its address, its name, and
  its name with its domain; afterwards it accepts every host. This needs the address left over from an earlier call to
  differ from the device's when the host is not an address, because it is compared all the same.\<close>

theorem http_host_accepted:
  assumes "0 \<notin> set host" "0 \<notin> set (s_hostname s)" "ip4addr_aton E host = None \<longrightarrow> stale_addr E \<noteq> s_ip_address s"
  shows "host_name_matches E s host \<longleftrightarrow> \<not> initial_config s \<or> ip4addr_aton E host = Some (s_ip_address s) \<or>
    strcaseeq host (s_hostname s) \<or> strcaseeq host (s_hostname s @ 0x2E # s_domain_name s)"
proof -
  let ?n = "s_hostname s" and ?k = "length (s_hostname s)"
  have addr: "(s_ip_address s = (case ip4addr_aton E host of Some a \<Rightarrow> a | None \<Rightarrow> stale_addr E)) =
      (ip4addr_aton E host = Some (s_ip_address s))"
    using assms(3) by (auto split: option.split)
  have dot: "tolower c = tolower 0x2E \<longleftrightarrow> c = 0x2E" for c by (rule tolower_eq_iff) simp
  have name: "(strncaseeq ?k host ?n \<and> (case drop ?k host of [] \<Rightarrow> True | c # cs \<Rightarrow> c = 0x2E \<and> strcaseeq cs (s_domain_name s))) \<longleftrightarrow>
      strcaseeq host ?n \<or> strcaseeq host (?n @ 0x2E # s_domain_name s)"
  proof -
    have split: "strcaseeq host (?n @ rest) \<longleftrightarrow> strcaseeq (take ?k host) ?n \<and> strcaseeq (drop ?k host) rest" for rest
    proof -
      have "strcaseeq (take ?k host @ drop ?k host) (?n @ rest) \<longleftrightarrow> strcaseeq (take ?k host) ?n \<and> strcaseeq (drop ?k host) rest"
        if "length (take ?k host) = ?k" using that by (simp add: strcaseeq_def del: append_take_drop_id)
      moreover have "length (take ?k host) = ?k" if "strcaseeq host (?n @ rest) \<or> strcaseeq (take ?k host) ?n"
        using that by (auto simp: strcaseeq_def dest!: arg_cong [where f = length])
      ultimately show ?thesis by auto
    qed
    have "strcaseeq (drop ?k host) [] \<longleftrightarrow> drop ?k host = []" by (simp add: strcaseeq_def)
    moreover have "strcaseeq (drop ?k host) (0x2E # s_domain_name s) \<longleftrightarrow>
        (\<exists>cs. drop ?k host = 0x2E # cs \<and> strcaseeq cs (s_domain_name s))"
      using dot by (cases "drop ?k host") (auto simp: strcaseeq_def)
    moreover have "(case drop ?k host of [] \<Rightarrow> True | c # cs \<Rightarrow> c = 0x2E \<and> strcaseeq cs (s_domain_name s)) \<longleftrightarrow>
        drop ?k host = [] \<or> (\<exists>cs. drop ?k host = 0x2E # cs \<and> strcaseeq cs (s_domain_name s))"
      by (cases "drop ?k host") auto
    ultimately show ?thesis
      using split [of "[]"] split [of "0x2E # s_domain_name s"] strncaseeq_take [OF assms(1,2)]
      by (simp only: append_Nil2) blast
  qed
  show ?thesis unfolding host_name_matches_def Let_def addr using name by auto
qed

theorem http_host_accepted_witness:
  "host_name_matches example_env example_server (bytes_of ''PicoW.home'')"
  using http_host_accepted [of "bytes_of ''PicoW.home''" example_server example_env]
  by (simp add: example_server_def example_env_def bytes_of_def strcaseeq_def tolower_def)

section \<open>Requests in two pieces\<close>

text \<open>C27: An acceptable GET request that TCP delivers in two pieces is answered like one in a single piece when the first
  piece holds no whole line yet, or the whole Host field. When the first piece ends between those points, the connection is
  closed and nothing is sent, although the request is acceptable.\<close>

theorem http_split_request:
  assumes "server_ok E s" "get_accepted E s (q1 @ q2) uri" "q1 \<noteq> []" "q2 \<noteq> []" "length q1 \<le> 5"
    "first_match (concat q1) CRLFCRLF (length (concat q1)) = None"
    "\<forall>ev \<in> set evs. fst ev = Acknowledged \<and> room E i (snd ev)" "length (response E (served E uri)) < length evs"
  shows "\<exists>c' s'. http_run E i ((Received (Some q1) ERR_OK, w1) # (Received (Some q2) ERR_OK, w2) # evs) (new_conn, s) =
      Some (c', s') \<and> c_hs c' = None \<and>
    c_queue c' = (if no_line (concat q1) \<or> parse_host E (concat q1) (length (concat q1)) \<noteq> None
      then response E (served E uri) else [])"
proof -
  let ?b = "concat q1" and ?q = "q1 @ q2"
  let ?go = "no_line ?b \<or> parse_host E ?b (length ?b) \<noteq> None"
  have l2: "1 < length ?q" using assms(3,4) by (cases q1; cases q2) auto
  obtain rest where rest: "concat ?q = get_request uri rest" using assms(2) by (auto simp: get_accepted_def)
  have len: "length (concat q1) \<le> 1023" using assms(2) l2 by (auto simp: get_accepted_def)
  have meth: "take 4 ?b = bytes_of ''GET '' \<or> length ?b < 7"
  proof (cases "length ?b < 7")
    case False
    then have "take 4 (?b @ concat q2) = take 4 ?b" by simp
    moreover have "?b @ concat q2 = get_request uri rest" using rest by simp
    ultimately have "take 4 ?b = take 4 (get_request uri rest)" by metis
    then show ?thesis using get_request_facts(1) [of uri rest "[]"] by simp
  qed simp
  have env: "strnstr_ok E" using assms(1) by (simp add: server_ok_def)
  have host: "host_name_matches E s host" if "parse_host E ?b (length ?b) = Some host" for host
  proof -
    have "parse_host E (concat ?q) (length (concat ?q)) = Some host"
      using parse_host_more [OF env that, of "concat q2"] by simp
    then show ?thesis using assms(2) by (simp add: get_accepted_def)
  qed
  from recv_first [OF assms(1) meth assms(6) _ assms(3,5) len, of i w1] host obtain c1 s1 where
    1: "http_step E i (Received (Some q1) ERR_OK, w1) (new_conn, s) = Some (c1, s1)" "c_queue c1 = []"
      "if ?go then c1 = waiting_conn (Some q1) \<and> (\<exists>w' buf. s1 = s\<lparr>lwip_state := w', httpd_req_buf := buf\<rparr> \<and> length buf = 1024)
       else c_hs c1 = None" by blast
  show ?thesis
  proof (cases ?go)
    case True
    with 1(3) obtain w' buf where c: "c1 = waiting_conn (Some q1)" "s1 = s\<lparr>lwip_state := w', httpd_req_buf := buf\<rparr>"
      "length buf = 1024" by auto
    have ok: "server_ok E s1" using assms(1) c by (simp add: server_ok_def)
    have hm: "host_name_matches E s1 h = host_name_matches E s h" for h
      by (simp add: c host_name_matches_def cong: if_cong option.case_cong list.case_cong)
    have acc: "get_accepted E s1 ?q uri" using assms(2) unfolding get_accepted_def hm .
    have q: "?q = chain (Some q1) q2" by (simp add: chain_def)
    have ev: "served E uri = None \<longrightarrow> (\<forall>ev \<in> set evs. \<forall>p err. fst ev \<noteq> Received p err)" using assms(7) by auto
    have r: "Some q1 = None \<or> 1 < length ?q" using l2 by simp
    from run_get_from [OF ok acc q r ev, of i w2] obtain c' s' n where
      "http_run E i ((Received (Some q2) ERR_OK, w2) # evs) (waiting_conn (Some q1), s1) = Some (c', s')"
      "c_queue c' = take n (response E (served E uri))" "c_hs c' = None" "length (response E (served E uri)) \<le> n"
      using assms(7,8) by auto
    with 1(1) True show ?thesis by (simp add: c(1))
  next
    case False
    with 1(3) have c: "c_hs c1 = None" by simp
    from closed_run [OF c, of E i "(Received (Some q2) ERR_OK, w2) # evs" s1] 1(1,2) False show ?thesis by auto
  qed
qed

text \<open>The example request is cut within the word Host.\<close>

theorem http_split_request_witness:
  "\<exists>c' s'. http_run example_env 0 ((Received (Some [hd example_get]) ERR_OK, ()) # (Received (Some (tl example_get)) ERR_OK, ()) #
      replicate 200 (Acknowledged, ())) (new_conn, example_server) = Some (c', s') \<and> c_hs c' = None \<and> c_queue c' = []"
proof -
  have "[hd example_get] @ tl example_get = example_get" by (simp add: example_get_def)
  then have acc: "get_accepted example_env example_server ([hd example_get] @ tl example_get) (bytes_of ''/a.txt'')"
    by (simp only: example_accepted)
  have "first_match (concat [hd example_get]) CRLFCRLF (length (concat [hd example_get])) = None"
    "\<not> no_line (concat [hd example_get])" "parse_host example_env (concat [hd example_get]) (length (concat [hd example_get])) = None"
    by code_simp+
  moreover have "[hd example_get] \<noteq> []" "tl example_get \<noteq> []" "length [hd example_get] \<le> 5" by (simp_all add: example_get_def)
  ultimately show ?thesis
    using http_split_request [OF example_ok acc, of "replicate 200 (Acknowledged, ())" 0 "()" "()"]
    by (simp add: example_served response_length example_room)
qed


section \<open>The captive portal\<close>

definition other_host :: "'w http_env \<Rightarrow> 'w httpd \<Rightarrow> pbufs \<Rightarrow> bool" where
  "other_host E s p = (7 \<le> length (concat p) \<and> first_match (concat p) (bytes_of CRLF) (length (concat p)) \<noteq> None \<and>
     parse_method (concat p) \<noteq> None \<and> (length p = 1 \<or> length (concat p) \<le> 1023) \<and>
     (case parse_host E (concat p) (length (concat p)) of None \<Rightarrow> False | Some host \<Rightarrow> \<not> host_name_matches E s host))"

lemma parse_other_host:
  assumes "strnstr_ok E" "other_host E s p"
  shows "parse_data E i hs q (concat p @ c) (length (concat p)) s = Some (Some (ERR_OK, send_redirect E hs s, s))"
proof -
  let ?b = "concat p"
  note m = assms(1) [unfolded strnstr_ok_def, rule_format]
  have ne: "bytes_of CRLF \<noteq> []" by (simp add: bytes_of_def CRLF_def)
  obtain host where h: "parse_host E ?b (length ?b) = Some host" "\<not> host_name_matches E s host"
    using assms(2) by (auto simp: other_host_def split: option.splits)
  have "take 4 (?b @ c) = take 4 ?b" "take 5 (?b @ c) = take 5 ?b" using assms(2) by (simp_all add: other_host_def)
  then have "parse_method (?b @ c) = parse_method ?b" by (simp only: parse_method_def)
  moreover obtain a b where "parse_method ?b = Some (a, b)" using assms(2) by (auto simp: other_host_def)
  ultimately show ?thesis using assms(2) h parse_host_append [OF assms(1), of ?b c]
    by (simp add: parse_data_def other_host_def MIN_REQ_LEN_def m [OF ne] first_match_append [OF order_refl ne])
qed

lemma redirect_pending:
  assumes "hs = send_redirect E (http_state_init\<lparr>h_req := r\<rparr>) s"
  shows "responding E hs" "pending E hs = redirect_text s @ header_text E HTTP_HDR_CONN_CLOSE" "\<not> busy hs"
    "h_post_content_len_left hs = 0"
proof -
  have h: "h_hdrs hs = [Some (redirect_text s), None, Some (header_text E HTTP_HDR_CONN_CLOSE), None, None, None]"
    "h_hdr_index hs = 0" "h_hdr_pos hs = 0" "h_file hs = None" "h_left hs = 0" "\<not> h_handle hs" "h_post_content_len_left hs = 0"
    unfolding assms send_redirect_def Let_def
    by (simp_all add: http_state_init_def six_none HDR_STRINGS_IDX_HTTP_STATUS_def
      HDR_STRINGS_IDX_CONTENT_LEN_KEEPALIVE_def numeral_2_eq_2)
  have w: "with_length E hs = hs" by (simp add: with_length_def h httpd_idx)
  have "redirect_text s \<noteq> []" by (simp add: redirect_text_def bytes_of_def)
  then show "responding E hs" by (simp add: responding_def headers_ok_def data_ok_def h w httpd_idx)
  show "pending E hs = redirect_text s @ header_text E HTTP_HDR_CONN_CLOSE"
    by (simp add: pending_def w header_rest_def data_rest_def h)
  show "\<not> busy hs" "h_post_content_len_left hs = 0" by (simp_all add: busy_def h)
qed

lemma recv_other_host:
  assumes "server_ok E s" "other_host E s p"
  shows "\<exists>hs s1. http_step E i (Received (Some p) ERR_OK, w) (new_conn, s) = map_option snd (http_send E i (new_conn\<lparr>c_hs := Some hs\<rparr>, s1)) \<and>
    responding E hs \<and> pending E hs = redirect_text s @ header_text E HTTP_HDR_CONN_CLOSE \<and> \<not> busy hs"
proof -
  let ?b = "concat p" and ?hs = "http_state_init\<lparr>h_req := Some p\<rparr>"
  let ?s = "s\<lparr>lwip_state := altcp_recved E i (tot_len p) w\<rparr>"
  have ok: "strnstr_ok E" "length (httpd_req_buf s) = 1024" using assms(1) by (simp_all add: server_ok_def)
  have tot: "tot_len p = length ?b" by (simp add: tot_len_def length_concat)
  have ne: "p \<noteq> []" using assms(2) by (auto simp: other_host_def)
  define s1 where "s1 = (if length p > 1 then ?s\<lparr>httpd_req_buf := ?b @ drop (length ?b) (httpd_req_buf s)\<rparr> else ?s)"
  have hm: "host_name_matches E s1 h = host_name_matches E s h" for h
    by (simp add: s1_def host_name_matches_def cong: if_cong option.case_cong list.case_cong)
  have o: "other_host E s1 p" using assms(2) unfolding other_host_def hm .
  have red: "send_redirect E hs s1 = send_redirect E hs s" for hs by (simp add: s1_def send_redirect_def redirect_text_def)
  note parse = parse_other_host [OF ok(1) o, of i ?hs p, unfolded red]
  have "http_parse_request E i p http_state_init ?s = Some (ERR_OK, send_redirect E ?hs s, s1)"
  proof (cases "length p > 1")
    case True
    then have n: "length ?b \<le> 1023" using assms(2) by (auto simp: other_host_def)
    have "min (tot_len p) LWIP_HTTPD_MAX_REQ_LENGTH = length ?b" using n tot by (simp add: LWIP_HTTPD_MAX_REQ_LENGTH_def)
    moreover have "mem_cpy (httpd_req_buf ?s) 0 ?b = Some (?b @ drop (length ?b) (httpd_req_buf s))"
      using n ok(2) by (simp add: mem_cpy_def)
    ultimately show ?thesis using True parse [of "drop (length ?b) (httpd_req_buf s)"]
      by (simp add: http_parse_request_def Let_def s1_def)
  next
    case False
    with ne obtain d where d: "p = [d]" by (cases p) auto
    with False parse [of "[]"] show ?thesis by (simp add: http_parse_request_def Let_def s1_def)
  qed
  moreover define hs where "hs = (send_redirect E ?hs s)\<lparr>h_req := None\<rparr>"
  moreover note redirect_pending [OF refl, of E "Some p" s]
  ultimately have "http_step E i (Received (Some p) ERR_OK, w) (new_conn, s) =
      map_option snd (http_send E i (new_conn\<lparr>c_hs := Some hs\<rparr>, s1))" "responding E hs"
      "pending E hs = redirect_text s @ header_text E HTTP_HDR_CONN_CLOSE" "\<not> busy hs"
    using responding_req by (simp_all add: http_recv_def new_conn_def Let_def busy_def)
  then show ?thesis by blast
qed

text \<open>C25: While the device is being set up, a request for any other host, whatever the method and URI, is answered with a
  redirection to the device: exactly this text reaches the queue of the connection, in pieces of any size, and the connection
  is then closed.\<close>

theorem http_captive_redirect:
  assumes "server_ok E s" "other_host E s p" "length (s_hostname s) + length (s_domain_name s) \<le> 87"
    "\<forall>ev \<in> set evs. fst ev = Acknowledged \<and> room E i (snd ev)"
    "length (s_hostname s) + length (s_domain_name s) + 61 < length evs"
  shows "\<exists>c' s'. http_run E i ((Received (Some p) ERR_OK, w) # evs) (new_conn, s) = Some (c', s') \<and> c_hs c' = None \<and>
    c_queue c' = bytes_of (''HTTP/1.0 302 Found'' @ CRLF @ ''Location: http://'') @ s_hostname s @ 0x2E # s_domain_name s @
      bytes_of (CRLF @ ''Connection: Close'' @ CRLF @ CRLF)"
proof -
  let ?r = "redirect_text s @ header_text E HTTP_HDR_CONN_CLOSE"
  have whole: "?r = bytes_of (''HTTP/1.0 302 Found'' @ CRLF @ ''Location: http://'') @ s_hostname s @ 0x2E # s_domain_name s @
      bytes_of (CRLF @ ''Connection: Close'' @ CRLF @ CRLF)"
    using assms(3) by (simp add: redirect_text_def header_text_def bytes_of_def CRLF_def)
  then have len: "length ?r < length evs" using assms(5) by (simp add: bytes_of_def CRLF_def)
  from recv_other_host [OF assms(1,2), of i w] obtain hs s1 where
    1: "http_step E i (Received (Some p) ERR_OK, w) (new_conn, s) = map_option snd (http_send E i (new_conn\<lparr>c_hs := Some hs\<rparr>, s1))"
      "responding E hs" "pending E hs = ?r" "\<not> busy hs" by (elim exE conjE) (rule that)
  let ?c = "new_conn\<lparr>c_hs := Some hs\<rparr>"
  have c: "c_hs ?c = Some hs" by simp
  obtain k c1 s2 where 2: "http_send E i (?c, s1) = Some (k, c1, s2)" "sends_on E (room E i (lwip_state s1)) ?c hs c1"
    by (rule http_send_spec [OF c 1(2)])
  from sends_on_streams [OF 2(2)] 1(3,4) obtain n where
    n: "c_queue c1 = take n ?r" "streams E c1 False (drop n ?r)" "c_hs c1 = None \<longrightarrow> drop n ?r = []"
    by (auto simp: new_conn_def)
  have "\<exists>c' s'. http_run E i evs (c1, s2) = Some (c', s') \<and> c_hs c' = None \<and> c_queue c' = ?r"
    by (rule streams_complete [OF n assms(4) len])
  then show ?thesis using 1(1) 2(1) whole by simp
qed


text \<open>A request for another site.\<close>

definition example_other :: pbufs where
  "example_other = [bytes_of (''POST / HTTP/1.1'' @ CRLF @ ''Host: example.org'' @ CRLF)]"

theorem http_captive_redirect_witness:
  "\<exists>c' s'. http_run example_env 0 ((Received (Some example_other) ERR_OK, ()) # replicate 100 (Acknowledged, ()))
      (new_conn, example_server) = Some (c', s') \<and> c_hs c' = None \<and>
    c_queue c' = bytes_of (''HTTP/1.0 302 Found'' @ CRLF @ ''Location: http://picow.home'' @ CRLF @ ''Connection: Close'' @ CRLF @ CRLF)"
proof -
  have "other_host example_env example_server example_other" by code_simp
  from http_captive_redirect [OF example_ok this, of "replicate 100 (Acknowledged, ())" 0 "()"]
  show ?thesis by (simp add: example_room example_server_def bytes_of_def)
qed

end
