(* ===== verification/Httpd_Queue_Proofs.thy ===== *)
theory Httpd_Queue_Proofs
  imports Httpd_Access_Proofs
begin

text \<open>An incomplete POST request can be kept without bound.\<close>

section \<open>A queue without bound\<close>

text \<open>
  The empty line that the parser waits for lies within what it takes for the URI of this POST request, so that the search
  for it behind the URI fails.
\<close>

definition endless_post :: bytes where
  "endless_post = bytes_of (''POST /'' @ CRLF @ CRLF @ ''Host: x'' @ CRLF)"

lemma endless_bytes: "endless_post = [80, 79, 83, 84, 32, 47, 13, 10, 13, 10, 72, 111, 115, 116, 58, 32, 120, 13, 10]"
  by (simp add: endless_post_def CRLF_def bytes_of_def)

lemma endless_drop: "drop 5 (endless_post @ c) = [47, 13, 10, 13, 10, 72, 111, 115, 116, 58] @ 32 # 120 # 13 # 10 # c"
  by (simp add: endless_bytes)

lemma endless_length: "length endless_post = 19" by (simp add: endless_bytes)

lemma first_match_fill: "t \<noteq> [] \<Longrightarrow> hd t \<noteq> 88 \<Longrightarrow> first_match (replicate m 88) t n = None"
proof (induction m arbitrary: n)
  case (Suc m)
  then have "take (length t) (88 # replicate m 88) \<noteq> t" by (cases t) auto
  with Suc show ?case by simp
qed simp

lemma parse_endless:
  assumes "strnstr_ok E" "host_name_matches E s [120]"
  shows "parse_data E i hs q (endless_post @ replicate m 88 @ c) (19 + m) s = Some (Some (ERR_INPROGRESS, hs, s))"
proof -
  let ?d = "endless_post @ replicate m 88 @ c"
  note f = assms(1) [unfolded strnstr_ok_def, rule_format]
  have ne: "bytes_of CRLF \<noteq> []" "bytes_of (CRLF @ CRLF) \<noteq> []" "bytes_of '' '' \<noteq> []" "bytes_of ''Host: '' \<noteq> []"
    by (simp_all add: bytes_of_def CRLF_def)
  have bytes: "bytes_of CRLF = [13, 10]" "bytes_of (CRLF @ CRLF) = [13, 10, 13, 10]" "bytes_of '' '' = [32]"
    by (simp_all add: bytes_of_def CRLF_def)
  have crlf: "first_match endless_post (bytes_of CRLF) 19 \<noteq> None" "first_match endless_post (bytes_of (CRLF @ CRLF)) 19 \<noteq> None"
    by (simp_all add: bytes endless_bytes del: bytes_of_append)
  have l: "first_match ?d (bytes_of CRLF) (19 + m) \<noteq> None" "first_match ?d (bytes_of (CRLF @ CRLF)) (19 + m) \<noteq> None"
    using crlf first_match_more [of endless_post _ 19 _ "19 + m" "replicate m 88 @ c"]
    by (auto simp: endless_length)
  have "parse_host E endless_post (length endless_post) = Some [120]"
    by (simp add: parse_host_def f ne endless_bytes bytes_of_def CRLF_def Let_def)
  then have "parse_host E (endless_post @ replicate m 88) (length (endless_post @ replicate m 88)) = Some [120]"
    by (rule parse_host_more [OF assms(1)])
  then have host: "parse_host E ?d (19 + m) = Some [120]"
    using parse_host_append [OF assms(1), of "endless_post @ replicate m 88" c] by (simp add: endless_length)
  have blank: "first_match (drop 5 ?d) (bytes_of '' '') (19 + m - 5) = Some 10"
    unfolding endless_drop bytes(3) using first_match_char [of 32 "[47, 13, 10, 13, 10, 72, 111, 115, 116, 58]" "19 + m - 5"] by simp
  let ?d2 = "(?d[4 := 0])[15 := 0]"
  have d2: "?d2 = [80, 79, 83, 84, 0, 47, 13, 10, 13, 10, 72, 111, 115, 116, 58] @ 0 # 120 # 13 # 10 # replicate m 88 @ c"
    by (simp add: endless_bytes list_update_append)
  have set: "mem_set ?d 4 0 = Some (?d[4 := 0])" "mem_set (?d[4 := 0]) 15 0 = Some ?d2"
    by (simp_all add: mem_set_def endless_length)
  obtain uri where uri: "cstr_at ?d2 5 = Some uri" unfolding d2 by (simp add: cstr_at_def)
  have "first_match (drop 16 ?d2) (bytes_of (CRLF @ CRLF)) (19 + m - 16) = None"
  proof -
    have fill: "first_match (replicate m 88) [13, 10, 13, 10] n = None" for m n by (rule first_match_fill) simp_all
    have "drop 16 ?d2 = (120 # 13 # 10 # replicate m 88) @ c" by (simp add: d2)
    moreover have "first_match (120 # 13 # 10 # replicate m 88) (bytes_of (CRLF @ CRLF)) (19 + m - 16) = None"
      using fill by (cases m) (simp_all add: bytes del: bytes_of_append)
    ultimately show ?thesis
      using first_match_append [of "19 + m - 16" "120 # 13 # 10 # replicate m 88" "bytes_of (CRLF @ CRLF)" c] ne(2) by simp
  qed
  then have "http_post_request E i q hs ?d2 (19 + m) uri 15 s = Some (ERR_INPROGRESS, hs, s)"
    by (simp add: http_post_request_def f [OF ne(2)] del: bytes_of_append)
  then have "parse_uri E i hs q ?d (19 + m) 4 True s = Some (Some (ERR_INPROGRESS, hs, s))"
    using blank l(2) set uri by (auto simp: parse_uri_def Let_def f [OF ne(3)] f [OF ne(2)] simp del: bytes_of_append drop_append)
  moreover have "parse_method ?d = Some (4, True)" by (simp add: parse_method_def endless_bytes bytes_of_def)
  ultimately show ?thesis using l(1) host assms(2) by (simp add: parse_data_def MIN_REQ_LEN_def f [OF ne(1)])
qed

lemma recv_endless:
  assumes "server_ok E s" "host_name_matches E s [120]" "chain r p = endless_post # q" "concat q = replicate m 88" "r = None \<and> q = [] \<or> q \<noteq> []"
  shows "\<exists>s'. http_step E i (Received (Some p) ERR_OK, w) (waiting_conn r, s) = Some (waiting_conn (Some (endless_post # q)), s') \<and>
    server_ok E s' \<and> host_name_matches E s' [120]"
proof -
  let ?req = "endless_post # q" and ?hs = "http_state_init\<lparr>h_req := Some (endless_post # q)\<rparr>"
  let ?s = "s\<lparr>lwip_state := altcp_recved E i (tot_len p) w\<rparr>"
  have ok: "strnstr_ok E" "length (httpd_req_buf s) = 1024" using assms(1) by (simp_all add: server_ok_def)
  define k where "k = min m 1004"
  define s1 where "s1 = (if q = [] then ?s else ?s\<lparr>httpd_req_buf := endless_post @ replicate k 88 @ drop (19 + k) (httpd_req_buf s)\<rparr>)"
  have hm: "host_name_matches E s1 [120]"
    using assms(2) by (simp add: s1_def host_name_matches_def cong: if_cong option.case_cong list.case_cong)
  have chain: "(case r of None \<Rightarrow> p | Some q \<Rightarrow> q @ p) = ?req" using assms(3) by (simp add: chain_def)
  have tot: "tot_len ?req = 19 + m" using arg_cong [OF assms(4), of length] by (simp add: tot_len_def endless_length length_concat)
  note parse = parse_endless [OF ok(1) hm, of i ?hs ?req]
  have "http_parse_request E i p (http_state_init\<lparr>h_req := r\<rparr>) ?s = Some (ERR_INPROGRESS, ?hs, s1)"
  proof (cases "q = []")
    case True
    then have "m = 0" using assms(4) by simp
    have p: "p = [endless_post]" "r = None" using True assms(3,5) by (auto simp: chain_def)
    from parse [of 0 "[]"] True show ?thesis unfolding http_parse_request_def
      by (simp add: Let_def p s1_def endless_length)
  next
    case False
    have d: "min (tot_len ?req) LWIP_HTTPD_MAX_REQ_LENGTH = 19 + k" by (simp add: tot k_def LWIP_HTTPD_MAX_REQ_LENGTH_def)
    have "take (19 + k) (concat ?req) = endless_post @ replicate k 88"
      by (simp add: assms(4) endless_length k_def)
    moreover have "mem_cpy (httpd_req_buf ?s) 0 (endless_post @ replicate k 88) =
        Some (endless_post @ replicate k 88 @ drop (19 + k) (httpd_req_buf s))"
      using ok(2) by (simp add: mem_cpy_def endless_length k_def)
    ultimately show ?thesis using parse [of k "drop (19 + k) (httpd_req_buf s)"] False
      unfolding http_parse_request_def
      by (simp add: Let_def chain d s1_def)
  qed
  then have "http_step E i (Received (Some p) ERR_OK, w) (waiting_conn r, s) = Some (waiting_conn (Some ?req), s1)"
    by (simp add: http_recv_def waiting_conn_def new_conn_def Let_def)
  moreover have "server_ok E s1" using assms(1) by (simp add: server_ok_def s1_def endless_length k_def)
  ultimately show ?thesis using hm by blast
qed


lemma run_endless:
  assumes "server_ok E s" "host_name_matches E s [120]"
  shows "\<exists>s'. http_run E i (replicate n (Received (Some [replicate k 88]) ERR_OK, w))
      (waiting_conn (Some (endless_post # replicate j (replicate k 88))), s) =
    Some (waiting_conn (Some (endless_post # replicate (j + n) (replicate k 88))), s')"
  using assms
proof (induction n arbitrary: j s)
  case 0
  then show ?case by simp
next
  case (Suc n)
  let ?x = "replicate k (88 :: u8)"
  have c: "chain (Some (endless_post # replicate j ?x)) [?x] = endless_post # replicate (Suc j) ?x"
    by (simp add: chain_def replicate_append_same)
  have m: "concat (replicate (Suc j) ?x) = replicate (Suc j * k) 88" for j :: nat
    by (induction j) (simp_all add: replicate_add)
  have "Some (endless_post # replicate j ?x) = None \<and> replicate (Suc j) ?x = [] \<or> replicate (Suc j) ?x \<noteq> []" by simp
  from recv_endless [OF Suc.prems c m this, of i w] obtain s1 where
    1: "http_step E i (Received (Some [?x]) ERR_OK, w) (waiting_conn (Some (endless_post # replicate j ?x)), s) =
        Some (waiting_conn (Some (endless_post # replicate (Suc j) ?x)), s1)" "server_ok E s1" "host_name_matches E s1 [120]"
    by blast
  from Suc.IH [OF 1(2,3), of "Suc j"] 1(1) show ?case by simp
qed



end
