(* ===== verification/Settings.thy ===== *)
theory Settings
  imports Httpd_Request
begin

text \<open>
  The settings of the device, \<^verbatim>\<open>src/inc/settings.h\<close> and \<^verbatim>\<open>src/src/settings.cpp\<close>, and the POST handler that changes
  them, \<^verbatim>\<open>src/src/post.cpp\<close>. Character arrays are byte lists of their full length. Floating-point numbers are a type
  parameter \<open>'f\<close>, JSON values a type parameter \<open>'j\<close> with ArduinoJson's accessors as a record of functions.
\<close>

section \<open>Data\<close>

definition MAX_SERIAL_SENSORS :: nat where "MAX_SERIAL_SENSORS = 3"
definition MAX_PUBLISH_SETTINGS :: nat where "MAX_PUBLISH_SETTINGS = 10"
definition SERIAL_BUFFERS_SIZE :: nat where "SERIAL_BUFFERS_SIZE = 256"

record 'f publish_settings_entry =
  ps_enabled :: bool
  ps_name :: bytes
  ps_start :: u16
  ps_end :: u16
  ps_is_num :: bool
  ps_scale :: 'f
  ps_avg_cnt :: int
  ps_topic :: bytes

record 'f sensor_settings_entry =
  ss_baudrate :: u32
  ss_enabled :: bool
  ss_simulate_values :: bool
  ss_publish_settings :: "'f publish_settings_entry list"

record ipv4_settings =
  v4_dhcp :: bool
  v4_ip :: u32
  v4_nm :: u32
  v4_gw :: u32
  v4_dns :: u32

record wifi_settings =
  wf_ssid :: bytes
  wf_password :: bytes
  wf_auth_mode :: int
  wf_ipv4 :: ipv4_settings

record ethernet_settings =
  et_ipv4 :: ipv4_settings

record mqtt_settings =
  mq_broker :: bytes
  mq_port :: u16
  mq_username :: bytes
  mq_password :: bytes

datatype conn_type = WIFI | ETHERNET

record 'f client_mode_settings =
  cs_conn_type :: conn_type
  cs_wifi :: wifi_settings
  cs_eth :: ethernet_settings
  cs_mqtt :: mqtt_settings
  cs_password :: bytes
  cs_sensor_settings :: "'f sensor_settings_entry list"

definition communication_settings_changed :: "'f sensor_settings_entry \<Rightarrow> 'f sensor_settings_entry \<Rightarrow> bool" where
  "communication_settings_changed a b =
     (ss_baudrate a \<noteq> ss_baudrate b \<or> ss_enabled a \<noteq> ss_enabled b \<or> ss_simulate_values a \<noteq> ss_simulate_values b)"

text \<open>The device: what is in flash, the flags of \<^verbatim>\<open>status.h\<close>, and whether a restart is under way.\<close>

record 'f device =
  flash_settings :: "'f client_mode_settings"
  dv_initial_config :: bool
  mqtt_reconnect :: bool
  rebooting :: bool

text \<open>
  ArduinoJson, the C library, the flash driver and the constants of the Wi-Fi driver.
  \<open>js_string\<close> is null for what is not a string, \<open>js_differs\<close> is \<open>!=\<close> with
  a C string; \<open>flash_safe_execute\<close> says whether the other core could be stopped.
\<close>

record ('j, 'f) json_env =
  js_parse :: "bytes \<Rightarrow> 'j option"
  js_get :: "'j \<Rightarrow> string \<Rightarrow> 'j"
  js_nth :: "'j \<Rightarrow> nat \<Rightarrow> 'j"
  js_string :: "'j \<Rightarrow> bytes option"
  js_bool :: "'j \<Rightarrow> bool"
  js_u16 :: "'j \<Rightarrow> u16"
  js_differs :: "'j \<Rightarrow> bytes \<Rightarrow> bool"
  c_atof :: "bytes \<Rightarrow> 'f"
  aton :: "bytes \<Rightarrow> u32 option"
  flash_safe_execute :: bool
  CYW43_AUTH_OPEN :: int
  CYW43_AUTH_WPA_TKIP_PSK :: int
  CYW43_AUTH_WPA2_MIXED_PSK :: int
  CYW43_AUTH_WPA3_WPA2_AES_PSK :: int

section \<open>The code: conversions\<close>

definition scan_auth_mode_to_connect_auth_mode :: "('j, 'f) json_env \<Rightarrow> int \<Rightarrow> int" where
  "scan_auth_mode_to_connect_auth_mode J m =
     (if m = 0 then CYW43_AUTH_OPEN J
      else if m = 3 then CYW43_AUTH_WPA_TKIP_PSK J
      else if m = 5 then CYW43_AUTH_WPA3_WPA2_AES_PSK J
      else if m = 7 then CYW43_AUTH_WPA2_MIXED_PSK J
      else - 1)"

definition connect_auth_mode_to_scan_auth_mode :: "('j, 'f) json_env \<Rightarrow> int \<Rightarrow> int" where
  "connect_auth_mode_to_scan_auth_mode J m =
     (if m = CYW43_AUTH_OPEN J then 0
      else if m = CYW43_AUTH_WPA_TKIP_PSK J then 3
      else if m = CYW43_AUTH_WPA3_WPA2_AES_PSK J then 5
      else if m = CYW43_AUTH_WPA2_MIXED_PSK J then 7
      else - 1)"

text \<open>\<^verbatim>\<open>strncpy\<close> into an array of \<open>n\<close> bytes.\<close>

definition c_strncpy :: "nat \<Rightarrow> bytes \<Rightarrow> bytes" where
  "c_strncpy n src = take n (src @ replicate n 0)"

text \<open>A string of the document copied into an array; a null pointer is read.\<close>

definition js_copy :: "('j, 'f) json_env \<Rightarrow> nat \<Rightarrow> 'j \<Rightarrow> bytes option" where
  "js_copy J n v = map_option (c_strncpy n) (js_string J v)"

definition js_atoi :: "('j, 'f) json_env \<Rightarrow> 'j \<Rightarrow> int option" where
  "js_atoi J v = map_option c_atoi (js_string J v)"

text \<open>\<^verbatim>\<open>ipaddr_aton\<close> leaves the address alone when the text is none.\<close>

definition js_addr :: "('j, 'f) json_env \<Rightarrow> 'j \<Rightarrow> u32 \<Rightarrow> u32 option" where
  "js_addr J v old = map_option (\<lambda>str. case aton J str of Some a \<Rightarrow> a | None \<Rightarrow> old) (js_string J v)"

section \<open>The code: saving\<close>

definition save_ipv4 :: "('j, 'f) json_env \<Rightarrow> 'j \<Rightarrow> ipv4_settings \<Rightarrow> ipv4_settings option" where
  "save_ipv4 J v s = do {
     ip \<leftarrow> js_addr J (js_get J v ''ip'') (v4_ip s);
     nm \<leftarrow> js_addr J (js_get J v ''nm'') (v4_nm s);
     gw \<leftarrow> js_addr J (js_get J v ''gw'') (v4_gw s);
     Some (s\<lparr>v4_dhcp := js_bool J (js_get J v ''dhcp''), v4_ip := ip, v4_nm := nm, v4_gw := gw\<rparr>) }"

definition save_wifi :: "('j, 'f) json_env \<Rightarrow> 'j \<Rightarrow> wifi_settings \<Rightarrow> wifi_settings option" where
  "save_wifi J v s = do {
     ssid \<leftarrow> js_copy J 32 (js_get J v ''ssid'');
     pw \<leftarrow> js_copy J 32 (js_get J v ''password'');
     mode \<leftarrow> js_atoi J (js_get J v ''auth_mode'');
     v4 \<leftarrow> save_ipv4 J v (wf_ipv4 s);
     Some \<lparr>wf_ssid = ssid, wf_password = pw, wf_auth_mode = scan_auth_mode_to_connect_auth_mode J mode, wf_ipv4 = v4\<rparr> }"

definition save_mqtt :: "('j, 'f) json_env \<Rightarrow> 'j \<Rightarrow> mqtt_settings option" where
  "save_mqtt J v = do {
     broker \<leftarrow> js_copy J 32 (js_get J v ''broker'');
     port \<leftarrow> js_atoi J (js_get J v ''port'');
     user \<leftarrow> js_copy J 32 (js_get J v ''username'');
     pw \<leftarrow> js_copy J 32 (js_get J v ''password'');
     Some \<lparr>mq_broker = broker, mq_port = of_int port, mq_username = user, mq_password = pw\<rparr> }"

definition save_publish :: "('j, 'f) json_env \<Rightarrow> 'j \<Rightarrow> 'f publish_settings_entry option" where
  "save_publish J v = do {
     name \<leftarrow> js_copy J 10 (js_get J v ''name'');
     avg \<leftarrow> js_atoi J (js_get J v ''avg_cnt'');
     scale \<leftarrow> js_string J (js_get J v ''scale'');
     topic \<leftarrow> js_copy J 30 (js_get J v ''topic'');
     Some \<lparr>ps_enabled = js_bool J (js_get J v ''enabled''), ps_name = name, ps_start = js_u16 J (js_get J v ''start''),
       ps_end = js_u16 J (js_get J v ''end''), ps_is_num = js_bool J (js_get J v ''is_num''), ps_scale = c_atof J scale,
       ps_avg_cnt = avg, ps_topic = topic\<rparr> }"

fun save_publish_loop :: "('j, 'f) json_env \<Rightarrow> 'j \<Rightarrow> nat list \<Rightarrow> 'f publish_settings_entry list option" where
  "save_publish_loop J v [] = Some []"
| "save_publish_loop J v (j # js) = do {
     p \<leftarrow> save_publish J (js_nth J v j);
     ps \<leftarrow> save_publish_loop J v js;
     Some (p # ps) }"

definition save_sensor :: "('j, 'f) json_env \<Rightarrow> 'j \<Rightarrow> 'f sensor_settings_entry option" where
  "save_sensor J v = do {
     baud \<leftarrow> js_atoi J (js_get J v ''baud'');
     ps \<leftarrow> save_publish_loop J (js_get J v ''p_s'') [0..<MAX_PUBLISH_SETTINGS];
     Some \<lparr>ss_baudrate = of_int baud, ss_enabled = js_bool J (js_get J v ''enabled''),
       ss_simulate_values = js_bool J (js_get J v ''simulate_values''), ss_publish_settings = ps\<rparr> }"

fun save_sensor_loop :: "('j, 'f) json_env \<Rightarrow> 'j \<Rightarrow> nat list \<Rightarrow> 'f sensor_settings_entry list option" where
  "save_sensor_loop J v [] = Some []"
| "save_sensor_loop J v (i # is) = do {
     s \<leftarrow> save_sensor J (js_nth J v i);
     ss \<leftarrow> save_sensor_loop J v is;
     Some (s # ss) }"

text \<open>The settings of the document, over those in flash. The password is decided upon separately.\<close>

definition save_all :: "('j, 'f) json_env \<Rightarrow> 'j \<Rightarrow> 'f client_mode_settings \<Rightarrow> 'f client_mode_settings option" where
  "save_all J v s = do {
     wifi \<leftarrow> save_wifi J (js_get J v ''wifi'') (cs_wifi s);
     eth \<leftarrow> save_ipv4 J (js_get J v ''eth'') (et_ipv4 (cs_eth s));
     mqtt \<leftarrow> save_mqtt J (js_get J v ''mqtt'');
     sensors \<leftarrow> save_sensor_loop J (js_get J v ''s_s'') [0..<MAX_SERIAL_SENSORS];
     Some (s\<lparr>cs_conn_type := (if js_differs J (js_get J v ''conn_type'') (bytes_of ''WIFI'') then ETHERNET else WIFI),
       cs_wifi := wifi, cs_eth := \<lparr>et_ipv4 = eth\<rparr>, cs_mqtt := mqtt, cs_sensor_settings := sensors\<rparr>) }"

datatype json_value = JText string | JBool bool

type_synonym json_response = "(string \<times> json_value) list"

text \<open>
  The password of the document: whether to save, the message if not, and the new password. The password in flash is read as
  a string; the two bytes of padding behind its array are zero.
\<close>

definition c_string :: "bytes \<Rightarrow> bytes" where
  "c_string b = takeWhile (\<lambda>c. c \<noteq> 0) b"

definition check_password ::
  "('j, 'f) json_env \<Rightarrow> 'j \<Rightarrow> bytes \<Rightarrow> bool \<Rightarrow> (bool \<times> json_response \<times> bytes) option" where
  "check_password J v old initial =
     (let pw = js_get J (js_get J v ''settings'') ''password'' in
      if initial then do {
        str \<leftarrow> js_string J pw;
        let missing = (str = [] \<and> c_string old = []);
        new \<leftarrow> (if js_bool J pw then js_copy J 8 pw else Some old);
        Some (\<not> missing, if missing then [(''message'', JText ''Define a Password to Protect Settings'')] else [], new) }
      else if js_differs J pw (c_string old) then Some (False, [(''message'', JText ''Wrong Password'')], old)
      else Some (True, [], old))"

definition write_client_mode_settings :: "('j, 'f) json_env \<Rightarrow> 'f client_mode_settings \<Rightarrow> 'f device \<Rightarrow> 'f device" where
  "write_client_mode_settings J s d = (if flash_safe_execute J then d\<lparr>flash_settings := s\<rparr> else d)"

definition sensors_changed :: "'f client_mode_settings \<Rightarrow> 'f client_mode_settings \<Rightarrow> bool" where
  "sensors_changed old new =
     list_ex (\<lambda>(a, b). communication_settings_changed a b) (zip (cs_sensor_settings old) (cs_sensor_settings new))"

definition settings_changed :: "'f client_mode_settings \<Rightarrow> 'f client_mode_settings \<Rightarrow> 'f device \<Rightarrow> json_response \<times> 'f device" where
  "settings_changed old new d =
     (let network_settings_changed =
            (cs_conn_type old \<noteq> cs_conn_type new \<or> cs_wifi old \<noteq> cs_wifi new \<or> cs_eth old \<noteq> cs_eth new);
          mqtt_settings_changed = (cs_mqtt old \<noteq> cs_mqtt new)
      in if network_settings_changed \<or> sensors_changed old new \<or> mqtt_settings_changed
         then ([(''OK'', JText ''Rebooting'')], d\<lparr>rebooting := True\<rparr>)
         else ([(''populate_readings'', JBool True), (''message'', JText ''Settings saved'')],
               if mqtt_settings_changed then d\<lparr>mqtt_reconnect := True\<rparr> else d))"

definition settings_save_fn :: "('j, 'f) json_env \<Rightarrow> bytes \<Rightarrow> 'f device \<Rightarrow> (json_response \<times> 'f device) option" where
  "settings_save_fn J content d =
     (case js_parse J content of
        None \<Rightarrow> Some ([], d)
      | Some v \<Rightarrow> do {
          let old = flash_settings d;
          new \<leftarrow> save_all J v old;
          (save, response, pw) \<leftarrow> check_password J v (cs_password old) (dv_initial_config d);
          let new = new\<lparr>cs_password := pw\<rparr>;
          if save then (case settings_changed old new (write_client_mode_settings J new d) of
            (more_response, d) \<Rightarrow> Some (response @ more_response, d))
          else Some (response, d) })"

definition restart_fn :: "'f device \<Rightarrow> json_response \<times> 'f device" where
  "restart_fn d = ([], d\<lparr>rebooting := True\<rparr>)"

end
