(* ===== verification/Settings_Proofs.thy ===== *)
theory Settings_Proofs
  imports Settings
begin

text \<open>
  Who may change the settings, and what is stored.
\<close>

section \<open>Shapes\<close>

definition publish_ok :: "'f publish_settings_entry \<Rightarrow> bool" where
  "publish_ok p = (length (ps_name p) = 10 \<and> length (ps_topic p) = 30)"

definition sensor_ok :: "'f sensor_settings_entry \<Rightarrow> bool" where
  "sensor_ok s = (length (ss_publish_settings s) = MAX_PUBLISH_SETTINGS \<and> (\<forall>p \<in> set (ss_publish_settings s). publish_ok p))"

definition settings_ok :: "'f client_mode_settings \<Rightarrow> bool" where
  "settings_ok s = (length (wf_ssid (cs_wifi s)) = 32 \<and> length (wf_password (cs_wifi s)) = 32 \<and>
     length (mq_broker (cs_mqtt s)) = 32 \<and> length (mq_username (cs_mqtt s)) = 32 \<and> length (mq_password (cs_mqtt s)) = 32 \<and>
     length (cs_password s) = 8 \<and> length (cs_sensor_settings s) = MAX_SERIAL_SENSORS \<and>
     (\<forall>x \<in> set (cs_sensor_settings s). sensor_ok x))"

lemma length_strncpy [simp]: "length (c_strncpy n src) = n"
  by (simp add: c_strncpy_def)

lemma js_copy_length: "js_copy J n v = Some b \<Longrightarrow> length b = n"
  by (auto simp: js_copy_def)

text \<open>A string that fits with its NUL is read back; a longer one has no end in the array.\<close>

lemma strncpy_read:
  assumes "0 \<notin> set str" "length str < n"
  shows "cstr_at (c_strncpy n str) 0 = Some str" "c_string (c_strncpy n str) = str"
proof -
  have "take (n - length str) (replicate n (0 :: u8)) = 0 # replicate (n - length str - 1) 0"
    using assms(2) by (cases "n - length str") (simp_all add: take_replicate)
  then have c: "c_strncpy n str = str @ 0 # replicate (n - length str - 1) 0" using assms(2) by (simp add: c_strncpy_def)
  show "cstr_at (c_strncpy n str) 0 = Some str" unfolding c by (rule cstr_at_append [OF assms(1)])
  show "c_string (c_strncpy n str) = str" unfolding c c_string_def by (rule takeWhile_nul [OF assms(1)])
qed

lemma strncpy_unterminated:
  assumes "0 \<notin> set str" "n \<le> length str"
  shows "cstr_at (c_strncpy n str) 0 = None"
  using assms by (auto simp: c_strncpy_def cstr_at_def dest: in_set_takeD)

lemma save_publish_ok: "save_publish J v = Some p \<Longrightarrow> publish_ok p"
  by (auto simp: save_publish_def publish_ok_def bind_eq_Some_conv dest: js_copy_length)

lemma save_publish_loop_ok: "save_publish_loop J v js = Some ps \<Longrightarrow> length ps = length js \<and> (\<forall>p \<in> set ps. publish_ok p)"
  by (induction js arbitrary: ps) (auto simp: bind_eq_Some_conv dest: save_publish_ok)

lemma save_sensor_ok: "save_sensor J v = Some s \<Longrightarrow> sensor_ok s"
  by (auto simp: save_sensor_def sensor_ok_def bind_eq_Some_conv dest!: save_publish_loop_ok)

lemma save_sensor_loop_ok: "save_sensor_loop J v is = Some ss \<Longrightarrow> length ss = length is \<and> (\<forall>s \<in> set ss. sensor_ok s)"
  by (induction "is" arbitrary: ss) (auto simp: bind_eq_Some_conv dest: save_sensor_ok)

lemma save_wifi_ok: "save_wifi J v s = Some s' \<Longrightarrow> length (wf_ssid s') = 32 \<and> length (wf_password s') = 32"
  by (auto simp: save_wifi_def bind_eq_Some_conv dest: js_copy_length)

lemma save_mqtt_ok: "save_mqtt J v = Some s \<Longrightarrow> length (mq_broker s) = 32 \<and> length (mq_username s) = 32 \<and> length (mq_password s) = 32"
  by (auto simp: save_mqtt_def bind_eq_Some_conv dest: js_copy_length)

lemma save_wifi_fields:
  assumes "save_wifi J v s = Some s'"
  shows "js_string J (js_get J v ''ssid'') = Some str \<Longrightarrow> wf_ssid s' = c_strncpy 32 str"
    "js_string J (js_get J v ''ip'') = Some ip \<Longrightarrow>
      v4_ip (wf_ipv4 s') = (case aton J ip of Some a \<Rightarrow> a | None \<Rightarrow> v4_ip (wf_ipv4 s))"
    "js_string J (js_get J v ''ip'') = Some ip \<Longrightarrow> v4_dns (wf_ipv4 s') = v4_dns (wf_ipv4 s)"
  using assms by (auto simp: save_wifi_def save_ipv4_def js_addr_def js_copy_def bind_eq_Some_conv)

lemma save_mqtt_broker:
  "save_mqtt J v = Some s \<Longrightarrow> js_string J (js_get J v ''broker'') = Some str \<Longrightarrow> mq_broker s = c_strncpy 32 str"
  by (auto simp: save_mqtt_def js_copy_def bind_eq_Some_conv)

lemma save_all_ok:
  assumes "save_all J v s = Some s'" "settings_ok s"
  shows "settings_ok s'"
  using assms
  by (auto simp: save_all_def settings_ok_def bind_eq_Some_conv dest!: save_wifi_ok save_mqtt_ok save_sensor_loop_ok)

section \<open>Passwords\<close>

definition password_field :: "('j, 'f) json_env \<Rightarrow> 'j \<Rightarrow> 'j" where
  "password_field J v = js_get J (js_get J v ''settings'') ''password''"

text \<open>During set-up a password has to be there, given or stored; later the stored one has to be given.\<close>

definition authorised :: "('j, 'f) json_env \<Rightarrow> 'j \<Rightarrow> 'f device \<Rightarrow> bool" where
  "authorised J v d =
     (let stored = c_string (cs_password (flash_settings d)) in
      if dv_initial_config d then (\<exists>str. js_string J (password_field J v) = Some str \<and> (str \<noteq> [] \<or> stored \<noteq> []))
      else \<not> js_differs J (password_field J v) stored)"

lemma check_password_save:
  assumes "check_password J v (cs_password (flash_settings d)) (dv_initial_config d) = Some (save, resp, pw)"
  shows "save \<longleftrightarrow> authorised J v d" "length (cs_password (flash_settings d)) = 8 \<Longrightarrow> length pw = 8"
    "save \<Longrightarrow> resp = []"
  using assms
  by (auto simp: check_password_def authorised_def password_field_def Let_def bind_eq_Some_conv
      split: if_splits dest: js_copy_length)

lemma save_fn_cases:
  assumes "settings_save_fn J content d = Some (resp, d')" "js_parse J content = Some v"
  obtains new pw r1 where "save_all J v (flash_settings d) = Some new"
    "check_password J v (cs_password (flash_settings d)) (dv_initial_config d) = Some (authorised J v d, r1, pw)"
    "if authorised J v d
     then (resp, d') = settings_changed (flash_settings d) (new\<lparr>cs_password := pw\<rparr>)
       (write_client_mode_settings J (new\<lparr>cs_password := pw\<rparr>) d)
     else resp = r1 \<and> d' = d"
proof -
  from assms obtain new save r1 pw where 1: "save_all J v (flash_settings d) = Some new"
    "check_password J v (cs_password (flash_settings d)) (dv_initial_config d) = Some (save, r1, pw)"
    "(if save then (case settings_changed (flash_settings d) (new\<lparr>cs_password := pw\<rparr>)
          (write_client_mode_settings J (new\<lparr>cs_password := pw\<rparr>) d) of (more_response, d) \<Rightarrow> Some (r1 @ more_response, d))
      else Some (r1, d)) = Some (resp, d')"
    by (auto simp: settings_save_fn_def Let_def bind_eq_Some_conv)
  note c = check_password_save [OF 1(2)]
  show thesis
  proof (rule that [OF 1(1)])
    show "check_password J v (cs_password (flash_settings d)) (dv_initial_config d) = Some (authorised J v d, r1, pw)"
      using 1(2) c(1) by simp
    show "if authorised J v d
     then (resp, d') = settings_changed (flash_settings d) (new\<lparr>cs_password := pw\<rparr>)
       (write_client_mode_settings J (new\<lparr>cs_password := pw\<rparr>) d)
     else resp = r1 \<and> d' = d"
      using 1(3) c(1,3) by (auto split: if_splits prod.splits)
  qed
qed

lemma settings_changed_flash: "flash_settings (snd (settings_changed old new d)) = flash_settings d"
  by (simp add: settings_changed_def Let_def)

text \<open>C12: The settings in flash change only for who is authorised: during set-up a password has to be given or stored already,
  afterwards the stored password has to be given. Otherwise nothing of the device changes; with a wrong password the
  answer says so. The shapes of all arrays in flash are kept.\<close>

theorem settings_save_protected:
  assumes "settings_save_fn J content d = Some (resp, d')" "settings_ok (flash_settings d)"
  shows "(d' \<noteq> d \<longrightarrow> (\<exists>v. js_parse J content = Some v \<and> authorised J v d)) \<and>
    (\<forall>v. js_parse J content = Some v \<and> \<not> authorised J v d \<and> \<not> dv_initial_config d \<longrightarrow>
       resp = [(''message'', JText ''Wrong Password'')]) \<and>
    settings_ok (flash_settings d')"
proof (cases "js_parse J content")
  case None
  with assms show ?thesis by (simp add: settings_save_fn_def)
next
  case (Some v)
  obtain new pw r1 where 1: "save_all J v (flash_settings d) = Some new"
    "check_password J v (cs_password (flash_settings d)) (dv_initial_config d) = Some (authorised J v d, r1, pw)"
    "if authorised J v d
     then (resp, d') = settings_changed (flash_settings d) (new\<lparr>cs_password := pw\<rparr>)
       (write_client_mode_settings J (new\<lparr>cs_password := pw\<rparr>) d)
     else resp = r1 \<and> d' = d" by (rule save_fn_cases [OF assms(1) Some])
  show ?thesis
  proof (cases "authorised J v d")
    case False
    with 1(2,3) assms(2) Some show ?thesis
      by (auto simp: check_password_def Let_def bind_eq_Some_conv split: if_splits)
  next
    case True
    have "length pw = 8" using check_password_save(2) [OF 1(2)] assms(2) by (simp add: settings_ok_def)
    with save_all_ok [OF 1(1) assms(2)] have "settings_ok (new\<lparr>cs_password := pw\<rparr>)" by (simp add: settings_ok_def)
    moreover have "d' = snd (settings_changed (flash_settings d) (new\<lparr>cs_password := pw\<rparr>)
       (write_client_mode_settings J (new\<lparr>cs_password := pw\<rparr>) d))" using 1(3) True by (metis snd_conv)
    ultimately have "settings_ok (flash_settings d')" using assms(2)
      by (auto simp: settings_changed_flash write_client_mode_settings_def)
    with True Some show ?thesis by auto
  qed
qed


section \<open>An example\<close>

text \<open>A document in which every text is the same.\<close>

definition example_json :: "bytes \<Rightarrow> (unit, unit) json_env" where
  "example_json str = \<lparr>js_parse = (\<lambda>b. if b = [] then None else Some ()), js_get = (\<lambda>_ _. ()), js_nth = (\<lambda>_ _. ()),
     js_string = (\<lambda>_. Some str), js_bool = (\<lambda>_. True), js_u16 = (\<lambda>_. 0), js_differs = (\<lambda>_ b. b \<noteq> str), c_atof = (\<lambda>_. ()),
     aton = (\<lambda>_. None), flash_safe_execute = True, CYW43_AUTH_OPEN = 0, CYW43_AUTH_WPA_TKIP_PSK = 1,
     CYW43_AUTH_WPA2_MIXED_PSK = 2, CYW43_AUTH_WPA3_WPA2_AES_PSK = 3\<rparr>"

definition example_ipv4 :: ipv4_settings where
  "example_ipv4 = \<lparr>v4_dhcp = True, v4_ip = 1, v4_nm = 2, v4_gw = 3, v4_dns = 4\<rparr>"

definition example_publish :: "unit publish_settings_entry" where
  "example_publish = \<lparr>ps_enabled = True, ps_name = replicate 10 0, ps_start = 2, ps_end = 8, ps_is_num = True, ps_scale = (),
     ps_avg_cnt = 0, ps_topic = replicate 30 0\<rparr>"

definition example_device :: "unit device" where
  "example_device = \<lparr>flash_settings = \<lparr>cs_conn_type = WIFI,
       cs_wifi = \<lparr>wf_ssid = replicate 32 0, wf_password = replicate 32 0, wf_auth_mode = 0, wf_ipv4 = example_ipv4\<rparr>,
       cs_eth = \<lparr>et_ipv4 = example_ipv4\<rparr>,
       cs_mqtt = \<lparr>mq_broker = replicate 32 0, mq_port = 1883, mq_username = replicate 32 0, mq_password = replicate 32 0\<rparr>,
       cs_password = bytes_of ''secret'' @ [0, 0],
       cs_sensor_settings = replicate 3 \<lparr>ss_baudrate = 9600, ss_enabled = True, ss_simulate_values = False,
         ss_publish_settings = replicate 10 example_publish\<rparr>\<rparr>,
     dv_initial_config = False, mqtt_reconnect = False, rebooting = False\<rparr>"

lemma example_device_ok: "settings_ok (flash_settings example_device)"
  by (simp add: settings_ok_def sensor_ok_def publish_ok_def example_device_def example_publish_def MAX_PUBLISH_SETTINGS_def
      MAX_SERIAL_SENSORS_def bytes_of_def)

lemma example_save_total: "\<exists>resp d'. settings_save_fn (example_json str) [1] example_device = Some (resp, d')"
proof -
  have p: "\<exists>x. save_publish (example_json str) () = Some x" for v
    by (simp add: save_publish_def example_json_def js_copy_def js_atoi_def)
  then have l: "\<exists>x. save_publish_loop (example_json str) () js = Some x" for js
    by (induction js) (use p in \<open>auto simp: example_json_def\<close>)
  then obtain ps where "save_publish_loop (example_json str) () [0..<MAX_PUBLISH_SETTINGS] = Some ps" by blast
  moreover have "js_atoi (example_json str) () = Some (c_atoi str)" by (simp add: js_atoi_def example_json_def)
  ultimately have "\<exists>x. save_sensor (example_json str) () = Some x" by (simp add: save_sensor_def)
  then have "\<exists>x. save_sensor_loop (example_json str) () is = Some x" for "is"
    by (induction "is") (auto simp: example_json_def)
  then obtain w where "save_sensor_loop (example_json str) () [0..<MAX_SERIAL_SENSORS] = Some w" by blast
  moreover obtain x y where "save_wifi (example_json str) () (cs_wifi (flash_settings example_device)) = Some x"
    "save_mqtt (example_json str) () = Some y"
    by (simp add: save_wifi_def save_mqtt_def save_ipv4_def example_json_def js_copy_def js_atoi_def js_addr_def)
  moreover obtain z where "save_ipv4 (example_json str) () example_ipv4 = Some z"
    by (simp add: save_ipv4_def example_json_def js_addr_def)
  moreover have "cs_eth (flash_settings example_device) = \<lparr>et_ipv4 = example_ipv4\<rparr>" "\<not> dv_initial_config example_device"
    by (simp_all add: example_device_def)
  ultimately have "\<exists>x. save_all (example_json str) () (flash_settings example_device) = Some x" by (simp add: save_all_def)
  then show ?thesis using \<open>\<not> dv_initial_config example_device\<close>
    by (auto simp: settings_save_fn_def check_password_def example_json_def Let_def split: prod.split)
qed

theorem settings_save_protected_witness:
  "\<exists>resp d'. settings_save_fn (example_json (bytes_of ''guess'')) [1] example_device = Some (resp, d') \<and>
    resp = [(''message'', JText ''Wrong Password'')] \<and> d' = example_device"
proof -
  obtain resp d' where s: "settings_save_fn (example_json (bytes_of ''guess'')) [1] example_device = Some (resp, d')"
    using example_save_total by blast
  have "\<not> authorised (example_json (bytes_of ''guess'')) () example_device" "\<not> dv_initial_config example_device"
    by (simp_all add: authorised_def example_json_def example_device_def c_string_def bytes_of_def)
  with settings_save_protected [OF s example_device_ok] have "resp = [(''message'', JText ''Wrong Password'')] \<and> d' = example_device"
    by (auto simp: example_json_def)
  with s show ?thesis by blast
qed


end
