(* ===== verification/Sensor.thy ===== *)
theory Sensor
  imports Settings Serial_Port
begin

text \<open>
  The sensors: \<^verbatim>\<open>src/src/sensor.cpp\<close>, \<^verbatim>\<open>src/inc/sensor.h\<close>, the producer side of \<^verbatim>\<open>src/src/MQTT.cpp\<close> and the start of the
  sensors in \<^verbatim>\<open>src/src/main.cpp\<close>. One turn of a sensor's task takes one line from its serial port, cuts the fields of the
  settings out of it and hands the readings to the queues of the MQTT task and of the WebSocket server.

  \<open>None\<close> is an access outside of an array: a name or a topic without a terminating NUL is such a case.
\<close>

section \<open>Data\<close>

text \<open>The strings of a queued message; what is behind their NUL in the arrays is never set.\<close>

record MqttPublishMessage =
  mm_topic :: bytes
  mm_payload :: bytes
  mm_payload_length :: nat
  mm_qos :: u8
  mm_retain :: bool

definition MQTT_MAX_TOPIC_LENGTH :: nat where "MQTT_MAX_TOPIC_LENGTH = 128"
definition MQTT_MAX_PAYLOAD_LENGTH :: nat where "MQTT_MAX_PAYLOAD_LENGTH = 256"
definition WS_MAX_PAYLOAD_LENGTH :: nat where "WS_MAX_PAYLOAD_LENGTH = 512"

text \<open>Both queues are created for ten messages.\<close>

definition MQTT_QUEUE_LENGTH :: nat where "MQTT_QUEUE_LENGTH = 10"
definition READINGS_QUEUE_LENGTH :: nat where "READINGS_QUEUE_LENGTH = 10"

record 'f avg_fields_t =
  avg_cnt_current :: int
  accum :: 'f

text \<open>The averages of one sensor, the two queues (once they exist), and how often \<^verbatim>\<open>rand\<close> was called.\<close>

record 'f sensor_state =
  avg_fields :: "'f avg_fields_t list"
  mqttQueue :: "MqttPublishMessage list option"
  websocketQueue :: "bytes list option"
  rand_calls :: nat

text \<open>
  The floating-point arithmetic and the C library: \<open>printf_f\<close> is the text of \<^verbatim>\<open>%f\<close>, \<open>c_rand k\<close> the result of the \<open>k\<close>-th call. \<open>reading_json\<close> is
  the text ArduinoJson makes of the document of a reading.
\<close>

record 'f sensor_env =
  strtof :: "bytes \<Rightarrow> 'f"
  float_zero :: 'f
  float_of_int :: "int \<Rightarrow> 'f"
  float_add :: "'f \<Rightarrow> 'f \<Rightarrow> 'f"
  float_mult :: "'f \<Rightarrow> 'f \<Rightarrow> 'f"
  float_div :: "'f \<Rightarrow> 'f \<Rightarrow> 'f"
  printf_f :: "'f \<Rightarrow> bytes"
  c_rand :: "nat \<Rightarrow> int"
  reading_json :: "nat \<Rightarrow> nat \<Rightarrow> bytes \<Rightarrow> bytes \<Rightarrow> bytes \<Rightarrow> bytes"

section \<open>The code: the queues\<close>

text \<open>\<^verbatim>\<open>xQueueSend\<close> without waiting.\<close>

definition xQueueSend :: "nat \<Rightarrow> 'a \<Rightarrow> 'a list \<Rightarrow> bool \<times> 'a list" where
  "xQueueSend cap x q = (if length q < cap then (True, q @ [x]) else (False, q))"

definition sendToMqttQueue :: "bytes \<Rightarrow> bytes \<Rightarrow> nat \<Rightarrow> u8 \<Rightarrow> bool \<Rightarrow> 'f sensor_state \<Rightarrow> bool \<times> 'f sensor_state" where
  "sendToMqttQueue topic payload payload_length qos retain s =
     (case mqttQueue s of
        None \<Rightarrow> (True, s)
      | Some q \<Rightarrow>
          (let msg = \<lparr>mm_topic = take (MQTT_MAX_TOPIC_LENGTH - 1) topic, mm_payload = take (MQTT_MAX_PAYLOAD_LENGTH - 1) payload,
                 mm_payload_length = payload_length, mm_qos = qos, mm_retain = retain\<rparr>;
               (ok, q) = xQueueSend MQTT_QUEUE_LENGTH msg q
           in (ok, s\<lparr>mqttQueue := Some q\<rparr>)))"

definition sendToEndpoints ::
  "'f sensor_env \<Rightarrow> nat \<Rightarrow> nat \<Rightarrow> bytes \<Rightarrow> bytes \<Rightarrow> bytes \<Rightarrow> nat \<Rightarrow> u8 \<Rightarrow> bool \<Rightarrow> 'f sensor_state \<Rightarrow> 'f sensor_state" where
  "sendToEndpoints E sensor_num pub_setting_num name topic val value_length qos retain s =
     (let (_, s) = sendToMqttQueue topic val value_length qos retain s;
          payload = take WS_MAX_PAYLOAD_LENGTH (reading_json E sensor_num pub_setting_num name val topic)
      in case websocketQueue s of
           None \<Rightarrow> s
         | Some q \<Rightarrow> s\<lparr>websocketQueue := Some (snd (xQueueSend READINGS_QUEUE_LENGTH payload q))\<rparr>)"

section \<open>The code: readings\<close>

text \<open>The call of \<^verbatim>\<open>sendToEndpoints\<close> with the name and the topic of a setting.\<close>

definition publish ::
  "'f sensor_env \<Rightarrow> nat \<Rightarrow> 'f publish_settings_entry \<Rightarrow> nat \<Rightarrow> bytes \<Rightarrow> nat \<Rightarrow> 'f sensor_state \<Rightarrow> 'f sensor_state option" where
  "publish E sensor_num p index val len s = do {
     name \<leftarrow> cstr_at (ps_name p) 0;
     topic \<leftarrow> cstr_at (ps_topic p) 0;
     Some (sendToEndpoints E sensor_num index name topic val len 1 False s) }"

text \<open>\<^verbatim>\<open>snprintf\<close> into the payload buffer gives the full length, whatever was cut off.\<close>

definition publish_number ::
  "'f sensor_env \<Rightarrow> nat \<Rightarrow> 'f publish_settings_entry \<Rightarrow> nat \<Rightarrow> 'f \<Rightarrow> 'f sensor_state \<Rightarrow> 'f sensor_state option" where
  "publish_number E sensor_num p index x s =
     publish E sensor_num p index (take (SERIAL_BUFFERS_SIZE - 1) (printf_f E x)) (length (printf_f E x)) s"

definition process_and_publish ::
  "'f sensor_env \<Rightarrow> nat \<Rightarrow> 'f publish_settings_entry \<Rightarrow> nat \<Rightarrow> bytes \<Rightarrow> 'f sensor_state \<Rightarrow> 'f sensor_state option" where
  "process_and_publish E sensor_num p index data s =
     (if ps_is_num p then
        (let val = float_mult E (strtof E data) (ps_scale p) in
         if ps_avg_cnt p > 0 then do {
           a \<leftarrow> mem_get (avg_fields s) index;
           let a = (if avg_cnt_current a > ps_avg_cnt p then \<lparr>avg_cnt_current = 0, accum = float_zero E\<rparr> else a);
           let a = \<lparr>avg_cnt_current = avg_cnt_current a + 1, accum = float_add E (accum a) val\<rparr>;
           if avg_cnt_current a = ps_avg_cnt p then do {
             s \<leftarrow> publish_number E sensor_num p index (float_div E (accum a) (float_of_int E (ps_avg_cnt p))) s;
             fs \<leftarrow> mem_set (avg_fields s) index \<lparr>avg_cnt_current = 0, accum = float_zero E\<rparr>;
             Some (s\<lparr>avg_fields := fs\<rparr>) }
           else do {
             fs \<leftarrow> mem_set (avg_fields s) index a;
             Some (s\<lparr>avg_fields := fs\<rparr>) } }
         else publish_number E sensor_num p index val s)
      else publish E sensor_num p index data (length data) s)"

section \<open>The code: the task\<close>

text \<open>The zeroed array \<^verbatim>\<open>data\<close> with a copy of some bytes, as a string.\<close>

definition data_string :: "bytes \<Rightarrow> bytes option" where
  "data_string field = do {
     data \<leftarrow> mem_cpy (replicate SERIAL_BUFFERS_SIZE 0) 0 field;
     data \<leftarrow> mem_set data (length field) 0;
     cstr_at data 0 }"

definition simulate_field ::
  "'f sensor_env \<Rightarrow> nat \<Rightarrow> 'f publish_settings_entry \<Rightarrow> nat \<Rightarrow> 'f sensor_state \<Rightarrow> 'f sensor_state option" where
  "simulate_field E sensor_num p i s =
     (if \<not> ps_enabled p \<or> ps_end p \<le> ps_start p \<or> SERIAL_BUFFERS_SIZE \<le> unat (ps_start p) \<or> SERIAL_BUFFERS_SIZE < unat (ps_end p)
      then Some s
      else do {
        let len = unat (ps_end p) - unat (ps_start p);
        let len = (if len \<ge> SERIAL_BUFFERS_SIZE then SERIAL_BUFFERS_SIZE - 1 else len);
        let random_num = c_rand E (rand_calls s) mod 10;
        data \<leftarrow> data_string (replicate len (0x30 + of_int random_num));
        process_and_publish E sensor_num p i data (s\<lparr>rand_calls := rand_calls s + 1\<rparr>) })"

definition line_field ::
  "'f sensor_env \<Rightarrow> nat \<Rightarrow> bytes \<Rightarrow> nat \<Rightarrow> 'f publish_settings_entry \<Rightarrow> nat \<Rightarrow> 'f sensor_state \<Rightarrow> 'f sensor_state option" where
  "line_field E sensor_num serial_buffer bytes_received p i s =
     (if \<not> ps_enabled p \<or> ps_end p \<le> ps_start p \<or> bytes_received \<le> unat (ps_start p)
      then Some s
      else do {
        let len = (if bytes_received < unat (ps_end p) then bytes_received - unat (ps_start p)
                   else unat (ps_end p) - unat (ps_start p));
        if len = 0 then Some s
        else do {
          let len = (if len > SERIAL_BUFFERS_SIZE - 1 then SERIAL_BUFFERS_SIZE - 1 else len);
          field \<leftarrow> mem_read serial_buffer (unat (ps_start p)) len;
          data \<leftarrow> data_string field;
          process_and_publish E sensor_num p i data s } })"

text \<open>The loop over the settings of a sensor.\<close>

fun settings_loop ::
  "('f publish_settings_entry \<Rightarrow> nat \<Rightarrow> 'f sensor_state \<Rightarrow> 'f sensor_state option) \<Rightarrow> 'f publish_settings_entry list \<Rightarrow> nat
    \<Rightarrow> 'f sensor_state \<Rightarrow> 'f sensor_state option" where
  "settings_loop body [] i s = Some s"
| "settings_loop body (p # ps) i s = do { s \<leftarrow> body p i s; settings_loop body ps (i + 1) s }"

text \<open>
  A turn of the task that was notified: \<open>Inl\<close> while it waits for the rest of a line. Without a line (the timeout of the
  port) nothing is published.
\<close>

definition line_turn ::
  "'f sensor_env \<Rightarrow> nat \<Rightarrow> 'f sensor_settings_entry \<Rightarrow> wait_event list \<Rightarrow> serial \<Rightarrow> 'f sensor_state
    \<Rightarrow> (serial + serial \<times> 'f sensor_state) option" where
  "line_turn E sensor_num settings events uart s = do {
     r \<leftarrow> read_string uart SERIAL_BUFFERS_SIZE events;
     (case r of
        Inl uart \<Rightarrow> Some (Inl uart)
      | Inr (bytes_received, out, uart) \<Rightarrow> do {
          serial_buffer \<leftarrow> mem_cpy (replicate SERIAL_BUFFERS_SIZE 0) 0 out;
          s \<leftarrow> (if bytes_received \<noteq> 0
                then settings_loop (line_field E sensor_num serial_buffer bytes_received) (ss_publish_settings settings) 0 s
                else Some s);
          Some (Inr (uart, s)) }) }"

text \<open>A turn of \<^verbatim>\<open>read_task\<close>. \<open>notified\<close> says whether the serial port notified the task within the time limit.\<close>

definition read_task_turn ::
  "'f sensor_env \<Rightarrow> nat \<Rightarrow> 'f sensor_settings_entry \<Rightarrow> bool \<Rightarrow> wait_event list \<Rightarrow> serial \<Rightarrow> 'f sensor_state
    \<Rightarrow> (serial + serial \<times> 'f sensor_state) option" where
  "read_task_turn E sensor_num settings notified events uart s =
     (if ss_simulate_values settings
      then do { s \<leftarrow> settings_loop (simulate_field E sensor_num) (ss_publish_settings settings) 0 s; Some (Inr (uart, s)) }
      else if notified then line_turn E sensor_num settings events uart s
      else Some (Inr (uart, s)))"

section \<open>The code: starting the sensors\<close>

record started_sensor =
  st_uart :: nat
  st_baudrate :: u32
  st_sensor_num :: nat

text \<open>
  The constructor numbers the sensors in the order of their construction, and takes the settings of that number;
  \<^verbatim>\<open>main_task\<close> constructs a sensor for every entry that is enabled.
\<close>

definition Sensor_new :: "nat \<Rightarrow> u32 \<Rightarrow> nat \<Rightarrow> (started_sensor \<times> nat) option" where
  "Sensor_new uart baudrate next_sensor_num =
     (if next_sensor_num < MAX_SERIAL_SENSORS
      then Some (\<lparr>st_uart = uart, st_baudrate = baudrate, st_sensor_num = next_sensor_num\<rparr>, next_sensor_num + 1)
      else None)"

definition start_sensor ::
  "'f sensor_settings_entry list \<Rightarrow> nat \<Rightarrow> nat \<Rightarrow> started_sensor list \<times> nat \<Rightarrow> (started_sensor list \<times> nat) option" where
  "start_sensor settings i uart st = do {
     entry \<leftarrow> mem_get settings i;
     if ss_enabled entry then do {
       (sensor, next_sensor_num) \<leftarrow> Sensor_new uart (ss_baudrate entry) (snd st);
       Some (fst st @ [sensor], next_sensor_num) }
     else Some st }"

definition start_sensors :: "'f sensor_settings_entry list \<Rightarrow> started_sensor list option" where
  "start_sensors settings = do {
     st \<leftarrow> start_sensor settings 0 0 ([], 0);
     st \<leftarrow> start_sensor settings 1 2 st;
     st \<leftarrow> start_sensor settings 2 3 st;
     Some (fst st) }"

end
