(* ===== verification/MQTT_Task.thy ===== *)
theory MQTT_Task
  imports Sensor MQTT_Network
begin

text \<open>
  The consumer of the readings: \<^verbatim>\<open>mqtt_task\<close> of \<^verbatim>\<open>src/src/MQTT.cpp\<close>. It connects to the broker of the settings and publishes what
  comes out of the queue, until publishing fails; then it closes the socket and starts again. Each turn of its loops is a
  definition; creating the queue, the task and the timer of the LED are FreeRTOS calls.
\<close>

section \<open>The state\<close>

text \<open>\<open>my_socket\<close> is the one of its \<^verbatim>\<open>Network\<close>, \<open>mqtt_connection_status\<close> what is reported to the user.\<close>

record ('tm, 'h, 'w) mqtt_task =
  tk_client :: "('tm, 'h) MQTTClient"
  tk_socket :: int
  tk_dns :: dns_state
  tk_status :: bool
  tk_world :: 'w

text \<open>\<^verbatim>\<open>NetworkInit\<close> and \<^verbatim>\<open>MQTTClientInit\<close>; the rest of the client is what the stack held.\<close>

definition mqtt_task_init :: "bytes \<Rightarrow> bytes \<Rightarrow> ('tm, 'h) MQTTClient \<Rightarrow> dns_state \<Rightarrow> 'w \<Rightarrow> ('tm, 'h, 'w) mqtt_task" where
  "mqtt_task_init sendbuf rbuf c dns w =
     \<lparr>tk_client = MQTTClientInit 3000 sendbuf rbuf c, tk_socket = 0, tk_dns = dns, tk_status = False, tk_world = w\<rparr>"

section \<open>The code\<close>

definition task_connect_data :: "mqtt_settings \<Rightarrow> MQTTPacket_connectData option" where
  "task_connect_data settings = do {
     user \<leftarrow> cstr_at (mq_username settings) 0;
     pw \<leftarrow> cstr_at (mq_password settings) 0;
     Some (MQTTPacket_connectData_initializer\<lparr>MQTTVersion := 3,
       clientID := (clientID MQTTPacket_connectData_initializer)\<lparr>cstring := Some (bytes_of ''RadProt_IoT'')\<rparr>,
       username := (username MQTTPacket_connectData_initializer)\<lparr>cstring := Some user\<rparr>,
       password := (password MQTTPacket_connectData_initializer)\<lparr>cstring := Some pw\<rparr>\<rparr>) }"

text \<open>The code at \<^verbatim>\<open>close_socket\<close>.\<close>

definition close_socket :: "('w, 'tm) net \<Rightarrow> ('tm, 'h, 'w) mqtt_task \<Rightarrow> ('tm, 'h, 'w) mqtt_task" where
  "close_socket k t = t\<lparr>tk_world := FreeRTOS_disconnect k (tk_socket t) (tk_world t)\<rparr>"

text \<open>A turn of the outer loop up to the inner one: whether the inner loop is entered.\<close>

definition connect_turn ::
  "('w, 'tm) net \<Rightarrow> ('h \<Rightarrow> MQTTString \<Rightarrow> MQTTMessage \<Rightarrow> 'w \<Rightarrow> 'w) \<Rightarrow> mqtt_settings \<Rightarrow> ('tm, 'h, 'w) mqtt_task
    \<Rightarrow> (bool \<times> ('tm, 'h, 'w) mqtt_task) option" where
  "connect_turn k handlers settings t = do {
     c \<leftarrow> mem_get (mq_broker settings) 0;
     if c = 0 then Some (False, close_socket k t)
     else do {
       broker \<leftarrow> cstr_at (mq_broker settings) 0;
       (rc, sock, dns, w) \<leftarrow> NetworkConnectWithTimeout k broker (uint (mq_port settings)) 1000 (tk_dns t) (tk_world t);
       let t = t\<lparr>tk_socket := sock, tk_dns := dns, tk_world := w\<rparr>;
       if rc \<noteq> 0 then Some (False, close_socket k (t\<lparr>tk_status := False\<rparr>))
       else do {
         data \<leftarrow> task_connect_data settings;
         (rc, c, w) \<leftarrow> MQTTConnect (FreeRTOS_port k sock handlers) (tk_client t) (Some data) (tk_world t);
         let t = t\<lparr>tk_client := c, tk_world := w\<rparr>;
         if rc = 0 then Some (True, t\<lparr>tk_status := True\<rparr>)
         else Some (False, close_socket k (t\<lparr>tk_status := False\<rparr>)) } } }"

text \<open>The message made of a queued one; \<open>stack\<close> is what the fields that are not set hold.\<close>

definition task_message :: "MQTTMessage \<Rightarrow> MqttPublishMessage \<Rightarrow> MQTTMessage" where
  "task_message stack msg =
     (let payload = c_string (mm_payload msg)
      in stack\<lparr>m_qos := uint (mm_qos msg), m_retained := 0, m_payload := payload @ [0], m_payloadlen := of_nat (length payload)\<rparr>)"

text \<open>
  A turn of the inner loop: the message taken from the queue, or none in time. The first component of the result says
  whether the loop goes on, the second is the flag \<^verbatim>\<open>mqtt_reconnect\<close>.
\<close>

definition publish_turn ::
  "('w, 'tm) net \<Rightarrow> ('h \<Rightarrow> MQTTString \<Rightarrow> MQTTMessage \<Rightarrow> 'w \<Rightarrow> 'w) \<Rightarrow> MQTTMessage \<Rightarrow> MqttPublishMessage option \<Rightarrow> bool
    \<Rightarrow> ('tm, 'h, 'w) mqtt_task \<Rightarrow> (bool \<times> bool \<times> ('tm, 'h, 'w) mqtt_task) option" where
  "publish_turn k handlers stack received reconnect t =
     (case received of
        Some msg \<Rightarrow> do {
          (rc, _, c, w) \<leftarrow> MQTTPublish (FreeRTOS_port k (tk_socket t) handlers) (tk_client t) (mm_topic msg) (task_message stack msg)
            (tk_world t);
          let t = t\<lparr>tk_client := c, tk_world := w\<rparr>;
          if rc = 0 then Some (True, reconnect, t) else Some (False, reconnect, close_socket k t) }
      | None \<Rightarrow> if reconnect then Some (False, False, close_socket k t) else Some (True, False, t))"

text \<open>The inner loop while the queue has messages; the queue is taken from its front.\<close>

fun publish_loop ::
  "('w, 'tm) net \<Rightarrow> ('h \<Rightarrow> MQTTString \<Rightarrow> MQTTMessage \<Rightarrow> 'w \<Rightarrow> 'w) \<Rightarrow> MQTTMessage \<Rightarrow> MqttPublishMessage list \<Rightarrow> bool
    \<Rightarrow> ('tm, 'h, 'w) mqtt_task \<Rightarrow> (bool \<times> bool \<times> MqttPublishMessage list \<times> ('tm, 'h, 'w) mqtt_task) option" where
  "publish_loop k handlers stack [] reconnect t = Some (True, reconnect, [], t)"
| "publish_loop k handlers stack (msg # q) reconnect t = do {
     (go, reconnect, t) \<leftarrow> publish_turn k handlers stack (Some msg) reconnect t;
     if go then publish_loop k handlers stack q reconnect t else Some (False, reconnect, q, t) }"

end
