(* ===== verification/Sensor_Proofs.thy ===== *)
theory Sensor_Proofs
  imports Sensor
begin

text \<open>
  What the sensors publish: the fields of a line, averages of readings, and whose settings a sensor uses.
\<close>

section \<open>The queues\<close>

definition queues_ok :: "'f sensor_state \<Rightarrow> bool" where
  "queues_ok s = ((\<forall>q. mqttQueue s = Some q \<longrightarrow> length q \<le> MQTT_QUEUE_LENGTH) \<and>
     (\<forall>q. websocketQueue s = Some q \<longrightarrow> length q \<le> READINGS_QUEUE_LENGTH))"

text \<open>The state after messages were offered to the queues: each takes what it has room for, in order.\<close>

definition offered :: "MqttPublishMessage list \<Rightarrow> bytes list \<Rightarrow> 'f sensor_state \<Rightarrow> 'f sensor_state" where
  "offered ms js s = s\<lparr>mqttQueue := map_option (\<lambda>q. take MQTT_QUEUE_LENGTH (q @ ms)) (mqttQueue s),
     websocketQueue := map_option (\<lambda>q. take READINGS_QUEUE_LENGTH (q @ js)) (websocketQueue s)\<rparr>"

lemma offered_ok [simp]: "queues_ok (offered ms js s)"
  by (auto simp: queues_ok_def offered_def)

lemma offered_fields [simp]: "avg_fields (offered ms js s) = avg_fields s" "rand_calls (offered ms js s) = rand_calls s"
  by (simp_all add: offered_def)

lemma take_take_append: "take n (take n xs @ ys) = take n (xs @ ys)"
  by (cases "length xs \<le> n") (simp_all add: min_def)

lemma offered_offered [simp]: "offered ms' js' (offered ms js s) = offered (ms @ ms') (js @ js') s"
  by (cases "mqttQueue s"; cases "websocketQueue s") (simp_all add: offered_def take_take_append del: take_append)

lemma offered_nothing: "queues_ok s \<Longrightarrow> offered [] [] s = s"
  by (cases "mqttQueue s"; cases "websocketQueue s") (simp_all add: queues_ok_def offered_def)

lemma offered_avg: "offered ms js (s\<lparr>avg_fields := fs\<rparr>) = (offered ms js s)\<lparr>avg_fields := fs\<rparr>"
  by (simp add: offered_def)

lemma queues_ok_avg [simp]: "queues_ok (s\<lparr>avg_fields := fs\<rparr>) = queues_ok s" "queues_ok (s\<lparr>rand_calls := k\<rparr>) = queues_ok s"
  by (simp_all add: queues_ok_def)

lemma snd_xQueueSend: "length q \<le> n \<Longrightarrow> snd (xQueueSend n x q) = take n (q @ [x])"
  by (simp add: xQueueSend_def)

definition mqtt_message :: "bytes \<Rightarrow> bytes \<Rightarrow> nat \<Rightarrow> MqttPublishMessage" where
  "mqtt_message topic val len = \<lparr>mm_topic = take (MQTT_MAX_TOPIC_LENGTH - 1) topic,
     mm_payload = take (MQTT_MAX_PAYLOAD_LENGTH - 1) val, mm_payload_length = len, mm_qos = 1, mm_retain = False\<rparr>"

definition reading_text :: "'f sensor_env \<Rightarrow> nat \<Rightarrow> nat \<Rightarrow> 'f publish_settings_entry \<Rightarrow> bytes \<Rightarrow> bytes" where
  "reading_text E num i p val =
     take WS_MAX_PAYLOAD_LENGTH (reading_json E num i (c_string (ps_name p)) val (c_string (ps_topic p)))"

text \<open>The name and the topic of a setting have an end.\<close>

definition terminated :: "'f publish_settings_entry \<Rightarrow> bool" where
  "terminated p = (0 \<in> set (ps_name p) \<and> 0 \<in> set (ps_topic p))"

lemma sendToEndpoints_offered:
  assumes "queues_ok s"
  shows "sendToEndpoints E num i name topic val len 1 False s =
    offered [mqtt_message topic val len] [take WS_MAX_PAYLOAD_LENGTH (reading_json E num i name val topic)] s"
proof (cases "mqttQueue s")
  case None
  with assms show ?thesis by (cases "websocketQueue s")
    (simp_all add: sendToEndpoints_def sendToMqttQueue_def offered_def queues_ok_def snd_xQueueSend del: take_append)
next
  case (Some q)
  with assms show ?thesis by (cases "websocketQueue s")
    (simp_all add: sendToEndpoints_def sendToMqttQueue_def offered_def queues_ok_def mqtt_message_def Let_def split_beta
      snd_xQueueSend del: take_append)
qed

lemma publish_offered:
  assumes "queues_ok s" "terminated p"
  shows "publish E num p i val len s =
    Some (offered [mqtt_message (c_string (ps_topic p)) val len] [reading_text E num i p val] s)"
  using assms by (simp add: publish_def terminated_def cstr_at_def c_string_def sendToEndpoints_offered reading_text_def)

text \<open>A reading that is not averaged.\<close>

definition number_text :: "'f sensor_env \<Rightarrow> 'f \<Rightarrow> bytes" where
  "number_text E x = take (SERIAL_BUFFERS_SIZE - 1) (printf_f E x)"

definition reading :: "'f sensor_env \<Rightarrow> 'f publish_settings_entry \<Rightarrow> bytes \<Rightarrow> bytes \<times> nat" where
  "reading E p data =
     (if ps_is_num p
      then (let x = float_mult E (strtof E data) (ps_scale p) in (number_text E x, length (printf_f E x)))
      else (data, length data))"

definition at_once :: "'f publish_settings_entry \<Rightarrow> bool" where
  "at_once p = (\<not> ps_is_num p \<or> ps_avg_cnt p \<le> 0)"

definition reading_message :: "'f sensor_env \<Rightarrow> 'f publish_settings_entry \<Rightarrow> bytes \<Rightarrow> MqttPublishMessage" where
  "reading_message E p data = (case reading E p data of (val, len) \<Rightarrow> mqtt_message (c_string (ps_topic p)) val len)"

lemma process_at_once:
  assumes "queues_ok s" "terminated p" "at_once p"
  shows "process_and_publish E num p i data s =
    Some (offered [reading_message E p data] [reading_text E num i p (fst (reading E p data))] s)"
  using assms by (auto simp: process_and_publish_def at_once_def publish_number_def publish_offered reading_message_def reading_def
      number_text_def Let_def)

section \<open>The fields of a line\<close>

lemma data_string_take:
  assumes "length field < SERIAL_BUFFERS_SIZE"
  shows "data_string field = Some (takeWhile (\<lambda>c. c \<noteq> 0) field)"
proof -
  have "mem_cpy (replicate SERIAL_BUFFERS_SIZE 0) 0 field = Some (field @ replicate (SERIAL_BUFFERS_SIZE - length field) (0 :: u8))"
    using assms by (simp add: mem_cpy_def)
  moreover have "mem_set (field @ replicate (SERIAL_BUFFERS_SIZE - length field) 0) (length field) (0 :: u8) =
      Some (field @ 0 # replicate (SERIAL_BUFFERS_SIZE - length field - 1) 0)"
    using assms by (cases "SERIAL_BUFFERS_SIZE - length field") (simp_all add: mem_set_def)
  moreover have "cstr_at (field @ 0 # r) 0 = Some (takeWhile (\<lambda>c. c \<noteq> 0) field)" for r
  proof (cases "0 \<in> set field")
    case True
    then have "takeWhile (\<lambda>c. c \<noteq> 0) (field @ 0 # r) = takeWhile (\<lambda>c. c \<noteq> 0) field" by (rule takeWhile_append1) simp
    with True show ?thesis by (simp add: cstr_at_def)
  next
    case False
    then have t: "takeWhile (\<lambda>c. c \<noteq> 0) field = field"
      by (intro takeWhile_eq_all_conv [THEN iffD2] ballI) (use False in \<open>auto\<close>)
    show ?thesis unfolding t by (rule cstr_at_append [OF False])
  qed
  ultimately show ?thesis by (simp add: data_string_def)
qed

definition field_of :: "'f publish_settings_entry \<Rightarrow> bytes \<Rightarrow> bytes" where
  "field_of p line = take (unat (ps_end p) - unat (ps_start p)) (drop (unat (ps_start p)) line)"

text \<open>The settings that publish something of a line of this length.\<close>

definition active :: "nat \<Rightarrow> 'f publish_settings_entry \<Rightarrow> bool" where
  "active n p = (ps_enabled p \<and> ps_start p < ps_end p \<and> unat (ps_start p) \<le> n)"

lemma field_string:
  assumes "0 \<notin> set line" "s \<le> length line" "s < e"
  shows "takeWhile (\<lambda>c. c \<noteq> 0) (take ((if length line + 1 < e then length line + 1 else e) - s) (drop s (line @ 0 # r))) =
    take (e - s) (drop s line)"
proof (cases "e \<le> length line")
  case True
  have "0 \<notin> set (take (e - s) (drop s line))" using assms(1) by (meson in_set_dropD in_set_takeD)
  then have "takeWhile (\<lambda>c. c \<noteq> 0) (take (e - s) (drop s line)) = take (e - s) (drop s line)"
    by (simp add: takeWhile_eq_all_conv) metis
  with True assms show ?thesis by simp
next
  case False
  have "0 \<notin> set (drop s line)" using assms(1) by (meson in_set_dropD)
  moreover have "take ((if length line + 1 < e then length line + 1 else e) - s) (drop s (line @ 0 # r)) = drop s line @ [0]"
    using False assms(2,3) by (auto simp: take_Cons' not_le)
  ultimately show ?thesis using False by (simp add: takeWhile_nul)
qed


lemma line_field_offered:
  assumes "0 \<notin> set line" "length line + 2 \<le> SERIAL_BUFFERS_SIZE" "queues_ok s" "active (length line) p \<longrightarrow> terminated p \<and> at_once p"
  shows "line_field E num (line @ [0] @ replicate (SERIAL_BUFFERS_SIZE - (length line + 1)) 0) (length line + 1) p i s =
    Some (if active (length line) p
      then offered [reading_message E p (field_of p line)] [reading_text E num i p (fst (reading E p (field_of p line)))] s else s)"
proof (cases "active (length line) p")
  case False
  then show ?thesis by (auto simp: line_field_def active_def not_le not_less)
next
  case True
  define b where "b = line @ [0] @ replicate (SERIAL_BUFFERS_SIZE - (length line + 1)) 0"
  let ?st = "unat (ps_start p)" and ?e = "unat (ps_end p)"
  have se: "?st \<le> length line" "?st < ?e" "ps_enabled p" "\<not> ps_end p \<le> ps_start p"
    using True by (auto simp: active_def word_less_nat_alt not_le)
  define len where "len = (if length line + 1 < ?e then length line + 1 - ?st else ?e - ?st)"
  have len: "0 < len" "len \<le> SERIAL_BUFFERS_SIZE - 1" "?st + len \<le> length b" "len < SERIAL_BUFFERS_SIZE"
    using se assms(2) by (auto simp: len_def b_def split: if_splits)
  have f: "takeWhile (\<lambda>c. c \<noteq> 0) (take len (drop ?st b)) = field_of p line"
  proof -
    have le: "len = (if length line + 1 < ?e then length line + 1 else ?e) - ?st" by (simp add: len_def)
    have b: "b = line @ 0 # replicate (SERIAL_BUFFERS_SIZE - (length line + 1)) 0" by (simp add: b_def)
    show ?thesis unfolding le b field_of_def by (rule field_string [OF assms(1) se(1,2)])
  qed
  have r: "mem_read b ?st len = Some (take len (drop ?st b))" using len(3) by (simp add: mem_read_def)
  have d: "data_string (take len (drop ?st b)) = Some (field_of p line)"
    using data_string_take [of "take len (drop ?st b)"] len f by simp
  have "line_field E num b (length line + 1) p i s = process_and_publish E num p i (field_of p line) s"
    unfolding line_field_def Let_def len_def [symmetric] using se len(1,2) r d by simp
  then show ?thesis using True assms(3,4) by (simp add: process_at_once b_def)
qed

lemma settings_loop_offered:
  assumes "\<And>p i s. p \<in> set ps \<Longrightarrow> queues_ok s \<Longrightarrow> body p i s = Some (if act p then offered [m p] [j i p] s else s)" "queues_ok s"
  shows "settings_loop body ps i s =
    Some (offered (map m (filter act ps)) (map (\<lambda>(i, p). j i p) (filter (\<lambda>(i, p). act p) (List.enumerate i ps))) s)"
  using assms
proof (induction ps arbitrary: i s)
  case Nil
  then show ?case by (simp add: offered_nothing)
next
  case (Cons p ps)
  have IH: "settings_loop body ps (Suc i) s = Some (offered (map m (filter act ps))
      (map (\<lambda>(i, p). j i p) (filter (\<lambda>(i, p). act p) (List.enumerate (Suc i) ps))) s)" if "queues_ok s" for s
    using Cons.IH [of s "Suc i"] Cons.prems(1) that by simp
  have "body p i s = Some (if act p then offered [m p] [j i p] s else s)" using Cons.prems by simp
  with IH [of "if act p then offered [m p] [j i p] s else s"] Cons.prems(2) show ?case by simp
qed

lemma line_turn_line:
  assumes "serial_inv u" "\<not> timeout_detected u" "received_chars u = 0" "rb_contents (uart_buffer u) = []"
    and line: "line \<noteq> []" "\<forall>c \<in> set line. \<not> is_line_end c \<and> c \<noteq> 0" "is_line_end e"
    and room: "length line + 2 \<le> rb_capacity (uart_buffer u)" "length line + 2 \<le> SERIAL_BUFFERS_SIZE"
    and settings: "\<forall>p \<in> set (ss_publish_settings st). active (length line) p \<longrightarrow> terminated p \<and> at_once p"
    and "queues_ok s"
  shows "\<exists>u1 u2. feed_chars u (line @ [e]) = Some u1 \<and>
    line_turn E num st [] u1 s = Some (Inr (u2, offered
      (map (\<lambda>p. reading_message E p (field_of p line)) (filter (active (length line)) (ss_publish_settings st)))
      (map (\<lambda>(i, p). reading_text E num i p (fst (reading E p (field_of p line))))
        (filter (\<lambda>(i, p). active (length line) p) (List.enumerate 0 (ss_publish_settings st)))) s)) \<and>
    rb_contents (uart_buffer u2) = [] \<and> received_chars u2 = 0"
proof -
  obtain u1 u2 where u: "feed_chars u (line @ [e]) = Some u1" "string_finished u1"
    "read_from_receive_buffer u1 SERIAL_BUFFERS_SIZE = Some (line @ [0], u2)"
    "rb_contents (uart_buffer u2) = []" "received_chars u2 = 0"
    using serial_line_read [OF assms(1-9)] by blast
  have r: "read_string u1 SERIAL_BUFFERS_SIZE [] = Some (Inr (length line + 1, line @ [0], u2))"
    using u(2,3) by (simp add: read_string.simps)
  have c: "mem_cpy (replicate SERIAL_BUFFERS_SIZE 0) 0 (line @ [0]) =
      Some (line @ [0] @ replicate (SERIAL_BUFFERS_SIZE - (length line + 1)) (0 :: u8))"
    using room(2) by (simp add: mem_cpy_def)
  have "0 \<notin> set line" using line(2) by auto
  note f = line_field_offered [OF this room(2)]
  have "settings_loop (line_field E num (line @ [0] @ replicate (SERIAL_BUFFERS_SIZE - (length line + 1)) 0) (length line + 1))
      (ss_publish_settings st) 0 s = Some (offered
      (map (\<lambda>p. reading_message E p (field_of p line)) (filter (active (length line)) (ss_publish_settings st)))
      (map (\<lambda>(i, p). reading_text E num i p (fst (reading E p (field_of p line))))
        (filter (\<lambda>(i, p). active (length line) p) (List.enumerate 0 (ss_publish_settings st)))) s)"
    by (rule settings_loop_offered [OF f assms(11)]) (use settings in auto)
  with u r c show ?thesis by (simp add: line_turn_def)
qed

text \<open>C14: A line that arrives at an idle serial port is published: each setting that is enabled and starts within the line offers
  its field of the line, as text or as the scaled number, to the MQTT queue under its topic, and as a reading to the
  WebSocket queue, in the order of the settings; the queues take what they have room for.\<close>

theorem sensor_line_published:
  assumes "serial_inv u" "\<not> timeout_detected u" "received_chars u = 0" "rb_contents (uart_buffer u) = []"
    and line: "line \<noteq> []" "\<forall>c \<in> set line. \<not> is_line_end c \<and> c \<noteq> 0" "is_line_end e"
    and room: "length line + 2 \<le> rb_capacity (uart_buffer u)" "length line + 2 \<le> SERIAL_BUFFERS_SIZE"
    and settings: "\<forall>p \<in> set (ss_publish_settings st). active (length line) p \<longrightarrow> terminated p \<and> at_once p"
    and "queues_ok s"
  shows "\<exists>u1 u2. feed_chars u (line @ [e]) = Some u1 \<and>
    line_turn E num st [] u1 s = Some (Inr (u2, offered
      (map (\<lambda>p. reading_message E p (field_of p line)) (filter (active (length line)) (ss_publish_settings st)))
      (map (\<lambda>(i, p). reading_text E num i p (fst (reading E p (field_of p line))))
        (filter (\<lambda>(i, p). active (length line) p) (List.enumerate 0 (ss_publish_settings st)))) s)) \<and>
    rb_contents (uart_buffer u2) = [] \<and> received_chars u2 = 0"
  by (rule line_turn_line [OF assms])

section \<open>Averages\<close>

fun feed_readings ::
  "'f sensor_env \<Rightarrow> nat \<Rightarrow> 'f publish_settings_entry \<Rightarrow> nat \<Rightarrow> bytes list \<Rightarrow> 'f sensor_state \<Rightarrow> 'f sensor_state option" where
  "feed_readings E num p i [] s = Some s"
| "feed_readings E num p i (d # ds) s = do { s \<leftarrow> process_and_publish E num p i d s; feed_readings E num p i ds s }"

lemma feed_readings_append:
  "feed_readings E num p i (ds @ ds') s = do { s \<leftarrow> feed_readings E num p i ds s; feed_readings E num p i ds' s }"
  by (induction ds arbitrary: s) (auto split: Option.bind_splits)

definition scaled :: "'f sensor_env \<Rightarrow> 'f publish_settings_entry \<Rightarrow> bytes \<Rightarrow> 'f" where
  "scaled E p d = float_mult E (strtof E d) (ps_scale p)"

definition float_sum :: "'f sensor_env \<Rightarrow> 'f list \<Rightarrow> 'f" where
  "float_sum E xs = foldl (float_add E) (float_zero E) xs"

text \<open>The averages of the full blocks of \<open>n\<close> numbers.\<close>

definition block_averages :: "'f sensor_env \<Rightarrow> nat \<Rightarrow> 'f list \<Rightarrow> 'f list" where
  "block_averages E n xs =
     map (\<lambda>b. float_div E (float_sum E (take n (drop (b * n) xs))) (float_of_int E (int n))) [0..<length xs div n]"

definition number_message :: "'f sensor_env \<Rightarrow> 'f publish_settings_entry \<Rightarrow> 'f \<Rightarrow> MqttPublishMessage" where
  "number_message E p x = mqtt_message (c_string (ps_topic p)) (number_text E x) (length (printf_f E x))"

lemma publish_number_offered:
  assumes "queues_ok s" "terminated p"
  shows "publish_number E num p i x s = Some (offered [number_message E p x] [reading_text E num i p (number_text E x)] s)"
  using publish_offered [OF assms] by (simp add: publish_number_def number_message_def number_text_def)

lemma block_averages_snoc:
  assumes "0 < n"
  shows "block_averages E n (xs @ [x]) = (let r = drop (length xs div n * n) xs @ [x] in
    if length r = n then block_averages E n xs @ [float_div E (float_sum E r) (float_of_int E (int n))] else block_averages E n xs)"
    "drop (length (xs @ [x]) div n * n) (xs @ [x]) =
      (let r = drop (length xs div n * n) xs @ [x] in if length r = n then [] else r)"
proof -
  define q where "q = length xs div n"
  have l: "length xs = q * n + length xs mod n" by (simp add: q_def)
  have m: "length xs mod n < n" using assms by simp
  have early: "take n (drop (b * n) (xs @ [x])) = take n (drop (b * n) xs)" if "b < q" for b
  proof -
    have "(b + 1) * n \<le> q * n" using that by (intro mult_le_mono1) simp
    then show ?thesis using l by (simp add: add_mult_distrib)
  qed
  have r: "length (drop (q * n) xs @ [x]) = length xs mod n + 1" using l by simp
  have d: "drop (q * n) (xs @ [x]) = drop (q * n) xs @ [x]" using l by simp
  have e: "map (\<lambda>b. float_div E (float_sum E (take n (drop (b * n) (xs @ [x])))) (float_of_int E (int n))) [0..<q] = block_averages E n xs"
    unfolding block_averages_def q_def [symmetric] using early by (intro map_cong refl) (simp only: set_upt atLeastLessThan_iff)
  have "block_averages E n (xs @ [x]) = (if length xs mod n + 1 = n
      then block_averages E n xs @ [float_div E (float_sum E (drop (q * n) xs @ [x])) (float_of_int E (int n))] else block_averages E n xs) \<and>
    drop (length (xs @ [x]) div n * n) (xs @ [x]) = (if length xs mod n + 1 = n then [] else drop (q * n) xs @ [x])"
  proof (cases "length xs mod n + 1 = n")
    case True
    then have dv: "length (xs @ [x]) div n = q + 1" using l assms by (metis q_def add.commute div_Suc length_append_singleton plus_1_eq_Suc mod_Suc)
    have t: "take n (drop (q * n) (xs @ [x])) = drop (q * n) xs @ [x]" unfolding d using r True by simp
    have "block_averages E n (xs @ [x]) = map (\<lambda>b. float_div E (float_sum E (take n (drop (b * n) (xs @ [x])))) (float_of_int E (int n))) [0..<q]
        @ [float_div E (float_sum E (drop (q * n) xs @ [x])) (float_of_int E (int n))]"
      unfolding block_averages_def dv using t by simp
    moreover have "drop ((q + 1) * n) (xs @ [x]) = []" using l True by simp
    ultimately show ?thesis using True e dv by simp
  next
    case False
    then have dv: "length (xs @ [x]) div n = q" using l assms by (simp add: q_def div_Suc mod_Suc)
    show ?thesis unfolding dv using False e d dv by (simp add: block_averages_def)
  qed
  then show "block_averages E n (xs @ [x]) = (let r = drop (length xs div n * n) xs @ [x] in
    if length r = n then block_averages E n xs @ [float_div E (float_sum E r) (float_of_int E (int n))] else block_averages E n xs)"
    "drop (length (xs @ [x]) div n * n) (xs @ [x]) =
      (let r = drop (length xs div n * n) xs @ [x] in if length r = n then [] else r)"
    using r by (simp_all add: q_def Let_def)
qed

text \<open>C16: A setting with an average count of \<open>n\<close> publishes after every \<open>n\<close> readings, and then the average of just these \<open>n\<close>: the
  sum in the order of arrival, divided once. What is left of the readings is kept for the next average.\<close>

theorem sensor_averages:
  assumes "ps_is_num p" "ps_avg_cnt p = int n" "0 < n" "terminated p" "queues_ok s" "i < length (avg_fields s)"
    "avg_fields s ! i = \<lparr>avg_cnt_current = 0, accum = float_zero E\<rparr>"
  shows "feed_readings E num p i ds s =
    Some ((offered (map (number_message E p) (block_averages E n (map (scaled E p) ds)))
             (map (\<lambda>x. reading_text E num i p (number_text E x)) (block_averages E n (map (scaled E p) ds))) s)
      \<lparr>avg_fields := (avg_fields s)[i := \<lparr>avg_cnt_current = int (length ds mod n),
         accum = float_sum E (drop (length ds div n * n) (map (scaled E p) ds))\<rparr>]\<rparr>)"
proof (induction ds rule: rev_induct)
  case Nil
  have "(avg_fields s)[i := \<lparr>avg_cnt_current = 0, accum = float_zero E\<rparr>] = avg_fields s" using assms(7) by (metis list_update_id)
  with assms(5) show ?case by (simp add: block_averages_def float_sum_def offered_nothing)
next
  case (snoc d ds)
  let ?xs = "map (scaled E p) ds" and ?x = "scaled E p d"
  define r where "r = drop (length ?xs div n * n) ?xs"
  have lr: "length r = length ds mod n" by (simp add: r_def minus_div_mult_eq_mod)
  then have lt: "length r < n" using assms(3) by simp
  define t where "t = offered (map (number_message E p) (block_averages E n ?xs))
      (map (\<lambda>x. reading_text E num i p (number_text E x)) (block_averages E n ?xs)) s"
  define s1 where "s1 = t\<lparr>avg_fields := (avg_fields s)[i := \<lparr>avg_cnt_current = int (length r), accum = float_sum E r\<rparr>]\<rparr>"
  have "s1 = t\<lparr>avg_fields := (avg_fields s)[i := \<lparr>avg_cnt_current = int (length ds mod n), accum = float_sum E r\<rparr>]\<rparr>"
    unfolding s1_def lr by (rule refl)
  then have f: "feed_readings E num p i ds s = Some s1" using snoc.IH by (simp add: t_def r_def)
  have af: "avg_fields s1 = (avg_fields s)[i := \<lparr>avg_cnt_current = int (length r), accum = float_sum E r\<rparr>]" by (simp add: s1_def)
  have ok: "queues_ok s1" by (simp add: s1_def t_def)
  have g: "mem_get (avg_fields s1) i = Some \<lparr>avg_cnt_current = int (length r), accum = float_sum E r\<rparr>"
    using assms(6) by (simp add: af)
  have sum: "float_add E (float_sum E r) ?x = float_sum E (r @ [?x])" by (simp add: float_sum_def)
  note b = block_averages_snoc [OF assms(3), where xs = ?xs and x = ?x, folded r_def]
  have m: "length (ds @ [d]) mod n = (if length (r @ [?x]) = n then 0 else length (r @ [?x]))"
    using lr assms(3) by (simp add: mod_Suc)
  have set: "mem_set (avg_fields s1) i a = Some ((avg_fields s)[i := a])" for a
    using assms(6) by (simp add: af mem_set_def)
  have "process_and_publish E num p i d s1 =
      Some ((if length (r @ [?x]) = n
         then offered [number_message E p (float_div E (float_sum E (r @ [?x])) (float_of_int E (int n)))]
           [reading_text E num i p (number_text E (float_div E (float_sum E (r @ [?x])) (float_of_int E (int n))))] s1
         else s1)\<lparr>avg_fields := (avg_fields s)[i := (if length (r @ [?x]) = n then \<lparr>avg_cnt_current = 0, accum = float_zero E\<rparr>
           else \<lparr>avg_cnt_current = int (length (r @ [?x])), accum = float_sum E (r @ [?x])\<rparr>)]\<rparr>)"
    using assms(1-4) lt g set publish_number_offered [OF ok assms(4)] sum
    by (auto simp: process_and_publish_def Let_def scaled_def add.commute)
  then show ?case
    unfolding feed_readings_append f m using b by (simp add: s1_def t_def offered_avg Let_def float_sum_def)
qed

section \<open>Numbers of sensors\<close>

definition sensor_uarts :: "nat list" where "sensor_uarts = [0, 2, 3]"

text \<open>C17: The main task starts a sensor for each enabled entry, on its port and at its speed. But a sensor uses the settings
  of its number in the order of starting: all sensors use their own settings only if no enabled entry is behind a disabled one.\<close>

theorem sensor_numbers:
  assumes "length settings = MAX_SERIAL_SENSORS"
  shows "\<exists>started. start_sensors settings = Some started \<and>
    map (\<lambda>x. (st_uart x, st_baudrate x)) started =
      map (\<lambda>(u, c). (u, ss_baudrate c)) (filter (\<lambda>(u, c). ss_enabled c) (zip sensor_uarts settings)) \<and>
    map st_sensor_num started = [0..<length started] \<and>
    ((\<forall>x \<in> set started. st_uart x = sensor_uarts ! st_sensor_num x) \<longleftrightarrow>
      (\<exists>k. map ss_enabled settings = replicate k True @ replicate (MAX_SERIAL_SENSORS - k) False))"
proof -
  obtain a b c where s: "settings = [a, b, c]"
    using assms by (auto simp: MAX_SERIAL_SENSORS_def numeral_3_eq_3 length_Suc_conv)
  have k: "(\<exists>k. [x, y, z] = replicate k True @ replicate (3 - k) False) \<longleftrightarrow> (z \<longrightarrow> y) \<and> (y \<longrightarrow> x)" for x y z
  proof
    assume "\<exists>k. [x, y, z] = replicate k True @ replicate (3 - k) False"
    then obtain k where k: "[x, y, z] = replicate k True @ replicate (3 - k) False" by blast
    then have "length [x, y, z] = length (replicate k True @ replicate (3 - k) False)" by metis
    then have "k = 0 \<or> k = 1 \<or> k = 2 \<or> k = 3" by auto
    with k show "(z \<longrightarrow> y) \<and> (y \<longrightarrow> x)" by (auto simp: numeral_eq_Suc)
  next
    assume *: "(z \<longrightarrow> y) \<and> (y \<longrightarrow> x)"
    show "\<exists>k. [x, y, z] = replicate k True @ replicate (3 - k) False"
      by (rule exI [of _ "if z then 3 else if y then 2 else if x then 1 else 0"]) (use * in \<open>auto simp: numeral_eq_Suc\<close>)
  qed
  show ?thesis
    unfolding s MAX_SERIAL_SENSORS_def list.map k
    by (cases "ss_enabled a"; cases "ss_enabled b"; cases "ss_enabled c")
       (simp_all add: start_sensors_def start_sensor_def Sensor_new_def sensor_uarts_def MAX_SERIAL_SENSORS_def)
qed

section \<open>An example\<close>

text \<open>Integers for numbers, written with one byte.\<close>

definition example_floats :: "int sensor_env" where
  "example_floats = \<lparr>strtof = (\<lambda>d. int (length d)), float_zero = 0, float_of_int = id, float_add = (+), float_mult = (*), float_div = (div),
     printf_f = (\<lambda>x. [of_int x]), c_rand = int, reading_json = (\<lambda>s i name val topic. name @ val)\<rparr>"

definition example_entry :: "bool \<Rightarrow> int publish_settings_entry" where
  "example_entry num = \<lparr>ps_enabled = True, ps_name = [72, 51, 0, 0, 0, 0, 0, 0, 0, 0], ps_start = 1, ps_end = 8, ps_is_num = num, ps_scale = 10,
     ps_avg_cnt = 2, ps_topic = 49 # replicate 29 0\<rparr>"

definition example_sensor :: "bool \<Rightarrow> int sensor_settings_entry" where
  "example_sensor en = \<lparr>ss_baudrate = 9600, ss_enabled = en, ss_simulate_values = False, ss_publish_settings = [example_entry False]\<rparr>"

definition example_sensor_state :: "int sensor_state" where
  "example_sensor_state = \<lparr>avg_fields = [\<lparr>avg_cnt_current = 0, accum = 0\<rparr>], mqttQueue = Some [], websocketQueue = Some [], rand_calls = 0\<rparr>"

lemma example_entry_ok: "terminated (example_entry num)" "queues_ok example_sensor_state"
  by (simp_all add: terminated_def example_entry_def queues_ok_def example_sensor_state_def)

lemmas sensor_example_simps = example_entry_def example_sensor_def example_sensor_state_def example_floats_def offered_def
  reading_message_def reading_def mqtt_message_def c_string_def MQTT_MAX_TOPIC_LENGTH_def MQTT_MAX_PAYLOAD_LENGTH_def MQTT_QUEUE_LENGTH_def

theorem sensor_line_published_witness:
  "\<exists>u1 u2 s. feed_chars (serial_new (replicate 8 0)) ([65, 66, 67] @ [13]) = Some u1 \<and>
    line_turn example_floats 0 (example_sensor True) [] u1 example_sensor_state = Some (Inr (u2, s)) \<and>
    map_option (map mm_payload) (mqttQueue s) = Some [[66, 67]]"
proof -
  define l :: bytes where "l = [65, 66, 67]"
  let ?u = "serial_new (replicate 8 0)"
  have 1: "l \<noteq> []" "\<forall>c \<in> set l. \<not> is_line_end c \<and> c \<noteq> 0" "is_line_end 13" "length l + 2 \<le> rb_capacity (uart_buffer ?u)"
      "length l + 2 \<le> SERIAL_BUFFERS_SIZE" "serial_inv ?u" "\<not> timeout_detected ?u" "received_chars ?u = 0" "rb_contents (uart_buffer ?u) = []"
    using serial_new_idle [of "replicate 8 0"] by (simp_all add: l_def is_line_end_def SERIAL_BUFFERS_SIZE_def)
  have "\<forall>p \<in> set (ss_publish_settings (example_sensor True)). active (length l) p \<longrightarrow> terminated p \<and> at_once p"
    by (simp add: example_sensor_def example_entry_ok at_once_def) (simp add: example_entry_def)
  from sensor_line_published [OF 1(6-9,1-5) this example_entry_ok(2), of example_floats 0] obtain u1 u2 where u:
    "feed_chars ?u (l @ [13]) = Some u1"
    "line_turn example_floats 0 (example_sensor True) [] u1 example_sensor_state = Some (Inr (u2, offered
      (map (\<lambda>p. reading_message example_floats p (field_of p l)) (filter (active (length l)) (ss_publish_settings (example_sensor True))))
      (map (\<lambda>(i, p). reading_text example_floats 0 i p (fst (reading example_floats p (field_of p l))))
        (filter (\<lambda>(i, p). active (length l) p) (List.enumerate 0 (ss_publish_settings (example_sensor True))))) example_sensor_state))"
    by blast
  have q: "map_option (map mm_payload) (mqttQueue (offered
      (map (\<lambda>p. reading_message example_floats p (field_of p l)) (filter (active (length l)) (ss_publish_settings (example_sensor True))))
      js example_sensor_state)) = Some [[66, 67]]" for js
    by (simp add: sensor_example_simps active_def field_of_def l_def)
  show ?thesis unfolding l_def [symmetric] by (intro exI conjI) (rule u(1), rule u(2), rule q)
qed

theorem sensor_averages_witness:
  "\<exists>s. feed_readings example_floats 0 (example_entry True) 0 [[1], [1, 2], [1, 2, 3]] example_sensor_state = Some s \<and>
    map_option (map mm_payload) (mqttQueue s) = Some [[15]] \<and> avg_fields s = [\<lparr>avg_cnt_current = 1, accum = 30\<rparr>]"
  using sensor_averages [of "example_entry True" 2 example_sensor_state 0 example_floats 0 "[[1], [1, 2], [1, 2, 3]]"]
  by (simp add: example_entry_ok)
     (simp add: sensor_example_simps block_averages_def scaled_def float_sum_def number_message_def number_text_def SERIAL_BUFFERS_SIZE_def)

theorem sensor_numbers_witness:
  "\<exists>started. start_sensors [example_sensor False, example_sensor True, example_sensor True] = Some started \<and>
    map st_uart started = [2, 3] \<and> map st_sensor_num started = [0, 1]"
  using sensor_numbers [of "[example_sensor False, example_sensor True, example_sensor True]"]
  by (auto simp: MAX_SERIAL_SENSORS_def example_sensor_def sensor_uarts_def start_sensors_def start_sensor_def Sensor_new_def)

end
