(* ===== verification/MQTT_Task_Proofs.thy ===== *)
theory MQTT_Task_Proofs
  imports MQTT_Task MQTT_Network_Proofs MQTT_Client_Invariant Sensor_Proofs
begin

text \<open>
  From the queue of readings to the socket: what the task of the MQTT client sends, and where it gives up.
\<close>

section \<open>Publishing over a prompt link\<close>

definition puback :: "u16 \<Rightarrow> bytes" where
  "puback pid = [0x40, 2] @ int_bytes (uint pid)"

lemma puback_read:
  shows "MQTTDeserialize_ack r (puback pid @ xs) = Some (1, r\<lparr>a_dup := 0, a_type := PUBACK, a_packetid := pid\<rparr>)"
proof -
  let ?b = "puback pid @ xs"
  have s: "starts ?b 0 [0x40]" "starts ?b 1 (encode_digits 2)" "starts ?b 2 (int_bytes (uint pid))"
    by (simp_all add: puback_def starts_def encode_digits_small int_bytes_def)
  have i: "0 \<le> uint pid" "uint pid < 65536" using uint_lt2p [of pid] by simp_all
  have d: "MQTTPacket_decodeBuf ?b 1 = Some (1, 2)" using decodeBuf_digits [OF _ _ s(2)] by (simp add: encode_digits_small)
  have h: "h_dup (header_of 0x40) = 0" "h_type (header_of 0x40) = PUBACK" by (simp_all add: header_of_def msg_types)
  show ?thesis
    using readChar_starts [OF s(1)] readInt_starts [OF i s(3)] d h by (simp add: MQTTDeserialize_ack_def Let_def numeral_2_eq_2)
qed

definition next_id :: "u32 \<Rightarrow> u32" where
  "next_id n = (if n = MAX_PACKET_ID then 1 else n + 1)"

text \<open>What a publication leaves alone in the client.\<close>

definition same_session :: "('tm, 'h) MQTTClient \<Rightarrow> ('tm, 'h) MQTTClient \<Rightarrow> bool" where
  "same_session c c' = (length (buf c') = length (buf c) \<and> length (readbuf c') = length (readbuf c) \<and> isconnected c' = isconnected c \<and>
     messageHandlers c' = messageHandlers c \<and> defaultMessageHandler c' = defaultMessageHandler c)"

text \<open>The length of a packet with quality of service 1, as the client computes it.\<close>

definition publish_size :: "bytes \<Rightarrow> bytes \<Rightarrow> int" where
  "publish_size topic payload = MQTTPacket_len (MQTTSerialize_publishLength 1 (c_topic topic) (int (length payload)))"

definition publish_packet :: "u32 \<Rightarrow> bytes \<Rightarrow> bytes \<Rightarrow> bytes" where
  "publish_packet pid topic payload = publish_enc 0 1 0 (ucast pid) (c_topic topic) payload"

lemma sint_of_nat_u32: "n < 2147483648 \<Longrightarrow> sint (of_nat n :: u32) = int n"
  by (simp add: signed_of_nat signed_take_bit_int_eq_self)

lemma length_publish_packet:
  assumes "length topic < 65536" "length payload < 65536"
  shows "int (length (publish_packet pid topic payload)) \<le> publish_size topic payload"
proof -
  have wf: "str_wf (c_topic topic)" by (simp add: str_wf_def c_topic_def)
  have n: "MQTTSerialize_publishLength 1 (c_topic topic) (int (length payload)) = int (length topic + length payload + 4)"
    by (simp add: MQTTSerialize_publishLength_def MQTTstrlen_bytes [OF wf]) (simp add: str_bytes_def c_topic_def)
  have "0 \<le> int (length topic + length payload + 4)" "int (length topic + length payload + 4) < 268435456" using assms by simp_all
  from MQTTPacket_len_bound [OF this] length_publish_enc [OF wf, of 0 1 0 "ucast pid" payload] show ?thesis
    unfolding publish_packet_def publish_size_def n by simp
qed

context prompt_link
begin

lemma TimerCountdownMS_link: "\<exists>t w'. TimerCountdownMS p n w = (t, w') \<and> view w' = view w"
  using set_time [of w] by (auto simp: TimerCountdownMS_def)

lemma cycle_puback:
  assumes "pending (view w) = puback pid @ rest" "4 \<le> length (readbuf c)" "length (readbuf c) < 4294967296"
  shows "\<exists>c' t' w'. cycle p c timer w = Some (uint PUBACK, c', t', w') \<and> view w' = (view w)\<lparr>pending := rest\<rparr> \<and>
    same_session c c' \<and> next_packetid c' = next_packetid c \<and> readbuf c' = puback pid @ drop 4 (readbuf c)"
proof -
  have b: "puback pid = 0x40 # encode_digits (int (length (int_bytes (uint pid)))) @ int_bytes (uint pid)"
    by (simp add: puback_def encode_digits_small int_bytes_def)
  have l: "length (puback pid) = 4" by (simp add: puback_def int_bytes_def)
  have "length (int_bytes (uint pid)) < 268435456" by (simp add: int_bytes_def)
  from readPacket_link [OF assms(1) b this _ assms(3), of timer] assms(2) l obtain lr t1 w1 where
    1: "readPacket p c timer w = Some (uint (h_type (header_of 0x40)), c\<lparr>readbuf := puback pid @ drop 4 (readbuf c), last_received := lr\<rparr>, t1, w1)"
      "view w1 = (view w)\<lparr>pending := rest\<rparr>" by auto
  let ?c = "c\<lparr>readbuf := puback pid @ drop 4 (readbuf c), last_received := lr\<rparr>"
  obtain ls lr' w2 where 2: "keepalive p ?c w1 = Some (SUCCESS, ?c\<lparr>last_sent := ls, last_received := lr'\<rparr>, w2)" "view w2 = view w1"
    using keepalive_link by blast
  have ty: "h_type (header_of 0x40) = PUBACK" by (simp add: header_of_def msg_types)
  have sw: "cycle_switch p (uint PUBACK) ?c t1 w1 = Some (SUCCESS, True, ?c, t1, w1)" by (simp add: cycle_switch_def)
  have "cycle p c timer w = Some (uint PUBACK, ?c\<lparr>last_sent := ls, last_received := lr'\<rparr>, t1, w2)"
    by (simp only: cycle_def 1(1) ty bind.bind_lunit sw prod.case if_True) (simp add: 2(1))
  with 1(2) 2(2) l assms(2) show ?thesis by (intro exI conjI) (assumption, auto simp: same_session_def)
qed

lemma waitfor_puback:
  assumes "pending (view w) = puback pid @ rest" "4 \<le> length (readbuf c)" "length (readbuf c) < 4294967296"
  shows "\<exists>c' t' w'. waitfor p c PUBACK timer w = Some (uint PUBACK, c', t', w') \<and> view w' = (view w)\<lparr>pending := rest\<rparr> \<and>
    same_session c c' \<and> next_packetid c' = next_packetid c \<and> readbuf c' = puback pid @ drop 4 (readbuf c)"
proof -
  obtain t1 w1 where 1: "TimerIsExpired p timer w = (False, t1, w1)" "view w1 = view w" using TimerIsExpired_link by blast
  then have "pending (view w1) = puback pid @ rest" using assms(1) by simp
  from cycle_puback [OF this assms(2,3), of t1] obtain c' t' w' where
    "cycle p c t1 w1 = Some (uint PUBACK, c', t', w')" "view w' = (view w)\<lparr>pending := rest\<rparr>"
    "same_session c c'" "next_packetid c' = next_packetid c" "readbuf c' = puback pid @ drop 4 (readbuf c)" using 1(2) by auto
  with 1(1) show ?thesis by (intro exI conjI) (simp_all add: waitfor_def waitfor_loop.simps [of p _ _ _ timer])
qed

lemma MQTTPublish_link:
  assumes "isconnected c" "m_qos m = 1" "m_retained m = 0" "m_payload m = payload @ [0]" "m_payloadlen m = of_nat (length payload)"
    and "length topic < 65536" "length payload < 65536" "publish_size topic payload \<le> int (length (buf c))"
    and "pending (view w) = puback pid @ rest" "4 \<le> length (readbuf c)" "length (readbuf c) < 4294967296"
  shows "\<exists>m' c' w'. MQTTPublish p c topic m w = Some (SUCCESS, m', c', w') \<and> same_session c c' \<and>
    next_packetid c' = next_id (next_packetid c) \<and>
    view w' = (view w)\<lparr>pending := rest, sent := sent (view w) @ publish_packet (next_id (next_packetid c)) topic payload\<rparr>"
proof -
  let ?id = "ucast (next_id (next_packetid c)) :: u16"
  let ?e = "publish_packet (next_id (next_packetid c)) topic payload"
  let ?c1 = "c\<lparr>next_packetid := next_id (next_packetid c)\<rparr>"
  have id: "getNextPacketId c = (?id, ?c1)" by (simp add: getNextPacketId_def next_id_def Let_def)
  obtain t1 w1 where 1: "TimerCountdownMS p (command_timeout_ms c) w = (t1, w1)" "view w1 = view w" using TimerCountdownMS_link by blast
  have wf: "str_wf (c_topic topic)" by (simp add: str_wf_def c_topic_def)
  have sl: "sint (of_nat (length payload) :: u32) = int (length payload)"
    using assms(7) by (simp add: sint_of_nat_u32)
  have "length payload \<le> length (payload @ [0])" by simp
  from MQTTSerialize_publish_eq [OF wf this, of 1 "int (length (buf c))" "buf c" 0 0 ?id] assms(8)
  have fp: "MQTTSerialize_publish (buf c) (int (length (buf c))) 0 1 0 ?id (c_topic topic) (payload @ [0]) (int (length payload)) =
      finish_packet (emit ?e (buf c, 0))" by (simp add: publish_size_def publish_packet_def)
  have el: "length ?e \<le> length (buf c)" "0 < length ?e"
    using length_publish_packet [OF assms(6,7), of "next_id (next_packetid c)"] assms(8)
    by (linarith, simp add: publish_packet_def publish_enc_def)
  define bf where "bf = ?e @ drop (length ?e) (buf c)"
  have ser: "MQTTSerialize_publish (buf c) (int (length (buf c))) 0 1 0 ?id (c_topic topic) (payload @ [0]) (int (length payload)) =
      Some (int (length ?e), bf)" using fp el(1) by (simp add: finish_packet_emit bf_def)
  let ?c2 = "?c1\<lparr>buf := bf\<rparr>"
  have lb: "length bf = length (buf c)" using el(1) by (simp add: bf_def)
  obtain ls t2 w2 where 2: "sendPacket p ?c2 (int (length ?e)) t1 w1 = Some (SUCCESS, ?c2\<lparr>last_sent := ls\<rparr>, t2, w2)"
    "view w2 = (view w1)\<lparr>sent := sent (view w1) @ ?e\<rparr>"
    using sendPacket_link [of "length ?e" ?c2 t1 w1] el lb by (auto simp: bf_def)
  let ?c3 = "?c2\<lparr>last_sent := ls\<rparr>"
  have "pending (view w2) = puback pid @ rest" "4 \<le> length (readbuf ?c3)" "length (readbuf ?c3) < 4294967296"
    using 1(2) 2(2) assms(9-11) by simp_all
  from waitfor_puback [OF this, of t2] obtain c' t' w' where
    3: "waitfor p ?c3 PUBACK t2 w2 = Some (uint PUBACK, c', t', w')" "view w' = (view w2)\<lparr>pending := rest\<rparr>"
      "same_session ?c3 c'" "next_packetid c' = next_packetid ?c3" "readbuf c' = puback pid @ drop 4 (readbuf ?c3)" by blast
  have "MQTTPublish p c topic m w = Some (SUCCESS, m\<lparr>m_id := ?id\<rparr>, c', w')"
    using assms(1-5) id ser 2(1) 3(1,5) el(2) sl
    by (simp add: MQTTPublish_def 1(1) puback_read close_on_failure_def return_codes)
  with 1(2) 2(2) 3(2,3,4) lb show ?thesis by (intro exI conjI) (assumption, auto simp: same_session_def)
qed

lemma MQTTPublish_too_long:
  assumes "isconnected c" "m_qos m = 1" "m_payloadlen m = of_nat (length payload)" "length payload < 65536"
    and "int (length (buf c)) < publish_size topic payload"
  shows "\<exists>m' c' w'. MQTTPublish p c topic m w = Some (FAILURE, m', c', w') \<and> \<not> isconnected c' \<and> view w' = view w"
proof -
  obtain t1 w1 where 1: "TimerCountdownMS p (command_timeout_ms c) w = (t1, w1)" "view w1 = view w" using TimerCountdownMS_link by blast
  have sl: "sint (of_nat (length payload) :: u32) = int (length payload)" using assms(4) by (simp add: sint_of_nat_u32)
  have "MQTTSerialize_publish b (int (length (buf c))) 0 1 r pid (c_topic topic) x (int (length payload)) =
      Some (MQTTPACKET_BUFFER_TOO_SHORT, b)" for b r pid x
    using assms(5) by (simp add: MQTTSerialize_publish_def publish_size_def)
  then show ?thesis using assms(1-3) sl 1
    by (auto simp: MQTTPublish_def getNextPacketId_def Let_def MQTTPACKET_BUFFER_TOO_SHORT_def close_on_failure_def
        MQTTCloseSession_def MQTTCleanSession_def return_codes)
qed

end

section \<open>Without a broker\<close>

text \<open>Without a broker in the settings every turn closes the socket number the network has, before the first connection the number 0,
  which \<^verbatim>\<open>NetworkInit\<close> set and which lwIP gives to the first socket of any task.\<close>

lemma mqtt_no_broker_closes:
  assumes "mq_broker settings = 0 # b"
  shows "connect_turn k handlers settings (mqtt_task_init sb rb c dns w) =
    Some (False, (mqtt_task_init sb rb c dns w)\<lparr>tk_world := lwip_close k 0 w\<rparr>)"
  using assms by (simp add: connect_turn_def mqtt_task_init_def close_socket_def FreeRTOS_disconnect_def)

section \<open>The queue\<close>

definition queued_payload :: "MqttPublishMessage \<Rightarrow> bytes" where
  "queued_payload msg = c_string (mm_payload msg)"

definition fits :: "nat \<Rightarrow> MqttPublishMessage \<Rightarrow> bool" where
  "fits n msg = (publish_size (mm_topic msg) (queued_payload msg) \<le> int n)"

text \<open>The packets of the messages of a queue, with the identifiers that follow one.\<close>

fun queue_packets :: "u32 \<Rightarrow> MqttPublishMessage list \<Rightarrow> bytes" where
  "queue_packets pid [] = []"
| "queue_packets pid (msg # q) = publish_packet (next_id pid) (mm_topic msg) (queued_payload msg) @ queue_packets (next_id pid) q"

definition queue_message_ok :: "MqttPublishMessage \<Rightarrow> bool" where
  "queue_message_ok msg = (mm_qos msg = 1 \<and> length (mm_topic msg) < 65536 \<and> length (mm_payload msg) < 65536)"

lemma queued_payload_length: "length (mm_payload msg) < n \<Longrightarrow> length (queued_payload msg) < n"
  unfolding queued_payload_def c_string_def by (rule order.strict_trans1 [OF length_takeWhile_le])

lemma task_message_fields [simp]:
  "m_qos (task_message stack msg) = uint (mm_qos msg)" "m_retained (task_message stack msg) = 0"
  "m_payload (task_message stack msg) = queued_payload msg @ [0]"
  "m_payloadlen (task_message stack msg) = of_nat (length (queued_payload msg))"
  by (simp_all add: task_message_def Let_def queued_payload_def)

lemma publish_loop_link:
  assumes link: "prompt_socket k (tk_socket t) view"
    and call: "\<And>h t m w. view (call h t m w) = (view w)\<lparr>calls := calls (view w) @ [(h, t, m)]\<rparr>"
    and close: "\<And>s w. view (lwip_close k s w) = view w"
    and "isconnected (tk_client t)" "4 \<le> length (readbuf (tk_client t))" "length (readbuf (tk_client t)) < 4294967296"
    and "\<forall>msg \<in> set q. queue_message_ok msg" "length (buf (tk_client t)) = n"
    and "pending (view (tk_world t)) = concat (map puback pids) @ rest" "length pids = length (takeWhile (fits n) q)"
  shows "\<exists>t'. publish_loop k call stack q reconnect t =
      Some (takeWhile (fits n) q = q, reconnect, tl (dropWhile (fits n) q), t') \<and>
    (isconnected (tk_client t') \<longleftrightarrow> takeWhile (fits n) q = q) \<and>
    view (tk_world t') = (view (tk_world t))\<lparr>pending := rest,
      sent := sent (view (tk_world t)) @ queue_packets (next_packetid (tk_client t)) (takeWhile (fits n) q)\<rparr>"
  using assms
proof (induction q arbitrary: t pids)
  case Nil
  then show ?case by simp
next
  case (Cons msg q)
  have link: "prompt_link (FreeRTOS_port k (tk_socket t) call) view" by (rule FreeRTOS_link [OF Cons.prems(1,2)])
  let ?c = "tk_client t" and ?w = "tk_world t" and ?m = "task_message stack msg"
  have ok: "m_qos ?m = 1" "length (mm_topic msg) < 65536" "length (queued_payload msg) < 65536"
    using Cons.prems(7) by (simp_all add: queue_message_ok_def queued_payload_length)
  show ?case
  proof (cases "fits n msg")
    case True
    with Cons.prems(10) obtain pid pids' where pids: "pids = pid # pids'" "length pids' = length (takeWhile (fits n) q)"
      by (cases pids) auto
    have f1: "publish_size (mm_topic msg) (queued_payload msg) \<le> int (length (buf ?c))"
      using True Cons.prems(8) by (simp add: fits_def)
    have f2: "pending (view ?w) = puback pid @ concat (map puback pids') @ rest" using Cons.prems(9) pids(1) by simp
    obtain m' c' w' where 1: "MQTTPublish (FreeRTOS_port k (tk_socket t) call) ?c (mm_topic msg) ?m ?w = Some (SUCCESS, m', c', w')"
      "same_session ?c c'" "next_packetid c' = next_id (next_packetid ?c)"
      "view w' = (view ?w)\<lparr>pending := concat (map puback pids') @ rest,
        sent := sent (view ?w) @ publish_packet (next_id (next_packetid ?c)) (mm_topic msg) (queued_payload msg)\<rparr>"
      using prompt_link.MQTTPublish_link [OF link Cons.prems(4) ok(1) _ _ _ ok(2,3) f1 f2 Cons.prems(5,6)] by auto
    let ?t = "t\<lparr>tk_client := c', tk_world := w'\<rparr>"
    have turn: "publish_turn k call stack (Some msg) reconnect t = Some (True, reconnect, ?t)"
      using 1(1) by (simp add: publish_turn_def return_codes)
    have "prompt_socket k (tk_socket ?t) view" "isconnected (tk_client ?t)" "4 \<le> length (readbuf (tk_client ?t))"
      "length (readbuf (tk_client ?t)) < 4294967296" "length (buf (tk_client ?t)) = n"
      "pending (view (tk_world ?t)) = concat (map puback pids') @ rest" "\<forall>msg \<in> set q. queue_message_ok msg"
      using 1 Cons.prems by (simp_all add: same_session_def)
    from Cons.IH [OF this(1) Cons.prems(2,3) this(2,3,4,7,5,6) pids(2)] turn True 1(3,4) show ?thesis by auto
  next
    case False
    then have "int (length (buf ?c)) < publish_size (mm_topic msg) (queued_payload msg)" using Cons.prems(8) by (simp add: fits_def)
    from prompt_link.MQTTPublish_too_long [OF link Cons.prems(4) ok(1) _ ok(3) this, of ?w] obtain m' c' w' where
      "MQTTPublish (FreeRTOS_port k (tk_socket t) call) ?c (mm_topic msg) ?m ?w = Some (FAILURE, m', c', w')" "\<not> isconnected c'"
      "view w' = view ?w" by auto
    with False Cons.prems(3,9,10) show ?thesis
      by (simp add: publish_turn_def return_codes close_socket_def FreeRTOS_disconnect_def)
  qed
qed

text \<open>C15: Over a socket that works, the task publishes the queued messages in order: each packet carries its topic and payload, quality
  of service 1 and the next packet identifier, and the task goes on when the broker acknowledges it. The first message whose packet is
  larger than the send buffer ends this: it is lost, the session and the socket are closed, and the rest stays in the queue.\<close>

theorem mqtt_task_publishes:
  assumes "prompt_socket k (tk_socket t) view"
    and "\<forall>h t m w. view (call h t m w) = (view w)\<lparr>calls := calls (view w) @ [(h, t, m)]\<rparr>"
    and "\<forall>s w. view (lwip_close k s w) = view w"
    and "isconnected (tk_client t)" "4 \<le> length (readbuf (tk_client t))" "length (readbuf (tk_client t)) < 4294967296"
    and "\<forall>msg \<in> set q. queue_message_ok msg" "length (buf (tk_client t)) = n"
    and "pending (view (tk_world t)) = concat (map puback pids) @ rest" "length pids = length (takeWhile (fits n) q)"
  shows "\<exists>t'. publish_loop k call stack q reconnect t =
      Some (takeWhile (fits n) q = q, reconnect, tl (dropWhile (fits n) q), t') \<and>
    (isconnected (tk_client t') \<longleftrightarrow> takeWhile (fits n) q = q) \<and>
    view (tk_world t') = (view (tk_world t))\<lparr>pending := rest,
      sent := sent (view (tk_world t)) @ queue_packets (next_packetid (tk_client t)) (takeWhile (fits n) q)\<rparr>"
  using publish_loop_link [of k t view call q n] assms by blast

section \<open>From the serial port to the broker\<close>

lemma reading_message_ok: "queue_message_ok (reading_message E p data)"
  by (auto simp: queue_message_ok_def reading_message_def mqtt_message_def MQTT_MAX_TOPIC_LENGTH_def MQTT_MAX_PAYLOAD_LENGTH_def
      split: prod.split)

text \<open>C1: The fields of a line that arrives at a serial port reach the broker: with an empty queue and messages that fit the send buffer, the
  bytes sent after the turn of the sensor and the loop of the MQTT task are exactly the packets of the fields of the line, in
  the order of the settings.\<close>

theorem readings_reach_broker:
  assumes "serial_inv u" "\<not> timeout_detected u" "received_chars u = 0" "rb_contents (uart_buffer u) = []"
    and line: "line \<noteq> []" "\<forall>c \<in> set line. \<not> is_line_end c \<and> c \<noteq> 0" "is_line_end e"
    and room: "length line + 2 \<le> rb_capacity (uart_buffer u)" "length line + 2 \<le> SERIAL_BUFFERS_SIZE"
    and settings: "\<forall>p \<in> set (ss_publish_settings st). active (length line) p \<longrightarrow> terminated p \<and> at_once p"
    and queue: "queues_ok s" "mqttQueue s = Some []" "length (filter (active (length line)) (ss_publish_settings st)) \<le> MQTT_QUEUE_LENGTH"
    and link: "prompt_socket k (tk_socket t) view" "\<forall>h t m w. view (call h t m w) = (view w)\<lparr>calls := calls (view w) @ [(h, t, m)]\<rparr>"
      "\<forall>s w. view (lwip_close k s w) = view w"
    and client: "isconnected (tk_client t)" "4 \<le> length (readbuf (tk_client t))" "length (readbuf (tk_client t)) < 4294967296"
    and fits: "\<forall>p \<in> set (ss_publish_settings st). fits (length (buf (tk_client t))) (reading_message E p (field_of p line))"
    and acks: "pending (view (tk_world t)) = concat (map puback pids) @ rest"
      "length pids = length (filter (active (length line)) (ss_publish_settings st))"
  shows "\<exists>u1 u2 s' q t'. feed_chars u (line @ [e]) = Some u1 \<and> line_turn E num st [] u1 s = Some (Inr (u2, s')) \<and>
    mqttQueue s' = Some q \<and> publish_loop k call stack q False t = Some (True, False, [], t') \<and>
    sent (view (tk_world t')) = sent (view (tk_world t)) @ queue_packets (next_packetid (tk_client t))
      (map (\<lambda>p. reading_message E p (field_of p line)) (filter (active (length line)) (ss_publish_settings st))) \<and>
    pending (view (tk_world t')) = rest"
proof -
  let ?n = "length (buf (tk_client t))"
  let ?q = "map (\<lambda>p. reading_message E p (field_of p line)) (filter (active (length line)) (ss_publish_settings st))"
  obtain u1 u2 js where 1: "feed_chars u (line @ [e]) = Some u1" "line_turn E num st [] u1 s = Some (Inr (u2, offered ?q js s))"
    using line_turn_line [OF assms(1-11)] by blast
  have q: "mqttQueue (offered ?q js s) = Some ?q" using queue(2,3) by (simp add: offered_def)
  have all: "takeWhile (fits ?n) ?q = ?q" unfolding takeWhile_eq_all_conv using fits by auto
  have none: "dropWhile (fits ?n) ?q = []" unfolding dropWhile_eq_Nil_conv using fits by auto
  have ok: "\<forall>msg \<in> set ?q. queue_message_ok msg" by (auto simp: reading_message_ok)
  have len: "length pids = length (takeWhile (fits ?n) ?q)" unfolding all using acks(2) by simp
  obtain t' where "publish_loop k call stack ?q False t = Some (True, False, [], t')"
    "view (tk_world t') = (view (tk_world t))\<lparr>pending := rest,
      sent := sent (view (tk_world t)) @ queue_packets (next_packetid (tk_client t)) ?q\<rparr>"
    using publish_loop_link [OF link(1) link(2) [rule_format] link(3) [rule_format] client ok refl acks(1) len,
      of stack False] unfolding all none list.sel simp_thms by blast
  with 1 q show ?thesis by (intro exI conjI) (assumption | simp)+
qed

section \<open>An example\<close>

definition example_task :: "bytes \<Rightarrow> (unit, nat, nat link) mqtt_task" where
  "example_task acks = \<lparr>tk_client = demo_client, tk_socket = 3, tk_dns = \<lparr>server = 0, dnsFound = False\<rparr>, tk_status = True,
     tk_world = \<lparr>pending = acks, sent = [], calls = []\<rparr>\<rparr>"

definition example_stack :: MQTTMessage where
  "example_stack = \<lparr>m_qos = 0, m_retained = 0, m_dup = 0, m_id = 0, m_payload = [], m_payloadlen = 0\<rparr>"

lemma example_task_ok: "prompt_socket stutter_net (tk_socket (example_task acks)) (\<lambda>w. w)"
  "\<forall>h t m w. log_call h t m w = w\<lparr>calls := calls w @ [(h, t, m)]\<rparr>" "\<forall>s w. lwip_close stutter_net s w = w"
  "isconnected (tk_client (example_task acks))" "4 \<le> length (readbuf (tk_client (example_task acks)))"
  "length (readbuf (tk_client (example_task acks))) < 4294967296"
  "length (buf (tk_client (example_task acks))) = 40" "pending (tk_world (example_task acks)) = acks"
  by (simp_all add: example_task_def stutter_prompt log_call_def demo_client_def) (simp add: stutter_net_def)

lemma publish_size_eq: "publish_size topic payload = MQTTPacket_len (int (length topic) + 2 + 2 + int (length payload))"
proof -
  have wf: "str_wf (c_topic topic)" by (simp add: str_wf_def c_topic_def)
  show ?thesis by (simp add: publish_size_def MQTTSerialize_publishLength_def MQTTstrlen_bytes [OF wf]) (simp add: str_bytes_def c_topic_def add_ac)
qed

definition example_message :: "nat \<Rightarrow> MqttPublishMessage" where
  "example_message n = mqtt_message [49] (replicate n 65) n"

lemma example_message_fits: "fits 40 (example_message 2)" "\<not> fits 40 (example_message 60)" "queue_message_ok (example_message n)"
  "queued_payload (example_message 2) = [65, 65]" "mm_topic (example_message n) = [49]"
proof -
  have p: "queued_payload (example_message n) = replicate (min n 255) 65" for n
    by (simp add: queued_payload_def example_message_def mqtt_message_def c_string_def MQTT_MAX_PAYLOAD_LENGTH_def takeWhile_replicate take_replicate)
  show t: "mm_topic (example_message n) = [49]" for n by (simp add: example_message_def mqtt_message_def MQTT_MAX_TOPIC_LENGTH_def)
  show "fits 40 (example_message 2)" "\<not> fits 40 (example_message 60)" "queued_payload (example_message 2) = [65, 65]"
    by (simp_all add: fits_def publish_size_eq t p MQTTPacket_len_def numeral_2_eq_2)
  show "queue_message_ok (example_message n)"
    by (simp add: queue_message_ok_def example_message_def mqtt_message_def MQTT_MAX_TOPIC_LENGTH_def MQTT_MAX_PAYLOAD_LENGTH_def)
qed

lemma example_packet: "publish_packet 2 [49] [a, b] = [0x32, 7, 0, 1, 49, 0, 2, a, b]"
proof -
  have wf: "str_wf (c_topic [49])" by (simp add: str_wf_def c_topic_def)
  have "MQTTSerialize_publishLength 1 (c_topic [49]) 2 = 7"
    by (simp add: MQTTSerialize_publishLength_def MQTTstrlen_bytes [OF wf]) (simp add: str_bytes_def c_topic_def)
  then show ?thesis by (simp add: publish_packet_def publish_enc_def encode_digits_small str_enc_def str_bytes_def c_topic_def int_bytes_def
      header_byte_def msg_types signed_divide_int_def signed_modulo_int_def)
qed

theorem mqtt_task_publishes_witness:
  "\<exists>t. publish_loop stutter_net log_call example_stack [example_message 2, example_message 60, example_message 2] False
      (example_task [0x40, 2, 0, 2]) = Some (False, False, [example_message 2], t) \<and>
    sent (tk_world t) = [0x32, 7, 0, 1, 49, 0, 2, 65, 65] \<and> \<not> isconnected (tk_client t)"
proof -
  let ?q = "[example_message 2, example_message 60, example_message 2]" and ?t = "example_task [0x40, 2, 0, 2]"
  have q: "takeWhile (fits 40) ?q = [example_message 2]" "dropWhile (fits 40) ?q = [example_message 60, example_message 2]"
    by (simp_all add: example_message_fits)
  have ok: "\<forall>msg \<in> set ?q. queue_message_ok msg" by (simp add: example_message_fits)
  have a: "pending (tk_world ?t) = concat (map puback [2]) @ []"
    by (simp add: example_task_ok puback_def int_bytes_def signed_divide_int_def signed_modulo_int_def)
  have l: "length [2 :: u16] = length (takeWhile (fits 40) ?q)" by (simp add: example_message_fits)
  have n: "next_id (next_packetid (tk_client ?t)) = 2" by (simp add: example_task_def demo_client_def next_id_def MAX_PACKET_ID_def)
  have ne: "[example_message 2] \<noteq> ?q" by simp
  from mqtt_task_publishes [OF example_task_ok(1-6) ok example_task_ok(7) a l, of example_stack False]
  obtain t where "publish_loop stutter_net log_call example_stack ?q False ?t = Some (False, False, [example_message 2], t)"
    "\<not> isconnected (tk_client t)" "tk_world t = (tk_world ?t)\<lparr>pending := [], sent := sent (tk_world ?t) @
      queue_packets (next_packetid (tk_client ?t)) [example_message 2]\<rparr>"
    unfolding q using ne by auto
  moreover have "sent (tk_world ?t) = []" by (simp add: example_task_def)
  ultimately show ?thesis by (intro exI conjI) (assumption, simp_all add: n example_message_fits example_packet)
qed

theorem readings_reach_broker_witness:
  "\<exists>u1 u2 s q t. feed_chars (serial_new (replicate 8 0)) ([65, 66, 67] @ [13]) = Some u1 \<and>
    line_turn example_floats 0 (example_sensor True) [] u1 example_sensor_state = Some (Inr (u2, s)) \<and>
    mqttQueue s = Some q \<and> publish_loop stutter_net log_call example_stack q False (example_task [0x40, 2, 0, 2]) = Some (True, False, [], t) \<and>
    sent (tk_world t) = [0x32, 7, 0, 1, 49, 0, 2, 66, 67]"
proof -
  define l :: bytes where "l = [65, 66, 67]"
  let ?u = "serial_new (replicate 8 0)" and ?ps = "ss_publish_settings (example_sensor True)" and ?t = "example_task [0x40, 2, 0, 2]"
  have 1: "l \<noteq> []" "\<forall>c \<in> set l. \<not> is_line_end c \<and> c \<noteq> 0" "is_line_end 13" "length l + 2 \<le> rb_capacity (uart_buffer ?u)"
      "length l + 2 \<le> SERIAL_BUFFERS_SIZE" "serial_inv ?u" "\<not> timeout_detected ?u" "received_chars ?u = 0" "rb_contents (uart_buffer ?u) = []"
    using serial_new_idle [of "replicate 8 0"] by (simp_all add: l_def is_line_end_def SERIAL_BUFFERS_SIZE_def)
  have act: "active (length l) (example_entry False)" by (simp add: active_def example_entry_def l_def)
  have ps: "?ps = [example_entry False]" by (simp add: example_sensor_def)
  have m: "reading_message example_floats (example_entry False) (field_of (example_entry False) l) = mqtt_message [49] [66, 67] 2"
    by (simp add: sensor_example_simps field_of_def l_def)
  have mm: "mm_topic (mqtt_message [49] [66, 67] 2) = [49]" "queued_payload (mqtt_message [49] [66, 67] 2) = [66, 67]"
    by (simp_all add: mqtt_message_def MQTT_MAX_TOPIC_LENGTH_def MQTT_MAX_PAYLOAD_LENGTH_def queued_payload_def c_string_def)
  have 2: "\<forall>p \<in> set ?ps. active (length l) p \<longrightarrow> terminated p \<and> at_once p"
    by (simp add: ps example_entry_ok at_once_def) (simp add: example_entry_def)
  have 3: "mqttQueue example_sensor_state = Some []" "length (filter (active (length l)) ?ps) \<le> MQTT_QUEUE_LENGTH"
    by (simp_all add: example_sensor_state_def ps act MQTT_QUEUE_LENGTH_def)
  have 4: "\<forall>p \<in> set ?ps. fits (length (buf (tk_client ?t))) (reading_message example_floats p (field_of p l))"
    by (simp add: ps m fits_def mm publish_size_eq example_task_ok MQTTPacket_len_def)
  have 5: "pending (tk_world ?t) = concat (map puback [2]) @ []" "length [2 :: u16] = length (filter (active (length l)) ?ps)"
    by (simp_all add: example_task_ok puback_def int_bytes_def signed_divide_int_def signed_modulo_int_def ps act)
  have n: "next_id (next_packetid (tk_client ?t)) = 2" "sent (tk_world ?t) = []"
    by (simp_all add: example_task_def demo_client_def next_id_def MAX_PACKET_ID_def)
  from readings_reach_broker [OF 1(6-9,1-5) 2 example_entry_ok(2) 3 example_task_ok(1-6) 4 5, of 0 example_stack]
  show ?thesis unfolding l_def [symmetric] by (simp add: ps act m mm n example_packet) blast
qed

end
